(* ===== verification/Prelude.thy ===== *)
theory Prelude
  imports Main "HOL-Library.AList" "HOL-Library.Char_ord" "HOL-Library.List_Lexorder"
begin

text \<open>
  The vocabulary shared by every component theory: Python exceptions as values, operations
  that thread a state and may raise, dictionaries as association lists in insertion order,
  and tables of rows for the SQL statements of the stores.  The generic lemmas about them are
  declared into the simpset or into one of the collections below, and the component proofs
  name the collection instead of the lemmas.
\<close>

named_theorems table_simps \<open>rewriting of table updates, deletions and row lookups\<close>
named_theorems dict_simps \<open>rewriting of dictionary updates and lookups\<close>
named_theorems op_simps \<open>rewriting of raising operations\<close>

section \<open>Exceptions and raising operations\<close>

text \<open>
  \<open>RunnerError\<close> and its subclasses carry a code, a message and a retryable flag
  (\<^verbatim>\<open>runner_engine/errors.py\<close>).  Every other Python exception is its class name and its text.
\<close>

datatype error_class = RunnerError | CatalogError | LeaseError | QuotaError | SandboxError

datatype exn =
    RunnerExn (exn_class: error_class) (exn_code: string) (exn_message: string) (exn_retryable: bool)
  | PyExn (exn_type: string) (exn_text: string)

definition is_runner_error :: "exn \<Rightarrow> bool" where
  "is_runner_error e = (case e of RunnerExn _ _ _ _ \<Rightarrow> True | PyExn _ _ \<Rightarrow> False)"

definition exn_str :: "exn \<Rightarrow> string" where
  "exn_str e = (case e of RunnerExn _ _ m _ \<Rightarrow> m | PyExn _ m \<Rightarrow> m)"

type_synonym 'a result = "exn + 'a"

lemma is_runner_error_simps [simp]:
  "is_runner_error (RunnerExn k c m r)" "\<not> is_runner_error (PyExn t m)"
  by (simp_all add: is_runner_error_def)

lemma exn_str_simps [simp]:
  "exn_str (RunnerExn k c m r) = m" "exn_str (PyExn t m) = m"
  by (simp_all add: exn_str_def)

definition is_ok :: "'a result \<Rightarrow> bool" where
  "is_ok r = (case r of Inl _ \<Rightarrow> False | Inr _ \<Rightarrow> True)"

lemma is_ok_simps [simp]: "is_ok (Inr x)" "\<not> is_ok (Inl e)"
  by (simp_all add: is_ok_def)

lemma is_ok_iff: "is_ok r \<longleftrightarrow> (\<exists>x. r = Inr x)"
  by (cases r) simp_all

definition result_bind :: "'a result \<Rightarrow> ('a \<Rightarrow> 'b result) \<Rightarrow> 'b result" where
  "result_bind r f = (case r of Inl e \<Rightarrow> Inl e | Inr x \<Rightarrow> f x)"

lemma result_bind_simps [op_simps, simp]:
  "result_bind (Inl e) f = Inl e" "result_bind (Inr x) f = f x"
  by (simp_all add: result_bind_def)

lemma map_sum_Inr: "map_sum id f x = Inr y \<longleftrightarrow> (\<exists>z. x = Inr z \<and> y = f z)"
  by (cases x) auto

lemma result_bind_ok: "result_bind r f = Inr y \<longleftrightarrow> (\<exists>x. r = Inr x \<and> f x = Inr y)"
  by (cases r) simp_all

section \<open>Dictionaries\<close>

text \<open>
  A Python dictionary keeps insertion order: assigning to a present key keeps its place,
  assigning to a new key appends.  \<^const>\<open>AList.update\<close>, \<^const>\<open>AList.delete\<close>
  and \<^const>\<open>map_of\<close> are these operations on association lists.
\<close>

type_synonym ('k, 'v) dict = "('k \<times> 'v) list"

lemma map_of_update [dict_simps, simp]:
  "map_of (AList.update k v d) k' = (if k' = k then Some v else map_of d k')"
  by (simp add: update_conv')

lemma map_of_delete [dict_simps, simp]:
  "map_of (AList.delete k d) k' = (if k' = k then None else map_of d k')"
  by (simp add: delete_conv')

lemma distinct_keys_update [intro]:
  "distinct (map fst d) \<Longrightarrow> distinct (map fst (AList.update k v d))"
  by (rule distinct_update)

lemma distinct_keys_delete [intro]:
  "distinct (map fst d) \<Longrightarrow> distinct (map fst (AList.delete k d))"
  by (rule distinct_delete)

lemma map_of_filter_fst:
  "map_of (filter (\<lambda>kv. P (fst kv)) d) k = (if P k then map_of d k else None)"
  by (induction d) auto

lemma distinct_map_filter_fst:
  "distinct (map fst d) \<Longrightarrow> distinct (map fst (filter P d))"
  by (induction d) auto

section \<open>Tables\<close>

text \<open>
  A table is its list of rows.  The SQL statements of the stores are these four operations:
  \<open>SELECT .. WHERE\<close> with \<open>fetchone\<close>, \<open>UPDATE .. WHERE\<close>, \<open>DELETE .. WHERE\<close> and the row
  count that a cursor reports for the last two.
\<close>

definition fetchone :: "('r \<Rightarrow> bool) \<Rightarrow> 'r list \<Rightarrow> 'r option" where
  "fetchone p t = List.find p t"

definition update_where :: "('r \<Rightarrow> bool) \<Rightarrow> ('r \<Rightarrow> 'r) \<Rightarrow> 'r list \<Rightarrow> 'r list" where
  "update_where p f t = map (\<lambda>r. if p r then f r else r) t"

definition delete_where :: "('r \<Rightarrow> bool) \<Rightarrow> 'r list \<Rightarrow> 'r list" where
  "delete_where p t = filter (\<lambda>r. \<not> p r) t"

definition rowcount :: "('r \<Rightarrow> bool) \<Rightarrow> 'r list \<Rightarrow> nat" where
  "rowcount p t = length (filter p t)"

text \<open>Inserting or updating against a unique constraint.\<close>

definition unique_violation :: exn where
  "unique_violation = PyExn ''UniqueViolation'' ''duplicate key value violates unique constraint''"

lemma fetchone_None [table_simps]: "fetchone p t = None \<longleftrightarrow> (\<forall>r\<in>set t. \<not> p r)"
  by (auto simp: fetchone_def find_None_iff)

lemma fetchone_SomeD: "fetchone p t = Some r \<Longrightarrow> r \<in> set t \<and> p r"
  by (auto simp: fetchone_def find_Some_iff)

lemma fetchone_unique:
  assumes "r \<in> set t" "p r" "\<And>r'. r' \<in> set t \<Longrightarrow> p r' \<Longrightarrow> r' = r"
  shows "fetchone p t = Some r"
proof (cases "fetchone p t")
  case None
  with assms(1,2) show ?thesis by (simp add: fetchone_None)
next
  case (Some r')
  with assms(3) fetchone_SomeD [OF Some] show ?thesis by simp
qed

lemma set_update_where [table_simps]:
  "set (update_where p f t) = f ` {r \<in> set t. p r} \<union> {r \<in> set t. \<not> p r}"
  by (auto simp: update_where_def)

lemma set_delete_where [table_simps]: "set (delete_where p t) = {r \<in> set t. \<not> p r}"
  by (auto simp: delete_where_def)

lemma map_update_where_key [table_simps]:
  "(\<And>r. k (f r) = k r) \<Longrightarrow> map k (update_where p f t) = map k t"
  by (induction t) (auto simp: update_where_def)

lemma distinct_map_delete_where [table_simps]:
  "distinct (map k t) \<Longrightarrow> distinct (map k (delete_where p t))"
  by (induction t) (auto simp: delete_where_def)

lemma rowcount_0_iff [table_simps]: "rowcount p t = 0 \<longleftrightarrow> (\<forall>r\<in>set t. \<not> p r)"
  by (simp add: rowcount_def filter_empty_conv)

lemma rowcount_1D: "rowcount p t = 1 \<Longrightarrow> \<exists>r\<in>set t. p r"
  using rowcount_0_iff [of p t] by force

lemma update_where_none [table_simps]: "\<forall>r\<in>set t. \<not> p r \<Longrightarrow> update_where p f t = t"
  by (induction t) (auto simp: update_where_def)

lemma delete_where_none [table_simps]: "\<forall>r\<in>set t. \<not> p r \<Longrightarrow> delete_where p t = t"
  by (induction t) (auto simp: delete_where_def)

lemma distinct_key_eq:
  "distinct (map k t) \<Longrightarrow> r \<in> set t \<Longrightarrow> r' \<in> set t \<Longrightarrow> k r = k r' \<Longrightarrow> r = r'"
  by (metis distinct_map inj_onD)

lemma rowcount_key_1:
  assumes "distinct (map k t)" "r \<in> set t" "p r" "\<And>r'. p r' \<Longrightarrow> k r' = k r"
  shows "rowcount p t = 1"
  using assms
proof (induction t)
  case Nil
  then show ?case by simp
next
  case (Cons x t)
  show ?case
  proof (cases "x = r")
    case True
    then have "k r \<notin> k ` set t" using Cons.prems(1) by auto
    then have "\<forall>y\<in>set t. \<not> p y" using Cons.prems(4) by (metis image_eqI)
    then have "filter p t = []" by (simp add: filter_empty_conv)
    moreover have "p x" using True Cons.prems(3) by blast
    ultimately show ?thesis by (simp add: rowcount_def)
  next
    case False
    then have r: "r \<in> set t" using Cons.prems(2) by simp
    then have "k x \<noteq> k r" using Cons.prems(1) by (metis distinct.simps(2) image_eqI list.set_map list.simps(9))
    then have "\<not> p x" using Cons.prems(4) by blast
    moreover have "rowcount p t = 1" using Cons.IH r Cons.prems(1,3,4) by (metis distinct.simps(2) list.simps(9))
    ultimately show ?thesis by (simp add: rowcount_def)
  qed
qed

lemma fetchone_key_iff:
  "distinct (map k t) \<Longrightarrow> fetchone (\<lambda>r. k r = x) t = Some r \<longleftrightarrow> r \<in> set t \<and> k r = x"
  using fetchone_SomeD [of "\<lambda>r. k r = x" t r] fetchone_unique [of r t "\<lambda>r. k r = x"] distinct_key_eq [of k t _ r]
  by blast

lemma fetchone_append [table_simps]:
  "fetchone p (t @ u) = (case fetchone p t of None \<Rightarrow> fetchone p u | Some r \<Rightarrow> Some r)"
  by (induction t) (auto simp: fetchone_def)

lemma fetchone_Nil_Cons [table_simps]:
  "fetchone p [] = None" "fetchone p (r # t) = (if p r then Some r else fetchone p t)"
  by (auto simp: fetchone_def)

lemma fetchone_update_where:
  "(\<And>r. k (f r) = k r) \<Longrightarrow>
   fetchone (\<lambda>r. k r = x) (update_where p f t) = map_option (\<lambda>r. if p r then f r else r) (fetchone (\<lambda>r. k r = x) t)"
  by (induction t) (auto simp: fetchone_def update_where_def)

lemma fetchone_delete_where:
  assumes "distinct (map k t)"
  shows "fetchone (\<lambda>r. k r = x) (delete_where p t) =
    (case fetchone (\<lambda>r. k r = x) t of None \<Rightarrow> None | Some r \<Rightarrow> if p r then None else Some r)"
proof -
  have d: "distinct (map k (delete_where p t))" using assms by (rule distinct_map_delete_where)
  show ?thesis
  proof (cases "fetchone (\<lambda>r. k r = x) t")
    case None
    then have "fetchone (\<lambda>r. k r = x) (delete_where p t) = None" by (auto simp: fetchone_None set_delete_where)
    with None show ?thesis by simp
  next
    case (Some r)
    then have r: "r \<in> set t" "k r = x" using fetchone_SomeD by fastforce+
    show ?thesis
    proof (cases "p r")
      case True
      then have "fetchone (\<lambda>r. k r = x) (delete_where p t) = None"
        using r distinct_key_eq [OF assms] by (auto simp: fetchone_None set_delete_where)
      with Some True show ?thesis by simp
    next
      case False
      then show ?thesis using r Some fetchone_key_iff [OF d] by (simp add: set_delete_where)
    qed
  qed
qed

section \<open>Reachability\<close>

text \<open>The states a labelled step relation reaches; the invariant rule used by every machine.\<close>

inductive reach :: "('s \<Rightarrow> bool) \<Rightarrow> ('s \<Rightarrow> 's \<Rightarrow> bool) \<Rightarrow> 's \<Rightarrow> bool"
  for init :: "'s \<Rightarrow> bool" and step :: "'s \<Rightarrow> 's \<Rightarrow> bool" where
  reach_init: "init s \<Longrightarrow> reach init step s"
| reach_step: "reach init step s \<Longrightarrow> step s t \<Longrightarrow> reach init step t"

locale invariant_machine =
  fixes init :: "'s \<Rightarrow> bool" and step :: "'s \<Rightarrow> 's \<Rightarrow> bool" and inv :: "'s \<Rightarrow> bool"
  assumes inv_init: "init s \<Longrightarrow> inv s"
    and inv_step: "inv s \<Longrightarrow> step s t \<Longrightarrow> inv t"
begin

lemma inv_reach: "reach init step s \<Longrightarrow> inv s"
  by (induction rule: reach.induct) (auto intro: inv_init inv_step)

lemma inv_steps: "inv s \<Longrightarrow> step\<^sup>*\<^sup>* s t \<Longrightarrow> inv t"
  by (rotate_tac 1, induction rule: rtranclp_induct) (auto intro: inv_step)

end

end
