(* ===== verification/Base64.thy ===== *)
theory Base64
  imports Prelude
begin

text \<open>
  The standard library's \<open>base64.b64encode\<close> and \<open>base64.b64decode\<close>, which carry operator
  content through JSON: in the replay cache (\<^verbatim>\<open>runner_engine/state.py\<close>), between the runner and
  the worker agent (\<^verbatim>\<open>runner_engine/sandbox\<close>, \<^verbatim>\<open>runner_engine/worker\<close>).  Bytes are the
  256 values of \<^typ>\<open>char\<close>.  The decoder is the scanning machine of \<open>binascii.a2b_base64\<close>:
  a position in the current group of four, the bits left over from the previous character, the
  number of padding characters seen, and the \<open>strict\<close> flag that \<open>validate=True\<close> sets.
\<close>

type_synonym bytes = string

definition b64_alphabet :: string where
  "b64_alphabet = ''ABCDEFGHIJKLMNOPQRSTUVWXYZabcdefghijklmnopqrstuvwxyz0123456789+/''"

definition b64_char :: "nat \<Rightarrow> char" where
  "b64_char n = b64_alphabet ! n"

fun index_of :: "'a list \<Rightarrow> 'a \<Rightarrow> nat option" where
  "index_of [] y = None"
| "index_of (x # xs) y = (if x = y then Some 0 else map_option Suc (index_of xs y))"

definition b64_value :: "char \<Rightarrow> nat option" where
  "b64_value c = index_of b64_alphabet c"

abbreviation byte_val :: "char \<Rightarrow> nat" where
  "byte_val c \<equiv> of_char c"

definition group_chars :: "nat \<Rightarrow> nat \<Rightarrow> nat \<Rightarrow> string" where
  "group_chars a b c =
     [b64_char (a div 4), b64_char ((a mod 4) * 16 + b div 16),
      b64_char ((b mod 16) * 4 + c div 64), b64_char (c mod 64)]"

fun b64encode :: "bytes \<Rightarrow> string" where
  "b64encode [] = []"
| "b64encode [a] = take 2 (group_chars (byte_val a) 0 0) @ ''==''"
| "b64encode [a, b] = take 3 (group_chars (byte_val a) (byte_val b) 0) @ ''=''"
| "b64encode (a # b # c # rest) =
     group_chars (byte_val a) (byte_val b) (byte_val c) @ b64encode rest"

definition binascii_error :: "string \<Rightarrow> exn" where
  "binascii_error m = PyExn ''Error'' m"

fun a2b_base64 :: "bool \<Rightarrow> nat \<Rightarrow> nat \<Rightarrow> nat \<Rightarrow> bool \<Rightarrow> string \<Rightarrow> bytes result" where
  "a2b_base64 strict quad left pads padding [] =
     (if quad = 0 then Inr []
      else if quad = 1 then Inl (binascii_error ''Invalid base64-encoded string'')
      else Inl (binascii_error ''Incorrect padding''))"
| "a2b_base64 strict quad left pads padding (c # cs) =
     (if c = CHR ''='' then
        (if strict \<and> quad = 0 then Inl (binascii_error ''Excess padding not allowed'')
         else if 2 \<le> quad \<and> 4 \<le> quad + Suc pads then
           (if strict \<and> cs \<noteq> [] then Inl (binascii_error ''Excess data after padding'')
            else Inr [])
         else a2b_base64 strict quad left (if 2 \<le> quad then Suc pads else pads) True cs)
      else case b64_value c of
        None \<Rightarrow>
          (if strict then Inl (binascii_error ''Only base64 data is allowed'')
           else a2b_base64 strict quad left pads padding cs)
      | Some v \<Rightarrow>
          (if strict \<and> padding then Inl (binascii_error ''Discontinuous padding not allowed'')
           else if quad = 0 then a2b_base64 strict 1 v 0 padding cs
           else if quad = 1 then
             map_sum id (Cons (char_of (left * 4 + v div 16))) (a2b_base64 strict 2 (v mod 16) 0 padding cs)
           else if quad = 2 then
             map_sum id (Cons (char_of (left * 16 + v div 4))) (a2b_base64 strict 3 (v mod 4) 0 padding cs)
           else
             map_sum id (Cons (char_of (left * 64 + v))) (a2b_base64 strict 0 0 0 padding cs)))"

definition b64decode :: "bool \<Rightarrow> string \<Rightarrow> bytes result" where
  "b64decode strict s = a2b_base64 strict 0 0 0 False s"

section \<open>Decoding inverts encoding\<close>

lemma b64_alphabet_table:
  "list_all (\<lambda>n. b64_value (b64_char n) = Some n \<and> b64_char n \<noteq> CHR ''='') [0..<64]"
  by code_simp

lemma b64_value_char [simp]: "n < 64 \<Longrightarrow> b64_value (b64_char n) = Some n"
  using b64_alphabet_table by (simp add: list_all_iff)

lemma b64_char_not_pad [simp]: "n < 64 \<Longrightarrow> b64_char n \<noteq> CHR ''=''"
  using b64_alphabet_table by (simp add: list_all_iff)

lemma div_bounds:
  "(a::nat) < 256 \<Longrightarrow> a div 4 < 64" "(b::nat) < 256 \<Longrightarrow> b div 16 < 16" "(c::nat) < 256 \<Longrightarrow> c div 64 < 4"
  by (auto intro: less_mult_imp_div_less)

lemma sextet_bounds [simp]:
  assumes "(a::nat) < 256" "b < 256" "c < 256"
  shows "a div 4 < 64" "(a mod 4) * 16 + b div 16 < 64" "(b mod 16) * 4 + c div 64 < 64"
proof -
  show "a div 4 < 64" using assms by (simp add: div_bounds)
  have "a mod 4 < 4" by simp
  with div_bounds(2) [OF assms(2)] show "(a mod 4) * 16 + b div 16 < 64" by linarith
  have "b mod 16 < 16" by simp
  with div_bounds(3) [OF assms(3)] show "(b mod 16) * 4 + c div 64 < 64" by linarith
qed

lemma sextet_joins [simp]:
  assumes "(a::nat) < 256" "b < 256" "c < 256"
  shows "a div 4 * 4 + ((a mod 4) * 16 + b div 16) div 16 = a"
    and "((a mod 4) * 16 + b div 16) mod 16 * 16 + ((b mod 16) * 4 + c div 64) div 4 = b"
    and "((b mod 16) * 4 + c div 64) mod 4 * 64 + c mod 64 = c"
proof -
  show "a div 4 * 4 + ((a mod 4) * 16 + b div 16) div 16 = a"
    using div_bounds(2) [OF assms(2)] by simp
  show "((a mod 4) * 16 + b div 16) mod 16 * 16 + ((b mod 16) * 4 + c div 64) div 4 = b"
    using div_bounds(2) [OF assms(2)] div_bounds(3) [OF assms(3)] by simp
  show "((b mod 16) * 4 + c div 64) mod 4 * 64 + c mod 64 = c"
    using div_bounds(3) [OF assms(3)] by simp
qed

text \<open>One equation per position of the scanner, for characters of the alphabet and for padding.\<close>

lemma a2b_data:
  assumes "v < 64"
  shows "a2b_base64 strict 0 l p False (b64_char v # cs) = a2b_base64 strict 1 v 0 False cs"
    and "a2b_base64 strict (Suc 0) l p False (b64_char v # cs) =
      map_sum id (Cons (char_of (l * 4 + v div 16))) (a2b_base64 strict 2 (v mod 16) 0 False cs)"
    and "a2b_base64 strict 2 l p False (b64_char v # cs) =
      map_sum id (Cons (char_of (l * 16 + v div 4))) (a2b_base64 strict 3 (v mod 4) 0 False cs)"
    and "a2b_base64 strict 3 l p False (b64_char v # cs) =
      map_sum id (Cons (char_of (l * 64 + v))) (a2b_base64 strict 0 0 0 False cs)"
  using assms by simp_all

lemma a2b_padding:
  "a2b_base64 strict 2 l 0 False ''=='' = Inr []" "a2b_base64 strict 3 l 0 False ''='' = Inr []"
  by simp_all

lemma map_sum_id_compose: "map_sum id f (map_sum id g r) = map_sum id (\<lambda>x. f (g x)) r"
  by (cases r) simp_all

lemmas a2b_rules = a2b_data a2b_padding map_sum_id_compose group_chars_def

lemma a2b_group:
  assumes "a < 256" "b < 256" "c < 256"
  shows "a2b_base64 strict 0 l p False (group_chars a b c @ rest) =
    map_sum id (\<lambda>bs. char_of a # char_of b # char_of c # bs) (a2b_base64 strict 0 0 0 False rest)"
  using assms by (simp add: a2b_rules del: a2b_base64.simps)

lemma b64decode_encode: "a2b_base64 strict 0 l p False (b64encode bs) = Inr bs"
proof (induction bs arbitrary: l p rule: b64encode.induct)
  case 1
  then show ?case by simp
next
  case (2 a)
  have "byte_val a mod 4 * 16 < 64" using sextet_bounds(2) [of "byte_val a" 0 0] by simp
  then show ?case using sextet_joins(1) [of "byte_val a" 0 0]
    by (simp add: a2b_rules div_bounds del: a2b_base64.simps)
next
  case (3 a b)
  have "byte_val b mod 16 * 4 < 64" using sextet_bounds(3) [of 0 "byte_val b" 0] by simp
  moreover have "byte_val a mod 4 * 16 + byte_val b div 16 < 64"
    using sextet_bounds(2) [of "byte_val a" "byte_val b" 0] by simp
  ultimately show ?case
    using sextet_joins(1) [of "byte_val a" "byte_val b" 0] sextet_joins(2) [of "byte_val a" "byte_val b" 0]
    by (simp add: a2b_rules div_bounds del: a2b_base64.simps)
next
  case (4 a b c rest)
  then show ?case by (simp add: a2b_group del: a2b_base64.simps)
qed

lemma b64decode_b64encode [simp]: "b64decode strict (b64encode bs) = Inr bs"
  by (simp add: b64decode_def b64decode_encode)

end
