(* ===== verification/Json_Canonical.thy ===== *)
theory Json_Canonical
  imports Prelude
begin

text \<open>
  The canonical JSON text that every content key of the system is a digest of:
  \<^verbatim>\<open>json.dumps(value, sort_keys=True, separators=(",", ":"), ensure_ascii=False)\<close>,
  as written in \<^verbatim>\<open>runner_engine/publisher.py\<close> (\<open>_canonical\<close>),
  \<^verbatim>\<open>runner_engine/service.py\<close>, \<^verbatim>\<open>build_service/model.py\<close> and
  \<^verbatim>\<open>operator_authoring/compiler.py\<close> (\<open>canonical_json\<close>).  A Python string is the list of
  its UTF-8 bytes: with \<open>ensure_ascii=False\<close> every byte from \<open>0x20\<close> on is copied except the
  quote and the backslash, and the byte order of UTF-8 is the code point order that
  \<open>sort_keys\<close> sorts by.  The main result is that the text determines the value: two values with
  the same canonical text are equal up to the order of their keys.
\<close>

section \<open>Values and their text\<close>

datatype json =
    JNull
  | JBool bool
  | JInt int
  | JStr string
  | JArr "json list"
  | JObj "(string \<times> json) list"

definition digit_char :: "nat \<Rightarrow> char" where
  "digit_char n = (char_of (48 + n) :: char)"

fun nat_text :: "nat \<Rightarrow> string" where
  "nat_text n = (if n < 10 then [digit_char n] else nat_text (n div 10) @ [digit_char (n mod 10)])"

declare nat_text.simps [simp del]

definition int_text :: "int \<Rightarrow> string" where
  "int_text i = (if i < 0 then CHR ''-'' # nat_text (nat (- i)) else nat_text (nat i))"

definition hex_digits :: string where
  "hex_digits = ''0123456789abcdef''"

text \<open>The escapes of \<open>json.encoder.encode_basestring\<close>: short forms first, then \<open>\\u00xx\<close>.\<close>

definition escape_tail :: "char \<Rightarrow> string" where
  "escape_tail c =
     (if c = CHR 0x22 then [CHR 0x22]
      else if c = CHR 0x5C then [CHR 0x5C]
      else if c = CHR 0x08 then ''b''
      else if c = CHR 0x0C then ''f''
      else if c = CHR 0x0A then ''n''
      else if c = CHR 0x0D then ''r''
      else if c = CHR 0x09 then ''t''
      else ''u00'' @ [hex_digits ! (of_char c div 16), hex_digits ! (of_char c mod 16)])"

definition needs_escape :: "char \<Rightarrow> bool" where
  "needs_escape c = (c = CHR 0x22 \<or> c = CHR 0x5C \<or> (of_char c :: nat) < 32)"

definition escape_char :: "char \<Rightarrow> string" where
  "escape_char c = (if needs_escape c then CHR 0x5C # escape_tail c else [c])"

definition quote :: "string \<Rightarrow> string" where
  "quote s = CHR 0x22 # concat (map escape_char s) @ [CHR 0x22]"

fun comma_join :: "string list \<Rightarrow> string" where
  "comma_join [] = []"
| "comma_join [x] = x"
| "comma_join (x # y # zs) = x @ CHR '','' # comma_join (y # zs)"

fun print_json :: "json \<Rightarrow> string" where
  "print_json JNull = ''null''"
| "print_json (JBool b) = (if b then ''true'' else ''false'')"
| "print_json (JInt i) = int_text i"
| "print_json (JStr s) = quote s"
| "print_json (JArr xs) = CHR ''['' # comma_join (map print_json xs) @ '']''"
| "print_json (JObj kvs) =
     CHR ''{'' # comma_join (map (\<lambda>(k, v). quote k @ CHR '':'' # print_json v) kvs) @ ''}''"

fun sort_keys :: "json \<Rightarrow> json" where
  "sort_keys (JArr xs) = JArr (map sort_keys xs)"
| "sort_keys (JObj kvs) = JObj (sort_key fst (map (\<lambda>(k, v). (k, sort_keys v)) kvs))"
| "sort_keys j = j"

definition canonical_json :: "json \<Rightarrow> string" where
  "canonical_json j = print_json (sort_keys j)"

section \<open>Unique readability of the text\<close>

text \<open>A text that may follow a complete value: it does not continue a number.\<close>

definition ends_value :: "string \<Rightarrow> bool" where
  "ends_value r = (r = [] \<or> hd r \<in> {CHR '','', CHR '':'', CHR '']'', CHR ''}''})"

lemma ends_value_simps [simp]:
  "ends_value []" "ends_value (CHR '','' # r)" "ends_value (CHR '':'' # r)"
  "ends_value (CHR '']'' # r)" "ends_value (CHR ''}'' # r)"
  by (simp_all add: ends_value_def)

subsection \<open>Numbers\<close>

definition is_digit :: "char \<Rightarrow> bool" where
  "is_digit c = (c \<in> set ''0123456789'')"

lemma ends_value_digit: "ends_value (c # r) \<Longrightarrow> \<not> is_digit c"
  by (auto simp: ends_value_def is_digit_def)

lemma digit_char_is_digit: "n < 10 \<Longrightarrow> is_digit (digit_char n)"
proof -
  have "\<forall>n \<in> set [0..<10]. is_digit (digit_char n)"
    by (simp add: is_digit_def digit_char_def upt_rec numeral_eq_Suc del: upt_Suc) code_simp
  then show "n < 10 \<Longrightarrow> is_digit (digit_char n)" by simp
qed

lemma of_char_digit_char: "n < 10 \<Longrightarrow> of_char (digit_char n) = 48 + n"
  by (simp add: digit_char_def)

lemma digit_char_inj: "m < 10 \<Longrightarrow> n < 10 \<Longrightarrow> digit_char m = digit_char n \<longleftrightarrow> m = n"
  by (metis add_left_cancel of_char_digit_char)

lemma nat_text_digits: "c \<in> set (nat_text n) \<Longrightarrow> is_digit c"
proof (induction n rule: nat_text.induct)
  case (1 n)
  then show ?case
    by (cases "n < 10") (auto simp: nat_text.simps [of n] digit_char_is_digit)
qed

lemma nat_text_nonempty [simp]: "nat_text n \<noteq> []"
  by (subst nat_text.simps) simp

lemma nat_text_inj: "nat_text m = nat_text n \<Longrightarrow> m = n"
proof (induction m arbitrary: n rule: nat_text.induct)
  case (1 m)
  have unfold: "nat_text k = (if k < 10 then [] else nat_text (k div 10)) @ [digit_char (k mod 10)]" for k
    by (subst nat_text.simps) simp
  let ?pre = "\<lambda>k. if k < 10 then [] else nat_text (k div 10)"
  have "?pre m @ [digit_char (m mod 10)] = ?pre n @ [digit_char (n mod 10)]"
    using 1(2) unfold [of m] unfold [of n] by argo
  then have pre: "?pre m = ?pre n" and "digit_char (m mod 10) = digit_char (n mod 10)"
    by simp_all
  then have modeq: "m mod 10 = n mod 10" by (simp add: digit_char_inj)
  show ?case
  proof (cases "m < 10")
    case True
    with pre have "n < 10" by (metis nat_text_nonempty)
    with True modeq show ?thesis by simp
  next
    case False
    with pre have "\<not> n < 10" by (metis nat_text_nonempty)
    with pre False have "nat_text (m div 10) = nat_text (n div 10)" by simp
    with 1(1) False have "m div 10 = n div 10" by simp
    with modeq show ?thesis by (metis div_mult_mod_eq)
  qed
qed

lemma digits_split:
  assumes "xs @ r = ys @ s" "\<forall>c\<in>set xs. is_digit c" "\<forall>c\<in>set ys. is_digit c"
    "ends_value r" "ends_value s"
  shows "xs = ys \<and> r = s"
  using assms
proof (induction xs arbitrary: ys)
  case Nil
  then show ?case by (cases ys) (auto dest: ends_value_digit)
next
  case (Cons x xs)
  then show ?case by (cases ys) (auto dest: ends_value_digit)
qed

lemma int_text_inj:
  assumes "int_text i @ r = int_text j @ s" "ends_value r" "ends_value s"
  shows "i = j \<and> r = s"
proof -
  have minus: "\<not> is_digit CHR ''-''" by (simp add: is_digit_def)
  have hd_nat: "hd (nat_text n @ q) \<noteq> CHR ''-''" for n q
    using nat_text_digits minus by (metis hd_append2 hd_in_set nat_text_nonempty)
  have same: "nat_text m @ r = nat_text n @ s \<Longrightarrow> m = n \<and> r = s" for m n
    using digits_split [of "nat_text m" r "nat_text n" s] assms(2,3) nat_text_digits nat_text_inj
    by blast
  show ?thesis
  proof (cases "i < 0")
    case True
    then have "hd (int_text i @ r) = CHR ''-''" by (simp add: int_text_def)
    then have "hd (int_text j @ s) = CHR ''-''" using assms(1) by simp
    then have neg: "j < 0" using hd_nat [of "nat j" s] by (cases "j < 0") (simp_all add: int_text_def)
    with True assms(1) have "nat_text (nat (- i)) @ r = nat_text (nat (- j)) @ s"
      by (simp add: int_text_def)
    from same [OF this] have "nat (- i) = nat (- j)" "r = s" by blast+
    with True neg show ?thesis by arith
  next
    case False
    then have "hd (int_text i @ r) \<noteq> CHR ''-''" using hd_nat by (simp add: int_text_def)
    then have "hd (int_text j @ s) \<noteq> CHR ''-''" using assms(1) by simp
    then have pos: "\<not> j < 0" by (cases "j < 0") (simp_all add: int_text_def)
    with False assms(1) have "nat_text (nat i) @ r = nat_text (nat j) @ s"
      by (simp add: int_text_def)
    from same [OF this] have "nat i = nat j" "r = s" by blast+
    with False pos show ?thesis by arith
  qed
qed

lemma int_text_hd:
  obtains c cs where "int_text i = c # cs" "c = CHR ''-'' \<or> is_digit c"
proof (cases "i < 0")
  case True
  then show ?thesis using that by (simp add: int_text_def)
next
  case False
  obtain c cs where "nat_text (nat i) = c # cs"
    using nat_text_nonempty by (metis neq_Nil_conv)
  moreover from this have "is_digit c" by (metis list.set_intros(1) nat_text_digits)
  ultimately show ?thesis using False that by (simp add: int_text_def)
qed

subsection \<open>Strings\<close>

lemma escape_tail_u:
  assumes "c \<notin> {CHR 0x22, CHR 0x5C, CHR 0x08, CHR 0x0C, CHR 0x0A, CHR 0x0D, CHR 0x09}"
  shows "escape_tail c = CHR ''u'' # CHR ''0'' # CHR ''0'' #
    [hex_digits ! (of_char c div 16), hex_digits ! (of_char c mod 16)]"
  using assms by (simp add: escape_tail_def)

lemma hex_digit_inj: "i < 16 \<Longrightarrow> j < 16 \<Longrightarrow> hex_digits ! i = hex_digits ! j \<longleftrightarrow> i = j"
  by (rule nth_eq_iff_index_eq) (simp_all add: hex_digits_def)

lemma escape_tail_inj:
  assumes eq: "escape_tail c @ r = escape_tail d @ s" and small: "needs_escape c" "needs_escape d"
  shows "c = d \<and> r = s"
proof -
  let ?short = "{CHR 0x22, CHR 0x5C, CHR 0x08, CHR 0x0C, CHR 0x0A, CHR 0x0D, CHR 0x09}"
  have hd_short: "hd (escape_tail e @ q) \<noteq> CHR ''u''" if "e \<in> ?short" for e q
    using that by (auto simp: escape_tail_def)
  show ?thesis
  proof (cases "c \<in> ?short")
    case True
    then have "hd (escape_tail d @ s) \<noteq> CHR ''u''" using hd_short eq by metis
    then have "d \<in> ?short" using escape_tail_u [of d] by force
    with True eq show ?thesis by (auto simp: escape_tail_def)
  next
    case False
    then have "hd (escape_tail d @ s) = CHR ''u''" using eq escape_tail_u [of c] by (metis append_Cons list.sel(1))
    then have "d \<notin> ?short" using hd_short by metis
    with False eq have hex: "hex_digits ! (of_char c div 16) = hex_digits ! (of_char d div 16)"
        "hex_digits ! (of_char c mod 16) = hex_digits ! (of_char d mod 16)" and "r = s"
      by (simp_all add: escape_tail_u)
    have "(of_char e :: nat) div 16 < 16" for e :: char by (simp add: less_mult_imp_div_less)
    with hex have "(of_char c :: nat) div 16 = of_char d div 16" "(of_char c :: nat) mod 16 = of_char d mod 16"
      by (simp_all add: hex_digit_inj)
    then have "(of_char c :: nat) = of_char d" by (metis div_mult_mod_eq)
    with \<open>r = s\<close> show ?thesis by simp
  qed
qed

lemma escape_char_inj:
  assumes "escape_char c @ r = escape_char d @ s"
  shows "c = d \<and> r = s"
proof (cases "needs_escape c")
  case True
  with assms have d: "needs_escape d"
    by (auto simp: escape_char_def needs_escape_def split: if_splits)
  with True assms have "escape_tail c @ r = escape_tail d @ s" by (simp add: escape_char_def)
  then show ?thesis using True d by (rule escape_tail_inj)
next
  case False
  with assms show ?thesis
    by (auto simp: escape_char_def needs_escape_def split: if_splits)
qed

lemma escape_char_hd: "\<exists>x xs. escape_char c = x # xs \<and> x \<noteq> CHR 0x22"
  by (auto simp: escape_char_def needs_escape_def)

lemma escaped_inj:
  "concat (map escape_char xs) @ CHR 0x22 # r = concat (map escape_char ys) @ CHR 0x22 # s
   \<Longrightarrow> xs = ys \<and> r = s"
proof (induction xs arbitrary: ys)
  case Nil
  obtain x zs where "ys \<noteq> [] \<Longrightarrow> escape_char (hd ys) = x # zs \<and> x \<noteq> CHR 0x22"
    using escape_char_hd by metis
  with Nil show ?case by (cases ys) auto
next
  case (Cons x xs)
  obtain c cs where c: "escape_char x = c # cs" "c \<noteq> CHR 0x22"
    using escape_char_hd by metis
  with Cons.prems have "ys \<noteq> []" by auto
  then obtain y zs where ys: "ys = y # zs" by (auto simp: neq_Nil_conv)
  from Cons.prems ys have "escape_char x @ (concat (map escape_char xs) @ CHR 0x22 # r) =
    escape_char y @ (concat (map escape_char zs) @ CHR 0x22 # s)" by simp
  note eq = escape_char_inj [OF this]
  have "xs = zs \<and> r = s" by (rule Cons.IH [OF eq [THEN conjunct2]])
  with eq [THEN conjunct1] ys show ?case by simp
qed

lemma quote_inj: "quote xs @ r = quote ys @ s \<Longrightarrow> xs = ys \<and> r = s"
  by (rule escaped_inj) (simp add: quote_def)

subsection \<open>Sequences\<close>

text \<open>
  The one argument for arrays and objects: if the text of an item followed by a delimiter
  determines the item, then a comma separated sequence closed by a bracket determines the
  sequence.
\<close>

definition readable :: "('a \<Rightarrow> string) \<Rightarrow> 'a \<Rightarrow> bool" where
  "readable f x = (\<forall>y r s. f x @ r = f y @ s \<longrightarrow> ends_value r \<longrightarrow> ends_value s \<longrightarrow> x = y \<and> r = s)"

lemma readableD:
  "readable f x \<Longrightarrow> f x @ r = f y @ s \<Longrightarrow> ends_value r \<Longrightarrow> ends_value s \<Longrightarrow> x = y \<and> r = s"
  by (simp add: readable_def)

lemma comma_join_Cons:
  "comma_join (x # xs) = x @ (if xs = [] then [] else CHR '','' # comma_join xs)"
  by (cases xs) simp_all

lemma comma_join_inj:
  assumes "\<forall>x\<in>set xs. readable f x"
    and start: "\<And>x. f x \<noteq> [] \<and> hd (f x) \<noteq> close"
    and close: "close \<in> {CHR '']'', CHR ''}''}"
    and eq: "comma_join (map f xs) @ close # r = comma_join (map f ys) @ close # s"
  shows "xs = ys \<and> r = s"
  using assms(1) eq
proof (induction xs arbitrary: ys)
  case Nil
  have "ys = []"
  proof (rule ccontr)
    assume "ys \<noteq> []"
    then obtain y zs where "ys = y # zs" by (auto simp: neq_Nil_conv)
    then have "hd (comma_join (map f ys) @ close # s) \<noteq> close"
      using start by (simp add: comma_join_Cons)
    with Nil.prems(2) show False by (metis append_Nil comma_join.simps(1) list.sel(1) list.simps(8))
  qed
  with Nil.prems(2) show ?case by simp
next
  case (Cons x xs)
  have "hd (comma_join (map f (x # xs)) @ close # r) \<noteq> close"
    using start by (simp add: comma_join_Cons)
  with Cons.prems(2) have "ys \<noteq> []" by auto
  then obtain y zs where ys: "ys = y # zs" by (auto simp: neq_Nil_conv)
  let ?rest = "\<lambda>us q. if us = [] then close # q else CHR '','' # comma_join (map f us) @ close # q"
  have "f x @ ?rest xs r = f y @ ?rest zs s"
    using Cons.prems(2) ys by (simp add: comma_join_Cons split: if_splits)
  moreover have "ends_value (?rest us q)" for us q using close by auto
  ultimately have "x = y \<and> ?rest xs r = ?rest zs s"
    using Cons.prems(1) by (intro readableD) simp_all
  then have xy: "x = y" and tails: "?rest xs r = ?rest zs s" by blast+
  have sep: "close \<noteq> CHR '',''" using close by auto
  show ?case
  proof (cases "xs = []")
    case True
    with tails sep have "zs = [] \<and> r = s" by (cases "zs = []") auto
    with True xy ys show ?thesis by simp
  next
    case False
    with tails sep have "comma_join (map f xs) @ close # r = comma_join (map f zs) @ close # s"
      by (cases "zs = []") auto
    with Cons.IH Cons.prems(1) have "xs = zs \<and> r = s" by simp
    with xy ys show ?thesis by simp
  qed
qed

subsection \<open>Values\<close>

lemma quote_hd: "quote s = CHR 0x22 # tl (quote s)"
  by (simp add: quote_def)

lemma print_json_start:
  "print_json j \<noteq> [] \<and> hd (print_json j) \<noteq> CHR '']'' \<and> hd (print_json j) \<noteq> CHR ''}''"
proof (cases j)
  case (JInt i)
  obtain c cs where "int_text i = c # cs" "c = CHR ''-'' \<or> is_digit c" by (rule int_text_hd)
  with JInt show ?thesis by (auto simp: is_digit_def)
qed (auto simp: quote_def)

definition print_member :: "string \<times> json \<Rightarrow> string" where
  "print_member kv = quote (fst kv) @ CHR '':'' # print_json (snd kv)"

lemma print_json_JObj:
  "print_json (JObj kvs) = CHR ''{'' # comma_join (map print_member kvs) @ ''}''"
  by (simp add: print_member_def case_prod_beta' cong: map_cong)

lemma readable_member: "readable print_json (snd kv) \<Longrightarrow> readable print_member kv"
  unfolding readable_def print_member_def
proof (intro allI impI)
  fix kv' r s
  assume read: "\<forall>y r s. print_json (snd kv) @ r = print_json y @ s \<longrightarrow> ends_value r \<longrightarrow> ends_value s \<longrightarrow> snd kv = y \<and> r = s"
    and eq: "(quote (fst kv) @ CHR '':'' # print_json (snd kv)) @ r = (quote (fst kv') @ CHR '':'' # print_json (snd kv')) @ s"
    and ends: "ends_value r" "ends_value s"
  from eq have "quote (fst kv) @ (CHR '':'' # print_json (snd kv) @ r) = quote (fst kv') @ (CHR '':'' # print_json (snd kv') @ s)"
    by simp
  from quote_inj [OF this] have "fst kv = fst kv'" "print_json (snd kv) @ r = print_json (snd kv') @ s"
    by simp_all
  moreover from this(2) read ends have "snd kv = snd kv' \<and> r = s" by blast
  ultimately show "kv = kv' \<and> r = s" by (simp add: prod_eq_iff)
qed

text \<open>The first byte of a value's text names its constructor.\<close>

fun leads :: "json \<Rightarrow> char \<Rightarrow> bool" where
  "leads JNull c = (c = CHR ''n'')"
| "leads (JBool b) c = (c = (if b then CHR ''t'' else CHR ''f''))"
| "leads (JInt i) c = (c = CHR ''-'' \<or> is_digit c)"
| "leads (JStr s) c = (c = CHR 0x22)"
| "leads (JArr xs) c = (c = CHR ''['')"
| "leads (JObj kvs) c = (c = CHR ''{'')"

lemma print_json_leads: "leads j (hd (print_json j))"
proof (cases j)
  case (JInt i)
  obtain c cs where "int_text i = c # cs" "c = CHR ''-'' \<or> is_digit c" by (rule int_text_hd)
  with JInt show ?thesis by auto
qed (auto simp: quote_def)

lemma same_lead: "print_json a @ r = print_json b @ s \<Longrightarrow> leads b (hd (print_json a))"
  using print_json_leads [of b] print_json_start [of a] print_json_start [of b]
  by (metis hd_append2)

lemma print_json_readable: "readable print_json j"
proof (induction j)
  case JNull
  show ?case unfolding readable_def
  proof (intro allI impI)
    fix y r s assume eq: "print_json JNull @ r = print_json y @ s"
    with same_lead [OF eq] show "JNull = y \<and> r = s"
      by (cases y) (auto simp: is_digit_def split: if_splits)
  qed
next
  case (JBool b)
  show ?case unfolding readable_def
  proof (intro allI impI)
    fix y r s assume eq: "print_json (JBool b) @ r = print_json y @ s"
    with same_lead [OF eq] show "JBool b = y \<and> r = s"
      by (cases y) (auto simp: is_digit_def split: if_splits)
  qed
next
  case (JInt i)
  show ?case unfolding readable_def
  proof (intro allI impI)
    fix y r s assume eq: "print_json (JInt i) @ r = print_json y @ s" and ends: "ends_value r" "ends_value s"
    have "leads (JInt i) (hd (print_json y))" by (rule same_lead [OF eq [symmetric]])
    then obtain j where y: "y = JInt j" using print_json_leads [of y]
      by (cases y) (auto simp: is_digit_def split: if_splits)
    with eq ends show "JInt i = y \<and> r = s" using int_text_inj [of i r j s] by simp
  qed
next
  case (JStr t)
  show ?case unfolding readable_def
  proof (intro allI impI)
    fix y r s assume eq: "print_json (JStr t) @ r = print_json y @ s"
    have "leads y CHR 0x22" using same_lead [OF eq] by (simp add: quote_def)
    then obtain u where y: "y = JStr u" by (cases y) (auto simp: is_digit_def split: if_splits)
    with eq show "JStr t = y \<and> r = s" using quote_inj [of t r u s] by simp
  qed
next
  case (JArr xs)
  show ?case unfolding readable_def
  proof (intro allI impI)
    fix y r s assume eq: "print_json (JArr xs) @ r = print_json y @ s"
    have "leads y CHR ''[''" using same_lead [OF eq] by simp
    then obtain ys where y: "y = JArr ys" by (cases y) (auto simp: is_digit_def split: if_splits)
    have "xs = ys \<and> r = s"
      by (rule comma_join_inj [where f = print_json and close = "CHR '']''"])
        (use JArr eq y print_json_start in auto)
    with y show "JArr xs = y \<and> r = s" by simp
  qed
next
  case (JObj kvs)
  show ?case unfolding readable_def
  proof (intro allI impI)
    fix y r s assume eq: "print_json (JObj kvs) @ r = print_json y @ s"
    have "leads y CHR ''{''" using same_lead [OF eq] by simp
    then obtain mvs where y: "y = JObj mvs" by (cases y) (auto simp: is_digit_def split: if_splits)
    have "\<forall>kv\<in>set kvs. readable print_member kv"
      using JObj by (auto intro!: readable_member)
    moreover have "print_member kv \<noteq> [] \<and> hd (print_member kv) \<noteq> CHR ''}''" for kv
      by (simp add: print_member_def quote_def)
    moreover have "comma_join (map print_member kvs) @ CHR ''}'' # r = comma_join (map print_member mvs) @ CHR ''}'' # s"
      using eq y by (simp only: print_json_JObj) simp
    ultimately have "kvs = mvs \<and> r = s"
      by (intro comma_join_inj [where f = print_member and close = "CHR ''}''"]) auto
    with y show "JObj kvs = y \<and> r = s" by simp
  qed
qed

lemma print_json_inj: "print_json a = print_json b \<longleftrightarrow> a = b"
  using readableD [OF print_json_readable, of a "[]" b "[]"] by auto

lemma canonical_json_inj: "canonical_json a = canonical_json b \<longleftrightarrow> sort_keys a = sort_keys b"
  by (simp add: canonical_json_def print_json_inj)

section \<open>Objects with distinct keys\<close>

text \<open>What the keys that are digests of objects rely on: equal sorted objects have equal entries.\<close>

definition str_obj :: "(string, string) dict \<Rightarrow> json" where
  "str_obj d = JObj (map (\<lambda>(k, v). (k, JStr v)) d)"

lemma sort_keys_str_obj:
  "sort_keys (str_obj d) = sort_keys (str_obj e) \<Longrightarrow> set d = set e"
proof -
  let ?f = "\<lambda>(k, v). (k :: string, JStr v)"
  have inj: "inj ?f" by (auto simp: inj_def)
  have flat: "sort_keys (str_obj d) = JObj (sort_key fst (map ?f d))" for d
    by (simp add: str_obj_def comp_def case_prod_beta')
  assume "sort_keys (str_obj d) = sort_keys (str_obj e)"
  then have "set (sort_key fst (map ?f d)) = set (sort_key fst (map ?f e))" by (simp add: flat)
  then have "?f ` set d = ?f ` set e" by simp
  with inj show "set d = set e" by (rule inj_image_eq_iff [THEN iffD1])
qed

lemma same_entries_map_of:
  "set d = set e \<Longrightarrow> distinct (map fst d) \<Longrightarrow> distinct (map fst e) \<Longrightarrow> map_of d = map_of e"
  by (simp add: map_of_inject_set)

text \<open>The canonical text used for every digest determines the value up to the order of object keys:
  two JSON values print to the same canonical text exactly when they are equal after sorting keys.\<close>

theorem canonical_json_identifies: "canonical_json a = canonical_json b \<longleftrightarrow> sort_keys a = sort_keys b"
  by (rule canonical_json_inj)

end
