(* ===== verification/Json_Access.thy ===== *)
theory Json_Access
  imports Json_Canonical
begin

text \<open>
  Reading the fields of a parsed JSON object: \<open>raw.get(key, default)\<close> and \<open>raw[key]\<close> with the type the
  caller uses the value at.  An absent field takes the default of \<open>get\<close> or is a \<open>KeyError\<close>; a value of
  another JSON type than the one the writer of the object uses is a \<open>TypeError\<close>.
\<close>

definition json_fields :: "json \<Rightarrow> (string, json) dict" where
  "json_fields j = (case j of JObj kvs \<Rightarrow> kvs | _ \<Rightarrow> [])"

text \<open>\<open>bool(value)\<close> of a JSON value.\<close>

fun json_truthy :: "json \<Rightarrow> bool" where
  "json_truthy JNull = False"
| "json_truthy (JBool b) = b"
| "json_truthy (JInt n) = (n \<noteq> 0)"
| "json_truthy (JStr s) = (s \<noteq> [])"
| "json_truthy (JArr xs) = (xs \<noteq> [])"
| "json_truthy (JObj kvs) = (kvs \<noteq> [])"

definition type_error :: "string \<Rightarrow> exn" where
  "type_error k = PyExn ''TypeError'' k"

definition get_str :: "json \<Rightarrow> string \<Rightarrow> string \<Rightarrow> string result" where
  "get_str raw k d = (case map_of (json_fields raw) k of
     None \<Rightarrow> Inr d | Some (JStr s) \<Rightarrow> Inr s | Some _ \<Rightarrow> Inl (type_error k))"

definition get_bool :: "json \<Rightarrow> string \<Rightarrow> bool \<Rightarrow> bool result" where
  "get_bool raw k d = (case map_of (json_fields raw) k of
     None \<Rightarrow> Inr d | Some (JBool b) \<Rightarrow> Inr b | Some _ \<Rightarrow> Inl (type_error k))"

definition get_int :: "json \<Rightarrow> string \<Rightarrow> int \<Rightarrow> int result" where
  "get_int raw k d = (case map_of (json_fields raw) k of
     None \<Rightarrow> Inr d | Some (JInt i) \<Rightarrow> Inr i | Some _ \<Rightarrow> Inl (type_error k))"

fun str_entries :: "(string, json) dict \<Rightarrow> (string, string) dict result" where
  "str_entries [] = Inr []"
| "str_entries ((k, JStr v) # kvs) = map_sum id (Cons (k, v)) (str_entries kvs)"
| "str_entries ((k, _) # kvs) = Inl (type_error k)"

definition get_str_dict :: "json \<Rightarrow> string \<Rightarrow> (string, string) dict result" where
  "get_str_dict raw k = (case map_of (json_fields raw) k of
     None \<Rightarrow> Inr [] | Some (JObj kvs) \<Rightarrow> str_entries kvs | Some _ \<Rightarrow> Inl (type_error k))"

definition key_error :: "string \<Rightarrow> exn" where
  "key_error k = PyExn ''KeyError'' k"

definition need_str :: "json \<Rightarrow> string \<Rightarrow> string result" where
  "need_str raw k = (case map_of (json_fields raw) k of None \<Rightarrow> Inl (key_error k) | Some _ \<Rightarrow> get_str raw k [])"

definition need_obj :: "json \<Rightarrow> string \<Rightarrow> json result" where
  "need_obj raw k = (case map_of (json_fields raw) k of None \<Rightarrow> Inl (key_error k) | Some j \<Rightarrow> Inr j)"

fun str_items :: "json list \<Rightarrow> string list result" where
  "str_items [] = Inr []"
| "str_items (JStr s # js) = map_sum id (Cons s) (str_items js)"
| "str_items (_ # js) = Inl (PyExn ''TypeError'' ''list item'')"

definition get_str_list :: "json \<Rightarrow> string \<Rightarrow> string list result" where
  "get_str_list raw k = (case map_of (json_fields raw) k of
     None \<Rightarrow> Inr [] | Some (JArr js) \<Rightarrow> str_items js | Some _ \<Rightarrow> Inl (type_error k))"

section \<open>Reading what was written\<close>

lemma str_entries_strings [simp]: "str_entries (map (\<lambda>(k, v). (k, JStr v)) d) = Inr d"
  by (induction d) auto

lemma get_str_dict_str_obj [simp]: "map_of (json_fields raw) k = Some (str_obj d) \<Longrightarrow> get_str_dict raw k = Inr d"
  by (simp add: get_str_dict_def str_obj_def)

text \<open>Printing with \<open>sort_keys\<close> and parsing keeps every field of an object with distinct keys.\<close>

lemma map_of_sort_key: "distinct (map fst d) \<Longrightarrow> map_of (sort_key fst d) = map_of d"
  by (rule same_entries_map_of) (simp_all add: distinct_map)

lemma insort_key_map: "(\<And>x. fst (f x) = fst x) \<Longrightarrow> insort_key fst (f x) (map f xs) = map f (insort_key fst x xs)"
  by (induction xs) simp_all

lemma sort_key_map: "(\<And>x. fst (f x) = fst x) \<Longrightarrow> sort_key fst (map f xs) = map f (sort_key fst xs)"
  by (induction xs) (simp_all add: insort_key_map)

lemma sort_keys_fields:
  "distinct (map fst kvs) \<Longrightarrow> map_of (json_fields (sort_keys (JObj kvs))) k = map_option sort_keys (map_of kvs k)"
proof -
  assume d: "distinct (map fst kvs)"
  have "map_of (map (\<lambda>(k, v). (k, sort_keys v)) kvs) k = map_option sort_keys (map_of kvs k)"
    by (induction kvs) auto
  moreover have "distinct (map fst (map (\<lambda>(k, v). (k, sort_keys v)) kvs))"
    using d by (simp add: comp_def case_prod_beta)
  ultimately show ?thesis by (simp add: json_fields_def map_of_sort_key)
qed

lemma sort_keys_str_obj_eq: "sort_keys (str_obj d) = str_obj (sort_key fst d)"
proof -
  have "sort_keys (str_obj d) = JObj (sort_key fst (map (\<lambda>(k, v). (k, JStr v)) d))"
    by (simp add: str_obj_def comp_def case_prod_beta')
  also have "\<dots> = str_obj (sort_key fst d)"
    unfolding str_obj_def by (simp add: sort_key_map case_prod_beta')
  finally show ?thesis .
qed

end
