(* ===== verification/Py_Text.thy ===== *)
theory Py_Text
  imports Prelude
begin

text \<open>
  What the components use of Python's \<open>str\<close> and \<open>pathlib\<close>.  A \<open>str\<close> is its UTF-8 encoding; a
  character is a byte that is not a continuation byte with the continuation bytes that follow it.
  A relative path is the list of its parts, as \<open>PurePosixPath\<close> keeps it: empty parts and \<open>.\<close> are
  dropped, \<open>..\<close> is kept.
\<close>

section \<open>Characters\<close>

definition continuation :: "char \<Rightarrow> bool" where
  "continuation c \<longleftrightarrow> 128 \<le> (of_char c :: nat) \<and> (of_char c :: nat) < 192"

function utf8_chars :: "string \<Rightarrow> string list" where
  "utf8_chars [] = []"
| "utf8_chars (c # cs) = (c # takeWhile continuation cs) # utf8_chars (dropWhile continuation cs)"
  by pat_completeness auto

termination utf8_chars
  by (relation "measure length") (simp_all add: le_imp_less_Suc length_dropWhile_le)

text \<open>The slice \<open>s[-n:]\<close> for a positive \<open>n\<close>.\<close>

definition py_last :: "nat \<Rightarrow> string \<Rightarrow> string" where
  "py_last n s = (let cs = utf8_chars s in concat (drop (length cs - n) cs))"

lemma concat_utf8_chars [simp]: "concat (utf8_chars s) = s"
  by (induction s rule: utf8_chars.induct) simp_all

lemma utf8_chars_heads: "cs \<in> set (utf8_chars s) \<Longrightarrow> \<exists>c ds. cs = c # ds \<and> (\<forall>d\<in>set ds. continuation d)"
  by (induction s rule: utf8_chars.induct) (auto dest: set_takeWhileD)

lemma py_last_short: "length (utf8_chars s) \<le> n \<Longrightarrow> py_last n s = s"
  by (simp add: py_last_def)

lemma py_last_suffix: "\<exists>front. s = front @ py_last n s"
proof -
  let ?cs = "utf8_chars s" and ?k = "length (utf8_chars s) - n"
  have "s = concat (take ?k ?cs @ drop ?k ?cs)" by simp
  then show ?thesis unfolding py_last_def Let_def by (metis concat_append)
qed

text \<open>White space, as far as it is ASCII.\<close>

definition is_space :: "char \<Rightarrow> bool" where
  "is_space c \<longleftrightarrow> (let n = of_char c :: nat in n = 32 \<or> 9 \<le> n \<and> n \<le> 13 \<or> 28 \<le> n \<and> n \<le> 31)"

definition strip :: "string \<Rightarrow> string" where
  "strip s = rev (dropWhile is_space (rev (dropWhile is_space s)))"

text \<open>\<open>str.splitlines\<close>: the length of a line break at the head of a text, and the lines.\<close>

definition line_break :: "string \<Rightarrow> nat" where
  "line_break s =
     (case map of_char (take 3 s) :: nat list of
        [] \<Rightarrow> 0
      | c # cs \<Rightarrow>
          if c = 13 \<and> take 1 cs = [10] then 2
          else if 10 \<le> c \<and> c \<le> 13 \<or> 28 \<le> c \<and> c \<le> 30 then 1
          else if c = 194 \<and> take 1 cs = [133] then 2
          else if c = 226 \<and> (cs = [128, 168] \<or> cs = [128, 169]) then 3
          else 0)"

fun take_line :: "string \<Rightarrow> string \<times> string" where
  "take_line [] = ([], [])"
| "take_line (c # cs) =
     (let n = line_break (c # cs) in
      if 0 < n then ([], drop (n - 1) cs) else let (l, r) = take_line cs in (c # l, r))"

lemma take_line_le: "length (snd (take_line s)) \<le> length s"
  by (induction s) (auto simp: Let_def split: prod.splits)

lemma take_line_shorter: "length (snd (take_line (c # cs))) < Suc (length cs)"
  using take_line_le [of cs] by (auto simp: Let_def split: prod.splits)

function splitlines :: "string \<Rightarrow> string list" where
  "splitlines [] = []"
| "splitlines (c # cs) = fst (take_line (c # cs)) # splitlines (snd (take_line (c # cs)))"
  by pat_completeness auto

termination splitlines
  by (relation "measure length") (auto simp del: take_line.simps simp: take_line_shorter)

section \<open>Splitting and joining\<close>

fun split_on :: "char \<Rightarrow> string \<Rightarrow> string list" where
  "split_on d [] = [[]]"
| "split_on d (c # cs) =
     (if c = d then [] # split_on d cs
      else case split_on d cs of [] \<Rightarrow> [[c]] | w # ws \<Rightarrow> (c # w) # ws)"

fun join_with :: "string \<Rightarrow> string list \<Rightarrow> string" where
  "join_with d [] = []"
| "join_with d [w] = w"
| "join_with d (w # ws) = w @ d @ join_with d ws"

lemma split_on_nonempty [simp]: "split_on d s \<noteq> []"
  by (induction s) (auto split: list.splits)

lemma split_on_plain: "d \<notin> set w \<Longrightarrow> split_on d w = [w]"
  by (induction w) auto

lemma split_on_append: "d \<notin> set w \<Longrightarrow> split_on d (w @ d # s) = w # split_on d s"
  by (induction w) auto

lemma split_on_parts: "w \<in> set (split_on d s) \<Longrightarrow> d \<notin> set w"
proof (induction s arbitrary: w)
  case Nil
  then show ?case by simp
next
  case (Cons c cs)
  obtain v vs where v: "split_on d cs = v # vs" by (cases "split_on d cs") auto
  show ?case
  proof (cases "c = d")
    case True
    then show ?thesis using Cons by auto
  next
    case False
    then show ?thesis using Cons v by auto
  qed
qed

lemma split_join: "ws \<noteq> [] \<Longrightarrow> \<forall>w\<in>set ws. d \<notin> set w \<Longrightarrow> split_on d (join_with [d] ws) = ws"
  by (induction "[d]" ws rule: join_with.induct) (simp_all add: split_on_plain split_on_append)

section \<open>Paths\<close>

type_synonym path = "string list"

definition path_parts :: "string \<Rightarrow> path" where
  "path_parts s = filter (\<lambda>p. p \<noteq> [] \<and> p \<noteq> ''.'') (split_on (CHR ''/'') s)"

definition is_absolute :: "string \<Rightarrow> bool" where
  "is_absolute s \<longleftrightarrow> (case s of [] \<Rightarrow> False | c # _ \<Rightarrow> c = CHR ''/'')"

definition as_posix :: "path \<Rightarrow> string" where
  "as_posix ps = (if ps = [] then ''.'' else join_with ''/'' ps)"

definition is_path :: "path \<Rightarrow> bool" where
  "is_path ps \<longleftrightarrow> (\<forall>p\<in>set ps. p \<noteq> [] \<and> p \<noteq> ''.'' \<and> CHR ''/'' \<notin> set p)"

lemma is_path_parts [simp]: "is_path (path_parts s)"
  using split_on_parts by (auto simp: is_path_def path_parts_def)

lemma path_parts_as_posix: "is_path ps \<Longrightarrow> path_parts (as_posix ps) = ps"
proof (cases "ps = []")
  case True
  then show ?thesis by (simp add: as_posix_def path_parts_def)
next
  case False
  assume p: "is_path ps"
  then have "split_on (CHR ''/'') (join_with ''/'' ps) = ps" using False by (intro split_join) (auto simp: is_path_def)
  then show ?thesis using p False by (simp add: as_posix_def path_parts_def is_path_def)
qed

lemma as_posix_inj: "is_path ps \<Longrightarrow> is_path qs \<Longrightarrow> as_posix ps = as_posix qs \<longleftrightarrow> ps = qs"
  using path_parts_as_posix by metis

text \<open>\<open>Path.resolve\<close> below a directory without symbolic links.\<close>

fun resolve_from :: "path \<Rightarrow> path \<Rightarrow> path" where
  "resolve_from base [] = base"
| "resolve_from base (p # ps) = resolve_from (if p = ''..'' then butlast base else base @ [p]) ps"

lemma resolve_from_plain: "''..'' \<notin> set ps \<Longrightarrow> resolve_from base ps = base @ ps"
  by (induction ps arbitrary: base) auto

end
