(* ===== verification/Authoring_Contract.thy ===== *)
theory Authoring_Contract
  imports Base64 Json_Access Py_Text "HOL-Library.Product_Lexorder"
begin

text \<open>
  \<^verbatim>\<open>operator_authoring/model.py\<close>, the selections of \<^verbatim>\<open>publish_service/model.py\<close> and
  \<^verbatim>\<open>publish_service/selection.py\<close>: what a user selects of an analyzed project, and the virtual operator
  contract it becomes.  A pydantic model is a record; its validators are the function that builds it, and a
  failing one is a \<open>ValueError\<close> with the validator's message.  Values of type \<open>Any\<close> are JSON values.  Quotes inside
  messages are left out.
\<close>

section \<open>Analyzed projects\<close>

datatype callable_kind = FUNCTION | INSTANCE_METHOD | STATIC_METHOD | CLASS_METHOD

definition kind_text :: "callable_kind \<Rightarrow> string" where
  "kind_text k = (case k of FUNCTION \<Rightarrow> ''function'' | INSTANCE_METHOD \<Rightarrow> ''instance-method''
     | STATIC_METHOD \<Rightarrow> ''static-method'' | CLASS_METHOD \<Rightarrow> ''class-method'')"

datatype binding_source = INPUT_PAYLOAD | INPUT_METADATA | OPERATOR_PARAMETER | CONSTANT

definition source_text :: "binding_source \<Rightarrow> string" where
  "source_text s = (case s of INPUT_PAYLOAD \<Rightarrow> ''input.payload'' | INPUT_METADATA \<Rightarrow> ''input.metadata''
     | OPERATOR_PARAMETER \<Rightarrow> ''operator.parameter'' | CONSTANT \<Rightarrow> ''constant'')"

datatype codec = BYTES | TEXT | JSON

definition codec_text :: "codec \<Rightarrow> string" where
  "codec_text c = (case c of BYTES \<Rightarrow> ''bytes'' | TEXT \<Rightarrow> ''text'' | JSON \<Rightarrow> ''json'')"

datatype none_policy = KEEP_ORIGINAL | EMPTY

datatype output_source = RETURN | RETURN_PATH | OUTPUT_CONSTANT

record catalog_warning =
  cw_severity :: string
  cw_file :: string
  cw_line :: "int option"
  cw_message :: string

record parameter_info =
  pi_name :: string
  pi_kind :: string
  pi_annotation :: "string option"
  pi_required :: bool
  pi_has_default :: bool
  pi_default_value :: json
  pi_default_repr :: "string option"

record callable_info =
  ca_id :: string
  ca_module :: string
  ca_qualname :: string
  ca_kind :: callable_kind
  ca_class_target :: "string option"
  ca_method_name :: "string option"
  ca_file :: string
  ca_line :: int
  ca_is_async :: bool
  ca_decorators :: "string list"
  ca_score :: int
  ca_parameters :: "parameter_info list"
  ca_return_annotation :: "string option"

record class_info =
  cl_id :: string
  cl_module :: string
  cl_qualname :: string
  cl_target :: string
  cl_file :: string
  cl_line :: int
  cl_constructor :: "parameter_info list"
  cl_methods :: "callable_info list"

record project_catalog =
  pc_source_revision :: string
  pc_python_path :: string
  pc_functions :: "callable_info list"
  pc_classes :: "class_info list"
  pc_warnings :: "catalog_warning list"

definition by_score :: "callable_info \<Rightarrow> int \<times> string" where
  "by_score c = (- ca_score c, ca_id c)"

definition all_callables :: "project_catalog \<Rightarrow> callable_info list" where
  "all_callables p = sort_key by_score (pc_functions p @ concat (map cl_methods (pc_classes p)))"

definition callable_by_id :: "project_catalog \<Rightarrow> string \<Rightarrow> callable_info option" where
  "callable_by_id p i = List.find (\<lambda>c. ca_id c = i) (all_callables p)"

definition class_by_target :: "project_catalog \<Rightarrow> string \<Rightarrow> class_info option" where
  "class_by_target p target = List.find (\<lambda>c. cl_target c = target) (pc_classes p)"

section \<open>Contracts\<close>

definition invalid :: "string \<Rightarrow> exn" where
  "invalid msg = PyExn ''ValueError'' msg"

record parameter_spec =
  os_key :: string
  os_display_name :: string
  os_description :: string
  os_required :: bool
  os_has_default :: bool
  os_default :: json

definition make_parameter_spec :: "parameter_spec \<Rightarrow> parameter_spec result" where
  "make_parameter_spec s =
     (let key = strip (os_key s) in
      if key = [] then Inl (invalid ''operator parameter key cannot be empty'') else Inr (s\<lparr>os_key := key\<rparr>))"

record argument_binding =
  ab_source :: binding_source
  ab_codec :: codec
  ab_metadata_key :: "string option"
  ab_parameter :: "parameter_spec option"
  ab_constant :: json

definition blank :: "string option \<Rightarrow> bool" where
  "blank s \<longleftrightarrow> s = None \<or> s = Some []"

definition make_binding :: "argument_binding \<Rightarrow> argument_binding result" where
  "make_binding b =
     (if ab_source b = INPUT_METADATA \<and> blank (ab_metadata_key b) then Inl (invalid ''input.metadata requires metadata_key'')
      else if ab_source b = OPERATOR_PARAMETER \<and> ab_parameter b = None then Inl (invalid ''operator.parameter requires parameter'')
      else Inr b)"

record operator_metadata =
  om_name :: string
  om_display_name :: string
  om_description :: string

definition name_char :: "char \<Rightarrow> bool" where
  "name_char c \<longleftrightarrow> (let n = of_char c :: nat in
     48 \<le> n \<and> n \<le> 57 \<or> 65 \<le> n \<and> n \<le> 90 \<or> 97 \<le> n \<and> n \<le> 122 \<or> c \<in> {CHR ''.'', CHR ''_'', CHR ''-''})"

definition make_metadata :: "operator_metadata \<Rightarrow> operator_metadata result" where
  "make_metadata m =
     (let name = strip (om_name m) in
      if name = [] then Inl (invalid ''operator name cannot be empty'')
      else if \<not> list_all name_char name then Inl (invalid ''operator name may contain only letters, digits, . _ and -'')
      else Inr (m\<lparr>om_name := name\<rparr>))"

datatype path_item = Key string | Index int

record output_value =
  ov_source :: output_source
  ov_path :: "path_item list"
  ov_codec :: codec
  ov_value :: json

definition make_output_value :: "output_value \<Rightarrow> output_value result" where
  "make_output_value v =
     (if ov_source v = RETURN_PATH \<and> ov_path v = [] then Inl (invalid ''return.path output requires a non-empty path'') else Inr v)"

record output_spec =
  out_payload :: output_value
  out_metadata :: "(string, output_value) dict"
  out_none_policy :: none_policy

record source_spec =
  so_source_revision :: string
  so_python_path :: string
  so_source_ref :: "string option"

definition make_source :: "source_spec \<Rightarrow> source_spec result" where
  "make_source s =
     (let value = (if strip (so_python_path s) = [] then ''.'' else strip (so_python_path s));
          parts = path_parts value in
      if is_absolute value \<or> CHR 0x5C \<in> set value then Inl (invalid ''python_path must be a relative POSIX path'')
      else if ''..'' \<in> set parts then Inl (invalid ''python_path must stay inside the source snapshot'')
      else Inr (s\<lparr>so_python_path := as_posix parts\<rparr>))"

record virtual_contract =
  vc_metadata :: operator_metadata
  vc_source :: source_spec
  vc_callable_id :: string
  vc_constructor_arguments :: "(string, argument_binding) dict"
  vc_arguments :: "(string, argument_binding) dict"
  vc_output :: output_spec

section \<open>Selections\<close>

record binding_selection =
  bs_source :: binding_source
  bs_codec :: codec
  bs_metadata_key :: "string option"
  bs_parameter_key :: "string option"
  bs_parameter_display_name :: "string option"
  bs_parameter_description :: string
  bs_parameter_required :: bool
  bs_parameter_has_default :: bool
  bs_parameter_default :: json
  bs_constant :: json

definition make_binding_selection :: "binding_selection \<Rightarrow> binding_selection result" where
  "make_binding_selection b =
     (if bs_source b = INPUT_METADATA \<and> blank (bs_metadata_key b) then Inl (invalid ''input.metadata requires metadataKey'')
      else if bs_source b = OPERATOR_PARAMETER \<and> blank (bs_parameter_key b) then Inl (invalid ''operator.parameter requires parameterKey'')
      else Inr b)"

record contract_request =
  cr_workspace :: string
  cr_source_revision :: string
  cr_python_root :: string
  cr_operator :: operator_metadata
  cr_callable_id :: string
  cr_constructor_bindings :: "(string, binding_selection) dict"
  cr_argument_bindings :: "(string, binding_selection) dict"
  cr_output :: output_spec

definition text_or :: "string option \<Rightarrow> string \<Rightarrow> string" where
  "text_or s alt = (case s of Some (c # cs) \<Rightarrow> c # cs | _ \<Rightarrow> alt)"

definition selection_binding :: "binding_selection \<Rightarrow> argument_binding result" where
  "selection_binding v =
     result_bind
       (if bs_source v = OPERATOR_PARAMETER then
          map_sum id Some (make_parameter_spec
            \<lparr>os_key = text_or (bs_parameter_key v) [],
             os_display_name = text_or (bs_parameter_display_name v) (text_or (bs_parameter_key v) []),
             os_description = bs_parameter_description v, os_required = bs_parameter_required v,
             os_has_default = bs_parameter_has_default v, os_default = bs_parameter_default v\<rparr>)
        else Inr None)
       (\<lambda>parameter. make_binding \<lparr>ab_source = bs_source v, ab_codec = bs_codec v, ab_metadata_key = bs_metadata_key v,
          ab_parameter = parameter, ab_constant = bs_constant v\<rparr>)"

fun each_value :: "('a \<Rightarrow> 'b result) \<Rightarrow> (string, 'a) dict \<Rightarrow> (string, 'b) dict result" where
  "each_value f [] = Inr []"
| "each_value f ((k, v) # d) = result_bind (f v) (\<lambda>w. map_sum id (Cons (k, w)) (each_value f d))"

definition selection_to_virtual_contract :: "contract_request \<Rightarrow> string option \<Rightarrow> virtual_contract result" where
  "selection_to_virtual_contract sel source_ref =
     result_bind (make_metadata (cr_operator sel)) (\<lambda>metadata.
     result_bind (make_source \<lparr>so_source_revision = cr_source_revision sel, so_python_path = cr_python_root sel, so_source_ref = source_ref\<rparr>) (\<lambda>source.
     result_bind (each_value selection_binding (cr_constructor_bindings sel)) (\<lambda>constructor.
     result_bind (each_value selection_binding (cr_argument_bindings sel)) (\<lambda>arguments.
     result_bind (make_output_value (out_payload (cr_output sel))) (\<lambda>payload.
     result_bind (each_value make_output_value (out_metadata (cr_output sel))) (\<lambda>outputs.
     Inr \<lparr>vc_metadata = metadata, vc_source = source, vc_callable_id = cr_callable_id sel, vc_constructor_arguments = constructor,
          vc_arguments = arguments,
          vc_output = \<lparr>out_payload = payload, out_metadata = outputs, out_none_policy = out_none_policy (cr_output sel)\<rparr>\<rparr>))))))"

end
