(* ===== verification/Contract_Compiler.thy ===== *)
theory Contract_Compiler
  imports Authoring_Contract
begin

text \<open>
  \<^verbatim>\<open>operator_authoring/compiler.py\<close>: from a virtual contract and the analyzed project to the execution plan
  that the backends embed.  SHA-256 is the parameter \<open>h\<close>.
\<close>

section \<open>Contracts as JSON\<close>

definition json_opt :: "string option \<Rightarrow> json" where
  "json_opt s = (case s of None \<Rightarrow> JNull | Some t \<Rightarrow> JStr t)"

definition none_policy_text :: "none_policy \<Rightarrow> string" where
  "none_policy_text p = (case p of KEEP_ORIGINAL \<Rightarrow> ''keep-original'' | EMPTY \<Rightarrow> ''empty'')"

definition output_source_text :: "output_source \<Rightarrow> string" where
  "output_source_text s = (case s of RETURN \<Rightarrow> ''return'' | RETURN_PATH \<Rightarrow> ''return.path'' | OUTPUT_CONSTANT \<Rightarrow> ''constant'')"

definition parameter_spec_json :: "parameter_spec \<Rightarrow> json" where
  "parameter_spec_json s = JObj [(''key'', JStr (os_key s)), (''display_name'', JStr (os_display_name s)), (''description'', JStr (os_description s)),
     (''required'', JBool (os_required s)), (''has_default'', JBool (os_has_default s)), (''default'', os_default s)]"

definition binding_json :: "argument_binding \<Rightarrow> json" where
  "binding_json b = JObj [(''source'', JStr (source_text (ab_source b))), (''codec'', JStr (codec_text (ab_codec b))),
     (''metadata_key'', json_opt (ab_metadata_key b)),
     (''parameter'', case ab_parameter b of None \<Rightarrow> JNull | Some s \<Rightarrow> parameter_spec_json s), (''constant'', ab_constant b)]"

definition path_item_json :: "path_item \<Rightarrow> json" where
  "path_item_json p = (case p of Key k \<Rightarrow> JStr k | Index i \<Rightarrow> JInt i)"

definition output_value_json :: "output_value \<Rightarrow> json" where
  "output_value_json v = JObj [(''source'', JStr (output_source_text (ov_source v))), (''path'', JArr (map path_item_json (ov_path v))),
     (''codec'', JStr (codec_text (ov_codec v))), (''value'', ov_value v)]"

definition output_json :: "output_spec \<Rightarrow> json" where
  "output_json out = JObj [(''payload'', output_value_json (out_payload out)),
     (''metadata'', JObj (map (\<lambda>(k, v). (k, output_value_json v)) (out_metadata out))),
     (''none_policy'', JStr (none_policy_text (out_none_policy out)))]"

definition contract_json :: "virtual_contract \<Rightarrow> json" where
  "contract_json c = JObj [(''api_version'', JStr ''dsc.virtual-operator/v1''), (''execution_model'', JStr ''direct''),
     (''metadata'', JObj [(''name'', JStr (om_name (vc_metadata c))), (''display_name'', JStr (om_display_name (vc_metadata c))),
        (''description'', JStr (om_description (vc_metadata c)))]),
     (''source'', JObj [(''source_revision'', JStr (so_source_revision (vc_source c))), (''python_path'', JStr (so_python_path (vc_source c))),
        (''source_ref'', json_opt (so_source_ref (vc_source c)))]),
     (''target'', JObj [(''callable_id'', JStr (vc_callable_id c))]),
     (''constructor_arguments'', JObj (map (\<lambda>(k, b). (k, binding_json b)) (vc_constructor_arguments c))),
     (''arguments'', JObj (map (\<lambda>(k, b). (k, binding_json b)) (vc_arguments c))),
     (''output'', output_json (vc_output c))]"

definition contract_sha256 :: "(bytes \<Rightarrow> string) \<Rightarrow> virtual_contract \<Rightarrow> string" where
  "contract_sha256 h c = h (canonical_json (contract_json c))"

section \<open>Checks\<close>

definition compile_error :: "string \<Rightarrow> exn" where
  "compile_error msg = PyExn ''ContractCompilationError'' msg"

definition supported_kind :: "parameter_info \<Rightarrow> bool" where
  "supported_kind p \<longleftrightarrow> pi_kind p = ''POSITIONAL_OR_KEYWORD'' \<or> pi_kind p = ''KEYWORD_ONLY''"

definition kind_reasons :: "string \<Rightarrow> parameter_info list \<Rightarrow> string list" where
  "kind_reasons label ps = map (\<lambda>p. label @ pi_name p @ '' uses unsupported kind '' @ pi_kind p) (filter (\<lambda>p. \<not> supported_kind p) ps)"

definition callable_support_reasons :: "callable_info \<Rightarrow> project_catalog \<Rightarrow> string list" where
  "callable_support_reasons c catalog =
     (if ca_is_async c then [''async callable is not supported by Direct Invoke v1''] else []) @
     kind_reasons ''parameter '' (ca_parameters c) @
     (if ca_kind c = INSTANCE_METHOD then
        (if blank (ca_class_target c) then [''instance method has no class metadata'']
         else case class_by_target catalog (the (ca_class_target c)) of
           None \<Rightarrow> [''class metadata is missing'']
         | Some k \<Rightarrow> kind_reasons ''constructor parameter '' (cl_constructor k))
      else [])"

text \<open>A dictionary comprehension over the parameters: a later one of the same name wins.\<close>

definition parameter_map :: "parameter_info list \<Rightarrow> string \<Rightarrow> parameter_info option" where
  "parameter_map ps name = map_of (rev (map (\<lambda>p. (pi_name p, p)) ps)) name"

definition validate_bindings :: "parameter_info list \<Rightarrow> (string, argument_binding) dict \<Rightarrow> string \<Rightarrow> unit result" where
  "validate_bindings ps bindings label =
     (let unknown = filter (\<lambda>n. parameter_map ps n = None) (map fst bindings);
          missing = filter (\<lambda>n. map_of bindings n = None) (map pi_name (filter pi_required ps)) in
      if unknown \<noteq> [] then Inl (compile_error (label @ '' contains bindings for unknown parameters: '' @ join_with '', '' (sort unknown)))
      else if missing \<noteq> [] then Inl (compile_error (label @ '' is missing required parameter bindings: '' @ join_with '', '' missing))
      else Inr ())"

section \<open>Bindings\<close>

record compiled_parameter =
  cp_key :: string
  cp_display_name :: string
  cp_description :: string
  cp_required :: bool
  cp_has_default :: bool
  cp_default :: json

text \<open>The payload of a binding; the keys \<open>has_default\<close> and \<open>default\<close> are there for operator parameters only.\<close>

record compiled_binding =
  cb_source :: binding_source
  cb_codec :: codec
  cb_required :: bool
  cb_metadata_key :: "string option"
  cb_parameter_key :: "string option"
  cb_constant :: json
  cb_default :: "(bool \<times> json) option"

text \<open>Equality of Python values: \<open>True == 1\<close>, \<open>False == 0\<close>, and dictionaries regardless of order.\<close>

fun bools_as_ints :: "json \<Rightarrow> json" where
  "bools_as_ints (JBool b) = JInt (if b then 1 else 0)"
| "bools_as_ints (JArr xs) = JArr (map bools_as_ints xs)"
| "bools_as_ints (JObj kvs) = JObj (map (\<lambda>(k, v). (k, bools_as_ints v)) kvs)"
| "bools_as_ints j = j"

definition py_equal :: "json \<Rightarrow> json \<Rightarrow> bool" where
  "py_equal a b \<longleftrightarrow> sort_keys (bools_as_ints a) = sort_keys (bools_as_ints b)"

definition same_parameter :: "compiled_parameter \<Rightarrow> compiled_parameter \<Rightarrow> bool" where
  "same_parameter p q \<longleftrightarrow> cp_key p = cp_key q \<and> cp_display_name p = cp_display_name q \<and> cp_description p = cp_description q \<and>
     cp_required p = cp_required q \<and> cp_has_default p = cp_has_default q \<and> py_equal (cp_default p) (cp_default q)"

definition compiled_parameter_of :: "parameter_info \<Rightarrow> parameter_spec \<Rightarrow> compiled_parameter" where
  "compiled_parameter_of p s =
     \<lparr>cp_key = os_key s, cp_display_name = (if os_display_name s = [] then os_key s else os_display_name s), cp_description = os_description s,
      cp_required = (os_required s \<or> pi_required p), cp_has_default = os_has_default s, cp_default = os_default s\<rparr>"

type_synonym parameter_table = "(string, compiled_parameter) dict"

definition compile_binding :: "parameter_info \<Rightarrow> argument_binding \<Rightarrow> parameter_table \<Rightarrow> (compiled_binding \<times> parameter_table) result" where
  "compile_binding p b tab =
     (let payload = \<lparr>cb_source = ab_source b, cb_codec = ab_codec b, cb_required = pi_required p, cb_metadata_key = ab_metadata_key b,
                     cb_parameter_key = None, cb_constant = ab_constant b, cb_default = None\<rparr> in
      if ab_source b = OPERATOR_PARAMETER then
        (case ab_parameter b of
           None \<Rightarrow> Inl (PyExn ''AssertionError'' [])
         | Some s \<Rightarrow>
             let compiled = compiled_parameter_of p s in
             if (case map_of tab (os_key s) of None \<Rightarrow> False | Some existing \<Rightarrow> \<not> same_parameter existing compiled) then
               Inl (compile_error (''conflicting definitions for operator parameter '' @ os_key s))
             else Inr (payload\<lparr>cb_required := cp_required compiled, cb_parameter_key := Some (os_key s),
                         cb_default := Some (cp_has_default compiled, cp_default compiled)\<rparr>,
                       AList.update (os_key s) compiled tab))
      else Inr (payload, tab))"

fun compile_bindings :: "parameter_info list \<Rightarrow> (string, argument_binding) dict \<Rightarrow> parameter_table \<Rightarrow>
    ((string, compiled_binding) dict \<times> parameter_table) result" where
  "compile_bindings ps [] tab = Inr ([], tab)"
| "compile_bindings ps ((name, b) # bs) tab =
     (case parameter_map ps name of
        None \<Rightarrow> Inl (key_error name)
      | Some p \<Rightarrow>
          result_bind (compile_binding p b tab) (\<lambda>(c, tab1).
          map_sum id (\<lambda>(cs, tab2). ((name, c) # cs, tab2)) (compile_bindings ps bs tab1)))"

section \<open>Plans\<close>

record target_payload =
  tp_kind :: callable_kind
  tp_module :: string
  tp_qualname :: string
  tp_class_target :: "string option"
  tp_method_name :: "string option"
  tp_class :: "(string \<times> string) option"

definition make_target_payload :: "callable_info \<Rightarrow> target_payload result" where
  "make_target_payload c =
     (let payload = \<lparr>tp_kind = ca_kind c, tp_module = ca_module c, tp_qualname = ca_qualname c, tp_class_target = ca_class_target c,
                     tp_method_name = ca_method_name c, tp_class = None\<rparr> in
      if blank (ca_class_target c) then Inr payload
      else let t = the (ca_class_target c) in
        if CHR '':'' \<in> set t then
          Inr (payload\<lparr>tp_class := Some (takeWhile (\<lambda>x. x \<noteq> CHR '':'') t, tl (dropWhile (\<lambda>x. x \<noteq> CHR '':'') t))\<rparr>)
        else Inl (invalid ''not enough values to unpack (expected 2, got 1)''))"

record execution_plan =
  ep_source_revision :: string
  ep_source_ref :: "string option"
  ep_python_path :: string
  ep_target :: target_payload
  ep_constructor_arguments :: "(string, compiled_binding) dict"
  ep_arguments :: "(string, compiled_binding) dict"
  ep_output :: output_spec
  ep_parameters :: "compiled_parameter list"
  ep_input_metadata :: "string list"
  ep_output_metadata :: "string list"
  ep_contract_sha256 :: string

definition metadata_keys :: "compiled_binding list \<Rightarrow> string list" where
  "metadata_keys bs = sort (remdups (map (\<lambda>b. the (cb_metadata_key b))
     (filter (\<lambda>b. cb_source b = INPUT_METADATA \<and> \<not> blank (cb_metadata_key b)) bs)))"

text \<open>The constructor parameters that a contract has to bind, lines 187 to 199.\<close>

definition constructor_parameters :: "virtual_contract \<Rightarrow> project_catalog \<Rightarrow> callable_info \<Rightarrow> parameter_info list result" where
  "constructor_parameters contract catalog c =
     (if ca_kind c = INSTANCE_METHOD then
        (case class_by_target catalog (text_or (ca_class_target c) []) of
           None \<Rightarrow> Inl (compile_error ''selected class not found'')
         | Some k \<Rightarrow>
             map_sum id (\<lambda>_. cl_constructor k)
               (validate_bindings (cl_constructor k) (vc_constructor_arguments contract) ''constructor arguments''))
      else if vc_constructor_arguments contract \<noteq> [] then Inl (compile_error ''constructor arguments are only valid for instance methods'')
      else Inr [])"

text \<open>Lines 167 to 185: the project must be the one of the contract and the callable supported.\<close>

definition select_callable :: "virtual_contract \<Rightarrow> project_catalog \<Rightarrow> callable_info result" where
  "select_callable contract catalog =
     (if so_source_revision (vc_source contract) \<noteq> pc_source_revision catalog then
        Inl (compile_error ''source revision does not match the immutable source snapshot'')
      else if so_python_path (vc_source contract) \<noteq> pc_python_path catalog then
        Inl (compile_error ''contract python_path does not match the analyzed project'')
      else if list_ex (\<lambda>w. cw_severity w = ''error'') (pc_warnings catalog) then
        Inl (compile_error (''source contains Python syntax errors: '' @
          join_with ''; '' (map (\<lambda>w. cw_file w @ '':'' @ int_text (case cw_line w of None \<Rightarrow> 0 | Some n \<Rightarrow> n) @ '': '' @ cw_message w)
            (filter (\<lambda>w. cw_severity w = ''error'') (pc_warnings catalog)))))
      else case callable_by_id catalog (vc_callable_id contract) of
        None \<Rightarrow> Inl (compile_error (''selected callable not found: '' @ vc_callable_id contract))
      | Some c \<Rightarrow>
          if callable_support_reasons c catalog \<noteq> [] then Inl (compile_error (join_with ''; '' (callable_support_reasons c catalog)))
          else Inr c)"

definition compile_virtual_contract :: "(bytes \<Rightarrow> string) \<Rightarrow> virtual_contract \<Rightarrow> project_catalog \<Rightarrow> execution_plan result" where
  "compile_virtual_contract h contract catalog =
     result_bind (select_callable contract catalog) (\<lambda>c.
     result_bind (constructor_parameters contract catalog c) (\<lambda>constructor_defs.
     result_bind (validate_bindings (ca_parameters c) (vc_arguments contract) ''invoke arguments'') (\<lambda>_.
     result_bind (compile_bindings constructor_defs (vc_constructor_arguments contract) []) (\<lambda>(constructor_arguments, tab1).
     result_bind (compile_bindings (ca_parameters c) (vc_arguments contract) tab1) (\<lambda>(arguments, tab2).
     result_bind (make_target_payload c) (\<lambda>target.
     Inr \<lparr>ep_source_revision = so_source_revision (vc_source contract), ep_source_ref = so_source_ref (vc_source contract),
          ep_python_path = so_python_path (vc_source contract), ep_target = target, ep_constructor_arguments = constructor_arguments,
          ep_arguments = arguments, ep_output = vc_output contract, ep_parameters = sort_key cp_key (map snd tab2),
          ep_input_metadata = metadata_keys (map snd constructor_arguments @ map snd arguments),
          ep_output_metadata = sort (map fst (out_metadata (vc_output contract))), ep_contract_sha256 = contract_sha256 h contract\<rparr>))))))"

end
