(* ===== verification/Operator_Adapter.thy ===== *)
theory Operator_Adapter
  imports Contract_Compiler
begin

text \<open>
  The program that a plan is embedded into: the template of \<^verbatim>\<open>operator_authoring/adapter_generator.py\<close>, which the
  runner calls as \<open>process\<close>, and the template of \<^verbatim>\<open>publish_service/backends/nifi_native.py\<close>, which NiFi calls as
  \<open>transform\<close>.  The values of the user's program are a type parameter; what Python does with them
  (\<open>isinstance\<close>, indexing, \<open>getattr\<close>, \<open>str\<close>, \<open>json.dumps\<close>), decoding, JSON parsing and the user's callables are
  the parameter \<open>py_world\<close>.  A text handed to NiFi is its UTF-8 encoding.  \<open>sys.path\<close> is restored in a \<open>finally\<close>
  clause, so the path is an argument only.
\<close>

record 'v py_world =
  pv_of_bytes :: "bytes \<Rightarrow> 'v"
  pv_of_json :: "json \<Rightarrow> 'v"
  pv_is_none :: "'v \<Rightarrow> bool"
  pv_bytes :: "'v \<Rightarrow> bytes option"
  pv_bytearray :: "'v \<Rightarrow> bytes option"
  pv_str :: "'v \<Rightarrow> string option"
  pv_is_dict :: "'v \<Rightarrow> bool"
  pv_item :: "'v \<Rightarrow> path_item \<Rightarrow> 'v result"
  pv_attr :: "'v \<Rightarrow> string \<Rightarrow> 'v result"
  pv_text :: "'v \<Rightarrow> string"
  pv_dumps :: "'v \<Rightarrow> string result"
  pv_decode :: "bytes \<Rightarrow> string result"
  pv_loads :: "string \<Rightarrow> json result"
  pv_function :: "path list \<Rightarrow> string \<Rightarrow> string \<Rightarrow> (string, 'v) dict \<Rightarrow> 'v result"
  pv_method :: "path list \<Rightarrow> string \<Rightarrow> string \<Rightarrow> (string, 'v) dict \<Rightarrow> string \<Rightarrow> (string, 'v) dict \<Rightarrow> 'v result"

section \<open>Arguments\<close>

datatype raw = RawBytes bytes | RawStr string

definition decode :: "'v py_world \<Rightarrow> raw \<Rightarrow> codec \<Rightarrow> 'v result" where
  "decode w r c =
     (case c of
        BYTES \<Rightarrow> Inr (pv_of_bytes w (case r of RawBytes b \<Rightarrow> b | RawStr s \<Rightarrow> s))
      | TEXT \<Rightarrow> map_sum id (\<lambda>s. pv_of_json w (JStr s)) (case r of RawBytes b \<Rightarrow> pv_decode w b | RawStr s \<Rightarrow> Inr s)
      | JSON \<Rightarrow> result_bind (case r of RawBytes b \<Rightarrow> pv_decode w b | RawStr s \<Rightarrow> Inr s) (\<lambda>s. map_sum id (pv_of_json w) (pv_loads w s)))"

text \<open>The value of a binding; \<open>None\<close> is \<open>_MISSING\<close>.\<close>

definition resolve_binding :: "'v py_world \<Rightarrow> compiled_binding \<Rightarrow> bytes \<Rightarrow> (string, string) dict \<Rightarrow> (string, string) dict \<Rightarrow> 'v option result" where
  "resolve_binding w b content attributes parameters =
     (case cb_source b of
        INPUT_PAYLOAD \<Rightarrow> map_sum id Some (decode w (RawBytes content) (cb_codec b))
      | INPUT_METADATA \<Rightarrow>
          (let key = (case cb_metadata_key b of None \<Rightarrow> [] | Some k \<Rightarrow> k) in
           case map_of attributes key of
             None \<Rightarrow> if cb_required b then Inl (PyExn ''ValueError'' (''required input metadata is missing: '' @ key)) else Inr None
           | Some v \<Rightarrow> map_sum id Some (decode w (RawStr v) (cb_codec b)))
      | OPERATOR_PARAMETER \<Rightarrow>
          (let key = (case cb_parameter_key b of None \<Rightarrow> [] | Some k \<Rightarrow> k) in
           case map_of parameters key of
             Some v \<Rightarrow> map_sum id Some (decode w (RawStr v) (cb_codec b))
           | None \<Rightarrow>
               (case cb_default b of
                  Some (True, d) \<Rightarrow> Inr (Some (pv_of_json w d))
                | _ \<Rightarrow> if cb_required b then Inl (PyExn ''ValueError'' (''required operator parameter is missing: '' @ key)) else Inr None))
      | CONSTANT \<Rightarrow> Inr (Some (pv_of_json w (cb_constant b))))"

fun build_kwargs :: "'v py_world \<Rightarrow> (string, compiled_binding) dict \<Rightarrow> bytes \<Rightarrow> (string, string) dict \<Rightarrow> (string, string) dict \<Rightarrow>
    (string, 'v) dict result" where
  "build_kwargs w [] content attributes parameters = Inr []"
| "build_kwargs w ((name, b) # bs) content attributes parameters =
     result_bind (resolve_binding w b content attributes parameters) (\<lambda>v.
     map_sum id (\<lambda>kw. case v of None \<Rightarrow> kw | Some x \<Rightarrow> (name, x) # kw) (build_kwargs w bs content attributes parameters))"

section \<open>The call and its result\<close>

definition runtime_python_root :: "path \<Rightarrow> execution_plan \<Rightarrow> path result" where
  "runtime_python_root release_root plan =
     (let runtime_root = release_root @ [''runtime'']; root = resolve_from runtime_root (path_parts (ep_python_path plan)) in
      if take (length runtime_root) root = runtime_root then Inr root
      else Inl (PyExn ''RuntimeError'' ''compiled python_path escapes runtime root''))"

definition call_target :: "'v py_world \<Rightarrow> path list \<Rightarrow> target_payload \<Rightarrow> (string, 'v) dict \<Rightarrow> (string, 'v) dict \<Rightarrow> 'v result" where
  "call_target w sys_path t constructor_kwargs invoke_kwargs =
     (if tp_kind t = INSTANCE_METHOD then
        (case (tp_class t, tp_method_name t) of
           (Some (m, q), Some method) \<Rightarrow> pv_method w sys_path m q constructor_kwargs method invoke_kwargs
         | (None, _) \<Rightarrow> Inl (key_error ''class_module'')
         | _ \<Rightarrow> Inl (PyExn ''TypeError'' ''attribute name must be string''))
      else pv_function w sys_path (tp_module t) (tp_qualname t) invoke_kwargs)"

fun extract_path :: "'v py_world \<Rightarrow> 'v \<Rightarrow> path_item list \<Rightarrow> 'v result" where
  "extract_path w v [] = Inr v"
| "extract_path w v (p # ps) =
     result_bind (case p of Index i \<Rightarrow> pv_item w v p | Key k \<Rightarrow> if pv_is_dict w v then pv_item w v p else pv_attr w v k) (\<lambda>u. extract_path w u ps)"

definition output_value_of :: "'v py_world \<Rightarrow> 'v \<Rightarrow> output_value \<Rightarrow> 'v result" where
  "output_value_of w r s =
     (case ov_source s of RETURN \<Rightarrow> Inr r | RETURN_PATH \<Rightarrow> extract_path w r (ov_path s) | OUTPUT_CONSTANT \<Rightarrow> Inr (pv_of_json w (ov_value s)))"

definition encode_payload :: "'v py_world \<Rightarrow> 'v \<Rightarrow> codec \<Rightarrow> bytes result" where
  "encode_payload w v c =
     (case c of
        BYTES \<Rightarrow>
          (case (pv_bytes w v, pv_bytearray w v, pv_str w v) of
             (Some b, _, _) \<Rightarrow> Inr b
           | (None, Some b, _) \<Rightarrow> Inr b
           | (None, None, Some s) \<Rightarrow> Inr s
           | _ \<Rightarrow> Inl (PyExn ''TypeError'' ''bytes output codec expects bytes, bytearray or str''))
      | TEXT \<Rightarrow> Inr (pv_text w v)
      | JSON \<Rightarrow> pv_dumps w v)"

definition metadata_text :: "'v py_world \<Rightarrow> 'v \<Rightarrow> string result" where
  "metadata_text w v =
     (case (pv_str w v, pv_bytes w v) of (Some s, _) \<Rightarrow> Inr s | (None, Some b) \<Rightarrow> pv_decode w b | _ \<Rightarrow> pv_dumps w v)"

fun output_metadata_of :: "'v py_world \<Rightarrow> 'v \<Rightarrow> (string, output_value) dict \<Rightarrow> (string, string) dict result" where
  "output_metadata_of w r [] = Inr []"
| "output_metadata_of w r ((name, s) # ss) =
     result_bind (result_bind (output_value_of w r s) (metadata_text w)) (\<lambda>t. map_sum id (Cons (name, t)) (output_metadata_of w r ss))"

text \<open>What \<open>process\<close> returns: the content and the attributes, with the relationship \<open>success\<close>.\<close>

definition process :: "'v py_world \<Rightarrow> path \<Rightarrow> path list \<Rightarrow> execution_plan \<Rightarrow> bytes \<Rightarrow> (string, string) dict \<Rightarrow> (string, string) dict \<Rightarrow>
    (bytes \<times> (string, string) dict) result" where
  "process w release_root sys_path plan content attributes parameters =
     result_bind (runtime_python_root release_root plan) (\<lambda>root.
     result_bind (build_kwargs w (ep_constructor_arguments plan) content attributes parameters) (\<lambda>constructor_kwargs.
     result_bind (build_kwargs w (ep_arguments plan) content attributes parameters) (\<lambda>invoke_kwargs.
     result_bind (call_target w (root # sys_path) (ep_target plan) constructor_kwargs invoke_kwargs) (\<lambda>r.
     result_bind (output_value_of w r (out_payload (ep_output plan))) (\<lambda>payload.
     result_bind
       (if pv_is_none w payload then Inr (if out_none_policy (ep_output plan) = KEEP_ORIGINAL then content else [])
        else encode_payload w payload (ov_codec (out_payload (ep_output plan)))) (\<lambda>out_content.
     map_sum id (\<lambda>out_attributes. (out_content, out_attributes)) (output_metadata_of w r (out_metadata (ep_output plan)))))))))"

section \<open>The NiFi processor\<close>

datatype flow_content = FlowBytes bytes | FlowByteArray bytes

definition flow_bytes :: "flow_content \<Rightarrow> bytes" where
  "flow_bytes f = (case f of FlowBytes b \<Rightarrow> b | FlowByteArray b \<Rightarrow> b)"

definition native_decode :: "'v py_world \<Rightarrow> flow_content + string \<Rightarrow> codec \<Rightarrow> 'v result" where
  "native_decode w r c = decode w (case r of Inl f \<Rightarrow> RawBytes (flow_bytes f) | Inr s \<Rightarrow> RawStr s) c"

text \<open>A value of the flow file or of the context may be absent; \<open>getValue()\<close> of a property is what NiFi holds for it.\<close>

definition native_resolve_binding :: "'v py_world \<Rightarrow> compiled_binding \<Rightarrow> flow_content \<Rightarrow> (string, string option) dict \<Rightarrow> (string, string) dict \<Rightarrow>
    'v option result" where
  "native_resolve_binding w b content metadata parameters =
     (case cb_source b of
        INPUT_PAYLOAD \<Rightarrow> map_sum id Some (native_decode w (Inl content) (cb_codec b))
      | INPUT_METADATA \<Rightarrow>
          (let key = (case cb_metadata_key b of None \<Rightarrow> [] | Some k \<Rightarrow> k) in
           case map_of metadata key of
             Some (Some v) \<Rightarrow> map_sum id Some (native_decode w (Inr v) (cb_codec b))
           | _ \<Rightarrow> if cb_required b then Inl (PyExn ''ValueError'' (''required input metadata is missing: '' @ key)) else Inr None)
      | OPERATOR_PARAMETER \<Rightarrow>
          (let key = (case cb_parameter_key b of None \<Rightarrow> [] | Some k \<Rightarrow> k) in
           case map_of parameters key of
             Some v \<Rightarrow> map_sum id Some (native_decode w (Inr v) (cb_codec b))
           | None \<Rightarrow>
               (case cb_default b of
                  Some (True, d) \<Rightarrow> Inr (Some (pv_of_json w d))
                | _ \<Rightarrow> if cb_required b then Inl (PyExn ''ValueError'' (''required operator parameter is missing: '' @ key)) else Inr None))
      | CONSTANT \<Rightarrow> Inr (Some (pv_of_json w (cb_constant b))))"

fun native_build_kwargs :: "'v py_world \<Rightarrow> (string, compiled_binding) dict \<Rightarrow> flow_content \<Rightarrow> (string, string option) dict \<Rightarrow> (string, string) dict \<Rightarrow>
    (string, 'v) dict result" where
  "native_build_kwargs w [] content metadata parameters = Inr []"
| "native_build_kwargs w ((name, b) # bs) content metadata parameters =
     result_bind (native_resolve_binding w b content metadata parameters) (\<lambda>v.
     map_sum id (\<lambda>kw. case v of None \<Rightarrow> kw | Some x \<Rightarrow> (name, x) # kw) (native_build_kwargs w bs content metadata parameters))"

text \<open>The default of a property descriptor, as text.\<close>

definition descriptor_default :: "'v py_world \<Rightarrow> compiled_parameter \<Rightarrow> string option result" where
  "descriptor_default w p =
     (if cp_has_default p then
        (case cp_default p of JStr s \<Rightarrow> Inr (Some s) | d \<Rightarrow> map_sum id Some (pv_dumps w (pv_of_json w d)))
      else Inr None)"

record property_descriptor =
  pd_name :: string
  pd_description :: string
  pd_default_value :: "string option"
  pd_required :: bool

fun native_descriptors :: "'v py_world \<Rightarrow> compiled_parameter list \<Rightarrow> property_descriptor list result" where
  "native_descriptors w [] = Inr []"
| "native_descriptors w (p # ps) =
     result_bind (descriptor_default w p) (\<lambda>d.
     map_sum id (Cons \<lparr>pd_name = cp_key p,
         pd_description = (if cp_description p \<noteq> [] then cp_description p else if cp_display_name p \<noteq> [] then cp_display_name p else cp_key p),
         pd_default_value = d, pd_required = cp_required p\<rparr>)
       (native_descriptors w ps))"

definition native_parameters :: "compiled_parameter list \<Rightarrow> (string \<Rightarrow> string option) \<Rightarrow> (string, string) dict" where
  "native_parameters props get_property =
     List.map_filter (\<lambda>p. map_option (\<lambda>v. (cp_key p, v)) (get_property (cp_key p))) props"

text \<open>A \<open>FlowFileTransformResult\<close>: no contents means that NiFi keeps those of the flow file.\<close>

definition transform :: "'v py_world \<Rightarrow> path \<Rightarrow> path list \<Rightarrow> execution_plan \<Rightarrow> compiled_parameter list \<Rightarrow> (string \<Rightarrow> string option) \<Rightarrow> flow_content \<Rightarrow>
    (string, string option) dict \<Rightarrow> (bytes option \<times> (string, string) dict option) result" where
  "transform w package_root sys_path plan props get_property content metadata =
     (let parameters = native_parameters props get_property in
     result_bind (runtime_python_root package_root plan) (\<lambda>root.
     result_bind (native_build_kwargs w (ep_constructor_arguments plan) content metadata parameters) (\<lambda>constructor_kwargs.
     result_bind (native_build_kwargs w (ep_arguments plan) content metadata parameters) (\<lambda>invoke_kwargs.
     result_bind (call_target w (root # sys_path) (ep_target plan) constructor_kwargs invoke_kwargs) (\<lambda>r.
     result_bind (output_value_of w r (out_payload (ep_output plan))) (\<lambda>payload.
     result_bind
       (if pv_is_none w payload \<and> out_none_policy (ep_output plan) = KEEP_ORIGINAL then Inr None
        else if pv_is_none w payload then Inr (Some [])
        else map_sum id Some (encode_payload w payload (ov_codec (out_payload (ep_output plan))))) (\<lambda>out_content.
     map_sum id (\<lambda>out_metadata. (out_content, if out_metadata = [] then None else Some out_metadata))
       (output_metadata_of w r (out_metadata (ep_output plan))))))))))"

section \<open>Calls match signatures\<close>

text \<open>Keyword arguments that a signature accepts: nothing unknown, nothing required left out.\<close>

definition accepts :: "parameter_info list \<Rightarrow> (string, 'v) dict \<Rightarrow> bool" where
  "accepts ps kw \<longleftrightarrow> distinct (map fst kw) \<and> fst ` set kw \<subseteq> pi_name ` set ps \<and> (\<forall>p\<in>set ps. pi_required p \<longrightarrow> pi_name p \<in> fst ` set kw)"

lemma parameter_map_distinct:
  "distinct (map pi_name ps) \<Longrightarrow> p \<in> set ps \<Longrightarrow> parameter_map ps (pi_name p) = Some p"
  unfolding parameter_map_def by (rule map_of_is_SomeI) (auto simp: comp_def rev_map [symmetric])

lemma parameter_map_Some: "parameter_map ps n = Some p \<Longrightarrow> p \<in> set ps \<and> pi_name p = n"
  unfolding parameter_map_def by (auto dest!: map_of_SomeD)

lemma validate_bindings_ok:
  assumes "validate_bindings ps bindings label = Inr ()"
  shows "\<forall>n\<in>fst ` set bindings. parameter_map ps n \<noteq> None" "\<forall>p\<in>set ps. pi_required p \<longrightarrow> pi_name p \<in> fst ` set bindings"
  using assms by (auto simp: validate_bindings_def Let_def filter_empty_conv map_of_eq_None_iff split: if_splits)

lemma compile_binding_required:
  "compile_binding p b tab = Inr (c, tab') \<Longrightarrow> pi_required p \<Longrightarrow> cb_required c"
  by (auto simp: compile_binding_def Let_def compiled_parameter_of_def split: if_splits option.splits)

text \<open>Compiled bindings keep the names, and a required parameter stays required.\<close>

lemma compile_bindings_names:
  "compile_bindings ps bs tab = Inr (cs, tab') \<Longrightarrow> map fst cs = map fst bs \<and>
     (\<forall>(n, c)\<in>set cs. \<forall>p. parameter_map ps n = Some p \<longrightarrow> pi_required p \<longrightarrow> cb_required c)"
proof (induction ps bs tab arbitrary: cs rule: compile_bindings.induct)
  case (2 ps name b bs tab)
  from "2.prems" obtain p c tab1 cs' where p: "parameter_map ps name = Some p" "compile_binding p b tab = Inr (c, tab1)"
    "compile_bindings ps bs tab1 = Inr (cs', tab')" "cs = (name, c) # cs'"
    by (auto simp: result_bind_ok map_sum_Inr split: option.splits)
  show ?case using "2.IH" [OF p(1) p(3)] compile_binding_required [OF p(2)] p(1,4) by auto
qed simp

text \<open>A required binding has a value or the adapter raises.\<close>

lemma resolve_required: "resolve_binding w b content attributes parameters = Inr v \<Longrightarrow> cb_required b \<Longrightarrow> v \<noteq> None"
  by (auto simp: resolve_binding_def map_sum_Inr split: binding_source.splits option.splits prod.splits if_splits bool.splits)

lemma build_kwargs_names:
  "build_kwargs w bs content attributes parameters = Inr kw \<Longrightarrow> fst ` set kw \<subseteq> fst ` set bs \<and>
     (\<forall>(n, b)\<in>set bs. cb_required b \<longrightarrow> n \<in> fst ` set kw) \<and> (distinct (map fst bs) \<longrightarrow> distinct (map fst kw))"
proof (induction w bs content attributes parameters arbitrary: kw rule: build_kwargs.induct)
  case (2 w name b bs content attributes parameters)
  from "2.prems" obtain v kw' where v: "resolve_binding w b content attributes parameters = Inr v"
    "build_kwargs w bs content attributes parameters = Inr kw'" "kw = (case v of None \<Rightarrow> kw' | Some x \<Rightarrow> (name, x) # kw')"
    by (auto simp: result_bind_ok map_sum_Inr)
  show ?case using "2.IH" [OF v(2)] resolve_required [OF v(1)] v(3) by (auto split: option.splits)
qed simp

lemma compiled_call_accepted:
  assumes "validate_bindings ps bindings label = Inr ()" "compile_bindings ps bindings tab = Inr (cs, tab')"
    and "distinct (map pi_name ps)" "distinct (map fst bindings)" "build_kwargs w cs content attributes parameters = Inr kw"
  shows "accepts ps kw"
proof -
  note v = validate_bindings_ok [OF assms(1)] and c = compile_bindings_names [OF assms(2)] and k = build_kwargs_names [OF assms(5)]
  have names: "fst ` set cs = fst ` set bindings" using c by (metis list.set_map)
  have "pi_name p \<in> fst ` set kw" if p: "p \<in> set ps" "pi_required p" for p
  proof -
    obtain b where b: "(pi_name p, b) \<in> set cs" using v(2) p names by force
    then have "cb_required b" using c p parameter_map_distinct [OF assms(3) p(1)] by blast
    then show ?thesis using k b by blast
  qed
  moreover have "n \<in> pi_name ` set ps" if "n \<in> fst ` set kw" for n
  proof -
    have "n \<in> fst ` set bindings" using k names that by blast
    then obtain p where "parameter_map ps n = Some p" using v(1) by blast
    then show ?thesis using parameter_map_Some by blast
  qed
  moreover have "distinct (map fst cs)" using c assms(4) by simp
  ultimately show ?thesis using k by (auto simp: accepts_def)
qed

text \<open>A world in which the callable and its class check their arguments first, as Python does.\<close>

definition signature_error :: exn where
  "signature_error = PyExn ''TypeError'' ''signature mismatch''"

definition signed :: "parameter_info list \<Rightarrow> parameter_info list \<Rightarrow> 'v py_world \<Rightarrow> 'v py_world" where
  "signed cps ps w = w\<lparr>
     pv_function := (\<lambda>path m q kw. if accepts ps kw then pv_function w path m q kw else Inl signature_error),
     pv_method := (\<lambda>path m q ckw name kw. if accepts cps ckw \<and> accepts ps kw then pv_method w path m q ckw name kw else Inl signature_error)\<rparr>"

lemma signed_fields:
  "pv_of_bytes (signed cps ps w) = pv_of_bytes w" "pv_of_json (signed cps ps w) = pv_of_json w" "pv_is_none (signed cps ps w) = pv_is_none w"
  "pv_bytes (signed cps ps w) = pv_bytes w" "pv_bytearray (signed cps ps w) = pv_bytearray w" "pv_str (signed cps ps w) = pv_str w"
  "pv_is_dict (signed cps ps w) = pv_is_dict w" "pv_item (signed cps ps w) = pv_item w" "pv_attr (signed cps ps w) = pv_attr w"
  "pv_text (signed cps ps w) = pv_text w" "pv_dumps (signed cps ps w) = pv_dumps w" "pv_decode (signed cps ps w) = pv_decode w"
  "pv_loads (signed cps ps w) = pv_loads w"
  by (simp_all add: signed_def)

lemma signed_kwargs: "build_kwargs (signed cps ps w) bs content attributes parameters = build_kwargs w bs content attributes parameters"
proof (induction bs)
  case (Cons x bs)
  have "resolve_binding (signed cps ps w) = resolve_binding w" unfolding resolve_binding_def decode_def signed_fields by (rule refl)
  then show ?case using Cons by (cases x) simp
qed simp

lemma signed_extract: "extract_path (signed cps ps w) v p = extract_path w v p"
proof (induction p arbitrary: v)
  case (Cons x p)
  show ?case unfolding extract_path.simps signed_fields Cons.IH by (rule refl)
qed simp

lemma signed_output: "output_value_of (signed cps ps w) = output_value_of w" "encode_payload (signed cps ps w) = encode_payload w"
  unfolding output_value_of_def encode_payload_def signed_fields signed_extract by (rule refl)+

lemma signed_metadata: "output_metadata_of (signed cps ps w) r ss = output_metadata_of w r ss"
proof (induction ss)
  case (Cons x ss)
  have "metadata_text (signed cps ps w) = metadata_text w" unfolding metadata_text_def signed_fields by (rule refl)
  then show ?case using Cons by (cases x) (simp add: signed_output)
qed simp

lemmas signed_same = signed_fields signed_kwargs signed_output signed_metadata

section \<open>Properties\<close>

text \<open>The parameters of the class that an instance method belongs to.\<close>

definition class_parameters :: "project_catalog \<Rightarrow> callable_info \<Rightarrow> parameter_info list" where
  "class_parameters catalog c =
     (if ca_kind c = INSTANCE_METHOD then (case class_by_target catalog (text_or (ca_class_target c) []) of None \<Rightarrow> [] | Some k \<Rightarrow> cl_constructor k) else [])"

lemma compile_ok:
  assumes "compile_virtual_contract h contract catalog = Inr plan"
  obtains c tab1 tab2 where "callable_by_id catalog (vc_callable_id contract) = Some c" "callable_support_reasons c catalog = []"
    "ca_kind c = INSTANCE_METHOD \<Longrightarrow> validate_bindings (class_parameters catalog c) (vc_constructor_arguments contract) ''constructor arguments'' = Inr ()"
    "validate_bindings (ca_parameters c) (vc_arguments contract) ''invoke arguments'' = Inr ()"
    "compile_bindings (class_parameters catalog c) (vc_constructor_arguments contract) [] = Inr (ep_constructor_arguments plan, tab1)"
    "compile_bindings (ca_parameters c) (vc_arguments contract) tab1 = Inr (ep_arguments plan, tab2)"
    "make_target_payload c = Inr (ep_target plan)" "ep_python_path plan = so_python_path (vc_source contract)"
proof -
  from assms obtain c cps tab1 tab2 where c: "select_callable contract catalog = Inr c" "constructor_parameters contract catalog c = Inr cps"
    "validate_bindings (ca_parameters c) (vc_arguments contract) ''invoke arguments'' = Inr ()"
    "compile_bindings cps (vc_constructor_arguments contract) [] = Inr (ep_constructor_arguments plan, tab1)"
    "compile_bindings (ca_parameters c) (vc_arguments contract) tab1 = Inr (ep_arguments plan, tab2)"
    "make_target_payload c = Inr (ep_target plan)" "ep_python_path plan = so_python_path (vc_source contract)"
    by (auto simp: compile_virtual_contract_def result_bind_ok)
  have sel: "callable_by_id catalog (vc_callable_id contract) = Some c" "callable_support_reasons c catalog = []"
    using c(1) by (auto simp: select_callable_def split: if_splits option.splits)
  have cps: "cps = class_parameters catalog c"
    using c(2) by (auto simp: constructor_parameters_def class_parameters_def map_sum_Inr split: if_splits option.splits)
  have "validate_bindings (class_parameters catalog c) (vc_constructor_arguments contract) ''constructor arguments'' = Inr ()" if "ca_kind c = INSTANCE_METHOD"
    using c(2) that by (auto simp: constructor_parameters_def class_parameters_def map_sum_Inr split: option.splits)
  then show thesis using that [OF sel] c cps by blast
qed

text \<open>C25: The generated adapter never calls the user's callable, or the constructor of its class, with arguments that the analyzed
  signature does not accept: whatever the input, it raises a missing-input error before the call, or every required parameter is passed
  and no unknown one.  Adding Python's own argument check in front of the callables changes nothing.\<close>

theorem adapter_calls_match_signature:
  assumes "compile_virtual_contract h contract catalog = Inr plan" "callable_by_id catalog (vc_callable_id contract) = Some c"
    and "distinct (map pi_name (ca_parameters c))" "distinct (map pi_name (class_parameters catalog c))"
    and "distinct (map fst (vc_arguments contract))" "distinct (map fst (vc_constructor_arguments contract))"
  shows "process (signed (class_parameters catalog c) (ca_parameters c) w) root sys_path plan content attributes parameters =
    process w root sys_path plan content attributes parameters"
proof -
  let ?w = "signed (class_parameters catalog c) (ca_parameters c) w"
  obtain tab1 tab2 where v: "ca_kind c = INSTANCE_METHOD \<Longrightarrow> validate_bindings (class_parameters catalog c) (vc_constructor_arguments contract) ''constructor arguments'' = Inr ()"
    "validate_bindings (ca_parameters c) (vc_arguments contract) ''invoke arguments'' = Inr ()"
    "compile_bindings (class_parameters catalog c) (vc_constructor_arguments contract) [] = Inr (ep_constructor_arguments plan, tab1)"
    "compile_bindings (ca_parameters c) (vc_arguments contract) tab1 = Inr (ep_arguments plan, tab2)"
    "make_target_payload c = Inr (ep_target plan)"
    by (rule compile_ok [OF assms(1)]) (use assms(2) in auto)
  have "tp_kind t = ca_kind c" if "make_target_payload c = Inr t" for t
    using that by (auto simp: make_target_payload_def Let_def split: if_splits)
  note kind = this [OF v(5)]
  have "call_target ?w path (ep_target plan) ckw kw = call_target w path (ep_target plan) ckw kw"
    if "build_kwargs w (ep_constructor_arguments plan) content attributes parameters = Inr ckw"
      "build_kwargs w (ep_arguments plan) content attributes parameters = Inr kw" for path ckw kw
  proof -
    have "accepts (ca_parameters c) kw" by (rule compiled_call_accepted [OF v(2,4) assms(3,5) that(2)])
    moreover have "accepts (class_parameters catalog c) ckw" if "ca_kind c = INSTANCE_METHOD"
      by (rule compiled_call_accepted [OF v(1) [OF that] v(3) assms(4,6)]) fact
    ultimately show ?thesis using kind by (auto simp: call_target_def signed_def split: option.splits)
  qed
  then show ?thesis unfolding process_def signed_same
    by (cases "build_kwargs w (ep_constructor_arguments plan) content attributes parameters";
        cases "build_kwargs w (ep_arguments plan) content attributes parameters"; cases "runtime_python_root root plan") simp_all
qed

text \<open>What NiFi makes of a result: no contents keeps those of the flow file.\<close>

definition deliver :: "bytes \<Rightarrow> bytes option \<times> (string, string) dict option \<Rightarrow> bytes \<times> (string, string) dict" where
  "deliver original r = (case fst r of None \<Rightarrow> original | Some b \<Rightarrow> b, case snd r of None \<Rightarrow> [] | Some a \<Rightarrow> a)"

lemma deliver_result:
  "map_sum id (deliver original) (map_sum id (\<lambda>m. (None, if m = [] then None else Some m)) x) = map_sum id (\<lambda>m. (original, m)) x"
  "map_sum id (deliver original) (map_sum id (\<lambda>m. (Some b, if m = [] then None else Some m)) x) = map_sum id (\<lambda>m. (b, m)) x"
  by (cases x; simp add: deliver_def)+

text \<open>C26: The two backends compute the same.  For the same plan, flow file and parameter values, the generated NiFi processor raises what the
  generated runner operator raises, or returns its content and attributes, where no contents means those of the flow file.\<close>

theorem backends_agree:
  "map_sum id (deliver (flow_bytes content)) (transform w root sys_path plan props get_property content (map (\<lambda>(k, v). (k, Some v)) attributes)) =
   process w root sys_path plan (flow_bytes content) attributes (native_parameters props get_property)"
proof -
  have mp: "map_of (map (\<lambda>(k, v). (k, Some v)) attributes) key = map_option Some (map_of attributes key)" for key by (induction attributes) auto
  have rb: "native_resolve_binding w b content (map (\<lambda>(k, v). (k, Some v)) attributes) ps = resolve_binding w b (flow_bytes content) attributes ps" for b ps
    by (auto simp: native_resolve_binding_def resolve_binding_def native_decode_def mp Let_def split: binding_source.splits option.splits)
  have kw: "native_build_kwargs w bs content (map (\<lambda>(k, v). (k, Some v)) attributes) ps = build_kwargs w bs (flow_bytes content) attributes ps" for bs ps
    by (induction bs) (auto simp: rb)
  show ?thesis unfolding transform_def process_def kw Let_def
    by (auto simp: result_bind_def deliver_result split: sum.splits)
qed


section \<open>Witnesses\<close>

definition demo_py_world :: "json py_world" where
  "demo_py_world = \<lparr>pv_of_bytes = JStr, pv_of_json = (\<lambda>j. j), pv_is_none = (\<lambda>v. v = JNull), pv_bytes = (\<lambda>_. None), pv_bytearray = (\<lambda>_. None),
     pv_str = (\<lambda>v. case v of JStr s \<Rightarrow> Some s | _ \<Rightarrow> None), pv_is_dict = (\<lambda>v. case v of JObj _ \<Rightarrow> True | _ \<Rightarrow> False),
     pv_item = (\<lambda>_ _. Inl (key_error [])), pv_attr = (\<lambda>_ _. Inl (key_error [])), pv_text = print_json, pv_dumps = (\<lambda>v. Inr (print_json v)),
     pv_decode = Inr, pv_loads = (\<lambda>s. Inr (JStr s)), pv_function = (\<lambda>_ _ _ kw. Inr (JObj kw)), pv_method = (\<lambda>_ _ _ _ _ kw. Inr (JObj kw))\<rparr>"

definition demo_callable :: callable_info where
  "demo_callable = \<lparr>ca_id = ''m:f'', ca_module = ''m'', ca_qualname = ''f'', ca_kind = FUNCTION, ca_class_target = None, ca_method_name = None,
     ca_file = ''m.py'', ca_line = 1, ca_is_async = False, ca_decorators = [], ca_score = 10,
     ca_parameters = [\<lparr>pi_name = ''x'', pi_kind = ''POSITIONAL_OR_KEYWORD'', pi_annotation = None, pi_required = True, pi_has_default = False,
       pi_default_value = JNull, pi_default_repr = None\<rparr>], ca_return_annotation = None\<rparr>"

definition demo_project_catalog :: project_catalog where
  "demo_project_catalog = \<lparr>pc_source_revision = ''r'', pc_python_path = ''.'', pc_functions = [demo_callable], pc_classes = [], pc_warnings = []\<rparr>"

definition demo_contract :: virtual_contract where
  "demo_contract = \<lparr>vc_metadata = \<lparr>om_name = ''op'', om_display_name = ''Op'', om_description = []\<rparr>,
     vc_source = \<lparr>so_source_revision = ''r'', so_python_path = ''.'', so_source_ref = None\<rparr>, vc_callable_id = ''m:f'', vc_constructor_arguments = [],
     vc_arguments = [(''x'', \<lparr>ab_source = INPUT_METADATA, ab_codec = TEXT, ab_metadata_key = Some ''k'', ab_parameter = None, ab_constant = JNull\<rparr>)],
     vc_output = \<lparr>out_payload = \<lparr>ov_source = RETURN, ov_path = [], ov_codec = JSON, ov_value = JNull\<rparr>, out_metadata = [], out_none_policy = KEEP_ORIGINAL\<rparr>\<rparr>"

lemma demo_compiles:
  "(case compile_virtual_contract (\<lambda>t. t) demo_contract demo_project_catalog of Inr _ \<Rightarrow> True | Inl _ \<Rightarrow> False)"
  "callable_by_id demo_project_catalog (vc_callable_id demo_contract) = Some demo_callable"
  "distinct (map pi_name (ca_parameters demo_callable))" "class_parameters demo_project_catalog demo_callable = []"
  "distinct (map fst (vc_arguments demo_contract))" "vc_constructor_arguments demo_contract = []"
  by code_simp+

theorem adapter_calls_match_signature_witness:
  "\<exists>plan. compile_virtual_contract (\<lambda>t. t) demo_contract demo_project_catalog = Inr plan \<and>
     process (signed [] (ca_parameters demo_callable) demo_py_world) [''r''] [] plan ''c'' [(''k'', ''v'')] [] =
     process demo_py_world [''r''] [] plan ''c'' [(''k'', ''v'')] []"
proof -
  obtain plan where plan: "compile_virtual_contract (\<lambda>t. t) demo_contract demo_project_catalog = Inr plan"
    using demo_compiles(1) by (cases "compile_virtual_contract (\<lambda>t. t) demo_contract demo_project_catalog") auto
  from adapter_calls_match_signature [OF plan demo_compiles(2,3) _ demo_compiles(5), where w = demo_py_world and root = "[''r'']" and sys_path = "[]"
      and content = "''c''" and attributes = "[(''k'', ''v'')]" and parameters = "[]"]
  show ?thesis using plan demo_compiles(4,6) by simp
qed

definition demo_default_binding :: compiled_binding where
  "demo_default_binding = \<lparr>cb_source = OPERATOR_PARAMETER, cb_codec = TEXT, cb_required = False, cb_metadata_key = None, cb_parameter_key = Some ''n'',
     cb_constant = JNull, cb_default = Some (True, JInt 5)\<rparr>"

definition demo_default_parameter :: compiled_parameter where
  "demo_default_parameter = \<lparr>cp_key = ''n'', cp_display_name = ''N'', cp_description = [], cp_required = False, cp_has_default = True, cp_default = JInt 5\<rparr>"


text \<open>The processor offers one property for every parameter of the plan, in its order; one that has no default in the plan has none in NiFi.\<close>

lemma native_descriptors_complete:
  "native_descriptors w ps = Inr ds \<Longrightarrow> list_all2 (\<lambda>p d. pd_name d = cp_key p \<and> pd_required d = cp_required p \<and> (cp_has_default p \<longleftrightarrow> pd_default_value d \<noteq> None)) ps ds"
  by (induction ps arbitrary: ds) (auto simp: result_bind_ok map_sum_Inr descriptor_default_def split: if_splits json.splits)

end
