(* ===== verification/Runner_Model.thy ===== *)
theory Runner_Model
  imports Base64 Json_Access Complex_Main
begin

text \<open>
  The data of \<^verbatim>\<open>runner_engine/model.py\<close> as records, one field per dataclass field.  Field
  names that several dataclasses share carry a prefix.  Wall clock instants are microseconds
  since the epoch (\<^typ>\<open>int\<close>, the resolution of \<open>datetime\<close> and \<open>TIMESTAMPTZ\<close>); readings of
  \<open>time.monotonic()\<close> are seconds (\<^typ>\<open>rat\<close>, exact where Python rounds to a double).
\<close>

record runtime_env =
  env_id :: string
  env_image :: string
  env_python :: string

record operator_release =
  rel_id :: string
  artifact_path :: string
  artifact_sha256 :: string
  rel_runtime :: runtime_env
  entrypoint :: string
  rel_profile :: string
  input_attributes :: "string list"
  output_attributes :: "string list"

record security_policy =
  pol_name :: string
  sandbox_cluster :: string
  cpu :: string
  memory :: string
  max_timeout_ms :: int
  network_allow :: "string list"
  reuse_sandbox :: bool

record lease =
  lease_id :: string
  lease_tenant_id :: string
  lease_project_id :: string
  lease_processor_id :: string
  lease_release_id :: string
  lease_expires_at_ms :: int

record run_request =
  req_tenant_id :: string
  req_lease_id :: string
  req_release_id :: string
  req_invocation_id :: string
  req_idempotency_key :: string
  req_content :: bytes
  req_attributes :: "(string, string) dict"
  req_parameters :: "(string, string) dict"
  req_timeout_ms :: int

record run_result =
  res_status :: string
  res_relationship :: string
  res_content :: bytes
  res_attributes :: "(string, string) dict"
  res_retryable :: bool
  res_error_code :: string
  res_error_message :: string
  res_worker_id :: string
  res_duration_ms :: int

record worker =
  w_id :: string
  w_endpoint :: string
  w_token :: string
  w_tenant_id :: string
  w_runtime_id :: string
  w_profile :: string
  w_backend_group :: string
  created_monotonic :: rat
  last_used_monotonic :: rat
  installed_release_ids :: "string set"
  sandbox_expires_monotonic :: "rat option"
  w_runs :: int
  healthy :: bool
  destroyed :: bool
  endpoint_headers :: "(string, string) dict"

text \<open>
  Workers are mutable objects that the pool, the active table and a running invocation share:
  a reference names the object, a heap holds its current value.
\<close>

type_synonym worker_ref = nat

record active_run =
  act_tenant_id :: string
  act_lease_id :: string
  act_release_id :: string
  act_worker :: worker_ref

end
