(* ===== verification/Source_Tree.thy ===== *)
theory Source_Tree
  imports Runner_Model Py_Text
begin

text \<open>
  The project directories that the publishing side reads: a dictionary from paths below the root to
  nodes, as \<open>rglob("*")\<close> lists them.  A symbolic link is followed by \<open>is_file()\<close> and by reading, so
  it carries the bytes of the file it leads to, if any.
\<close>

datatype source_node = SDir | SFile bytes | SLink "bytes option"

type_synonym source_tree = "(path, source_node) dict"

fun node_bytes :: "source_node \<Rightarrow> bytes option" where
  "node_bytes SDir = None"
| "node_bytes (SFile d) = Some d"
| "node_bytes (SLink d) = d"

fun is_symlink :: "source_node \<Rightarrow> bool" where
  "is_symlink (SLink _) = True"
| "is_symlink _ = False"

definition path_bytes :: "source_tree \<Rightarrow> path \<Rightarrow> bytes option" where
  "path_bytes t p = Option.bind (map_of t p) node_bytes"

text \<open>\<open>sorted(root.rglob("*"), key=as_posix)\<close>.\<close>

definition rglob :: "source_tree \<Rightarrow> (path \<times> source_node) list" where
  "rglob t = sort_key (\<lambda>e. as_posix (fst e)) t"

text \<open>A directory of a POSIX file system: names without slashes and NUL bytes, every entry in a directory.\<close>

definition plain_name :: "string \<Rightarrow> bool" where
  "plain_name c \<longleftrightarrow> c \<noteq> [] \<and> c \<noteq> ''.'' \<and> c \<noteq> ''..'' \<and> CHR ''/'' \<notin> set c \<and> CHR 0x00 \<notin> set c"

definition posix_tree :: "source_tree \<Rightarrow> bool" where
  "posix_tree t \<longleftrightarrow> distinct (map fst t) \<and>
     list_all (\<lambda>(p, _). p \<noteq> [] \<and> list_all plain_name p \<and> (butlast p = [] \<or> map_of t (butlast p) = Some SDir)) t"

lemma set_rglob [simp]: "set (rglob t) = set t"
  by (simp add: rglob_def)

lemma distinct_rglob: "distinct (map fst t) \<Longrightarrow> distinct (map fst (rglob t))"
  by (simp add: rglob_def distinct_map)

lemma set_join_with: "c \<in> set (join_with d ws) \<Longrightarrow> c \<in> set d \<or> (\<exists>w\<in>set ws. c \<in> set w)"
  by (induction d ws rule: join_with.induct) auto

lemma posix_entry:
  assumes "posix_tree t" "(p, n) \<in> set t"
  shows "p \<noteq> []" "list_all plain_name p" "butlast p = [] \<or> map_of t (butlast p) = Some SDir"
  using assms by (auto simp: posix_tree_def list_all_iff)

lemma posix_path:
  assumes "posix_tree t" "(p, n) \<in> set t"
  shows "is_path p" "''..'' \<notin> set p" "CHR 0x00 \<notin> set (as_posix p)" "\<not> is_absolute (as_posix p)"
proof -
  note e = posix_entry [OF assms]
  show "is_path p" "''..'' \<notin> set p" using e(2) by (auto simp: is_path_def list_all_iff plain_name_def)
  show "CHR 0x00 \<notin> set (as_posix p)" using e(2) set_join_with [of "CHR 0x00" "''/''" p]
    by (auto simp: as_posix_def list_all_iff plain_name_def)
  obtain w ws where p: "p = w # ws" "w \<noteq> []" "CHR ''/'' \<notin> set w" using e(1,2) by (cases p) (auto simp: plain_name_def)
  then obtain c cs where w: "w = c # cs" "c \<noteq> CHR ''/''" by (cases w) auto
  then have "\<exists>r. as_posix p = c # r" using p(1) by (cases ws) (auto simp: as_posix_def)
  then show "\<not> is_absolute (as_posix p)" using w(2) by (auto simp: is_absolute_def)
qed

text \<open>What lies above an entry is a directory.\<close>

lemma posix_above:
  assumes "posix_tree t" "(p @ q, n) \<in> set t" "q \<noteq> []" "p \<noteq> []"
  shows "map_of t p = Some SDir"
  using assms(2,3)
proof (induction q arbitrary: n rule: rev_induct)
  case Nil
  then show ?case by simp
next
  case (snoc x q)
  have up: "butlast (p @ q @ [x]) = p @ q" by (simp add: butlast_append)
  then have d: "map_of t (p @ q) = Some SDir" using posix_entry(3) [OF assms(1) snoc.prems(1)] assms(4) by simp
  then show ?case using snoc.IH map_of_SomeD [OF d] by (cases "q = []") auto
qed

end
