(* ===== verification/Release_Materializer.thy ===== *)
theory Release_Materializer
  imports Runner_Model Py_Text
begin

text \<open>
  \<^verbatim>\<open>runner_engine/worker/materialize.py\<close>: unpacking a release artifact on a worker.  A directory tree is
  a dictionary from paths below its root to nodes; the root is the empty path.  A node knows whether it
  is writable, which is what \<open>_make_read_only\<close> takes away.  The digest \<open>h\<close> and the reading of a tar
  archive, \<open>untar\<close>, are parameters: \<open>untar\<close> gives the members that \<open>tar.getmembers()\<close> lists, each with
  the bytes that \<open>extractfile\<close> reads.
\<close>

section \<open>Trees\<close>

datatype node = Dir bool | File bool bytes

type_synonym tree = "(path, node) dict"

definition empty_tree :: tree where
  "empty_tree = [([], Dir True)]"

definition is_file_at :: "tree \<Rightarrow> path \<Rightarrow> bool" where
  "is_file_at t p = (case map_of t p of Some (File _ _) \<Rightarrow> True | _ \<Rightarrow> False)"

definition os_error :: "string \<Rightarrow> path \<Rightarrow> exn" where
  "os_error kind p = PyExn kind (as_posix p)"

text \<open>\<open>mkdir(parents=True, exist_ok=True)\<close> of \<open>base @ ps\<close>, where \<open>base\<close> exists.\<close>

fun mkdirs :: "tree \<Rightarrow> path \<Rightarrow> path \<Rightarrow> tree result" where
  "mkdirs t base [] = Inr t"
| "mkdirs t base (p # ps) =
     (case map_of t (base @ [p]) of
        None \<Rightarrow> mkdirs (AList.update (base @ [p]) (Dir True) t) (base @ [p]) ps
      | Some (Dir _) \<Rightarrow> mkdirs t (base @ [p]) ps
      | Some (File _ _) \<Rightarrow>
          Inl (os_error (if ps = [] then ''FileExistsError'' else ''NotADirectoryError'') (base @ p # ps)))"

text \<open>\<open>open("wb")\<close> and writing, where the parent directory exists.\<close>

definition write_file :: "tree \<Rightarrow> path \<Rightarrow> bytes \<Rightarrow> tree result" where
  "write_file t p data =
     (case map_of t p of
        Some (Dir _) \<Rightarrow> Inl (os_error ''IsADirectoryError'' p)
      | _ \<Rightarrow> Inr (AList.update p (File True data) t))"

section \<open>Archives\<close>

datatype member_kind = REGTYPE | DIRTYPE | SYMTYPE | LNKTYPE | DEVTYPE | FIFOTYPE

record tar_member =
  m_name :: string
  m_kind :: member_kind
  m_size :: int
  m_data :: "bytes result"

definition value_error :: "string \<Rightarrow> exn" where
  "value_error msg = PyExn ''ValueError'' msg"

record materializer =
  mat_root :: path
  mat_pid :: string
  max_files :: int
  max_expanded_bytes :: int
  mat_targets :: "(string, tree) dict"
  mat_staging :: "(string, tree) dict"

text \<open>The checks of one member, lines 44 to 65, in the order of the code.  \<open>count\<close>, \<open>tot\<close> (the code's \<open>total\<close>) and \<open>names\<close>
  are the values before the member.\<close>

definition check_member :: "materializer \<Rightarrow> path \<Rightarrow> int \<Rightarrow> int \<Rightarrow> string set \<Rightarrow> tar_member \<Rightarrow> (int \<times> int \<times> string set) result" where
  "check_member m staging count tot names x =
     (let pure = path_parts (m_name x);
          normalized = as_posix pure;
          tot' = (if m_kind x = REGTYPE then tot + m_size x else tot);
          destination = resolve_from staging pure in
      if max_files m < count + 1 then Inl (value_error ''artifact contains too many entries'')
      else if m_kind x \<in> {SYMTYPE, LNKTYPE, DEVTYPE, FIFOTYPE} then
        Inl (value_error (''special/link entry is forbidden: '' @ m_name x))
      else if is_absolute (m_name x) \<or> ''..'' \<in> set pure then Inl (value_error (''unsafe artifact path: '' @ m_name x))
      else if normalized \<in> names then Inl (value_error (''duplicate artifact path: '' @ m_name x))
      else if m_kind x = REGTYPE \<and> max_expanded_bytes m < tot' then
        Inl (value_error ''artifact expands beyond configured limit'')
      else if take (length staging) destination \<noteq> staging then
        Inl (value_error (''path escapes staging directory: '' @ m_name x))
      else Inr (count + 1, tot', insert normalized names))"

text \<open>What a member that passed its checks does to the staging tree, lines 67 to 75.\<close>

definition extract_member :: "tree \<Rightarrow> tar_member \<Rightarrow> tree result" where
  "extract_member t x =
     (let p = path_parts (m_name x) in
      case m_kind x of
        DIRTYPE \<Rightarrow> mkdirs t [] p
      | REGTYPE \<Rightarrow>
          result_bind (mkdirs t [] (butlast p)) (\<lambda>t1.
          result_bind (m_data x) (\<lambda>data. write_file t1 p data))
      | _ \<Rightarrow> Inr t)"

fun unpack :: "materializer \<Rightarrow> path \<Rightarrow> int \<Rightarrow> int \<Rightarrow> string set \<Rightarrow> tree \<Rightarrow> tar_member list \<Rightarrow> tree result" where
  "unpack m staging count tot names t [] = Inr t"
| "unpack m staging count tot names t (x # xs) =
     (case check_member m staging count tot names x of
        Inl e \<Rightarrow> Inl e
      | Inr (count', tot', names') \<Rightarrow>
          result_bind (extract_member t x) (\<lambda>t'. unpack m staging count' tot' names' t' xs))"

fun lock_node :: "node \<Rightarrow> node" where
  "lock_node (Dir w) = Dir False"
| "lock_node (File w data) = File False data"

definition make_read_only :: "tree \<Rightarrow> tree" where
  "make_read_only t = map (\<lambda>(p, n). (p, lock_node n)) t"

definition staging_name :: "materializer \<Rightarrow> string \<Rightarrow> string" where
  "staging_name m release_id = ''.'' @ release_id @ ''.tmp-'' @ mat_pid m"

text \<open>The staging directory of an earlier process with the same pid is removed first; after a failure
  none is left.\<close>

definition install :: "(bytes \<Rightarrow> string) \<Rightarrow> (bytes \<Rightarrow> tar_member list result) \<Rightarrow> materializer \<Rightarrow> string \<Rightarrow> string \<Rightarrow> bytes \<Rightarrow>
    path result \<times> materializer" where
  "install h untar m release_id expected_sha256 artifact =
     (if h artifact \<noteq> expected_sha256 then (Inl (value_error ''artifact sha256 mismatch''), m)
      else if map_of (mat_targets m) release_id \<noteq> None then (Inr (mat_root m @ [release_id]), m)
      else
        let name = staging_name m release_id;
            staging = mat_root m @ [name];
            m1 = m\<lparr>mat_staging := AList.delete name (mat_staging m)\<rparr>;
            unpacked = result_bind (untar artifact) (\<lambda>members.
              result_bind (unpack m staging 0 0 {} empty_tree members) (\<lambda>t.
              if is_file_at t [''operator.json''] then Inr (make_read_only t)
              else Inl (value_error ''operator.json missing from release''))) in
        case unpacked of
          Inl e \<Rightarrow> (Inl e, m1)
        | Inr t \<Rightarrow> (Inr (mat_root m @ [release_id]), m1\<lparr>mat_targets := AList.update release_id t (mat_targets m1)\<rparr>))"

section \<open>What extraction leaves in the tree\<close>

definition member_path :: "tar_member \<Rightarrow> path" where
  "member_path x = path_parts (m_name x)"

definition files_of :: "tree \<Rightarrow> (path \<times> bytes) set" where
  "files_of t = {(p, d). \<exists>w. map_of t p = Some (File w d)}"

lemma mkdirs_lookup: "mkdirs t base ps = Inr t' \<Longrightarrow> map_of t' q = map_of t q \<or> (map_of t q = None \<and> map_of t' q = Some (Dir True))"
proof (induction t base ps rule: mkdirs.induct)
  case (2 t base p ps)
  show ?case
  proof (cases "map_of t (base @ [p])")
    case None
    then show ?thesis using 2(1) [OF None] 2(3) by (auto split: if_splits)
  next
    case (Some n)
    then show ?thesis using 2(2) [OF Some] 2(3) by (cases n) auto
  qed
qed simp

lemma mkdirs_files: "mkdirs t base ps = Inr t' \<Longrightarrow> files_of t' = files_of t"
  using mkdirs_lookup [of t base ps t'] unfolding files_of_def
  by (auto simp: set_eq_iff) (metis node.distinct(1) option.distinct(1) option.inject)+

lemma write_file_files:
  "write_file t p data = Inr t' \<Longrightarrow> \<not> is_file_at t p \<Longrightarrow> files_of t' = insert (p, data) (files_of t)"
  by (auto simp: write_file_def files_of_def is_file_at_def split: option.splits node.splits if_splits)

text \<open>The members that an accepted archive consists of.\<close>

definition acceptable :: "tar_member \<Rightarrow> bool" where
  "acceptable x \<longleftrightarrow> (m_kind x = REGTYPE \<or> m_kind x = DIRTYPE) \<and> \<not> is_absolute (m_name x) \<and> ''..'' \<notin> set (member_path x)"

definition file_bytes :: "tar_member list \<Rightarrow> int" where
  "file_bytes xs = (\<Sum>x\<leftarrow>filter (\<lambda>x. m_kind x = REGTYPE) xs. m_size x)"

definition member_files :: "tar_member list \<Rightarrow> (path \<times> bytes) set" where
  "member_files xs = {(member_path x, d) |x d. x \<in> set xs \<and> m_kind x = REGTYPE \<and> m_data x = Inr d}"

lemma check_member_ok:
  assumes "check_member m staging count tot names x = Inr (count', tot', names')"
  shows "acceptable x" "as_posix (member_path x) \<notin> names" "count' = count + 1" "count' \<le> max_files m"
    "tot' = tot + file_bytes [x]" "names' = insert (as_posix (member_path x)) names"
    "m_kind x = REGTYPE \<Longrightarrow> tot' \<le> max_expanded_bytes m"
  using assms by (cases "m_kind x"; auto simp: check_member_def Let_def acceptable_def member_path_def file_bytes_def split: if_splits)+

lemma mkdirs_dom:
  "mkdirs t base ps = Inr t' \<Longrightarrow> map_of t' q \<noteq> None \<Longrightarrow> map_of t q = None \<Longrightarrow> \<exists>us vs. q = base @ us \<and> ps = us @ vs"
proof (induction t base ps rule: mkdirs.induct)
  case (2 t base p ps)
  show ?case
  proof (cases "map_of t (base @ [p])")
    case None
    show ?thesis
    proof (cases "q = base @ [p]")
      case True
      then show ?thesis by (intro exI [of _ "[p]"] exI [of _ ps]) simp
    next
      case False
      then have "\<exists>us vs. q = (base @ [p]) @ us \<and> ps = us @ vs" using 2(1) [OF None] 2(3-5) None by simp
      then show ?thesis by (metis append.assoc append_Cons append_Nil)
    qed
  next
    case (Some n)
    then have "\<exists>us vs. q = (base @ [p]) @ us \<and> ps = us @ vs" using 2(2) [OF Some] 2(3-5) by (cases n) auto
    then show ?thesis by (metis append.assoc append_Cons append_Nil)
  qed
qed simp

lemma extract_member_facts:
  assumes ex: "extract_member t x = Inr t'" and ok: "acceptable x" and new: "\<not> is_file_at t (member_path x)"
  shows "files_of t' = files_of t \<union> member_files [x]"
    and "map_of t' q \<noteq> None \<Longrightarrow> map_of t q \<noteq> None \<or> (\<exists>vs. member_path x = q @ vs)"
proof -
  have "m_kind x = DIRTYPE \<or> m_kind x = REGTYPE" using ok by (auto simp: acceptable_def)
  then have "files_of t' = files_of t \<union> member_files [x] \<and>
      (map_of t' q \<noteq> None \<longrightarrow> map_of t q \<noteq> None \<or> (\<exists>vs. member_path x = q @ vs))"
  proof
    assume dir: "m_kind x = DIRTYPE"
    then have mk: "mkdirs t [] (member_path x) = Inr t'" using ex by (simp add: extract_member_def member_path_def Let_def)
    show ?thesis using mkdirs_files [OF mk] mkdirs_dom [OF mk, of q] dir by (auto simp: member_files_def)
  next
    assume reg: "m_kind x = REGTYPE"
    then obtain t1 d where mk: "mkdirs t [] (butlast (member_path x)) = Inr t1" and d: "m_data x = Inr d"
      and wr: "write_file t1 (member_path x) d = Inr t'"
      using ex by (auto simp: extract_member_def member_path_def result_bind_ok Let_def)
    have "\<not> is_file_at t1 (member_path x)" using new mkdirs_lookup [OF mk, of "member_path x"] by (auto simp: is_file_at_def)
    then have "files_of t' = insert (member_path x, d) (files_of t)"
      using write_file_files [OF wr] mkdirs_files [OF mk] by simp
    moreover have "map_of t' q \<noteq> None \<Longrightarrow> q = member_path x \<or> map_of t1 q \<noteq> None" using wr
      by (auto simp: write_file_def split: option.splits node.splits if_splits)
    moreover have "map_of t1 q \<noteq> None \<Longrightarrow> map_of t q = None \<Longrightarrow> \<exists>vs. member_path x = q @ vs"
      using mkdirs_dom [OF mk, of q] by (metis append_Nil append_assoc append_butlast_last_id butlast.simps(1))
    ultimately show ?thesis using reg d by (cases "map_of t q") (auto simp: member_files_def)
  qed
  then show "files_of t' = files_of t \<union> member_files [x]"
    and "map_of t' q \<noteq> None \<Longrightarrow> map_of t q \<noteq> None \<or> (\<exists>vs. member_path x = q @ vs)" by blast+
qed

lemma unpack_facts:
  assumes "unpack m staging count tot names t xs = Inr t'" "count \<le> max_files m" "tot \<le> max_expanded_bytes m"
    and "\<And>p. is_file_at t p \<Longrightarrow> as_posix p \<in> names"
  shows "list_all acceptable xs \<and> count + int (length xs) \<le> max_files m \<and> tot + file_bytes xs \<le> max_expanded_bytes m \<and>
    files_of t' = files_of t \<union> member_files xs \<and>
    (\<forall>q. map_of t' q \<noteq> None \<longrightarrow> map_of t q \<noteq> None \<or> (\<exists>x\<in>set xs. \<exists>vs. member_path x = q @ vs))"
  using assms
proof (induction m staging count tot names t xs rule: unpack.induct)
  case (1 m staging count tot names t)
  then show ?case by (simp add: file_bytes_def member_files_def)
next
  case (2 m staging count tot names t x xs)
  from "2.prems"(1) obtain c s n t1 where ck: "check_member m staging count tot names x = Inr (c, s, n)"
    and ex: "extract_member t x = Inr t1" and rest: "unpack m staging c s n t1 xs = Inr t'"
    by (auto simp: result_bind_ok split: sum.splits)
  note c = check_member_ok [OF ck]
  have new: "\<not> is_file_at t (member_path x)" using c(2) "2.prems"(4) by blast
  note e = extract_member_facts [OF ex c(1) new]
  have names: "as_posix p \<in> n" if "is_file_at t1 p" for p
  proof -
    from that obtain d where "(p, d) \<in> files_of t1" by (auto simp: is_file_at_def files_of_def split: option.splits node.splits)
    then have "(p, d) \<in> files_of t \<or> p = member_path x" using e(1) by (auto simp: member_files_def)
    then show ?thesis using c(6) "2.prems"(4) by (auto simp: files_of_def is_file_at_def)
  qed
  have s: "s \<le> max_expanded_bytes m"
    using c(5,7) "2.prems"(3) by (cases "m_kind x = REGTYPE") (auto simp: file_bytes_def)
  have ih: "list_all acceptable xs \<and> c + int (length xs) \<le> max_files m \<and> s + file_bytes xs \<le> max_expanded_bytes m \<and>
    files_of t' = files_of t1 \<union> member_files xs \<and>
    (\<forall>q. map_of t' q \<noteq> None \<longrightarrow> map_of t1 q \<noteq> None \<or> (\<exists>x\<in>set xs. \<exists>vs. member_path x = q @ vs))"
    using "2.IH" [OF ck refl refl rest c(4) s] names by simp
  have sums: "file_bytes (x # xs) = file_bytes [x] + file_bytes xs" by (simp add: file_bytes_def)
  have files: "member_files (x # xs) = member_files [x] \<union> member_files xs" by (auto simp: member_files_def)
  show ?case
  proof (intro conjI allI impI)
    show "list_all acceptable (x # xs)" using ih c(1) by simp
    show "count + int (length (x # xs)) \<le> max_files m" using ih c(3) by simp
    show "tot + file_bytes (x # xs) \<le> max_expanded_bytes m" using ih c(5) sums by simp
    show "files_of t' = files_of t \<union> member_files (x # xs)" using ih e(1) files by blast
    show "map_of t q \<noteq> None \<or> (\<exists>x\<in>set (x # xs). \<exists>vs. member_path x = q @ vs)" if "map_of t' q \<noteq> None" for q
      using ih e(2) [of q] that by auto
  qed
qed

lemma map_of_make_read_only: "map_of (make_read_only t) p = map_option lock_node (map_of t p)"
  by (induction t) (auto simp: make_read_only_def)

lemma files_make_read_only: "files_of (make_read_only t) = files_of t"
proof -
  have "(\<exists>w. map_option lock_node x = Some (File w d)) \<longleftrightarrow> (\<exists>w. x = Some (File w d))" for x d
    by (cases x, simp, cases "the x", auto)
  then show ?thesis by (simp add: files_of_def map_of_make_read_only)
qed

definition read_only :: "tree \<Rightarrow> bool" where
  "read_only t \<longleftrightarrow> (\<forall>n\<in>snd ` set t. n = lock_node n)"

lemma read_only_make_read_only: "read_only (make_read_only t)"
proof -
  have "lock_node (lock_node n) = lock_node n" for n by (cases n) auto
  then show ?thesis by (auto simp: read_only_def make_read_only_def)
qed

lemma install_new:
  assumes run: "install h untar m rid sha artifact = (Inr p, m')" and new: "map_of (mat_targets m) rid = None"
    and limits: "0 \<le> max_files m" "0 \<le> max_expanded_bytes m"
  obtains members t where "h artifact = sha" "untar artifact = Inr members" "map_of (mat_targets m') = (map_of (mat_targets m))(rid \<mapsto> t)"
    "list_all acceptable members" "int (length members) \<le> max_files m" "file_bytes members \<le> max_expanded_bytes m"
    "files_of t = member_files members" "read_only t" "is_file_at t [''operator.json'']"
    "\<forall>q. map_of t q \<noteq> None \<longrightarrow> q = [] \<or> (\<exists>x\<in>set members. \<exists>vs. member_path x = q @ vs)"
proof -
  from run new have ok: "h artifact = sha" by (auto simp: install_def split: if_splits)
  define staging where "staging = mat_root m @ [staging_name m rid]"
  from run new ok obtain members t where mem: "untar artifact = Inr members"
    and un: "unpack m staging 0 0 {} empty_tree members = Inr t" and js: "is_file_at t [''operator.json'']"
    and m': "mat_targets m' = AList.update rid (make_read_only t) (mat_targets m)"
    by (auto simp: install_def Let_def result_bind_ok staging_def split: sum.splits if_splits)
  have empty: "files_of empty_tree = {}" "\<not> is_file_at empty_tree q" "map_of empty_tree q \<noteq> None \<longleftrightarrow> q = []" for q
    by (auto simp: empty_tree_def files_of_def is_file_at_def split: if_splits)
  note u = unpack_facts [OF un limits] 
  show thesis
  proof (rule that [of members "make_read_only t"])
    show "map_of (mat_targets m') = (map_of (mat_targets m))(rid \<mapsto> make_read_only t)" using m' by (simp add: update_conv')
    show "is_file_at (make_read_only t) [''operator.json'']"
      using js by (auto simp: is_file_at_def map_of_make_read_only split: option.splits node.splits)
    show "\<forall>q. map_of (make_read_only t) q \<noteq> None \<longrightarrow> q = [] \<or> (\<exists>x\<in>set members. \<exists>vs. member_path x = q @ vs)"
      using u empty by (auto simp: map_of_make_read_only)
  qed (use u empty ok mem in \<open>auto simp: files_make_read_only read_only_make_read_only\<close>)
qed

lemma install_failed:
  assumes "install h untar m rid sha artifact = (Inl e, m')"
  shows "mat_targets m' = mat_targets m \<and> set (mat_staging m') \<subseteq> set (mat_staging m)"
  using assms by (auto simp: install_def Let_def AList.delete_eq split: if_splits sum.splits)

section \<open>Properties\<close>


definition sample_materializer :: materializer where
  "sample_materializer = \<lparr>mat_root = [''opt'', ''releases''], mat_pid = ''7'', max_files = 2000,
     max_expanded_bytes = 67108864, mat_targets = [], mat_staging = []\<rparr>"

definition sample_members :: "tar_member list" where
  "sample_members =
     [\<lparr>m_name = ''lib/op.py'', m_kind = REGTYPE, m_size = 3, m_data = Inr ''abc''\<rparr>,
      \<lparr>m_name = ''./operator.json'', m_kind = REGTYPE, m_size = 2, m_data = Inr ''{}''\<rparr>]"


end
