(* ===== verification/Epoch_Millis.thy ===== *)
theory Epoch_Millis
  imports Complex_Main "HOL-Library.Log_Nat"
begin

text \<open>
  \<open>_epoch_ms\<close> of \<^verbatim>\<open>runner_engine/state.py\<close>: \<open>int(value.timestamp() * 1000)\<close>.  An instant is its
  number of microseconds since the epoch.  \<open>datetime.timestamp()\<close> divides that number by
  \<open>10**6\<close> into a double and the product is a second rounding, so the truncation can fall one
  millisecond short of the exact value.  Doubles are exact rationals here: \<open>round_double\<close> rounds
  a rational of at least 1 to 53 significant bits, ties to even, as IEEE 754 does.
\<close>

section \<open>Rounding to a double\<close>

definition half_even :: "rat \<Rightarrow> int" where
  "half_even y =
     (let n = \<lfloor>y\<rfloor>; d = y - of_int n in
      if d < 1 / 2 \<or> (d = 1 / 2 \<and> even n) then n else n + 1)"

text \<open>The scale that moves 53 significant bits of \<open>x\<close> before the point, for \<open>1 \<le> x\<close>.\<close>

definition double_scale :: "rat \<Rightarrow> rat" where
  "double_scale x = 2 ^ 53 / 2 ^ floorlog 2 (nat \<lfloor>x\<rfloor>)"

definition round_double :: "rat \<Rightarrow> rat" where
  "round_double x = of_int (half_even (x * double_scale x)) / double_scale x"

definition epoch_ms :: "int \<Rightarrow> int" where
  "epoch_ms t = \<lfloor>round_double (round_double (of_int t / 10 ^ 6) * 1000)\<rfloor>"

section \<open>Error of the rounding\<close>

lemma half_even_error: "\<bar>of_int (half_even y) - y\<bar> \<le> 1 / 2"
proof -
  have "of_int \<lfloor>y\<rfloor> \<le> y" "y < of_int \<lfloor>y\<rfloor> + 1" by linarith+
  then show ?thesis unfolding half_even_def Let_def abs_if by (simp split: if_split) linarith
qed

lemma half_even_of_int [simp]: "half_even (of_int n) = n"
  by (simp add: half_even_def)

lemma double_scale_pos: "0 < double_scale x"
  by (simp add: double_scale_def)

lemma double_scale_bound:
  assumes "1 \<le> x"
  shows "2 ^ 52 \<le> x * double_scale x"
proof -
  let ?n = "nat \<lfloor>x\<rfloor>"
  have pos: "0 < ?n" using assms by linarith
  then have "2 ^ (floorlog 2 ?n - 1) \<le> ?n" "0 < floorlog 2 ?n"
    using floorlog_bounds [of ?n 2] by (auto simp: floorlog_def)
  then have "2 ^ floorlog 2 ?n \<le> 2 * ?n"
    by (metis Suc_pred' mult_le_mono2 power_Suc)
  then have "(2 ^ floorlog 2 ?n :: rat) \<le> 2 * of_nat ?n"
    by (metis of_nat_le_iff of_nat_mult of_nat_numeral of_nat_power)
  also have "of_nat ?n \<le> x" using assms by linarith
  finally have "(2 ^ floorlog 2 ?n :: rat) \<le> 2 * x" by simp
  then show ?thesis by (simp add: double_scale_def field_simps)
qed

lemma round_double_error:
  assumes "1 \<le> x"
  shows "\<bar>round_double x - x\<bar> \<le> x / 2 ^ 53"
proof -
  let ?s = "double_scale x"
  have s: "0 < ?s" by (rule double_scale_pos)
  let ?d = "of_int (half_even (x * ?s)) - x * ?s"
  have "\<bar>?d\<bar> \<le> 1 / 2" by (rule half_even_error)
  also have "1 / 2 \<le> x / 2 ^ 53 * ?s" using double_scale_bound [OF assms] by simp
  finally have "\<bar>?d\<bar> / ?s \<le> x / 2 ^ 53" using s by (simp add: pos_divide_le_eq)
  moreover have "round_double x - x = ?d / ?s"
    unfolding round_double_def diff_divide_distrib using s by simp
  ultimately show ?thesis using s by (simp only: abs_divide abs_of_pos)
qed

section \<open>Bounds\<close>

text \<open>
  For instants between one second after the epoch and the year 2096 the two roundings together
  stay below a microsecond.
\<close>

lemma epoch_seconds_error:
  fixes t :: int
  assumes "10 ^ 6 \<le> t" "t \<le> 4 * 10 ^ 15"
  defines "z \<equiv> round_double (round_double (of_int t / 10 ^ 6) * 1000)"
  shows "\<bar>z - of_int t / 1000\<bar> < 1 / 1000"
proof -
  define x :: rat where "x = of_int t / 10 ^ 6"
  have x1: "1 \<le> x" and x2: "x \<le> 4000000000" using assms(1,2) by (simp_all add: x_def)
  define a where "a = round_double x"
  have a: "\<bar>a - x\<bar> \<le> x / 2 ^ 53" unfolding a_def by (rule round_double_error [OF x1])
  have "x / 2 ^ 53 \<le> 1 / 1000000" using x2 by simp
  with a have lo: "x - 1 / 1000000 \<le> a" and hi: "a \<le> x + 1 / 1000000" by linarith+
  with x1 x2 have b: "1 \<le> a * 1000" "a * 1000 \<le> 4000000000001" by simp_all
  have "\<bar>z - a * 1000\<bar> \<le> a * 1000 / 2 ^ 53"
    unfolding z_def a_def [symmetric] x_def [symmetric] by (rule round_double_error [OF b(1)])
  moreover have "a * 1000 / 2 ^ 53 \<le> 4000000000001 / 2 ^ 53" using b(2) by simp
  moreover have "\<bar>a * 1000 - x * 1000\<bar> \<le> 4000000000000 / 2 ^ 53"
  proof -
    have "\<bar>a * 1000 - x * 1000\<bar> = 1000 * \<bar>a - x\<bar>" by (simp add: abs_if)
    also have "\<dots> \<le> 1000 * (x / 2 ^ 53)" using a by simp
    also have "\<dots> \<le> 4000000000000 / 2 ^ 53" using x2 by simp
    finally show ?thesis .
  qed
  ultimately have "\<bar>z - x * 1000\<bar> \<le> 8000000000001 / 2 ^ 53" by linarith
  then show ?thesis by (simp add: x_def)
qed

lemma epoch_ms_bounds:
  assumes "10 ^ 6 \<le> t" "t \<le> 4 * 10 ^ 15"
  shows "t div 1000 - (if t mod 1000 = 0 then 1 else 0) \<le> epoch_ms t" "epoch_ms t \<le> t div 1000"
proof -
  let ?z = "round_double (round_double (of_int t / 10 ^ 6) * 1000)"
  have err: "\<bar>?z - of_int t / 1000\<bar> < 1 / 1000" by (rule epoch_seconds_error [OF assms])
  have split: "of_int t / 1000 = (of_int (t div 1000) + of_int (t mod 1000) / 1000 :: rat)"
    by (metis (no_types, lifting) add_divide_distrib div_mult_mod_eq nonzero_mult_div_cancel_right
        of_int_add of_int_mult of_int_numeral zero_neq_numeral)
  have r: "0 \<le> t mod 1000" "t mod 1000 \<le> 999" by simp_all
  then have r': "(of_int (t mod 1000) :: rat) \<le> 999" "0 \<le> (of_int (t mod 1000) :: rat)" by simp_all
  from err split r'(1) have "?z < of_int (t div 1000) + 1" by linarith
  then show "epoch_ms t \<le> t div 1000" unfolding epoch_ms_def by linarith
  show "t div 1000 - (if t mod 1000 = 0 then 1 else 0) \<le> epoch_ms t"
  proof (cases "t mod 1000 = 0")
    case True
    then have "of_int t / 1000 = (of_int (t div 1000) :: rat)" using split by simp
    with err have "of_int (t div 1000) - 1 \<le> ?z" by linarith
    with True show ?thesis by (simp add: epoch_ms_def le_floor_iff)
  next
    case False
    with r have "1 \<le> (of_int (t mod 1000) :: rat)" by linarith
    with err split have "of_int (t div 1000) \<le> ?z" by linarith
    with False show ?thesis by (simp add: epoch_ms_def le_floor_iff)
  qed
qed

text \<open>C35: For instants from one second after the epoch to the year 2096, the millisecond value that the
  float arithmetic of \<open>_epoch_ms\<close> gives is the exact floor of the microseconds, except that it may be
  one less when the instant is a whole number of milliseconds.\<close>

theorem epoch_ms_exact:
  assumes "10 ^ 6 \<le> t" "t \<le> 4 * 10 ^ 15"
  shows "epoch_ms t \<le> t div 1000 \<and> t div 1000 - (if t mod 1000 = 0 then 1 else 0) \<le> epoch_ms t"
  using epoch_ms_bounds [OF assms] by simp

theorem epoch_ms_exact_witness: "epoch_ms 1700000000000001 = 1700000000000"
  using epoch_ms_exact [of 1700000000000001] by simp

end
