(* ===== verification/Runner_State.thy ===== *)
theory Runner_State
  imports Runner_Model Epoch_Millis
begin

text \<open>
  \<^verbatim>\<open>runner_engine/state.py\<close>: the durable state of the runner.  Three PostgreSQL tables, each the
  list of its rows; every method of \<open>RunnerDB\<close> is one transaction, so an exception inside
  \<open>with self.pool.connection()\<close> leaves the tables as they were.  \<open>now\<close> is the reading of
  \<open>datetime.now(timezone.utc)\<close> in Python and \<open>dbnow\<close> the transaction time \<open>now()\<close> of the
  server, two clocks that need not agree; \<open>uuid\<close> arguments are the values of \<open>uuid.uuid4()\<close>.
\<close>

section \<open>Tables\<close>

record lease_row =
  l_id :: string
  l_tenant_id :: string
  l_project_id :: string
  l_processor_id :: string
  l_release_id :: string
  l_expires_at :: int
  l_created_at :: int
  l_updated_at :: int

datatype run_state = RUNNING | DONE | ABANDONED

record run_row =
  r_run_id :: string
  r_tenant_id :: string
  r_project_id :: "string option"
  r_processor_id :: "string option"
  r_release_id :: string
  r_lease_id :: string
  r_invocation_id :: string
  r_idempotency_key :: string
  r_request_fingerprint :: string
  r_state :: run_state
  r_outcome_class :: "string option"
  r_status :: "string option"
  r_relationship :: "string option"
  r_retryable :: "bool option"
  r_error_code :: "string option"
  r_error_message :: "string option"
  r_worker_id :: "string option"
  r_duration_ms :: "int option"
  r_replayable :: bool
  r_idempotency_expires_at :: "int option"
  r_started_at :: int
  r_completed_at :: "int option"
  r_created_at :: int
  r_updated_at :: int

datatype key_state = KEY_RUNNING | KEY_DONE

record idem_row =
  i_tenant_id :: string
  i_release_id :: string
  i_idempotency_key :: string
  i_request_fingerprint :: string
  i_state :: key_state
  i_current_run_id :: string
  i_lease_id :: string
  i_invocation_id :: string
  i_replayable :: bool
  i_result_json :: "json option"
  i_expires_at :: "int option"
  i_replay_count :: int
  i_last_replayed_at :: "int option"
  i_created_at :: int
  i_updated_at :: int

record runner_db =
  leases :: "lease_row list"
  db_runs :: "run_row list"
  idempotency_keys :: "idem_row list"

definition empty_db :: runner_db where
  "empty_db = \<lparr>leases = [], db_runs = [], idempotency_keys = []\<rparr>"

record run_claim =
  claim_run_id :: "string option"
  cached_result :: "run_result option"

section \<open>Results as JSON\<close>

definition result_to_dict :: "run_result \<Rightarrow> json" where
  "result_to_dict r = JObj
     [(''status'', JStr (res_status r)),
      (''relationship'', JStr (res_relationship r)),
      (''content_b64'', JStr (b64encode (res_content r))),
      (''attributes'', str_obj (res_attributes r)),
      (''retryable'', JBool (res_retryable r)),
      (''error_code'', JStr (res_error_code r)),
      (''error_message'', JStr (res_error_message r)),
      (''worker_id'', JStr (res_worker_id r)),
      (''duration_ms'', JInt (res_duration_ms r))]"

definition result_from_dict :: "json \<Rightarrow> run_result result" where
  "result_from_dict raw =
     (case map_of (json_fields raw) ''status'' of
        None \<Rightarrow> Inl (PyExn ''KeyError'' ''status'')
      | Some _ \<Rightarrow>
        result_bind (get_str raw ''status'' []) (\<lambda>st.
        result_bind (get_str raw ''relationship'' ''success'') (\<lambda>rel.
        result_bind (get_str raw ''content_b64'' []) (\<lambda>c64.
        result_bind (b64decode False c64) (\<lambda>content.
        result_bind (get_str_dict raw ''attributes'') (\<lambda>attrs.
        result_bind (get_bool raw ''retryable'' False) (\<lambda>retry.
        result_bind (get_str raw ''error_code'' []) (\<lambda>code.
        result_bind (get_str raw ''error_message'' []) (\<lambda>msg.
        result_bind (get_str raw ''worker_id'' []) (\<lambda>wid.
        result_bind (get_int raw ''duration_ms'' 0) (\<lambda>dur.
          Inr \<lparr>res_status = st, res_relationship = rel, res_content = content, res_attributes = attrs,
               res_retryable = retry, res_error_code = code, res_error_message = msg,
               res_worker_id = wid, res_duration_ms = dur\<rparr>)))))))))))"

definition outcome_class :: "run_result \<Rightarrow> string" where
  "outcome_class r =
     (if res_status r = ''SUCCEEDED'' then ''SUCCESS''
      else if res_retryable r then ''RETRYABLE_FAILURE''
      else ''USER_FAILURE'')"

section \<open>Leases\<close>

definition lease_of_row :: "lease_row \<Rightarrow> lease" where
  "lease_of_row r = \<lparr>lease_id = l_id r, lease_tenant_id = l_tenant_id r, lease_project_id = l_project_id r,
     lease_processor_id = l_processor_id r, lease_release_id = l_release_id r,
     lease_expires_at_ms = epoch_ms (l_expires_at r)\<rparr>"

definition create_lease ::
  "runner_db \<Rightarrow> string \<Rightarrow> int \<Rightarrow> int \<Rightarrow> string \<Rightarrow> string \<Rightarrow> string \<Rightarrow> string \<Rightarrow> int \<Rightarrow> lease result \<times> runner_db" where
  "create_lease db uuid now dbnow tenant project processor release ttl_ms =
     (let expires = now + ttl_ms * 1000;
          row = \<lparr>l_id = uuid, l_tenant_id = tenant, l_project_id = project, l_processor_id = processor,
                 l_release_id = release, l_expires_at = expires, l_created_at = dbnow, l_updated_at = dbnow\<rparr> in
      if uuid \<in> l_id ` set (leases db) then (Inl unique_violation, db)
      else (Inr (lease_of_row row), db\<lparr>leases := leases db @ [row]\<rparr>))"

definition lease_error :: "string \<Rightarrow> string \<Rightarrow> bool \<Rightarrow> exn" where
  "lease_error code msg retry = RunnerExn LeaseError code msg retry"

definition require_lease :: "runner_db \<Rightarrow> int \<Rightarrow> string \<Rightarrow> string \<Rightarrow> string option \<Rightarrow> lease result" where
  "require_lease db now lid tenant release =
     (case fetchone (\<lambda>r. l_id r = lid) (leases db) of
        None \<Rightarrow> Inl (lease_error ''LEASE_UNKNOWN'' ''lease does not exist'' True)
      | Some row \<Rightarrow>
          if l_tenant_id row \<noteq> tenant then
            Inl (lease_error ''LEASE_FORBIDDEN'' ''lease belongs to another tenant'' False)
          else if (case release of None \<Rightarrow> False | Some rel \<Rightarrow> l_release_id row \<noteq> rel) then
            Inl (lease_error ''LEASE_RELEASE_MISMATCH'' ''lease is for another release'' False)
          else if l_expires_at row \<le> now then
            Inl (lease_error ''LEASE_EXPIRED'' ''lease expired'' True)
          else Inr (lease_of_row row))"

definition renew_lease ::
  "runner_db \<Rightarrow> int \<Rightarrow> int \<Rightarrow> int \<Rightarrow> string \<Rightarrow> string \<Rightarrow> int \<Rightarrow> lease result \<times> runner_db" where
  "renew_lease db now1 now2 dbnow lid tenant ttl_ms =
     (case require_lease db now1 lid tenant None of
        Inl e \<Rightarrow> (Inl e, db)
      | Inr current \<Rightarrow>
          let expires = now2 + ttl_ms * 1000 in
          (Inr (current\<lparr>lease_expires_at_ms := epoch_ms expires\<rparr>),
           db\<lparr>leases := update_where (\<lambda>r. l_id r = lid \<and> l_tenant_id r = tenant)
                (\<lambda>r. r\<lparr>l_expires_at := expires, l_updated_at := dbnow\<rparr>) (leases db)\<rparr>))"

definition delete_lease :: "runner_db \<Rightarrow> string \<Rightarrow> string \<Rightarrow> unit result \<times> runner_db" where
  "delete_lease db lid tenant =
     (case fetchone (\<lambda>r. l_id r = lid) (leases db) of
        None \<Rightarrow> (Inr (), db)
      | Some row \<Rightarrow>
          if l_tenant_id row \<noteq> tenant then
            (Inl (lease_error ''LEASE_FORBIDDEN'' ''lease belongs to another tenant'' False), db)
          else (Inr (), db\<lparr>leases := delete_where (\<lambda>r. l_id r = lid) (leases db)\<rparr>))"

definition purge_expired_leases :: "runner_db \<Rightarrow> int \<Rightarrow> nat \<times> runner_db" where
  "purge_expired_leases db dbnow =
     (rowcount (\<lambda>r. l_expires_at r \<le> dbnow) (leases db),
      db\<lparr>leases := delete_where (\<lambda>r. l_expires_at r \<le> dbnow) (leases db)\<rparr>)"

section \<open>Runs and idempotency keys\<close>

definition abandon_row :: "int \<Rightarrow> string \<Rightarrow> string \<Rightarrow> run_row \<Rightarrow> run_row" where
  "abandon_row dbnow code msg r =
     r\<lparr>r_state := ABANDONED, r_outcome_class := Some ''INFRASTRUCTURE_FAILURE'', r_status := Some ''FAILED'',
       r_relationship := Some ''retry'', r_retryable := Some True, r_error_code := Some code,
       r_error_message := Some msg, r_replayable := False, r_idempotency_expires_at := Some dbnow,
       r_completed_at := Some dbnow, r_updated_at := dbnow\<rparr>"

definition reset_running :: "runner_db \<Rightarrow> int \<Rightarrow> nat \<times> runner_db" where
  "reset_running db dbnow =
     (rowcount (\<lambda>r. r_state r = RUNNING) (db_runs db),
      db\<lparr>db_runs := update_where (\<lambda>r. r_state r = RUNNING)
           (abandon_row dbnow ''RUNNER_RESTART'' ''Runner restarted while invocation was active'') (db_runs db),
         idempotency_keys := delete_where (\<lambda>i. i_state i = KEY_RUNNING) (idempotency_keys db)\<rparr>)"

definition has_key :: "string \<Rightarrow> string \<Rightarrow> string \<Rightarrow> idem_row \<Rightarrow> bool" where
  "has_key tenant release key i \<longleftrightarrow>
     i_tenant_id i = tenant \<and> i_release_id i = release \<and> i_idempotency_key i = key"

definition cache_valid :: "int \<Rightarrow> idem_row \<Rightarrow> bool" where
  "cache_valid now i \<longleftrightarrow>
     i_state i = KEY_DONE \<and> i_replayable i \<and> i_result_json i \<noteq> None \<and>
     (case i_expires_at i of None \<Rightarrow> False | Some e \<Rightarrow> now < e)"

record run_args =
  arg_key :: string
  arg_tenant_id :: string
  arg_project_id :: string
  arg_processor_id :: string
  arg_lease_id :: string
  arg_release_id :: string
  arg_invocation_id :: string
  arg_fingerprint :: string

definition new_idem_row :: "int \<Rightarrow> string \<Rightarrow> run_args \<Rightarrow> idem_row" where
  "new_idem_row dbnow run_id a =
     \<lparr>i_tenant_id = arg_tenant_id a, i_release_id = arg_release_id a, i_idempotency_key = arg_key a,
      i_request_fingerprint = arg_fingerprint a, i_state = KEY_RUNNING, i_current_run_id = run_id,
      i_lease_id = arg_lease_id a, i_invocation_id = arg_invocation_id a, i_replayable = False,
      i_result_json = None, i_expires_at = None, i_replay_count = 0, i_last_replayed_at = None,
      i_created_at = dbnow, i_updated_at = dbnow\<rparr>"

definition reclaim_idem_row :: "int \<Rightarrow> string \<Rightarrow> run_args \<Rightarrow> idem_row \<Rightarrow> idem_row" where
  "reclaim_idem_row dbnow run_id a i =
     i\<lparr>i_state := KEY_RUNNING, i_current_run_id := run_id, i_lease_id := arg_lease_id a,
       i_invocation_id := arg_invocation_id a, i_replayable := False, i_result_json := None,
       i_expires_at := None, i_updated_at := dbnow\<rparr>"

definition new_run_row :: "int \<Rightarrow> string \<Rightarrow> run_args \<Rightarrow> run_row" where
  "new_run_row dbnow run_id a =
     \<lparr>r_run_id = run_id, r_tenant_id = arg_tenant_id a, r_project_id = Some (arg_project_id a),
      r_processor_id = Some (arg_processor_id a), r_release_id = arg_release_id a,
      r_lease_id = arg_lease_id a, r_invocation_id = arg_invocation_id a,
      r_idempotency_key = arg_key a, r_request_fingerprint = arg_fingerprint a, r_state = RUNNING,
      r_outcome_class = None, r_status = None, r_relationship = None, r_retryable = None,
      r_error_code = None, r_error_message = None, r_worker_id = None, r_duration_ms = None,
      r_replayable = False, r_idempotency_expires_at = None, r_started_at = dbnow,
      r_completed_at = None, r_created_at = dbnow, r_updated_at = dbnow\<rparr>"

definition claim_keys :: "int \<Rightarrow> string \<Rightarrow> run_args \<Rightarrow> idem_row option \<Rightarrow> idem_row list \<Rightarrow> idem_row list" where
  "claim_keys dbnow rid a found keys = (case found of
       None \<Rightarrow> keys @ [new_idem_row dbnow rid a]
     | Some _ \<Rightarrow> update_where (has_key (arg_tenant_id a) (arg_release_id a) (arg_key a))
                   (reclaim_idem_row dbnow rid a) keys)"

text \<open>The part of \<open>begin_run\<close> after the checks: claim the key, then record the run.\<close>

definition claim_run :: "runner_db \<Rightarrow> string \<Rightarrow> int \<Rightarrow> run_args \<Rightarrow> idem_row option \<Rightarrow> run_claim result \<times> runner_db" where
  "claim_run db run_id dbnow a found =
     (if run_id \<in> r_run_id ` set (db_runs db) then (Inl unique_violation, db)
      else (Inr \<lparr>claim_run_id = Some run_id, cached_result = None\<rparr>,
            db\<lparr>idempotency_keys := claim_keys dbnow run_id a found (idempotency_keys db),
               db_runs := db_runs db @ [new_run_row dbnow run_id a]\<rparr>))"

definition begin_run :: "runner_db \<Rightarrow> string \<Rightarrow> int \<Rightarrow> int \<Rightarrow> run_args \<Rightarrow> run_claim result \<times> runner_db" where
  "begin_run db uuid now dbnow a =
     (let key = has_key (arg_tenant_id a) (arg_release_id a) (arg_key a) in
      case fetchone key (idempotency_keys db) of
        None \<Rightarrow> claim_run db uuid dbnow a None
      | Some row \<Rightarrow>
          if i_request_fingerprint row \<noteq> arg_fingerprint a then
            (Inl (RunnerExn RunnerError ''IDEMPOTENCY_CONFLICT''
               ''idempotency key was reused for different request content'' False), db)
          else if i_state row = KEY_RUNNING then
            (Inl (RunnerExn RunnerError ''RUN_IN_PROGRESS'' ''same logical request is already running'' True), db)
          else if cache_valid now row then
            (case result_from_dict (the (i_result_json row)) of
               Inl e \<Rightarrow> (Inl e, db)
             | Inr res \<Rightarrow>
                 (Inr \<lparr>claim_run_id = None, cached_result = Some res\<rparr>,
                  db\<lparr>idempotency_keys := update_where key
                       (\<lambda>i. i\<lparr>i_replay_count := i_replay_count i + 1, i_last_replayed_at := Some dbnow,
                              i_updated_at := dbnow\<rparr>) (idempotency_keys db)\<rparr>))
          else claim_run db uuid dbnow a (Some row))"

definition finish_row :: "int \<Rightarrow> run_result \<Rightarrow> bool \<Rightarrow> int \<Rightarrow> run_row \<Rightarrow> run_row" where
  "finish_row dbnow res replayable expires r =
     r\<lparr>r_state := DONE, r_outcome_class := Some (outcome_class res), r_status := Some (res_status res),
       r_relationship := Some (res_relationship res), r_retryable := Some (res_retryable res),
       r_error_code := Some (res_error_code res), r_error_message := Some (res_error_message res),
       r_worker_id := Some (res_worker_id res), r_duration_ms := Some (res_duration_ms res),
       r_replayable := replayable, r_idempotency_expires_at := Some expires,
       r_completed_at := Some dbnow, r_updated_at := dbnow\<rparr>"

definition finish_run ::
  "runner_db \<Rightarrow> int \<Rightarrow> int \<Rightarrow> string \<Rightarrow> string \<Rightarrow> string \<Rightarrow> string \<Rightarrow> run_result \<Rightarrow> int \<Rightarrow> unit result \<times> runner_db" where
  "finish_run db now dbnow run_id key tenant release res retention_ms =
     (let replayable = (\<not> res_retryable res);
          expires = (if replayable then now + retention_ms * 1000 else now);
          run_match = (\<lambda>r. r_run_id r = run_id \<and> r_state r = RUNNING);
          key_match = (\<lambda>i. has_key tenant release key i \<and> i_current_run_id i = run_id \<and> i_state i = KEY_RUNNING) in
      if rowcount run_match (db_runs db) \<noteq> 1 then
        (Inl (RunnerExn RunnerError ''RUN_STATE_LOST'' ''RUNNING audit row disappeared before completion'' True), db)
      else if rowcount key_match (idempotency_keys db) \<noteq> 1 then
        (Inl (RunnerExn RunnerError ''IDEMPOTENCY_STATE_LOST'' ''idempotency claim disappeared before completion'' True), db)
      else
        (Inr (), db\<lparr>db_runs := update_where run_match (finish_row dbnow res replayable expires) (db_runs db),
                    idempotency_keys := update_where key_match
                      (\<lambda>i. i\<lparr>i_state := KEY_DONE, i_replayable := replayable,
                             i_result_json := Some (result_to_dict res), i_expires_at := Some expires,
                             i_updated_at := dbnow\<rparr>) (idempotency_keys db)\<rparr>))"

definition abandon_run ::
  "runner_db \<Rightarrow> int \<Rightarrow> string \<Rightarrow> string \<Rightarrow> string \<Rightarrow> string \<Rightarrow> string \<Rightarrow> string \<Rightarrow> runner_db" where
  "abandon_run db dbnow run_id key tenant release code msg =
     db\<lparr>db_runs := update_where (\<lambda>r. r_run_id r = run_id \<and> r_state r = RUNNING)
          (abandon_row dbnow code msg) (db_runs db),
        idempotency_keys := delete_where
          (\<lambda>i. has_key tenant release key i \<and> i_current_run_id i = run_id \<and> i_state i = KEY_RUNNING)
          (idempotency_keys db)\<rparr>"

definition purge_expired_idempotency :: "runner_db \<Rightarrow> int \<Rightarrow> nat \<times> runner_db" where
  "purge_expired_idempotency db dbnow =
     (let p = (\<lambda>i. i_state i = KEY_DONE \<and> (case i_expires_at i of None \<Rightarrow> False | Some e \<Rightarrow> e \<le> dbnow)) in
      (rowcount p (idempotency_keys db),
       db\<lparr>idempotency_keys := delete_where p (idempotency_keys db)\<rparr>))"

definition purge_old_runs :: "runner_db \<Rightarrow> int \<Rightarrow> int \<Rightarrow> int \<Rightarrow> nat \<times> runner_db" where
  "purge_old_runs db now dbnow older_than_ms =
     (if older_than_ms \<le> 0 then (0, db)
      else
        let cutoff = now - older_than_ms * 1000;
            cached = (\<lambda>r i. i_current_run_id i = r_run_id r \<and> i_state i = KEY_DONE \<and>
                        (case i_expires_at i of None \<Rightarrow> False | Some e \<Rightarrow> dbnow < e));
            p = (\<lambda>r. (r_state r = DONE \<or> r_state r = ABANDONED) \<and>
                   (case r_completed_at r of Some c \<Rightarrow> c | None \<Rightarrow> r_updated_at r) < cutoff \<and>
                   \<not> list_ex (cached r) (idempotency_keys db)) in
        (rowcount p (db_runs db), db\<lparr>db_runs := delete_where p (db_runs db)\<rparr>))"

section \<open>Round trip of stored results\<close>

lemma result_from_to_dict [simp]: "result_from_dict (result_to_dict r) = Inr r"
  by (simp add: result_from_dict_def result_to_dict_def get_str_def get_bool_def get_int_def
      get_str_dict_def json_fields_def str_obj_def)

section \<open>Invariant of the tables\<close>

definition key_of :: "idem_row \<Rightarrow> string \<times> string \<times> string" where
  "key_of i = (i_tenant_id i, i_release_id i, i_idempotency_key i)"

definition run_key :: "run_row \<Rightarrow> string \<times> string \<times> string" where
  "run_key r = (r_tenant_id r, r_release_id r, r_idempotency_key r)"

definition claims_run :: "run_row list \<Rightarrow> idem_row \<Rightarrow> bool" where
  "claims_run runs i \<longleftrightarrow>
     (\<exists>r\<in>set runs. r_run_id r = i_current_run_id i \<and> r_state r = RUNNING \<and> run_key r = key_of i \<and>
        r_request_fingerprint r = i_request_fingerprint i)"

definition run_claimed :: "idem_row list \<Rightarrow> run_row \<Rightarrow> bool" where
  "run_claimed keys r \<longleftrightarrow>
     (\<exists>i\<in>set keys. key_of i = run_key r \<and> i_state i = KEY_RUNNING \<and> i_current_run_id i = r_run_id r)"

definition stored_result :: "idem_row \<Rightarrow> bool" where
  "stored_result i \<longleftrightarrow>
     (\<exists>res. i_result_json i = Some (result_to_dict res) \<and> i_replayable i = (\<not> res_retryable res)) \<and>
     i_expires_at i \<noteq> None"

text \<open>
  The primary keys are unique; a \<open>RUNNING\<close> key names a \<open>RUNNING\<close> run of the same key and
  fingerprint and each \<open>RUNNING\<close> run is named by its key; a \<open>DONE\<close> key holds a result that
  decodes, an expiry, and is replayable exactly when the result is not retryable; a run that
  has ended has its completion time.
\<close>

definition db_inv :: "runner_db \<Rightarrow> bool" where
  "db_inv db \<longleftrightarrow>
     distinct (map l_id (leases db)) \<and> distinct (map r_run_id (db_runs db)) \<and>
     distinct (map key_of (idempotency_keys db)) \<and>
     (\<forall>i\<in>set (idempotency_keys db). i_state i = KEY_RUNNING \<longrightarrow> claims_run (db_runs db) i) \<and>
     (\<forall>r\<in>set (db_runs db). r_state r = RUNNING \<longrightarrow> run_claimed (idempotency_keys db) r) \<and>
     (\<forall>i\<in>set (idempotency_keys db). i_state i = KEY_DONE \<longrightarrow> stored_result i) \<and>
     (\<forall>r\<in>set (db_runs db). r_state r \<noteq> RUNNING \<longrightarrow> r_completed_at r \<noteq> None)"

lemma db_invI:
  assumes "distinct (map l_id (leases db))" "distinct (map r_run_id (db_runs db))"
    "distinct (map key_of (idempotency_keys db))"
    "\<And>i. i \<in> set (idempotency_keys db) \<Longrightarrow> i_state i = KEY_RUNNING \<Longrightarrow> claims_run (db_runs db) i"
    "\<And>r. r \<in> set (db_runs db) \<Longrightarrow> r_state r = RUNNING \<Longrightarrow> run_claimed (idempotency_keys db) r"
    "\<And>i. i \<in> set (idempotency_keys db) \<Longrightarrow> i_state i = KEY_DONE \<Longrightarrow> stored_result i"
    "\<And>r. r \<in> set (db_runs db) \<Longrightarrow> r_state r \<noteq> RUNNING \<Longrightarrow> r_completed_at r \<noteq> None"
  shows "db_inv db"
  using assms unfolding db_inv_def by blast

lemma db_invD:
  assumes "db_inv db"
  shows "distinct (map l_id (leases db))" "distinct (map r_run_id (db_runs db))"
    "distinct (map key_of (idempotency_keys db))"
    "\<And>i. i \<in> set (idempotency_keys db) \<Longrightarrow> i_state i = KEY_RUNNING \<Longrightarrow> claims_run (db_runs db) i"
    "\<And>r. r \<in> set (db_runs db) \<Longrightarrow> r_state r = RUNNING \<Longrightarrow> run_claimed (idempotency_keys db) r"
    "\<And>i. i \<in> set (idempotency_keys db) \<Longrightarrow> i_state i = KEY_DONE \<Longrightarrow> stored_result i"
    "\<And>r. r \<in> set (db_runs db) \<Longrightarrow> r_state r \<noteq> RUNNING \<Longrightarrow> r_completed_at r \<noteq> None"
  using assms unfolding db_inv_def by blast+

lemma has_key_iff: "has_key t rel k i \<longleftrightarrow> key_of i = (t, rel, k)"
  by (simp add: has_key_def key_of_def)

lemma key_state_neq [simp]: "s \<noteq> KEY_RUNNING \<longleftrightarrow> s = KEY_DONE" "s \<noteq> KEY_DONE \<longleftrightarrow> s = KEY_RUNNING"
  by (cases s; simp)+

lemma db_inv_empty: "db_inv empty_db"
  by (simp add: db_inv_def empty_db_def)

lemma db_inv_leases: "db_inv db \<Longrightarrow> distinct (map l_id ls) \<Longrightarrow> db_inv (db\<lparr>leases := ls\<rparr>)"
  by (simp add: db_inv_def)

lemma one_running_run:
  assumes "db_inv db" "r \<in> set (db_runs db)" "r' \<in> set (db_runs db)"
    "r_state r = RUNNING" "r_state r' = RUNNING" "run_key r = run_key r'"
  shows "r = r'"
proof -
  obtain i where i: "i \<in> set (idempotency_keys db)" "key_of i = run_key r" "i_current_run_id i = r_run_id r"
    using db_invD(5) [OF assms(1,2,4)] by (auto simp: run_claimed_def)
  obtain i' where i': "i' \<in> set (idempotency_keys db)" "key_of i' = run_key r'" "i_current_run_id i' = r_run_id r'"
    using db_invD(5) [OF assms(1,3,5)] by (auto simp: run_claimed_def)
  have "i = i'" using distinct_key_eq [OF db_invD(3) [OF assms(1)] i(1) i'(1)] i(2) i'(2) assms(6) by simp
  then have "r_run_id r = r_run_id r'" using i(3) i'(3) by simp
  then show ?thesis by (rule distinct_key_eq [OF db_invD(2) [OF assms(1)] assms(2,3)])
qed

subsection \<open>Every operation keeps it\<close>

lemma create_lease_inv: "db_inv db \<Longrightarrow> db_inv (snd (create_lease db u now dbnow t p pr rel ttl))"
  by (auto simp: create_lease_def Let_def intro!: db_inv_leases dest: db_invD(1))

lemma renew_lease_inv: "db_inv db \<Longrightarrow> db_inv (snd (renew_lease db now1 now2 dbnow lid t ttl))"
  by (auto simp: renew_lease_def Let_def map_update_where_key split: sum.splits intro!: db_inv_leases dest: db_invD(1))

lemma delete_lease_inv: "db_inv db \<Longrightarrow> db_inv (snd (delete_lease db lid t))"
  by (auto simp: delete_lease_def split: option.splits intro!: db_inv_leases distinct_map_delete_where dest: db_invD(1))

lemma purge_expired_leases_inv: "db_inv db \<Longrightarrow> db_inv (snd (purge_expired_leases db dbnow))"
  by (auto simp: purge_expired_leases_def intro!: db_inv_leases distinct_map_delete_where dest: db_invD(1))

lemma row_update_keys [simp]:
  "r_run_id (abandon_row d c m r) = r_run_id r" "run_key (abandon_row d c m r) = run_key r"
  "r_state (abandon_row d c m r) = ABANDONED" "r_completed_at (abandon_row d c m r) = Some d"
  "r_run_id (finish_row d res b e r) = r_run_id r" "run_key (finish_row d res b e r) = run_key r"
  "r_state (finish_row d res b e r) = DONE" "r_completed_at (finish_row d res b e r) = Some d"
  by (simp_all add: abandon_row_def finish_row_def run_key_def)

lemma claimed_row_simps [simp]:
  "key_of (new_idem_row d rid a) = (arg_tenant_id a, arg_release_id a, arg_key a)"
  "i_state (new_idem_row d rid a) = KEY_RUNNING" "i_current_run_id (new_idem_row d rid a) = rid"
  "i_request_fingerprint (new_idem_row d rid a) = arg_fingerprint a"
  "key_of (reclaim_idem_row d rid a i) = key_of i" "i_state (reclaim_idem_row d rid a i) = KEY_RUNNING"
  "i_current_run_id (reclaim_idem_row d rid a i) = rid"
  "i_request_fingerprint (reclaim_idem_row d rid a i) = i_request_fingerprint i"
  "r_run_id (new_run_row d rid a) = rid" "r_state (new_run_row d rid a) = RUNNING"
  "run_key (new_run_row d rid a) = (arg_tenant_id a, arg_release_id a, arg_key a)"
  "r_request_fingerprint (new_run_row d rid a) = arg_fingerprint a"
  by (simp_all add: new_idem_row_def reclaim_idem_row_def new_run_row_def key_of_def run_key_def)

text \<open>
  Ending runs while dropping or completing exactly the keys that claim them: the common shape of
  \<open>reset_running\<close>, \<open>abandon_run\<close> and \<open>finish_run\<close>.
\<close>

lemma db_inv_end_runs:
  assumes inv: "db_inv db"
    and f: "\<And>r. r_run_id (f r) = r_run_id r \<and> run_key (f r) = run_key r \<and> r_state (f r) \<noteq> RUNNING \<and> r_completed_at (f r) \<noteq> None"
    and dist: "distinct (map key_of ks)"
    and keep: "\<And>i. i \<in> set (idempotency_keys db) \<Longrightarrow> \<not> q i \<Longrightarrow> i \<in> set ks"
    and only: "\<And>i. i \<in> set ks \<Longrightarrow> i \<in> set (idempotency_keys db) \<and> \<not> q i \<or> i_state i = KEY_DONE \<and> stored_result i"
    and pq: "\<And>r i. r \<in> set (db_runs db) \<Longrightarrow> i \<in> set (idempotency_keys db) \<Longrightarrow> r_state r = RUNNING \<Longrightarrow>
        i_state i = KEY_RUNNING \<Longrightarrow> key_of i = run_key r \<Longrightarrow> i_current_run_id i = r_run_id r \<Longrightarrow> p r \<longleftrightarrow> q i"
  shows "db_inv (db\<lparr>db_runs := update_where p f (db_runs db), idempotency_keys := ks\<rparr>)" (is "db_inv ?db")
proof (rule db_invI)
  fix i assume i: "i \<in> set (idempotency_keys ?db)" "i_state i = KEY_RUNNING"
  then have i': "i \<in> set (idempotency_keys db)" "\<not> q i" using only [of i] by auto
  obtain r where r: "r \<in> set (db_runs db)" "r_run_id r = i_current_run_id i" "r_state r = RUNNING"
      "run_key r = key_of i" "r_request_fingerprint r = i_request_fingerprint i"
    using db_invD(4) [OF inv i'(1) i(2)] by (auto simp: claims_run_def)
  then have "\<not> p r" using pq [OF r(1) i'(1) r(3) i(2)] i'(2) by simp
  then have "r \<in> set (db_runs ?db)" using r(1) by (simp add: set_update_where)
  with r show "claims_run (db_runs ?db) i" by (auto simp: claims_run_def)
next
  fix r assume r: "r \<in> set (db_runs ?db)" "r_state r = RUNNING"
  then have r': "r \<in> set (db_runs db)" "\<not> p r" using f by (auto simp: set_update_where)
  obtain i where i: "i \<in> set (idempotency_keys db)" "key_of i = run_key r" "i_state i = KEY_RUNNING"
      "i_current_run_id i = r_run_id r"
    using db_invD(5) [OF inv r'(1) r(2)] by (auto simp: run_claimed_def)
  then have "\<not> q i" using pq [OF r'(1) i(1) r(2) i(3)] r'(2) by simp
  with i keep [OF i(1)] show "run_claimed (idempotency_keys ?db) r" by (auto simp: run_claimed_def)
next
  show "distinct (map r_run_id (db_runs ?db))" using db_invD(2) [OF inv] f by (simp add: map_update_where_key)
  show "distinct (map key_of (idempotency_keys ?db))" using dist by simp
  show "distinct (map l_id (leases ?db))" using db_invD(1) [OF inv] by simp
next
  fix i assume "i \<in> set (idempotency_keys ?db)" "i_state i = KEY_DONE"
  then show "stored_result i" using db_invD(6) [OF inv, of i] only [of i] by auto
next
  fix r assume "r \<in> set (db_runs ?db)" "r_state r \<noteq> RUNNING"
  then show "r_completed_at r \<noteq> None" using db_invD(7) [OF inv] f by (auto simp: set_update_where)
qed

lemma reset_running_inv: "db_inv db \<Longrightarrow> db_inv (snd (reset_running db dbnow))"
  unfolding reset_running_def
  by (simp, rule db_inv_end_runs [where q = "\<lambda>i. i_state i = KEY_RUNNING"])
    (auto simp: set_delete_where intro: distinct_map_delete_where dest: db_invD)

text \<open>A caller that ends a run passes the key it claimed the run under.\<close>

definition args_match :: "runner_db \<Rightarrow> string \<Rightarrow> string \<times> string \<times> string \<Rightarrow> bool" where
  "args_match db rid k \<longleftrightarrow> (\<forall>r\<in>set (db_runs db). r_run_id r = rid \<longrightarrow> run_key r = k)"

lemma abandon_run_inv:
  assumes "db_inv db" "args_match db rid (t, rel, k)"
  shows "db_inv (abandon_run db dbnow rid k t rel c m)"
  unfolding abandon_run_def using assms(1)
  by (rule db_inv_end_runs [where q = "\<lambda>i. has_key t rel k i \<and> i_current_run_id i = rid \<and> i_state i = KEY_RUNNING"])
    (use assms in \<open>auto simp: has_key_iff args_match_def set_delete_where intro: distinct_map_delete_where dest: db_invD\<close>)

lemma purge_expired_idempotency_inv: "db_inv db \<Longrightarrow> db_inv (snd (purge_expired_idempotency db dbnow))"
  by (auto simp: purge_expired_idempotency_def Let_def set_delete_where claims_run_def run_claimed_def
      intro!: db_invI distinct_map_delete_where dest: db_invD split: option.splits)
    (use db_invD in \<open>fastforce simp: claims_run_def run_claimed_def\<close>)+

lemma purge_old_runs_inv: "db_inv db \<Longrightarrow> db_inv (snd (purge_old_runs db now dbnow older))"
proof -
  assume inv: "db_inv db"
  have del: "\<And>p. (\<forall>r. p r \<longrightarrow> r_state r \<noteq> RUNNING) \<Longrightarrow> db_inv (db\<lparr>db_runs := delete_where p (db_runs db)\<rparr>)"
  proof (rule db_invI)
    fix p i assume p: "\<forall>r. p r \<longrightarrow> r_state r \<noteq> RUNNING"
      and i: "i \<in> set (idempotency_keys (db\<lparr>db_runs := delete_where p (db_runs db)\<rparr>))" "i_state i = KEY_RUNNING"
    then have "claims_run (db_runs db) i" using db_invD(4) [OF inv] by simp
    then show "claims_run (db_runs (db\<lparr>db_runs := delete_where p (db_runs db)\<rparr>)) i"
      using p by (auto simp: claims_run_def set_delete_where)
  qed (use inv in \<open>auto simp: set_delete_where intro: distinct_map_delete_where dest: db_invD\<close>)
  show ?thesis
  proof (cases "older \<le> 0")
    case False
    then show ?thesis by (simp add: purge_old_runs_def Let_def) (rule del, auto)
  qed (simp add: purge_old_runs_def inv)
qed

text \<open>Claiming a key replaces its row, or adds one, and touches no other.\<close>

definition claim_row :: "int \<Rightarrow> string \<Rightarrow> run_args \<Rightarrow> idem_row option \<Rightarrow> idem_row" where
  "claim_row dbnow rid a found =
     (case found of None \<Rightarrow> new_idem_row dbnow rid a | Some row \<Rightarrow> reclaim_idem_row dbnow rid a row)"

definition args_key :: "run_args \<Rightarrow> string \<times> string \<times> string" where
  "args_key a = (arg_tenant_id a, arg_release_id a, arg_key a)"

lemma claim_keys_facts:
  assumes dist: "distinct (map key_of keys)"
    and found: "found = fetchone (has_key (arg_tenant_id a) (arg_release_id a) (arg_key a)) keys"
    and ok: "\<And>row. found = Some row \<Longrightarrow> i_request_fingerprint row = arg_fingerprint a"
  shows "distinct (map key_of (claim_keys dbnow rid a found keys))" (is ?D)
    "set (claim_keys dbnow rid a found keys) =
       insert (claim_row dbnow rid a found) {i \<in> set keys. key_of i \<noteq> args_key a}" (is ?S)
    "key_of (claim_row dbnow rid a found) = args_key a" (is ?K)
    "i_request_fingerprint (claim_row dbnow rid a found) = arg_fingerprint a" (is ?F)
    "i_state (claim_row dbnow rid a found) = KEY_RUNNING"
    "i_current_run_id (claim_row dbnow rid a found) = rid"
proof -
  have key: "i \<in> set keys \<Longrightarrow> key_of i = args_key a \<Longrightarrow> found = Some i" for i
    using found fetchone_key_iff [OF dist, of "args_key a"] by (simp add: has_key_iff [abs_def] args_key_def)
  have row: "found = Some row \<Longrightarrow> row \<in> set keys \<and> key_of row = args_key a" for row
    using found fetchone_SomeD [of "has_key (arg_tenant_id a) (arg_release_id a) (arg_key a)" keys row] by (auto simp: has_key_iff args_key_def)
  show ?K ?F using row ok by (auto simp: claim_row_def args_key_def split: option.splits)
  have "args_key a \<notin> key_of ` set keys" if "found = None" using key that by force
  then show ?D using dist by (cases found) (simp_all add: claim_keys_def map_update_where_key args_key_def)
  show ?S using key row
    by (cases found) (auto simp: claim_keys_def claim_row_def set_update_where has_key_iff args_key_def)
qed (simp_all add: claim_row_def split: option.splits)

lemma claim_run_inv:
  assumes inv: "db_inv db"
    and found: "found = fetchone (has_key (arg_tenant_id a) (arg_release_id a) (arg_key a)) (idempotency_keys db)"
    and row: "\<And>row. found = Some row \<Longrightarrow> i_state row = KEY_DONE"
    and fp: "\<And>row. found = Some row \<Longrightarrow> i_request_fingerprint row = arg_fingerprint a"
  shows "db_inv (snd (claim_run db rid dbnow a found))"
proof (cases "rid \<in> r_run_id ` set (db_runs db)")
  case False
  let ?db = "db\<lparr>idempotency_keys := claim_keys dbnow rid a found (idempotency_keys db),
               db_runs := db_runs db @ [new_run_row dbnow rid a]\<rparr>"
  note ck = claim_keys_facts [OF db_invD(3) [OF inv] found fp, of dbnow rid]
  have "db_inv ?db"
  proof (rule db_invI)
    fix i assume i: "i \<in> set (idempotency_keys ?db)" "i_state i = KEY_RUNNING"
    show "claims_run (db_runs ?db) i"
    proof (cases "key_of i = args_key a")
      case True
      with i(1) ck show ?thesis by (auto simp: claims_run_def args_key_def)
    next
      case False
      with i ck have "claims_run (db_runs db) i" using db_invD(4) [OF inv] by auto
      then show ?thesis by (auto simp: claims_run_def)
    qed
  next
    fix r assume r: "r \<in> set (db_runs ?db)" "r_state r = RUNNING"
    show "run_claimed (idempotency_keys ?db) r"
    proof (cases "r = new_run_row dbnow rid a")
      case True
      then show ?thesis using ck by (simp add: run_claimed_def args_key_def)
    next
      case False
      then obtain i where i: "i \<in> set (idempotency_keys db)" "key_of i = run_key r" "i_state i = KEY_RUNNING"
          "i_current_run_id i = r_run_id r"
        using r db_invD(5) [OF inv] by (auto simp: run_claimed_def)
      moreover have "key_of i \<noteq> args_key a"
        using i(1,3) row found fetchone_key_iff [OF db_invD(3) [OF inv], of "args_key a"]
        by (fastforce simp: has_key_iff [abs_def] args_key_def)
      ultimately show ?thesis using ck(2) by (auto simp: run_claimed_def)
    qed
  next
    fix i assume "i \<in> set (idempotency_keys ?db)" "i_state i = KEY_DONE"
    then show "stored_result i" using db_invD(6) [OF inv] ck by auto
  qed (use db_invD(1,2,7) [OF inv] False ck(1) in auto)
  then show ?thesis using False by (simp add: claim_run_def)
qed (simp add: claim_run_def inv)

lemma db_inv_replay:
  assumes "db_inv db"
  shows "db_inv (db\<lparr>idempotency_keys := update_where q
    (\<lambda>i. i\<lparr>i_replay_count := c i, i_last_replayed_at := l i, i_updated_at := u i\<rparr>) (idempotency_keys db)\<rparr>)"
    (is "db_inv (db\<lparr>idempotency_keys := update_where q ?f _\<rparr>)")
proof -
  have k: "key_of (?f i) = key_of i" for i by (simp add: key_of_def)
  have "claims_run (db_runs db) (?f i) = claims_run (db_runs db) i" "stored_result (?f i) = stored_result i" for i
    by (simp_all add: claims_run_def stored_result_def k)
  moreover have "run_claimed (update_where q ?f (idempotency_keys db)) r" if rc: "run_claimed (idempotency_keys db) r" for r
  proof -
    obtain i where "i \<in> set (idempotency_keys db)" "key_of i = run_key r" "i_state i = KEY_RUNNING"
        "i_current_run_id i = r_run_id r"
      using rc by (auto simp: run_claimed_def)
    then show ?thesis unfolding run_claimed_def
      by (intro bexI [of _ "if q i then ?f i else i"]) (auto simp: k update_where_def)
  qed
  ultimately show ?thesis using assms k
    by (simp add: db_inv_def map_update_where_key set_update_where ball_Un)
qed

lemma begin_run_inv: "db_inv db \<Longrightarrow> db_inv (snd (begin_run db uuid now dbnow a))"
proof -
  assume inv: "db_inv db"
  show ?thesis
  proof (cases "fetchone (has_key (arg_tenant_id a) (arg_release_id a) (arg_key a)) (idempotency_keys db)")
    case None
    then show ?thesis using claim_run_inv [OF inv None [symmetric], of uuid dbnow] by (simp add: begin_run_def)
  next
    case (Some row)
    have "db_inv (snd (claim_run db uuid dbnow a (Some row)))"
      if "i_request_fingerprint row = arg_fingerprint a" "i_state row \<noteq> KEY_RUNNING"
      using claim_run_inv [OF inv Some [symmetric], of uuid dbnow] that by simp
    then show ?thesis using Some inv db_inv_replay
      by (auto simp: begin_run_def Let_def split: sum.splits)
  qed
qed

lemma one_claim:
  assumes inv: "db_inv db" and i: "i \<in> set (idempotency_keys db)" and j: "j \<in> set (idempotency_keys db)"
    and run: "i_state i = KEY_RUNNING" "i_state j = KEY_RUNNING" "i_current_run_id i = i_current_run_id j"
  shows "i = j"
proof -
  obtain r s where rs: "r \<in> set (db_runs db)" "s \<in> set (db_runs db)" "r_run_id r = r_run_id s"
      "run_key r = key_of i" "run_key s = key_of j"
    using db_invD(4) [OF inv i run(1)] db_invD(4) [OF inv j run(2)] run(3) by (auto simp: claims_run_def)
  have "r = s" using rs(1-3) by (rule distinct_key_eq [OF db_invD(2) [OF inv]])
  then have "key_of i = key_of j" using rs(4,5) by simp
  then show ?thesis by (rule distinct_key_eq [OF db_invD(3) [OF inv] i j])
qed

lemma finish_run_inv:
  assumes inv: "db_inv db"
  shows "db_inv (snd (finish_run db now dbnow rid k t rel res ret))"
proof -
  let ?exp = "if \<not> res_retryable res then now + ret * 1000 else now"
  let ?p = "\<lambda>r. r_run_id r = rid \<and> r_state r = RUNNING"
  let ?q = "\<lambda>i. has_key t rel k i \<and> i_current_run_id i = rid \<and> i_state i = KEY_RUNNING"
  let ?f = "finish_row dbnow res (\<not> res_retryable res) ?exp"
  let ?g = "\<lambda>i. i\<lparr>i_state := KEY_DONE, i_replayable := \<not> res_retryable res,
      i_result_json := Some (result_to_dict res), i_expires_at := Some ?exp, i_updated_at := dbnow\<rparr>"
  let ?ks = "update_where ?q ?g (idempotency_keys db)"
  have "db_inv (db\<lparr>db_runs := update_where ?p ?f (db_runs db), idempotency_keys := ?ks\<rparr>)"
    if one: "rowcount ?q (idempotency_keys db) = 1"
    using inv
  proof (rule db_inv_end_runs [where q = ?q])
    obtain i0 where i0: "i0 \<in> set (idempotency_keys db)" "?q i0"
      using rowcount_1D [OF one] by blast
    fix r i assume "r \<in> set (db_runs db)" "i \<in> set (idempotency_keys db)" "i_state i = KEY_RUNNING"
      "key_of i = run_key r" "i_current_run_id i = r_run_id r" "r_state r = RUNNING"
    then show "?p r \<longleftrightarrow> ?q i" using one_claim [OF inv _ i0(1), of i] i0(2) by auto
  next
    have "key_of (?g i) = key_of i" for i by (simp add: key_of_def)
    then show "distinct (map key_of ?ks)" using db_invD(3) [OF inv] by (simp add: map_update_where_key)
  qed (auto simp: set_update_where stored_result_def)
  then show ?thesis using inv by (simp add: finish_run_def Let_def)
qed

subsection \<open>The transactions as a machine\<close>

text \<open>Committed transactions in any order, on any clock readings.\<close>

inductive db_step :: "runner_db \<Rightarrow> runner_db \<Rightarrow> bool" where
  step_create_lease: "db_step db (snd (create_lease db u now dbnow t p pr rel ttl))"
| step_renew_lease: "db_step db (snd (renew_lease db now now' dbnow lid t ttl))"
| step_delete_lease: "db_step db (snd (delete_lease db lid t))"
| step_purge_leases: "db_step db (snd (purge_expired_leases db dbnow))"
| step_reset: "db_step db (snd (reset_running db dbnow))"
| step_begin: "db_step db (snd (begin_run db u now dbnow a))"
| step_finish: "db_step db (snd (finish_run db now dbnow rid k t rel res ret))"
| step_abandon: "args_match db rid (t, rel, k) \<Longrightarrow> db_step db (abandon_run db dbnow rid k t rel c m)"
| step_purge_keys: "db_step db (snd (purge_expired_idempotency db dbnow))"
| step_purge_runs: "db_step db (snd (purge_old_runs db now dbnow older))"

lemmas db_op_invs = create_lease_inv renew_lease_inv delete_lease_inv purge_expired_leases_inv
  reset_running_inv begin_run_inv finish_run_inv abandon_run_inv purge_expired_idempotency_inv
  purge_old_runs_inv

lemma db_step_inv: "db_step db db' \<Longrightarrow> db_inv db \<Longrightarrow> db_inv db'"
  by (induction rule: db_step.induct) (auto intro: db_op_invs)

interpretation db_machine: invariant_machine "\<lambda>db. db = empty_db" db_step db_inv
  by unfold_locales (auto simp: db_inv_empty intro: db_step_inv)

section \<open>Abstract idempotency store\<close>

text \<open>
  What the two tables promise together: a map from request identity to a slot that is either
  claimed by a run or finished with a result.  \<open>idem_view\<close> reads it off the tables and the three
  lemmas below show that the SQL of \<open>begin_run\<close>, \<open>finish_run\<close> and \<open>abandon_run\<close> implements the
  three operations on it.
\<close>

datatype slot =
    InFlight string string
  | Finished string "run_result result" bool int

type_synonym idem_store = "string \<times> string \<times> string \<Rightarrow> slot option"

definition slot_of :: "idem_row \<Rightarrow> slot" where
  "slot_of i = (case i_state i of
     KEY_RUNNING \<Rightarrow> InFlight (i_request_fingerprint i) (i_current_run_id i)
   | KEY_DONE \<Rightarrow> Finished (i_request_fingerprint i) (result_from_dict (the (i_result_json i)))
                  (i_replayable i) (the (i_expires_at i)))"

definition idem_view :: "runner_db \<Rightarrow> idem_store" where
  "idem_view db k = map_option slot_of (fetchone (\<lambda>i. key_of i = k) (idempotency_keys db))"

definition spec_begin :: "idem_store \<Rightarrow> string \<Rightarrow> int \<Rightarrow> string \<times> string \<times> string \<Rightarrow> string \<Rightarrow> run_claim result \<times> idem_store" where
  "spec_begin m run_id now k fp =
     (let claim = (Inr \<lparr>claim_run_id = Some run_id, cached_result = None\<rparr>, m(k \<mapsto> InFlight fp run_id));
          conflict = Inl (RunnerExn RunnerError ''IDEMPOTENCY_CONFLICT''
               ''idempotency key was reused for different request content'' False) in
      case m k of
        None \<Rightarrow> claim
      | Some (InFlight fp' _) \<Rightarrow>
          if fp' \<noteq> fp then (conflict, m)
          else (Inl (RunnerExn RunnerError ''RUN_IN_PROGRESS'' ''same logical request is already running'' True), m)
      | Some (Finished fp' res replayable expires) \<Rightarrow>
          if fp' \<noteq> fp then (conflict, m)
          else if replayable \<and> now < expires then
            (result_bind res (\<lambda>r. Inr \<lparr>claim_run_id = None, cached_result = Some r\<rparr>), m)
          else claim)"

definition spec_finish :: "idem_store \<Rightarrow> int \<Rightarrow> string \<times> string \<times> string \<Rightarrow> string \<Rightarrow> run_result \<Rightarrow> int \<Rightarrow> idem_store option" where
  "spec_finish m now k run_id res retention_ms =
     (case m k of
        Some (InFlight fp run_id') \<Rightarrow>
          if run_id' = run_id then
            Some (m(k \<mapsto> Finished fp (Inr res) (\<not> res_retryable res)
                      (if res_retryable res then now else now + retention_ms * 1000)))
          else None
      | _ \<Rightarrow> None)"

definition spec_abandon :: "idem_store \<Rightarrow> string \<times> string \<times> string \<Rightarrow> string \<Rightarrow> idem_store" where
  "spec_abandon m k run_id =
     (case m k of
        Some (InFlight fp run_id') \<Rightarrow> if run_id' = run_id then m(k := None) else m
      | _ \<Rightarrow> m)"

lemma idem_view_claim:
  assumes inv: "db_inv db" and fresh: "rid \<notin> r_run_id ` set (db_runs db)"
    and found: "found = fetchone (has_key (arg_tenant_id a) (arg_release_id a) (arg_key a)) (idempotency_keys db)"
    and fp: "\<And>row. found = Some row \<Longrightarrow> i_request_fingerprint row = arg_fingerprint a"
  shows "fst (claim_run db rid dbnow a found) = Inr \<lparr>claim_run_id = Some rid, cached_result = None\<rparr>"
    "idem_view (snd (claim_run db rid dbnow a found)) = (idem_view db)(args_key a \<mapsto> InFlight (arg_fingerprint a) rid)"
proof -
  note ck = claim_keys_facts [OF db_invD(3) [OF inv] found fp, of dbnow rid]
  have "fetchone (\<lambda>i. key_of i = k) (claim_keys dbnow rid a found (idempotency_keys db)) =
     (if k = args_key a then Some (claim_row dbnow rid a found) else fetchone (\<lambda>i. key_of i = k) (idempotency_keys db))" for k
  proof (cases "k = args_key a")
    case True
    then show ?thesis using fetchone_key_iff [OF ck(1), of k] ck(2,3) by auto
  next
    case False
    have "fetchone (\<lambda>i. key_of i = k) (claim_keys dbnow rid a found (idempotency_keys db)) =
      fetchone (\<lambda>i. key_of i = k) (idempotency_keys db)"
    proof (cases "fetchone (\<lambda>i. key_of i = k) (idempotency_keys db)")
      case None
      then have "fetchone (\<lambda>i. key_of i = k) (claim_keys dbnow rid a found (idempotency_keys db)) = None"
        using False ck(2,3) by (auto simp: fetchone_None)
      with None show ?thesis by simp
    next
      case (Some r)
      then show ?thesis using fetchone_SomeD [OF Some] fetchone_key_iff [OF ck(1), of k r] ck(2) False by simp
    qed
    with False show ?thesis by simp
  qed
  then show "idem_view (snd (claim_run db rid dbnow a found)) = (idem_view db)(args_key a \<mapsto> InFlight (arg_fingerprint a) rid)"
    using fresh ck(4-6) by (auto simp: claim_run_def idem_view_def fun_eq_iff slot_of_def)
qed (use fresh in \<open>simp add: claim_run_def\<close>)

lemma fetch_key_eq: "fetchone (has_key t rel k) ks = fetchone (\<lambda>i. key_of i = (t, rel, k)) ks"
  by (simp add: has_key_iff [abs_def])

lemma idem_view_replay:
  "idem_view (db\<lparr>idempotency_keys := update_where p
      (\<lambda>i. i\<lparr>i_replay_count := c i, i_last_replayed_at := l i, i_updated_at := u i\<rparr>) (idempotency_keys db)\<rparr>) = idem_view db"
  (is "idem_view (db\<lparr>idempotency_keys := update_where p ?f _\<rparr>) = _")
proof -
  have "key_of (?f i) = key_of i" "slot_of (?f i) = slot_of i" for i
    by (simp_all add: key_of_def slot_of_def split: key_state.splits)
  then show ?thesis
    by (auto simp: idem_view_def fun_eq_iff fetchone_update_where option.map_comp comp_def intro!: option.map_cong)
qed

lemma begin_run_refines:
  assumes inv: "db_inv db" and fresh: "uuid \<notin> r_run_id ` set (db_runs db)"
  shows "(fst (begin_run db uuid now dbnow a), idem_view (snd (begin_run db uuid now dbnow a))) =
    spec_begin (idem_view db) uuid now (args_key a) (arg_fingerprint a)"
proof (cases "fetchone (has_key (arg_tenant_id a) (arg_release_id a) (arg_key a)) (idempotency_keys db)")
  case None
  then have "idem_view db (args_key a) = None" by (simp add: idem_view_def fetch_key_eq args_key_def)
  then show ?thesis using idem_view_claim [OF inv fresh None [symmetric], of dbnow] None
    by (simp add: begin_run_def spec_begin_def)
next
  case (Some row)
  have view: "idem_view db (args_key a) = Some (slot_of row)"
    using Some by (simp add: idem_view_def fetch_key_eq args_key_def)
  have row: "row \<in> set (idempotency_keys db)" using fetchone_SomeD [OF Some] by simp
  have stored: "i_state row = KEY_DONE \<Longrightarrow> \<exists>res e. i_result_json row = Some (result_to_dict res) \<and> i_expires_at row = Some e"
    using db_invD(6) [OF inv row] by (auto simp: stored_result_def)
  show ?thesis
    using view stored idem_view_claim [OF inv fresh Some [symmetric], of dbnow] Some
    by (cases "i_state row") (auto simp: begin_run_def spec_begin_def slot_of_def cache_valid_def Let_def idem_view_replay)
qed

lemma finish_counts:
  assumes inv: "db_inv db" and row: "fetchone (\<lambda>i. key_of i = (t, rel, k)) (idempotency_keys db) = Some row"
    and run: "i_state row = KEY_RUNNING" "i_current_run_id row = rid"
  shows "rowcount (\<lambda>r. r_run_id r = rid \<and> r_state r = RUNNING) (db_runs db) = 1"
    "rowcount (\<lambda>i. has_key t rel k i \<and> i_current_run_id i = rid \<and> i_state i = KEY_RUNNING) (idempotency_keys db) = 1"
proof -
  have i: "row \<in> set (idempotency_keys db)" "key_of row = (t, rel, k)" using fetchone_SomeD [OF row] by auto
  obtain r where "r \<in> set (db_runs db)" "r_run_id r = rid" "r_state r = RUNNING"
    using db_invD(4) [OF inv i(1) run(1)] run(2) by (auto simp: claims_run_def)
  then show "rowcount (\<lambda>r. r_run_id r = rid \<and> r_state r = RUNNING) (db_runs db) = 1"
    by (intro rowcount_key_1 [OF db_invD(2) [OF inv]]) auto
  show "rowcount (\<lambda>i. has_key t rel k i \<and> i_current_run_id i = rid \<and> i_state i = KEY_RUNNING) (idempotency_keys db) = 1"
    using i run by (intro rowcount_key_1 [OF db_invD(3) [OF inv], of row]) (auto simp: has_key_iff)
qed

definition claimed_by :: "runner_db \<Rightarrow> string \<times> string \<times> string \<Rightarrow> string \<Rightarrow> bool" where
  "claimed_by db k rid \<longleftrightarrow> (\<exists>fp. idem_view db k = Some (InFlight fp rid))"

lemma slot_InFlight: "slot_of i = InFlight fp rid \<longleftrightarrow>
    i_state i = KEY_RUNNING \<and> i_request_fingerprint i = fp \<and> i_current_run_id i = rid"
  by (auto simp: slot_of_def split: key_state.splits)

lemma claimed_by_iff:
  "claimed_by db k rid \<longleftrightarrow>
    (\<exists>row. fetchone (\<lambda>i. key_of i = k) (idempotency_keys db) = Some row \<and> i_state row = KEY_RUNNING \<and> i_current_run_id row = rid)"
  by (auto simp: claimed_by_def idem_view_def slot_InFlight)

lemma not_claimed:
  assumes "db_inv db" "\<not> claimed_by db (t, rel, k) rid" "i \<in> set (idempotency_keys db)"
  shows "\<not> (has_key t rel k i \<and> i_current_run_id i = rid \<and> i_state i = KEY_RUNNING)"
  using assms fetchone_key_iff [OF db_invD(3) [OF assms(1)], of "(t, rel, k)" i] by (auto simp: claimed_by_iff has_key_iff)

lemma finish_run_claimed:
  assumes inv: "db_inv db" and claimed: "idem_view db (t, rel, k) = Some (InFlight fp rid)"
  shows "fst (finish_run db now dbnow rid k t rel res ret) = Inr ()"
    "idem_view (snd (finish_run db now dbnow rid k t rel res ret)) =
       (idem_view db)((t, rel, k) \<mapsto> Finished fp (Inr res) (\<not> res_retryable res)
          (if res_retryable res then now else now + ret * 1000))"
proof -
  let ?exp = "if res_retryable res then now else now + ret * 1000"
  let ?q = "\<lambda>i. has_key t rel k i \<and> i_current_run_id i = rid \<and> i_state i = KEY_RUNNING"
  let ?g = "\<lambda>i. i\<lparr>i_state := KEY_DONE, i_replayable := \<not> res_retryable res,
      i_result_json := Some (result_to_dict res), i_expires_at := Some ?exp, i_updated_at := dbnow\<rparr>"
  obtain row where row: "fetchone (\<lambda>i. key_of i = (t, rel, k)) (idempotency_keys db) = Some row"
      "i_state row = KEY_RUNNING" "i_current_run_id row = rid" "i_request_fingerprint row = fp"
    using claimed by (auto simp: idem_view_def slot_InFlight)
  note counts = finish_counts [OF inv row(1-3)]
  show "fst (finish_run db now dbnow rid k t rel res ret) = Inr ()" using counts by (simp add: finish_run_def Let_def)
  have key: "key_of row = (t, rel, k)" using fetchone_SomeD [OF row(1)] by simp
  have g: "key_of (?g i) = key_of i" "slot_of (?g i) = Finished (i_request_fingerprint i) (Inr res) (\<not> res_retryable res) ?exp" for i
    by (simp_all add: key_of_def slot_of_def)
  have other: "\<not> ?q i" if "fetchone (\<lambda>i. key_of i = k') (idempotency_keys db) = Some i" "k' \<noteq> (t, rel, k)" for k' i
    using fetchone_SomeD [OF that(1)] that(2) by (simp add: has_key_iff)
  have view: "map_option slot_of (fetchone (\<lambda>i. key_of i = k') (update_where ?q ?g (idempotency_keys db))) =
      ((idem_view db)((t, rel, k) \<mapsto> Finished fp (Inr res) (\<not> res_retryable res) ?exp)) k'" for k'
    using row g key other [of k'] unfolding fetchone_update_where [where k = key_of and f = ?g, OF g(1)]
    by (cases "fetchone (\<lambda>i. key_of i = k') (idempotency_keys db)") (auto simp: idem_view_def has_key_iff)
  have "idempotency_keys (snd (finish_run db now dbnow rid k t rel res ret)) = update_where ?q ?g (idempotency_keys db)"
    using counts by (cases "res_retryable res") (simp_all add: finish_run_def Let_def)
  then show "idem_view (snd (finish_run db now dbnow rid k t rel res ret)) =
       (idem_view db)((t, rel, k) \<mapsto> Finished fp (Inr res) (\<not> res_retryable res) ?exp)"
    using view by (intro ext) (simp only: idem_view_def)
qed

lemma finish_run_unclaimed:
  assumes "db_inv db" "\<not> claimed_by db (t, rel, k) rid"
  shows "snd (finish_run db now dbnow rid k t rel res ret) = db"
    "\<exists>code msg. fst (finish_run db now dbnow rid k t rel res ret) = Inl (RunnerExn RunnerError code msg True)"
proof -
  have "rowcount (\<lambda>i. has_key t rel k i \<and> i_current_run_id i = rid \<and> i_state i = KEY_RUNNING) (idempotency_keys db) = 0"
    using not_claimed [OF assms] by (simp add: rowcount_0_iff)
  then show "snd (finish_run db now dbnow rid k t rel res ret) = db"
    "\<exists>code msg. fst (finish_run db now dbnow rid k t rel res ret) = Inl (RunnerExn RunnerError code msg True)"
    by (simp_all add: finish_run_def Let_def)
qed

lemma finish_run_refines_spec:
  assumes inv: "db_inv db"
  shows "case spec_finish (idem_view db) now (t, rel, k) rid res ret of
      None \<Rightarrow> snd (finish_run db now dbnow rid k t rel res ret) = db \<and>
              (\<exists>code msg. fst (finish_run db now dbnow rid k t rel res ret) = Inl (RunnerExn RunnerError code msg True))
    | Some m \<Rightarrow> fst (finish_run db now dbnow rid k t rel res ret) = Inr () \<and>
                idem_view (snd (finish_run db now dbnow rid k t rel res ret)) = m"
proof (cases "claimed_by db (t, rel, k) rid")
  case True
  then obtain fp where fp: "idem_view db (t, rel, k) = Some (InFlight fp rid)" by (auto simp: claimed_by_def)
  then show ?thesis using finish_run_claimed [OF inv fp] by (simp add: spec_finish_def)
next
  case False
  then have "spec_finish (idem_view db) now (t, rel, k) rid res ret = None"
    by (auto simp: spec_finish_def claimed_by_def split: option.splits slot.splits)
  then show ?thesis using finish_run_unclaimed [OF inv False] by simp
qed

lemma abandon_run_view:
  assumes inv: "db_inv db"
  shows "idem_view (abandon_run db dbnow rid k t rel c m) = spec_abandon (idem_view db) (t, rel, k) rid"
proof
  fix k'
  let ?q = "\<lambda>i. has_key t rel k i \<and> i_current_run_id i = rid \<and> i_state i = KEY_RUNNING"
  have "idem_view (abandon_run db dbnow rid k t rel c m) k' =
     (case fetchone (\<lambda>i. key_of i = k') (idempotency_keys db) of None \<Rightarrow> None | Some i \<Rightarrow> if ?q i then None else Some (slot_of i))"
    unfolding idem_view_def abandon_run_def
    by (simp add: fetchone_delete_where [OF db_invD(3) [OF inv]] split: option.splits)
  moreover have "key_of i = k'" if "fetchone (\<lambda>i. key_of i = k') (idempotency_keys db) = Some i" for i
    using fetchone_SomeD [OF that] by simp
  ultimately show "idem_view (abandon_run db dbnow rid k t rel c m) k' = spec_abandon (idem_view db) (t, rel, k) rid k'"
    by (cases "k' = (t, rel, k)")
      (auto simp: spec_abandon_def idem_view_def slot_of_def has_key_iff split: option.splits slot.splits key_state.splits)
qed

lemma begin_run_fresh:
  assumes "begin_run db uuid now dbnow a = (Inr claim, db1)" "claim_run_id claim = Some rid"
  shows "uuid \<notin> r_run_id ` set (db_runs db)"
  using assms by (auto simp: begin_run_def Let_def claim_run_def split: option.splits sum.splits if_splits)

lemma begin_run_claims:
  assumes inv: "db_inv db" and start: "begin_run db uuid now dbnow a = (Inr claim, db1)" "claim_run_id claim = Some rid"
  shows "rid = uuid" "idem_view db1 (args_key a) = Some (InFlight (arg_fingerprint a) rid)"
    "idem_view db1 = (idem_view db)(args_key a \<mapsto> InFlight (arg_fingerprint a) rid)"
  using begin_run_refines [OF inv begin_run_fresh [OF start], of now dbnow a] start
  by (auto simp: spec_begin_def Let_def result_bind_def split: option.splits slot.splits if_splits sum.splits)

lemma begin_run_error: "begin_run db uuid now dbnow a = (Inl e, db1) \<Longrightarrow> db1 = db"
  by (auto simp: begin_run_def Let_def claim_run_def split: option.splits sum.splits if_splits)

lemma begin_run_claim_kinds:
  assumes "begin_run db uuid now dbnow a = (Inr claim, db1)"
  shows "claim_run_id claim = None \<longleftrightarrow> cached_result claim \<noteq> None"
  using assms by (auto simp: begin_run_def Let_def claim_run_def split: option.splits sum.splits if_splits)

lemma begin_run_replays:
  assumes "begin_run db uuid now dbnow a = (Inr claim, db1)" "cached_result claim = Some res"
  shows "idem_view db1 = idem_view db"
    "\<exists>e. idem_view db (args_key a) = Some (Finished (arg_fingerprint a) (Inr res) True e) \<and> now < e"
proof -
  obtain row where row: "fetchone (has_key (arg_tenant_id a) (arg_release_id a) (arg_key a)) (idempotency_keys db) = Some row"
      "i_request_fingerprint row = arg_fingerprint a" "cache_valid now row" "result_from_dict (the (i_result_json row)) = Inr res"
    using assms by (auto simp: begin_run_def Let_def claim_run_def split: option.splits sum.splits if_splits)
  then have "idem_view db (args_key a) = Some (slot_of row)" by (simp add: idem_view_def fetch_key_eq args_key_def)
  then show "\<exists>e. idem_view db (args_key a) = Some (Finished (arg_fingerprint a) (Inr res) True e) \<and> now < e"
    using row by (auto simp: slot_of_def cache_valid_def split: option.splits)
  show "idem_view db1 = idem_view db" using assms row by (auto simp: begin_run_def cache_valid_def idem_view_replay)
qed

lemma begin_run_cached:
  assumes inv: "db_inv db" and slot: "idem_view db (args_key a) = Some (Finished (arg_fingerprint a) (Inr res) True e)"
    and live: "now < e"
  shows "fst (begin_run db uuid now dbnow a) = Inr \<lparr>claim_run_id = None, cached_result = Some res\<rparr>"
    "db_runs (snd (begin_run db uuid now dbnow a)) = db_runs db"
    "idem_view (snd (begin_run db uuid now dbnow a)) = idem_view db"
proof -
  obtain row where row: "fetchone (has_key (arg_tenant_id a) (arg_release_id a) (arg_key a)) (idempotency_keys db) = Some row"
      "slot_of row = Finished (arg_fingerprint a) (Inr res) True e"
    using slot by (auto simp: idem_view_def fetch_key_eq args_key_def)
  have "row \<in> set (idempotency_keys db)" using fetchone_SomeD [OF row(1)] by simp
  then have "cache_valid now row" "i_state row = KEY_DONE" "i_request_fingerprint row = arg_fingerprint a"
      "result_from_dict (the (i_result_json row)) = Inr res"
    using row(2) live db_invD(6) [OF inv, of row]
    by (auto simp: slot_of_def cache_valid_def stored_result_def split: key_state.splits)
  then show "fst (begin_run db uuid now dbnow a) = Inr \<lparr>claim_run_id = None, cached_result = Some res\<rparr>"
    "db_runs (snd (begin_run db uuid now dbnow a)) = db_runs db"
    "idem_view (snd (begin_run db uuid now dbnow a)) = idem_view db"
    using row(1) by (simp_all add: begin_run_def idem_view_replay)
qed

section \<open>Properties\<close>

text \<open>Concrete arguments and results for the witnesses.\<close>

definition sample_args :: run_args where
  "sample_args = \<lparr>arg_key = ''k'', arg_tenant_id = ''t'', arg_project_id = ''p'', arg_processor_id = ''q'',
     arg_lease_id = ''l'', arg_release_id = ''r'', arg_invocation_id = ''i'', arg_fingerprint = ''f''\<rparr>"

definition sample_result :: run_result where
  "sample_result = \<lparr>res_status = ''SUCCEEDED'', res_relationship = ''success'', res_content = ''abc'',
     res_attributes = [(''a'', ''b'')], res_retryable = False, res_error_code = [], res_error_message = [],
     res_worker_id = ''w'', res_duration_ms = 5\<rparr>"

text \<open>C3: In every state the database can reach by its transactions, in any order and on any clock
  readings, the invariant of the tables holds, and no two RUNNING runs belong to the same
  (tenant, release, idempotency key).\<close>

theorem db_reachable_exclusive:
  assumes "reach (\<lambda>db. db = empty_db) db_step db"
  shows "db_inv db \<and> (\<forall>r\<in>set (db_runs db). \<forall>s\<in>set (db_runs db).
    r_state r = RUNNING \<and> r_state s = RUNNING \<and> run_key r = run_key s \<longrightarrow> r = s)"
  using db_machine.inv_reach [OF assms] one_running_run by blast

theorem db_reachable_exclusive_witness:
  "db_inv (snd (begin_run empty_db ''u'' 0 0 sample_args)) \<and>
   length (db_runs (snd (begin_run empty_db ''u'' 0 0 sample_args))) = 1"
proof -
  have "reach (\<lambda>db. db = empty_db) db_step (snd (begin_run empty_db ''u'' 0 0 sample_args))"
    by (rule reach_step, rule reach_init, rule refl, rule step_begin)
  from db_reachable_exclusive [OF this]
  show ?thesis by (simp add: begin_run_def fetchone_def claim_run_def empty_db_def)
qed

text \<open>C1: With a fresh run id, \<open>begin_run\<close> implements the abstract idempotency store: it claims a free,
  expired or non-replayable key, replays a live result, rejects a key reused with another
  fingerprint and a key whose run is in progress, and every rejection leaves the store as it was.\<close>

theorem begin_run_implements_store:
  assumes "db_inv db" "uuid \<notin> r_run_id ` set (db_runs db)"
  shows "(fst (begin_run db uuid now dbnow a), idem_view (snd (begin_run db uuid now dbnow a))) =
    spec_begin (idem_view db) uuid now (args_key a) (arg_fingerprint a)"
  using assms by (rule begin_run_refines)

theorem begin_run_implements_store_witness:
  "(fst (begin_run empty_db ''u'' 0 0 sample_args), idem_view (snd (begin_run empty_db ''u'' 0 0 sample_args))) =
    spec_begin (idem_view empty_db) ''u'' 0 (args_key sample_args) (arg_fingerprint sample_args)"
  by (rule begin_run_implements_store) (simp_all add: db_inv_empty, simp add: empty_db_def)

text \<open>C2: \<open>finish_run\<close> either completes exactly the claim of its own run, storing the result with the
  expiry the retention gives it, or raises a retryable error and changes nothing.\<close>

theorem finish_run_implements_store:
  assumes "db_inv db"
  shows "case spec_finish (idem_view db) now (t, rel, k) rid res ret of
      None \<Rightarrow> snd (finish_run db now dbnow rid k t rel res ret) = db \<and>
              (\<exists>code msg. fst (finish_run db now dbnow rid k t rel res ret) = Inl (RunnerExn RunnerError code msg True))
    | Some m \<Rightarrow> fst (finish_run db now dbnow rid k t rel res ret) = Inr () \<and>
                idem_view (snd (finish_run db now dbnow rid k t rel res ret)) = m"
  using assms by (rule finish_run_refines_spec)

theorem finish_run_implements_store_witness:
  "snd (finish_run empty_db 0 0 ''u'' ''k'' ''t'' ''r'' sample_result 10) = empty_db"
  using finish_run_implements_store [OF db_inv_empty, where now = 0 and dbnow = 0 and t = "''t''" and rel = "''r''" and k = "''k''"
    and rid = "''u''" and res = sample_result and ret = 10]
  by (simp add: spec_finish_def idem_view_def empty_db_def fetchone_def)

text \<open>A request that is repeated before its cached result expires gets that result back, byte for
  byte, and no second run is recorded: claim, finish with a non-retryable result, ask again with the
  same key and fingerprint.\<close>

theorem replay_returns_stored_result:
  assumes inv: "db_inv db"
    and start: "begin_run db uuid now dbnow a = (Inr claim, db1)" "claim_run_id claim = Some rid"
    and finish: "db2 = snd (finish_run db1 now1 dbnow1 rid (arg_key a) (arg_tenant_id a) (arg_release_id a) res ret)"
    and res: "\<not> res_retryable res" and live: "now2 < now1 + ret * 1000"
    and same: "args_key b = args_key a" "arg_fingerprint b = arg_fingerprint a"
  shows "fst (begin_run db2 uuid2 now2 dbnow2 b) = Inr \<lparr>claim_run_id = None, cached_result = Some res\<rparr> \<and>
    db_runs (snd (begin_run db2 uuid2 now2 dbnow2 b)) = db_runs db2"
proof -
  have inv1: "db_inv db1" using begin_run_inv [OF inv, of uuid now dbnow a] start(1) by simp
  then have inv2: "db_inv db2" unfolding finish by (rule finish_run_inv)
  have "idem_view db1 (arg_tenant_id a, arg_release_id a, arg_key a) = Some (InFlight (arg_fingerprint a) rid)"
    using begin_run_claims(2) [OF inv start] by (simp add: args_key_def)
  from finish_run_claimed(2) [OF inv1 this]
  have "idem_view db2 (args_key b) = Some (Finished (arg_fingerprint b) (Inr res) True (now1 + ret * 1000))"
    using res same by (simp add: finish args_key_def)
  from begin_run_cached [OF inv2 this live] show ?thesis by simp
qed

theorem replay_returns_stored_result_witness:
  "\<exists>db2. fst (begin_run db2 ''v'' 9 9 sample_args) = Inr \<lparr>claim_run_id = None, cached_result = Some sample_result\<rparr>"
proof -
  let ?db1 = "snd (begin_run empty_db ''u'' 0 0 sample_args)"
  have "begin_run empty_db ''u'' 0 0 sample_args = (Inr \<lparr>claim_run_id = Some ''u'', cached_result = None\<rparr>, ?db1)"
    by (simp add: begin_run_def fetchone_def claim_run_def empty_db_def)
  from replay_returns_stored_result [OF db_inv_empty this _ refl, where rid = "''u''" and res = sample_result and ret = 3
      and ?now1.0 = 9 and ?now2.0 = 9 and b = sample_args and ?uuid2.0 = "''v''" and ?dbnow2.0 = 9]
  show ?thesis by (auto simp: sample_result_def)
qed

text \<open>Abandoning a run frees exactly its claim, so that the same request can run again; any other
  key keeps its slot, and a claim taken over by another run is not touched.\<close>

theorem abandon_run_frees_claim:
  assumes "db_inv db"
  shows "idem_view (abandon_run db dbnow rid k t rel c m) = spec_abandon (idem_view db) (t, rel, k) rid"
  using assms by (rule abandon_run_view)

theorem abandon_run_frees_claim_witness:
  "idem_view (abandon_run (snd (begin_run empty_db ''u'' 0 0 sample_args)) 1 ''u'' ''k'' ''t'' ''r'' ''E'' ''m'') (''t'', ''r'', ''k'') = None"
  using abandon_run_frees_claim [OF begin_run_inv [OF db_inv_empty], of "''u''" 0 0 sample_args 1 "''u''" "''k''" "''t''" "''r''" "''E''" "''m''"]
  by (simp add: begin_run_def fetchone_def claim_run_def claim_keys_def empty_db_def spec_abandon_def idem_view_def
      slot_of_def args_key_def sample_args_def new_idem_row_def key_of_def)

text \<open>After the restart transaction nothing is running: every RUNNING run is ABANDONED with the
  restart code, all claims are gone, finished results stay replayable, other rows are untouched, and
  the returned count is the number of runs that were cut off.\<close>

theorem reset_running_ends_all:
  assumes "db_inv db" and "reset_running db dbnow = (n, db')"
  shows "n = rowcount (\<lambda>r. r_state r = RUNNING) (db_runs db) \<and>
    (\<forall>r\<in>set (db_runs db'). r_state r \<noteq> RUNNING) \<and>
    idem_view db' = (\<lambda>k. case idem_view db k of Some (Finished fp res b e) \<Rightarrow> Some (Finished fp res b e) | _ \<Rightarrow> None) \<and>
    (\<forall>r\<in>set (db_runs db). r_state r \<noteq> RUNNING \<longrightarrow> r \<in> set (db_runs db')) \<and>
    map r_run_id (db_runs db') = map r_run_id (db_runs db)"
proof -
  have db': "db' = snd (reset_running db dbnow)" "n = fst (reset_running db dbnow)" using assms(2) by simp_all
  have "idem_view db' k = (case idem_view db k of Some (Finished fp res b e) \<Rightarrow> Some (Finished fp res b e) | _ \<Rightarrow> None)" for k
    unfolding idem_view_def db' reset_running_def
    by (auto simp: fetchone_delete_where [OF db_invD(3) [OF assms(1)]] slot_of_def split: option.splits key_state.splits)
  then show ?thesis unfolding db' reset_running_def
    by (auto simp: set_update_where map_update_where_key)
qed

theorem reset_running_ends_all_witness:
  "list_all (\<lambda>r. r_state r \<noteq> RUNNING) (db_runs (snd (reset_running (snd (begin_run empty_db ''u'' 0 0 sample_args)) 7)))"
  using reset_running_ends_all [OF begin_run_inv [OF db_inv_empty] prod.collapse [symmetric]]
  by (auto simp: list_all_iff)

definition has_history :: "runner_db \<Rightarrow> int \<Rightarrow> bool" where
  "has_history db d \<longleftrightarrow> (\<forall>i\<in>set (idempotency_keys db). i_state i = KEY_DONE \<and> d < the (i_expires_at i) \<longrightarrow>
     (\<exists>r\<in>set (db_runs db). r_run_id r = i_current_run_id i))"

lemma purge_old_runs_keeps:
  assumes r: "r \<in> set (db_runs db)" and i: "i \<in> set (idempotency_keys db)" "i_state i = KEY_DONE"
    "i_expires_at i = Some e" "dbnow < e" "r_run_id r = i_current_run_id i"
  shows "r \<in> set (db_runs (snd (purge_old_runs db now dbnow older)))"
  using assms by (auto simp: purge_old_runs_def Let_def set_delete_where list_ex_iff)

text \<open>Purging history deletes only ended runs older than the cutoff, and never the audit row behind
  a cached result that can still be replayed: if each live cached result has its run before the purge,
  it has it afterwards, and claims and keys are untouched.\<close>

theorem purge_old_runs_safe:
  assumes "db_inv db" "has_history db dbnow" and "purge_old_runs db now dbnow older = (n, db')"
  shows "has_history db' dbnow \<and> idem_view db' = idem_view db \<and> db_inv db' \<and>
    (\<forall>r\<in>set (db_runs db). r_state r = RUNNING \<or> now - older * 1000 \<le> the (r_completed_at r) \<longrightarrow> r \<in> set (db_runs db')) \<and>
    set (db_runs db') \<subseteq> set (db_runs db)"
proof -
  have db': "db' = snd (purge_old_runs db now dbnow older)" using assms(3) by simp
  have keys: "idempotency_keys db' = idempotency_keys db" by (simp add: db' purge_old_runs_def Let_def)
  have "has_history db' dbnow"
    using assms(2) db_invD(6) [OF assms(1)] unfolding has_history_def keys
    by (auto simp: db' stored_result_def) (metis option.sel purge_old_runs_keeps)
  moreover have "idem_view db' = idem_view db" by (simp add: idem_view_def keys fun_eq_iff)
  moreover have "db_inv db'" unfolding db' using assms(1) by (rule purge_old_runs_inv)
  moreover have "\<forall>r\<in>set (db_runs db). r_state r = RUNNING \<or> now - older * 1000 \<le> the (r_completed_at r) \<longrightarrow> r \<in> set (db_runs db')"
    using db_invD(7) [OF assms(1)] by (fastforce simp: db' purge_old_runs_def Let_def set_delete_where)
  moreover have "set (db_runs db') \<subseteq> set (db_runs db)" by (auto simp: db' purge_old_runs_def Let_def set_delete_where)
  ultimately show ?thesis by blast
qed

theorem purge_old_runs_safe_witness:
  "has_history (snd (purge_old_runs empty_db 100 50 1)) 50"
proof -
  have "has_history empty_db 50" by (simp add: has_history_def empty_db_def)
  from purge_old_runs_safe [OF db_inv_empty this prod.collapse [symmetric]] show ?thesis by blast
qed

text \<open>A created lease is honoured exactly for its tenant, its release and its lifetime: until it
  expires \<open>require_lease\<close> returns it unchanged, from the expiry on it is LEASE_EXPIRED, another
  tenant gets LEASE_FORBIDDEN and another release LEASE_RELEASE_MISMATCH.\<close>

theorem lease_honoured:
  assumes inv: "db_inv db" and create: "create_lease db u now dbnow t p pr rel ttl = (Inr l, db')"
  shows "require_lease db' now' u t (Some rel) =
      (if now' < now + ttl * 1000 then Inr l else Inl (lease_error ''LEASE_EXPIRED'' ''lease expired'' True)) \<and>
    (t' \<noteq> t \<longrightarrow> require_lease db' now' u t' rel' = Inl (lease_error ''LEASE_FORBIDDEN'' ''lease belongs to another tenant'' False)) \<and>
    (r' \<noteq> rel \<longrightarrow> require_lease db' now' u t (Some r') =
       Inl (lease_error ''LEASE_RELEASE_MISMATCH'' ''lease is for another release'' False))"
proof -
  have fresh: "u \<notin> l_id ` set (leases db)" using create by (auto simp: create_lease_def Let_def split: if_splits)
  let ?row = "\<lparr>l_id = u, l_tenant_id = t, l_project_id = p, l_processor_id = pr, l_release_id = rel,
     l_expires_at = now + ttl * 1000, l_created_at = dbnow, l_updated_at = dbnow\<rparr>"
  have l: "l = lease_of_row ?row" and db': "leases db' = leases db @ [?row]"
    using create fresh by (auto simp: create_lease_def Let_def)
  have "fetchone (\<lambda>r. l_id r = u) (leases db) = None" using fresh by (auto simp: fetchone_None)
  then have "fetchone (\<lambda>r. l_id r = u) (leases db') = Some ?row" by (simp add: db' fetchone_append fetchone_Nil_Cons)
  then show ?thesis by (simp add: require_lease_def l)
qed

theorem lease_honoured_witness:
  "require_lease (snd (create_lease empty_db ''u'' 0 0 ''t'' ''p'' ''q'' ''r'' 2)) 1999 ''u'' ''t'' (Some ''r'') =
     fst (create_lease empty_db ''u'' 0 0 ''t'' ''p'' ''q'' ''r'' 2) \<and>
   require_lease (snd (create_lease empty_db ''u'' 0 0 ''t'' ''p'' ''q'' ''r'' 2)) 1999 ''u'' ''x'' None =
     Inl (lease_error ''LEASE_FORBIDDEN'' ''lease belongs to another tenant'' False)"
proof -
  obtain l db' where c: "create_lease empty_db ''u'' 0 0 ''t'' ''p'' ''q'' ''r'' 2 = (Inr l, db')"
    by (simp add: create_lease_def empty_db_def Let_def)
  show ?thesis
    using lease_honoured [OF db_inv_empty c, of 1999 "''x''" None] by (simp add: c)
qed

text \<open>Renewing is refused exactly when \<open>require_lease\<close> refuses, without any change, and otherwise
  moves the expiry of that one lease to the new time: it is honoured until then, and every other
  lease answers as before.\<close>

theorem renew_lease_extends:
  assumes inv: "db_inv db" and renew: "renew_lease db now1 now2 dbnow lid t ttl = (res, db')"
  shows "case require_lease db now1 lid t None of
      Inl e \<Rightarrow> res = Inl e \<and> db' = db
    | Inr l \<Rightarrow> res = Inr (l\<lparr>lease_expires_at_ms := epoch_ms (now2 + ttl * 1000)\<rparr>) \<and>
        require_lease db' now lid t None =
          (if now < now2 + ttl * 1000 then res else Inl (lease_error ''LEASE_EXPIRED'' ''lease expired'' True)) \<and>
        (\<forall>lid'. lid' \<noteq> lid \<longrightarrow> require_lease db' now lid' t' rel' = require_lease db now lid' t' rel')"
proof (cases "require_lease db now1 lid t None")
  case (Inl e)
  then have "res = Inl e" "db' = db" using renew by (simp_all add: renew_lease_def)
  with Inl show ?thesis by simp
next
  case (Inr l)
  let ?f = "\<lambda>r. r\<lparr>l_expires_at := now2 + ttl * 1000, l_updated_at := dbnow\<rparr>"
  have res: "res = Inr (l\<lparr>lease_expires_at_ms := epoch_ms (now2 + ttl * 1000)\<rparr>)"
    and db': "leases db' = update_where (\<lambda>r. l_id r = lid \<and> l_tenant_id r = t) ?f (leases db)"
    using renew Inr by (auto simp: renew_lease_def Let_def)
  obtain row where row: "fetchone (\<lambda>r. l_id r = lid) (leases db) = Some row" "l_tenant_id row = t" "l = lease_of_row row"
    using Inr by (auto simp: require_lease_def split: option.splits if_splits)
  have id: "l_id row = lid" using fetchone_SomeD [OF row(1)] by simp
  have look: "fetchone (\<lambda>r. l_id r = lid') (leases db') =
      map_option (\<lambda>r. if l_id r = lid \<and> l_tenant_id r = t then ?f r else r) (fetchone (\<lambda>r. l_id r = lid') (leases db))" for lid'
    unfolding db' by (rule fetchone_update_where) simp
  have other: "require_lease db' now lid' t' rel' = require_lease db now lid' t' rel'" if "lid' \<noteq> lid" for lid'
  proof (cases "fetchone (\<lambda>r. l_id r = lid') (leases db)")
    case None
    then show ?thesis using look [of lid'] by (simp add: require_lease_def)
  next
    case (Some r)
    then have "l_id r \<noteq> lid" using fetchone_SomeD [OF Some] that by simp
    then show ?thesis using Some look [of lid'] by (simp add: require_lease_def)
  qed
  have "require_lease db' now lid t None =
      (if now < now2 + ttl * 1000 then res else Inl (lease_error ''LEASE_EXPIRED'' ''lease expired'' True))"
    using look [of lid] row id by (simp add: require_lease_def res lease_of_row_def)
  then show ?thesis using Inr res other by simp
qed

theorem renew_lease_extends_witness:
  "is_ok (require_lease (snd (renew_lease (snd (create_lease empty_db ''u'' 0 0 ''t'' ''p'' ''q'' ''r'' 2)) 5 6 6 ''u'' ''t'' 10)) 9000 ''u'' ''t'' None)"
proof -
  let ?db = "snd (create_lease empty_db ''u'' 0 0 ''t'' ''p'' ''q'' ''r'' 2)"
  have ok: "is_ok (require_lease ?db 5 ''u'' ''t'' None)"
    by (simp add: create_lease_def empty_db_def require_lease_def fetchone_def Let_def)
  then obtain l where l: "require_lease ?db 5 ''u'' ''t'' None = Inr l" by (auto simp: is_ok_iff)
  show ?thesis
    using renew_lease_extends [OF create_lease_inv [OF db_inv_empty] prod.collapse [symmetric],
        of "''u''" 0 0 "''t''" "''p''" "''q''" "''r''" 2 5 6 6 "''u''" "''t''" 10 9000] l
    by (simp add: is_ok_iff)
qed

text \<open>A stored result survives the JSON column: decoding what \<open>finish_run\<close> encodes gives back every
  field, binary content included.\<close>

theorem stored_result_round_trip: "result_from_dict (result_to_dict r) = Inr r"
  by simp

end
