(* ===== verification/Catalog_Store.thy ===== *)
theory Catalog_Store
  imports Runner_State
begin

text \<open>
  \<^verbatim>\<open>runner_engine/catalog.py\<close>: the release catalog on disk.  A catalog is its root path and one
  directory per release id (ids are single path components), each with the four files that
  \<open>save\<close> writes.  A JSON file is held as the value it parses to.  \<open>save\<close> is a sequence of file
  system steps, so that a crash between two of them is a prefix of the sequence.
\<close>

section \<open>Directories and files\<close>

record release_dir =
  tmp_artifact :: "bytes option"
  tmp_metadata :: "json option"
  artifact_file :: "bytes option"
  metadata_file :: "json option"

definition empty_dir :: release_dir where
  "empty_dir = \<lparr>tmp_artifact = None, tmp_metadata = None, artifact_file = None, metadata_file = None\<rparr>"

record catalog =
  cat_root :: string
  cat_dirs :: "(string, release_dir) dict"

definition catalog_error :: "string \<Rightarrow> string \<Rightarrow> exn" where
  "catalog_error code msg = RunnerExn CatalogError code msg False"

section \<open>Operations\<close>

definition artifact_path_of :: "catalog \<Rightarrow> string \<Rightarrow> string" where
  "artifact_path_of c rid = cat_root c @ ''/'' @ rid @ ''/operator.tar.gz''"

definition release_of_json :: "catalog \<Rightarrow> string \<Rightarrow> bool \<Rightarrow> json \<Rightarrow> operator_release result" where
  "release_of_json c rid present raw =
     result_bind (need_obj raw ''runtime'') (\<lambda>rt.
     result_bind (need_str rt ''id'') (\<lambda>rt_id.
     result_bind (need_str rt ''image'') (\<lambda>rt_image.
     result_bind (get_str rt ''python'' ''3.12'') (\<lambda>rt_python.
     if \<not> present then Inl (catalog_error ''ARTIFACT_NOT_FOUND'' (''artifact missing for '' @ rid))
     else
     result_bind (need_str raw ''id'') (\<lambda>i.
     result_bind (need_str raw ''artifact_sha256'') (\<lambda>sha.
     result_bind (need_str raw ''entrypoint'') (\<lambda>ep.
     result_bind (get_str raw ''profile'' ''standard'') (\<lambda>prof.
     result_bind (get_str_list raw ''input_attributes'') (\<lambda>ins.
     result_bind (get_str_list raw ''output_attributes'') (\<lambda>outs.
       Inr \<lparr>rel_id = i, artifact_path = artifact_path_of c rid, artifact_sha256 = sha,
            rel_runtime = \<lparr>env_id = rt_id, env_image = rt_image, env_python = rt_python\<rparr>,
            entrypoint = ep, rel_profile = prof, input_attributes = ins, output_attributes = outs\<rparr>))))))))))"

definition catalog_get :: "catalog \<Rightarrow> string \<Rightarrow> operator_release result" where
  "catalog_get c rid =
     (case map_of (cat_dirs c) rid of
        None \<Rightarrow> Inl (catalog_error ''RELEASE_NOT_FOUND'' (''unknown release '' @ rid))
      | Some d \<Rightarrow>
          (case metadata_file d of
             None \<Rightarrow> Inl (catalog_error ''RELEASE_NOT_FOUND'' (''unknown release '' @ rid))
           | Some raw \<Rightarrow> release_of_json c rid (artifact_file d \<noteq> None) raw))"

definition set_dir :: "string \<Rightarrow> (release_dir \<Rightarrow> release_dir) \<Rightarrow> catalog \<Rightarrow> catalog" where
  "set_dir rid f c = (case map_of (cat_dirs c) rid of
     None \<Rightarrow> c | Some d \<Rightarrow> c\<lparr>cat_dirs := AList.update rid (f d) (cat_dirs c)\<rparr>)"

text \<open>The file system steps of \<open>save\<close> for a new release, in the order of the code.\<close>

definition save_steps :: "string \<Rightarrow> json \<Rightarrow> bytes \<Rightarrow> (catalog \<Rightarrow> catalog) list" where
  "save_steps rid manifest artifact =
     [\<lambda>c. c\<lparr>cat_dirs := AList.update rid empty_dir (cat_dirs c)\<rparr>,
      set_dir rid (\<lambda>d. d\<lparr>tmp_artifact := Some artifact\<rparr>),
      set_dir rid (\<lambda>d. d\<lparr>tmp_metadata := Some (sort_keys manifest)\<rparr>),
      set_dir rid (\<lambda>d. d\<lparr>artifact_file := tmp_artifact d, tmp_artifact := None\<rparr>),
      set_dir rid (\<lambda>d. d\<lparr>metadata_file := tmp_metadata d, tmp_metadata := None\<rparr>)]"

definition run_steps :: "('s \<Rightarrow> 's) list \<Rightarrow> 's \<Rightarrow> 's" where
  "run_steps fs s = fold (\<lambda>f. f) fs s"

definition catalog_save :: "catalog \<Rightarrow> json \<Rightarrow> bytes \<Rightarrow> operator_release result \<times> catalog" where
  "catalog_save c manifest artifact =
     (case need_str manifest ''id'' of
        Inl e \<Rightarrow> (Inl e, c)
      | Inr rid \<Rightarrow>
          if map_of (cat_dirs c) rid \<noteq> None then
            (case catalog_get c rid of
               Inl e \<Rightarrow> (Inl e, c)
             | Inr existing \<Rightarrow>
                 (case need_str manifest ''artifact_sha256'' of
                    Inl e \<Rightarrow> (Inl e, c)
                  | Inr sha \<Rightarrow>
                      if artifact_sha256 existing \<noteq> sha then
                        (Inl (catalog_error ''CATALOG_CONFLICT''
                           (''release '' @ rid @ '' already exists with different bits'')), c)
                      else (Inr existing, c)))
          else
            let c' = run_steps (save_steps rid manifest artifact) c in (catalog_get c' rid, c'))"

text \<open>A crash of \<open>save\<close> for a new release after its first \<open>n\<close> file system steps.\<close>

definition save_crash :: "nat \<Rightarrow> catalog \<Rightarrow> string \<Rightarrow> json \<Rightarrow> bytes \<Rightarrow> catalog" where
  "save_crash n c rid manifest artifact = run_steps (take n (save_steps rid manifest artifact)) c"

section \<open>Lemmas\<close>

lemma set_dir_lookup [simp]:
  "map_of (cat_dirs (set_dir rid f c)) k = (if k = rid then map_option f (map_of (cat_dirs c) rid) else map_of (cat_dirs c) k)"
  by (auto simp: set_dir_def split: option.splits)

lemma set_dir_root [simp]: "cat_root (set_dir rid f c) = cat_root c"
  by (auto simp: set_dir_def split: option.splits)

lemma save_steps_lookup:
  "map_of (cat_dirs (run_steps (save_steps rid m a) c)) k =
     (if k = rid then Some \<lparr>tmp_artifact = None, tmp_metadata = None, artifact_file = Some a, metadata_file = Some (sort_keys m)\<rparr>
      else map_of (cat_dirs c) k)"
  "cat_root (run_steps (save_steps rid m a) c) = cat_root c"
  by (simp_all add: run_steps_def save_steps_def empty_dir_def)

lemma catalog_get_other:
  assumes "map_of (cat_dirs c) k = map_of (cat_dirs c') k" "cat_root c = cat_root c'"
  shows "catalog_get c k = catalog_get c' k"
proof -
  have path: "artifact_path_of c k = artifact_path_of c' k" using assms(2) by (simp add: artifact_path_of_def)
  have rel: "release_of_json c k = release_of_json c' k" unfolding release_of_json_def path ..
  show ?thesis unfolding catalog_get_def assms(1) rel ..
qed



section \<open>Properties\<close>

text \<open>Releases are immutable: a successful \<open>save\<close> never changes what \<open>get\<close> returns for a release
  that could be read before, and its result is what \<open>get\<close> returns afterwards.\<close>

theorem catalog_save_immutable:
  assumes "catalog_save c manifest artifact = (Inr rel, c')" and "need_str manifest ''id'' = Inr rid"
  shows "catalog_get c' rid = Inr rel \<and> (\<forall>k r. catalog_get c k = Inr r \<longrightarrow> catalog_get c' k = Inr r)"
proof (cases "map_of (cat_dirs c) rid")
  case None
  then have c': "c' = run_steps (save_steps rid manifest artifact) c" "catalog_get c' rid = Inr rel"
    using assms by (auto simp: catalog_save_def Let_def)
  have "catalog_get c' k = Inr r" if "catalog_get c k = Inr r" for k r
  proof -
    have "k \<noteq> rid" using that None by (auto simp: catalog_get_def)
    then show ?thesis using catalog_get_other [of c k c'] save_steps_lookup c'(1) that by simp
  qed
  with c'(2) show ?thesis by blast
next
  case (Some d)
  then show ?thesis using assms
    by (auto simp: catalog_save_def split: sum.splits if_splits)
qed

definition sample_manifest :: json where
  "sample_manifest = JObj [(''id'', JStr ''r1''), (''artifact_sha256'', JStr ''d''), (''entrypoint'', JStr ''m:f''),
     (''runtime'', JObj [(''id'', JStr ''e''), (''image'', JStr ''img'')])]"

definition sample_release :: operator_release where
  "sample_release = \<lparr>rel_id = ''r1'', artifact_path = ''/c/r1/operator.tar.gz'', artifact_sha256 = ''d'',
     rel_runtime = \<lparr>env_id = ''e'', env_image = ''img'', env_python = ''3.12''\<rparr>, entrypoint = ''m:f'',
     rel_profile = ''standard'', input_attributes = [], output_attributes = []\<rparr>"

lemma sample_save:
  "fst (catalog_save \<lparr>cat_root = ''/c'', cat_dirs = []\<rparr> sample_manifest ''xyz'') = Inr sample_release"
  by code_simp

theorem catalog_save_immutable_witness:
  "catalog_get (snd (catalog_save \<lparr>cat_root = ''/c'', cat_dirs = []\<rparr> sample_manifest ''xyz'')) ''r1'' = Inr sample_release"
proof -
  have "need_str sample_manifest ''id'' = Inr ''r1''" by code_simp
  from catalog_save_immutable [OF _ this] show ?thesis by (metis prod.collapse sample_save)
qed

text \<open>A crash inside \<open>save\<close> is never repaired by saving again: once the directory exists and its
  metadata is not yet in place, every later save of that release id fails with RELEASE_NOT_FOUND and
  leaves the directory as it is.\<close>

theorem catalog_save_crash_sticks:
  assumes "1 \<le> n" "n \<le> 4" and "need_str manifest ''id'' = Inr rid" and "crashed = save_crash n c rid m a"
  shows "catalog_save crashed manifest artifact =
    (Inl (catalog_error ''RELEASE_NOT_FOUND'' (''unknown release '' @ rid)), crashed)"
proof -
  from assms(1,2) consider "n = 1" | "n = 2" | "n = 3" | "n = 4" by linarith
  then have "\<exists>d. map_of (cat_dirs crashed) rid = Some d \<and> metadata_file d = None"
    by cases (simp_all add: assms(4) save_crash_def save_steps_def run_steps_def empty_dir_def numeral_eq_Suc)
  then show ?thesis using assms(3) by (auto simp: catalog_save_def catalog_get_def)
qed

theorem catalog_save_crash_sticks_witness:
  "fst (catalog_save (save_crash 3 \<lparr>cat_root = ''/c'', cat_dirs = []\<rparr> ''r1'' sample_manifest ''xyz'') sample_manifest ''xyz'') =
     Inl (catalog_error ''RELEASE_NOT_FOUND'' ''unknown release r1'')"
proof -
  have "need_str sample_manifest ''id'' = Inr ''r1''" by code_simp
  from catalog_save_crash_sticks [OF _ _ this refl, of 3] show ?thesis by simp
qed

end
