(* ===== verification/Release_Publisher.thy ===== *)
theory Release_Publisher
  imports Source_Tree Release_Materializer Catalog_Store "HOL-Library.Sublist"
begin

text \<open>
  \<^verbatim>\<open>runner_engine/publisher.py\<close>: from a project directory to a release in the catalog.  Parameters are the
  SHA-256 functions (\<open>h\<close> gives the hexadecimal digest, \<open>dg\<close> the 32 bytes), the YAML parser and \<open>pack\<close>, which
  writes archive members as a gzipped tar file.  Messages carry the text the code formats.
\<close>

section \<open>Source files\<close>

definition IGNORED_PARTS :: "string list" where
  "IGNORED_PARTS = [''.git'', ''__pycache__'', ''.pytest_cache'', ''.mypy_cache'', ''.qoder'']"

fun iter_source_files :: "(path \<times> source_node) list \<Rightarrow> (path \<times> bytes) list result" where
  "iter_source_files [] = Inr []"
| "iter_source_files ((p, n) # es) =
     (case node_bytes n of
        None \<Rightarrow> iter_source_files es
      | Some d \<Rightarrow>
          if list_ex (\<lambda>part. part \<in> set IGNORED_PARTS) p then iter_source_files es
          else if is_symlink n then Inl (value_error (''symlink is not allowed in operator source: '' @ as_posix p))
          else map_sum id (Cons (p, d)) (iter_source_files es))"

definition hash_frame :: "(bytes \<Rightarrow> bytes) \<Rightarrow> path \<times> bytes \<Rightarrow> bytes" where
  "hash_frame dg f = as_posix (fst f) @ [CHR 0x00] @ dg (snd f) @ [CHR 0x00]"

definition source_hash :: "(bytes \<Rightarrow> string) \<Rightarrow> (bytes \<Rightarrow> bytes) \<Rightarrow> source_tree \<Rightarrow> string result" where
  "source_hash h dg t = map_sum id (\<lambda>fs. h (concat (map (hash_frame dg) fs))) (iter_source_files (rglob t))"

definition tar_file :: "string \<Rightarrow> bytes \<Rightarrow> tar_member" where
  "tar_file name data = \<lparr>m_name = name, m_kind = REGTYPE, m_size = int (length data), m_data = Inr data\<rparr>"

definition archive_members :: "(path \<times> bytes) list \<Rightarrow> json \<Rightarrow> tar_member list" where
  "archive_members fs compiled_manifest =
     map (\<lambda>f. tar_file (as_posix (fst f)) (snd f)) fs @ [tar_file ''operator.json'' (canonical_json compiled_manifest)]"

definition deterministic_archive :: "(tar_member list \<Rightarrow> bytes) \<Rightarrow> source_tree \<Rightarrow> json \<Rightarrow> bytes result" where
  "deterministic_archive pack t compiled_manifest =
     map_sum id (\<lambda>fs. pack (archive_members fs compiled_manifest)) (iter_source_files (rglob t))"

section \<open>Checks\<close>

definition letter_or_underscore :: "char \<Rightarrow> bool" where
  "letter_or_underscore c \<longleftrightarrow> (let n = of_char c :: nat in 65 \<le> n \<and> n \<le> 90 \<or> 97 \<le> n \<and> n \<le> 122 \<or> c = CHR ''_'')"

definition word_char :: "char \<Rightarrow> bool" where
  "word_char c \<longleftrightarrow> letter_or_underscore c \<or> (let n = of_char c :: nat in 48 \<le> n \<and> n \<le> 57)"

definition starts_name :: "string \<Rightarrow> bool" where
  "starts_name s \<longleftrightarrow> (case s of [] \<Rightarrow> False | c # _ \<Rightarrow> letter_or_underscore c)"

text \<open>The regular expression \<open>_ENTRYPOINT\<close>; neither side of its colon can contain one.\<close>

definition matches_entrypoint :: "string \<Rightarrow> bool" where
  "matches_entrypoint s \<longleftrightarrow>
     (case split_on (CHR '':'') s of
        [left, right] \<Rightarrow> starts_name left \<and> list_all (\<lambda>c. word_char c \<or> c = CHR ''.'') left \<and> starts_name right \<and> list_all word_char right
      | _ \<Rightarrow> False)"

definition hex_char :: "char \<Rightarrow> bool" where
  "hex_char c \<longleftrightarrow> (let n = of_char c :: nat in 48 \<le> n \<and> n \<le> 57 \<or> 97 \<le> n \<and> n \<le> 102 \<or> 65 \<le> n \<and> n \<le> 70)"

text \<open>The regular expression \<open>_OCI_DIGEST\<close>: its end has a fixed length.\<close>

definition matches_oci_digest :: "string \<Rightarrow> bool" where
  "matches_oci_digest s \<longleftrightarrow>
     (let r = rev s; digest = take 64 r; rest = drop 64 r; repo = drop 8 rest in
      length digest = 64 \<and> list_all hex_char digest \<and> take 8 rest = rev ''@sha256:'' \<and> repo \<noteq> [] \<and> CHR 0x0A \<notin> set repo)"

text \<open>A value that is not a string prints as a text that \<open>_ENTRYPOINT\<close> does not match, like the empty one.\<close>

definition spec_entrypoint :: "json \<Rightarrow> string" where
  "spec_entrypoint spec = (case map_of (json_fields spec) ''entrypoint'' of Some (JStr s) \<Rightarrow> s | _ \<Rightarrow> [])"

fun nonempty_strings :: "json list \<Rightarrow> string list option" where
  "nonempty_strings [] = Some []"
| "nonempty_strings (JStr s # xs) = (if s = [] then None else map_option (Cons s) (nonempty_strings xs))"
| "nonempty_strings (_ # xs) = None"

definition spec_attributes :: "json \<Rightarrow> string \<Rightarrow> string list result" where
  "spec_attributes spec key =
     (case map_of (json_fields spec) key of
        None \<Rightarrow> Inr []
      | Some (JArr xs) \<Rightarrow>
          (case nonempty_strings xs of
             None \<Rightarrow> Inl (value_error (key @ '' must be a list of non-empty strings''))
           | Some vs \<Rightarrow> Inr vs)
      | Some _ \<Rightarrow> Inl (value_error (key @ '' must be a list of non-empty strings'')))"

definition sorted_set :: "string list \<Rightarrow> string list" where
  "sorted_set xs = sort (remdups xs)"

section \<open>Publishing\<close>

definition MAX_ARTIFACT_BYTES :: int where
  "MAX_ARTIFACT_BYTES = 10 * 1024 * 1024"

record publish_args =
  pa_runtime_image :: string
  pa_profile :: string
  pa_python :: string
  pa_allow_mutable_image :: bool

definition str_arr :: "string list \<Rightarrow> json" where
  "str_arr xs = JArr (map JStr xs)"

definition release_identity :: "string \<Rightarrow> string \<Rightarrow> string \<Rightarrow> string list \<Rightarrow> string list \<Rightarrow> string \<Rightarrow> json" where
  "release_identity runtime_id ep prof ins outs source =
     JObj [(''abi'', JInt 1), (''runtime_id'', JStr runtime_id), (''entrypoint'', JStr ep), (''profile'', JStr prof),
       (''input_attributes'', str_arr ins), (''output_attributes'', str_arr outs), (''source'', JStr source)]"

definition compiled_manifest :: "string \<Rightarrow> string \<Rightarrow> string list \<Rightarrow> string list \<Rightarrow> json" where
  "compiled_manifest release_id ep ins outs =
     JObj [(''abi'', JInt 1), (''id'', JStr release_id), (''entrypoint'', JStr ep), (''input_attributes'', str_arr ins),
       (''output_attributes'', str_arr outs)]"

definition release_manifest :: "string \<Rightarrow> string \<Rightarrow> string \<Rightarrow> publish_args \<Rightarrow> string \<Rightarrow> string list \<Rightarrow> string list \<Rightarrow> json" where
  "release_manifest release_id sha runtime_id a ep ins outs =
     JObj [(''id'', JStr release_id), (''artifact_sha256'', JStr sha),
       (''runtime'', JObj [(''id'', JStr runtime_id), (''image'', JStr (pa_runtime_image a)), (''python'', JStr (pa_python a))]),
       (''entrypoint'', JStr ep), (''profile'', JStr (pa_profile a)), (''input_attributes'', str_arr ins), (''output_attributes'', str_arr outs)]"

text \<open>Lines 97 to 116: the parsed specification and what is checked of it.\<close>

record release_spec =
  rs_entrypoint :: string
  rs_inputs :: "string list"
  rs_outputs :: "string list"

definition read_spec :: "(bytes \<Rightarrow> json result) \<Rightarrow> source_tree \<Rightarrow> publish_args \<Rightarrow> release_spec result" where
  "read_spec yaml t a =
     (case path_bytes t [''operator.yaml''] of
        None \<Rightarrow> Inl (value_error ''operator.yaml is required'')
      | Some text \<Rightarrow>
          result_bind (yaml text) (\<lambda>v.
          let spec = (if json_truthy v then v else JObj []) in
          case spec of
            JObj _ \<Rightarrow>
              if \<not> matches_entrypoint (spec_entrypoint spec) then Inl (value_error (''entrypoint must look like '' @ [CHR 0x27] @ ''module.submodule:function'' @ [CHR 0x27]))
              else
                result_bind (spec_attributes spec ''input_attributes'') (\<lambda>ins.
                result_bind (spec_attributes spec ''output_attributes'') (\<lambda>outs.
                if \<not> pa_allow_mutable_image a \<and> \<not> matches_oci_digest (pa_runtime_image a) then
                  Inl (value_error ''runtime_image must be pinned as repo/image@sha256:<64 hex chars>'')
                else Inr \<lparr>rs_entrypoint = spec_entrypoint spec, rs_inputs = sorted_set ins, rs_outputs = sorted_set outs\<rparr>))
          | _ \<Rightarrow> Inl (value_error ''operator.yaml must contain a mapping'')))"

record publish_world =
  pw_sha256 :: "bytes \<Rightarrow> string"
  pw_digest :: "bytes \<Rightarrow> bytes"
  pw_yaml :: "bytes \<Rightarrow> json result"
  pw_pack :: "tar_member list \<Rightarrow> bytes"

definition release_id_of :: "publish_world \<Rightarrow> publish_args \<Rightarrow> release_spec \<Rightarrow> string \<Rightarrow> string" where
  "release_id_of w a s source =
     pw_sha256 w (canonical_json (release_identity (pw_sha256 w (pa_runtime_image a)) (rs_entrypoint s) (pa_profile a) (rs_inputs s) (rs_outputs s) source))"

definition publish :: "publish_world \<Rightarrow> catalog \<Rightarrow> source_tree \<Rightarrow> publish_args \<Rightarrow> operator_release result \<times> catalog" where
  "publish w c t a =
     (let prepared =
        result_bind (read_spec (pw_yaml w) t a) (\<lambda>s.
        result_bind (source_hash (pw_sha256 w) (pw_digest w) t) (\<lambda>source.
        let release_id = release_id_of w a s source in
        result_bind (deterministic_archive (pw_pack w) t (compiled_manifest release_id (rs_entrypoint s) (rs_inputs s) (rs_outputs s))) (\<lambda>artifact.
        if MAX_ARTIFACT_BYTES < int (length artifact) then Inl (value_error ''compressed operator artifact exceeds 10 MiB'')
        else Inr (release_manifest release_id (pw_sha256 w artifact) (pw_sha256 w (pa_runtime_image a)) a (rs_entrypoint s) (rs_inputs s) (rs_outputs s),
               artifact)))) in
      case prepared of
        Inl e \<Rightarrow> (Inl e, c)
      | Inr (manifest, artifact) \<Rightarrow> catalog_save c manifest artifact)"

section \<open>The listed files\<close>

definition ignored :: "path \<Rightarrow> bool" where
  "ignored p \<longleftrightarrow> list_ex (\<lambda>part. part \<in> set IGNORED_PARTS) p"

lemma iter_source_files_set:
  "iter_source_files es = Inr fs \<Longrightarrow> set fs = {(p, d). (p, SFile d) \<in> set es \<and> \<not> ignored p}"
proof (induction es arbitrary: fs rule: iter_source_files.induct)
  case (2 p n es)
  then show ?case by (cases n) (auto simp: ignored_def map_sum_Inr split: option.splits if_splits)
qed simp

lemma iter_source_files_distinct:
  "iter_source_files es = Inr fs \<Longrightarrow> distinct (map fst es) \<Longrightarrow> distinct (map fst fs)"
proof (induction es arbitrary: fs rule: iter_source_files.induct)
  case (2 p n es)
  have "p \<notin> fst ` set gs" if "iter_source_files es = Inr gs" for gs
    using iter_source_files_set [OF that] "2.prems"(2) by force
  then show ?case using 2 by (cases n) (auto simp: map_sum_Inr split: option.splits if_splits)
qed simp

text \<open>The file list of a project: regular files outside the ignored directories, each once.\<close>

lemma listed_files:
  assumes "posix_tree t" "iter_source_files (rglob t) = Inr fs"
  shows "distinct (map fst fs)" "set fs = {(p, d). map_of t p = Some (SFile d) \<and> \<not> ignored p}"
proof -
  have d: "distinct (map fst t)" using assms(1) by (simp add: posix_tree_def)
  then show "distinct (map fst fs)" using iter_source_files_distinct [OF assms(2) distinct_rglob] by simp
  show "set fs = {(p, d). map_of t p = Some (SFile d) \<and> \<not> ignored p}"
    using iter_source_files_set [OF assms(2)] map_of_eq_Some_iff [OF d] by auto
qed

lemma listed_path:
  assumes "posix_tree t" "iter_source_files (rglob t) = Inr fs" "f \<in> set fs"
  shows "fst f \<noteq> []" "is_path (fst f)" "''..'' \<notin> set (fst f)" "CHR 0x00 \<notin> set (as_posix (fst f))" "\<not> is_absolute (as_posix (fst f))"
proof -
  have "(fst f, SFile (snd f)) \<in> set t" using iter_source_files_set [OF assms(2)] assms(3) by (cases f) auto
  then show "fst f \<noteq> []" "is_path (fst f)" "''..'' \<notin> set (fst f)" "CHR 0x00 \<notin> set (as_posix (fst f))" "\<not> is_absolute (as_posix (fst f))"
    using posix_entry(1) [OF assms(1)] posix_path [OF assms(1)] by blast+
qed

section \<open>The source hash identifies the files\<close>

lemma up_to_separator: "c \<notin> set xs \<Longrightarrow> c \<notin> set ys \<Longrightarrow> xs @ c # u = ys @ c # v \<longleftrightarrow> xs = ys \<and> u = v"
  by (auto simp: append_eq_append_conv2 Cons_eq_append_conv append_eq_Cons_conv)

lemma hash_frames_inj:
  assumes "\<forall>f\<in>set fs \<union> set gs. CHR 0x00 \<notin> set (as_posix (fst f))" "\<And>x. length (dg x) = 32"
    and "concat (map (hash_frame dg) fs) = concat (map (hash_frame dg) gs)"
  shows "map (\<lambda>f. (as_posix (fst f), dg (snd f))) fs = map (\<lambda>f. (as_posix (fst f), dg (snd f))) gs"
  using assms(1,3)
proof (induction fs arbitrary: gs)
  case Nil
  then show ?case by (cases gs) (auto simp: hash_frame_def)
next
  case (Cons f fs)
  then obtain g gs' where gs: "gs = g # gs'" by (cases gs) (auto simp: hash_frame_def)
  have "as_posix (fst f) @ CHR 0x00 # dg (snd f) @ CHR 0x00 # concat (map (hash_frame dg) fs) =
      as_posix (fst g) @ CHR 0x00 # dg (snd g) @ CHR 0x00 # concat (map (hash_frame dg) gs')"
    using Cons.prems(2) gs unfolding hash_frame_def [of dg f] hash_frame_def [of dg g] list.map concat.simps by (simp add: hash_frame_def [of dg f] hash_frame_def [of dg g])
  moreover have "CHR 0x00 \<notin> set (as_posix (fst f))" "CHR 0x00 \<notin> set (as_posix (fst g))" using Cons.prems(1) gs by auto
  ultimately have "as_posix (fst f) = as_posix (fst g)"
    and "dg (snd f) @ CHR 0x00 # concat (map (hash_frame dg) fs) = dg (snd g) @ CHR 0x00 # concat (map (hash_frame dg) gs')"
    by (simp_all add: up_to_separator)
  moreover from this(2) have "dg (snd f) = dg (snd g)" "concat (map (hash_frame dg) fs) = concat (map (hash_frame dg) gs')"
    using append_eq_append_conv [of "dg (snd f)" "dg (snd g)"] assms(2) by simp_all
  ultimately show ?case using Cons gs by simp
qed

lemma source_hash_inj:
  assumes t: "posix_tree t" "posix_tree u" and fs: "iter_source_files (rglob t) = Inr fs" "iter_source_files (rglob u) = Inr gs"
    and len: "\<And>x. length (dg x) = 32" and inj: "inj_on dg (snd ` set fs \<union> snd ` set gs)"
    and eq: "concat (map (hash_frame dg) fs) = concat (map (hash_frame dg) gs)"
  shows "fs = gs"
proof -
  have "map (\<lambda>f. (as_posix (fst f), dg (snd f))) fs = map (\<lambda>f. (as_posix (fst f), dg (snd f))) gs"
    using listed_path(4) [OF t(1) fs(1)] listed_path(4) [OF t(2) fs(2)] by (intro hash_frames_inj [OF _ len eq]) auto
  then have "list_all2 (\<lambda>f g. (as_posix (fst f), dg (snd f)) = (as_posix (fst g), dg (snd g))) fs gs"
    by (simp only: list.rel_eq [symmetric] list.rel_map)
  then have "list_all2 (\<lambda>f g. as_posix (fst f) = as_posix (fst g) \<and> dg (snd f) = dg (snd g)) fs gs" by simp
  then have "list_all2 (=) fs gs"
  proof (rule list.rel_mono_strong)
    fix f g assume f: "f \<in> set fs" and g: "g \<in> set gs" and e: "as_posix (fst f) = as_posix (fst g) \<and> dg (snd f) = dg (snd g)"
    have "fst f = fst g" using e as_posix_inj [OF listed_path(2) [OF t(1) fs(1) f] listed_path(2) [OF t(2) fs(2) g]] by simp
    moreover have "snd f = snd g" using e f g inj by (auto dest: inj_onD)
    ultimately show "f = g" by (rule prod_eqI)
  qed
  then show ?thesis by (simp add: list.rel_eq)
qed

section \<open>An archive of files that do not clash unpacks\<close>

lemma mkdirs_ok:
  "(\<And>us vs. ps = us @ vs \<Longrightarrow> us \<noteq> [] \<Longrightarrow> \<not> is_file_at t (base @ us)) \<Longrightarrow> \<exists>t'. mkdirs t base ps = Inr t'"
proof (induction t base ps rule: mkdirs.induct)
  case (2 t base p ps)
  have here: "\<not> is_file_at t (base @ [p])" using "2.prems" [of "[p]" ps] by simp
  have below: "\<not> is_file_at t ((base @ [p]) @ us)" if "ps = us @ vs" "us \<noteq> []" for us vs
    using "2.prems" [of "p # us" vs] that by simp
  show ?case
  proof (cases "map_of t (base @ [p])")
    case None
    have "\<not> is_file_at (AList.update (base @ [p]) (Dir True) t) ((base @ [p]) @ us)" if "ps = us @ vs" "us \<noteq> []" for us vs
      using below [OF that] that(2) by (simp add: is_file_at_def update_conv')
    from "2.IH"(1) [OF None this] None show ?thesis by auto
  next
    case (Some n)
    then obtain w where "n = Dir w" using here by (cases n) (auto simp: is_file_at_def)
    then show ?thesis using "2.IH"(2) [OF Some _ below] Some by auto
  qed
qed simp

definition plain_file :: "tar_member \<Rightarrow> bool" where
  "plain_file x \<longleftrightarrow> m_kind x = REGTYPE \<and> acceptable x \<and> member_path x \<noteq> [] \<and> (\<exists>d. m_data x = Inr d) \<and> 0 \<le> m_size x"

definition room_for :: "tree \<Rightarrow> tar_member \<Rightarrow> bool" where
  "room_for t x \<longleftrightarrow> map_of t (member_path x) = None \<and> (\<forall>us. prefix us (member_path x) \<longrightarrow> \<not> is_file_at t us)"

definition clash_free :: "tar_member list \<Rightarrow> bool" where
  "clash_free xs \<longleftrightarrow> distinct (map member_path xs) \<and>
     (\<forall>x\<in>set xs. \<forall>y\<in>set xs. prefix (member_path x) (member_path y) \<longrightarrow> member_path x = member_path y)"

lemma extract_ok:
  assumes "plain_file x" "room_for t x"
  shows "\<exists>t'. extract_member t x = Inr t'"
proof -
  obtain d where d: "m_data x = Inr d" using assms(1) by (auto simp: plain_file_def)
  have pre: "prefix us (member_path x)" if "butlast (member_path x) = us @ vs" for us vs
  proof -
    have "us @ vs @ [last (member_path x)] = member_path x"
      using append_butlast_last_id [of "member_path x"] assms(1) unfolding that by (simp add: plain_file_def)
    then show ?thesis by (metis prefixI)
  qed
  obtain t1 where t1: "mkdirs t [] (butlast (member_path x)) = Inr t1"
    using mkdirs_ok [of "butlast (member_path x)" t "[]"] pre assms(2) by (auto simp: room_for_def)
  have "map_of t1 (member_path x) = None"
  proof (rule ccontr)
    assume "map_of t1 (member_path x) \<noteq> None"
    then obtain vs where "butlast (member_path x) = member_path x @ vs" using mkdirs_dom [OF t1] assms(2) by (auto simp: room_for_def)
    from arg_cong [OF this, of length] assms(1) show False
      by (cases "length (member_path x)") (auto simp: plain_file_def length_butlast simp del: butlast.simps)
  qed
  then show ?thesis using t1 d assms(1) by (simp add: extract_member_def member_path_def plain_file_def Let_def write_file_def)
qed

lemma room_after:
  assumes "extract_member t x = Inr t'" "plain_file x" "plain_file y" "room_for t x" "room_for t y"
    and "\<not> prefix (member_path x) (member_path y)" "\<not> prefix (member_path y) (member_path x)"
  shows "room_for t' y"
proof -
  have "\<not> is_file_at t (member_path x)" using assms(4) by (auto simp: room_for_def)
  note e = extract_member_facts [OF assms(1) _ this]
  have ac: "acceptable x" using assms(2) by (simp add: plain_file_def)
  have "map_of t (member_path y) = None" using assms(5) by (simp add: room_for_def)
  then have "map_of t' (member_path y) = None"
    using e(2) [OF ac, of "member_path y"] assms(7) by (cases "map_of t' (member_path y)") (auto simp: prefix_def)
  moreover have "\<not> is_file_at t' us" if "prefix us (member_path y)" for us
  proof
    assume "is_file_at t' us"
    then obtain d where "(us, d) \<in> files_of t'" by (auto simp: is_file_at_def files_of_def split: option.splits node.splits)
    then have "(us, d) \<in> files_of t \<or> us = member_path x" using e(1) [OF ac] by (auto simp: member_files_def)
    then have "is_file_at t us \<or> us = member_path x" by (auto simp: files_of_def is_file_at_def)
    then show False using that assms(5,6) by (auto simp: room_for_def)
  qed
  ultimately show ?thesis by (simp add: room_for_def)
qed

lemma unpack_complete:
  assumes "list_all plain_file xs" "clash_free xs" "list_all (room_for t) xs" "\<forall>x\<in>set xs. as_posix (member_path x) \<notin> names"
    and "count + int (length xs) \<le> max_files m" "tot + file_bytes xs \<le> max_expanded_bytes m"
  shows "\<exists>t'. unpack m staging count tot names t xs = Inr t'"
  using assms
proof (induction xs arbitrary: count tot names t)
  case (Cons x xs)
  have sums: "file_bytes (x # xs) = m_size x + file_bytes xs" and pos: "0 \<le> file_bytes xs"
    using Cons.prems(1) by (auto simp: file_bytes_def plain_file_def list_all_iff intro!: sum_list_nonneg)
  have x: "plain_file x" "room_for t x" using Cons.prems(1,3) by simp_all
  then have ck: "check_member m staging count tot names x = Inr (count + 1, tot + m_size x, insert (as_posix (member_path x)) names)"
    using Cons.prems(4-6) sums pos
    by (auto simp: check_member_def Let_def plain_file_def acceptable_def member_path_def resolve_from_plain)
  obtain t1 where t1: "extract_member t x = Inr t1" using extract_ok [OF x] by blast
  have apart: "\<not> prefix (member_path x) (member_path y)" "\<not> prefix (member_path y) (member_path x)" "member_path x \<noteq> member_path y"
    if y: "y \<in> set xs" for y
  proof -
    show ne: "member_path x \<noteq> member_path y" using Cons.prems(2) y by (auto simp: clash_free_def)
    have in2: "x \<in> set (x # xs)" "y \<in> set (x # xs)" using y by simp_all
    show "\<not> prefix (member_path x) (member_path y)" "\<not> prefix (member_path y) (member_path x)"
      using Cons.prems(2) in2 ne unfolding clash_free_def by metis+
  qed
  have "list_all (room_for t1) xs"
    using room_after [OF t1 x(1) _ x(2)] apart Cons.prems(1,3) by (auto simp: list_all_iff)
  moreover have "as_posix (member_path y) \<noteq> as_posix (member_path x)" if "y \<in> set xs" for y
    using apart(3) [OF that] as_posix_inj [of "member_path y" "member_path x"] by (auto simp: member_path_def)
  ultimately obtain t' where "unpack m staging (count + 1) (tot + m_size x) (insert (as_posix (member_path x)) names) t1 xs = Inr t'"
    using Cons.IH [of t1 "insert (as_posix (member_path x)) names" "count + 1" "tot + m_size x"] Cons.prems sums
    by (auto simp: clash_free_def)
  then show ?case using ck t1 by simp
qed simp

lemma unpack_distinct:
  "unpack m staging count tot names t xs = Inr t' \<Longrightarrow>
   distinct (map (\<lambda>x. as_posix (member_path x)) xs) \<and> (\<forall>x\<in>set xs. as_posix (member_path x) \<notin> names)"
proof (induction m staging count tot names t xs arbitrary: t' rule: unpack.induct)
  case (2 m staging count tot names t x xs)
  from "2.prems" obtain c s n t1 where ck: "check_member m staging count tot names x = Inr (c, s, n)"
    and rest: "unpack m staging c s n t1 xs = Inr t'" and t1: "extract_member t x = Inr t1"
    by (auto simp: result_bind_ok split: sum.splits)
  note c = check_member_ok [OF ck]
  have "distinct (map (\<lambda>x. as_posix (member_path x)) xs) \<and> (\<forall>y\<in>set xs. as_posix (member_path y) \<notin> n)"
    using "2.IH" [OF ck refl refl rest] .
  then show ?case using c(2,6) by auto
qed simp
section \<open>What a publication saves\<close>

definition spec_manifest :: "string \<Rightarrow> release_spec \<Rightarrow> json" where
  "spec_manifest release_id s = compiled_manifest release_id (rs_entrypoint s) (rs_inputs s) (rs_outputs s)"

definition source_id :: "publish_world \<Rightarrow> publish_args \<Rightarrow> release_spec \<Rightarrow> (path \<times> bytes) list \<Rightarrow> string" where
  "source_id w a s fs = release_id_of w a s (pw_sha256 w (concat (map (hash_frame (pw_digest w)) fs)))"

definition source_artifact :: "publish_world \<Rightarrow> publish_args \<Rightarrow> release_spec \<Rightarrow> (path \<times> bytes) list \<Rightarrow> bytes" where
  "source_artifact w a s fs = pw_pack w (archive_members fs (spec_manifest (source_id w a s fs) s))"

lemma publish_ok:
  assumes "publish w c t a = (Inr rel, c')"
  obtains s fs where "read_spec (pw_yaml w) t a = Inr s" "iter_source_files (rglob t) = Inr fs"
    "int (length (source_artifact w a s fs)) \<le> MAX_ARTIFACT_BYTES"
    "catalog_save c (release_manifest (source_id w a s fs) (pw_sha256 w (source_artifact w a s fs)) (pw_sha256 w (pa_runtime_image a)) a
       (rs_entrypoint s) (rs_inputs s) (rs_outputs s)) (source_artifact w a s fs) = (Inr rel, c')"
proof -
  from assms obtain s fs where s: "read_spec (pw_yaml w) t a = Inr s" and fs: "iter_source_files (rglob t) = Inr fs"
    by (auto simp: publish_def Let_def source_hash_def map_sum_Inr result_bind_ok split: sum.splits prod.splits)
  have "deterministic_archive (pw_pack w) t (compiled_manifest (source_id w a s fs) (rs_entrypoint s) (rs_inputs s) (rs_outputs s)) =
      Inr (source_artifact w a s fs)"
    using fs by (simp add: deterministic_archive_def source_artifact_def spec_manifest_def)
  moreover have "source_hash (pw_sha256 w) (pw_digest w) t = Inr (pw_sha256 w (concat (map (hash_frame (pw_digest w)) fs)))"
    using fs by (simp add: source_hash_def)
  ultimately show thesis using assms that [OF s fs]
    by (simp add: publish_def Let_def s source_id_def split: if_splits)
qed

lemma publish_saves:
  assumes "read_spec (pw_yaml w) t a = Inr s" "iter_source_files (rglob t) = Inr fs"
    and "int (length (source_artifact w a s fs)) \<le> MAX_ARTIFACT_BYTES"
  shows "publish w c t a = catalog_save c (release_manifest (source_id w a s fs) (pw_sha256 w (source_artifact w a s fs))
    (pw_sha256 w (pa_runtime_image a)) a (rs_entrypoint s) (rs_inputs s) (rs_outputs s)) (source_artifact w a s fs)"
  using assms
  by (simp add: publish_def Let_def source_hash_def deterministic_archive_def source_id_def source_artifact_def spec_manifest_def)

lemma str_items_sorted [simp]: "str_items (map (sort_keys \<circ> JStr) xs) = Inr xs"
  by (induction xs) auto

lemma manifest_fields:
  "map_of (json_fields (sort_keys (release_manifest rid sha rt a ep ins outs))) k =
     map_option sort_keys (map_of (json_fields (release_manifest rid sha rt a ep ins outs)) k)"
  unfolding release_manifest_def json_fields_def json.case by (subst sort_keys_fields [unfolded json_fields_def]) simp_all

lemma runtime_fields:
  "map_of (json_fields (sort_keys (JObj [(''id'', JStr x), (''image'', JStr y), (''python'', JStr z)]))) k =
     map_option sort_keys (map_of [(''id'', JStr x), (''image'', JStr y), (''python'', JStr z)] k)"
  by (rule sort_keys_fields) simp

lemma release_of_manifest:
  "release_of_json c rid True (sort_keys (release_manifest rid sha rt a ep ins outs)) =
     Inr \<lparr>rel_id = rid, artifact_path = artifact_path_of c rid, artifact_sha256 = sha,
       rel_runtime = \<lparr>env_id = rt, env_image = pa_runtime_image a, env_python = pa_python a\<rparr>,
       entrypoint = ep, rel_profile = pa_profile a, input_attributes = ins, output_attributes = outs\<rparr>"
  unfolding release_of_json_def need_obj_def need_str_def get_str_def get_str_list_def manifest_fields
  by (simp add: release_manifest_def json_fields_def str_arr_def runtime_fields [unfolded json_fields_def] del: sort_keys.simps(2))

lemma need_id: "need_str (release_manifest rid sha rt a ep ins outs) ''id'' = Inr rid"
  "need_str (release_manifest rid sha rt a ep ins outs) ''artifact_sha256'' = Inr sha"
  by (simp_all add: need_str_def get_str_def json_fields_def release_manifest_def)

lemma saved_release:
  assumes "catalog_save c (release_manifest rid sha rt a ep ins outs) artifact = (Inr rel, c')" "map_of (cat_dirs c) rid = None"
  shows "rel = \<lparr>rel_id = rid, artifact_path = artifact_path_of c' rid, artifact_sha256 = sha,
       rel_runtime = \<lparr>env_id = rt, env_image = pa_runtime_image a, env_python = pa_python a\<rparr>,
       entrypoint = ep, rel_profile = pa_profile a, input_attributes = ins, output_attributes = outs\<rparr> \<and>
     map_option artifact_file (map_of (cat_dirs c') rid) = Some (Some artifact)"
proof -
  from assms have c': "c' = run_steps (save_steps rid (release_manifest rid sha rt a ep ins outs) artifact) c" and g: "catalog_get c' rid = Inr rel"
    by (auto simp: catalog_save_def need_id Let_def)
  then show ?thesis using save_steps_lookup [of rid "release_manifest rid sha rt a ep ins outs" artifact c]
    by (auto simp: catalog_get_def release_of_manifest)
qed

text \<open>A publication that changed the catalog.\<close>

lemma published_new:
  assumes "publish w c t a = (Inr rel, c')" "c' \<noteq> c" "iter_source_files (rglob t) = Inr fs"
  obtains s where "read_spec (pw_yaml w) t a = Inr s"
    "rel_id rel = source_id w a s fs" "artifact_sha256 rel = pw_sha256 w (source_artifact w a s fs)"
    "env_image (rel_runtime rel) = pa_runtime_image a" "rel_profile rel = pa_profile a"
    "entrypoint rel = rs_entrypoint s" "input_attributes rel = rs_inputs s" "output_attributes rel = rs_outputs s"
    "map_option artifact_file (map_of (cat_dirs c') (rel_id rel)) = Some (Some (source_artifact w a s fs))"
proof -
  obtain s gs where s: "read_spec (pw_yaml w) t a = Inr s" "iter_source_files (rglob t) = Inr gs"
    and save: "catalog_save c (release_manifest (source_id w a s gs) (pw_sha256 w (source_artifact w a s gs)) (pw_sha256 w (pa_runtime_image a)) a
       (rs_entrypoint s) (rs_inputs s) (rs_outputs s)) (source_artifact w a s gs) = (Inr rel, c')"
    by (rule publish_ok [OF assms(1)])
  have gs: "gs = fs" using s(2) assms(3) by simp
  have new: "map_of (cat_dirs c) (source_id w a s fs) = None"
    using save assms(2) unfolding gs by (auto simp: catalog_save_def need_id split: sum.splits if_splits)
  from saved_release [OF save [unfolded gs] new] show thesis by (intro that [OF s(1)]) auto
qed

lemma catalog_save_again:
  assumes "catalog_save c (release_manifest rid sha rt a ep ins outs) artifact = (Inr rel, c')"
  shows "catalog_save c' (release_manifest rid sha rt a ep ins outs) artifact = (Inr rel, c')"
proof (cases "map_of (cat_dirs c) rid")
  case None
  from None assms have c': "c' = run_steps (save_steps rid (release_manifest rid sha rt a ep ins outs) artifact) c" "catalog_get c' rid = Inr rel"
    by (auto simp: catalog_save_def need_id Let_def)
  then have "map_of (cat_dirs c') rid \<noteq> None" by (simp add: save_steps_lookup)
  then show ?thesis using c'(2) saved_release [OF assms None] by (auto simp: catalog_save_def need_id)
next
  case (Some dir)
  then show ?thesis using assms by (auto simp: catalog_save_def need_id split: sum.splits if_splits)
qed

lemma member_files_append: "member_files (xs @ ys) = member_files xs \<union> member_files ys"
  by (auto simp: member_files_def)

lemma member_files_Cons: "member_files (tar_file n d # xs) = insert (path_parts n, d) (member_files xs)"
proof -
  have "member_files (x # xs) = member_files [x] \<union> member_files xs" for x by (auto simp: member_files_def)
  moreover have "member_files [tar_file n d] = {(path_parts n, d)}" by (simp add: member_files_def tar_file_def member_path_def)
  ultimately show ?thesis by simp
qed

lemma member_files_tar: "member_files (map (\<lambda>f. tar_file (g f) (k f)) fs) = (\<lambda>f. (path_parts (g f), k f)) ` set fs"
  by (induction fs) (simp_all add: member_files_Cons, simp add: member_files_def)

lemma archive_member_facts:
  assumes "posix_tree t" "iter_source_files (rglob t) = Inr fs"
  shows "list_all plain_file (archive_members fs cm)"
    "map member_path (archive_members fs cm) = map fst fs @ [[''operator.json'']]"
    "member_files (archive_members fs cm) = set fs \<union> {([''operator.json''], canonical_json cm)}"
    "file_bytes (archive_members fs cm) = (\<Sum>f\<leftarrow>fs. int (length (snd f))) + int (length (canonical_json cm))"
proof -
  have opj: "path_parts ''operator.json'' = [''operator.json'']" by (simp add: path_parts_def)
  have mp: "member_path (tar_file (as_posix (fst f)) (snd f)) = fst f" if "f \<in> set fs" for f
    using path_parts_as_posix [OF listed_path(2) [OF assms that]] by (simp add: member_path_def tar_file_def)
  note lp = listed_path [OF assms]
  show "list_all plain_file (archive_members fs cm)"
    using lp mp opj by (auto simp: archive_members_def plain_file_def acceptable_def list_all_iff)
      (auto simp: tar_file_def member_path_def is_absolute_def)
  show "map member_path (archive_members fs cm) = map fst fs @ [[''operator.json'']]"
    using mp opj by (auto simp: archive_members_def) (simp add: member_path_def tar_file_def)
  have "member_files [] = {}" by (simp add: member_files_def)
  then have "member_files (archive_members fs cm) = (\<lambda>f. (path_parts (as_posix (fst f)), snd f)) ` set fs \<union> {([''operator.json''], canonical_json cm)}"
    by (simp add: archive_members_def member_files_append member_files_tar member_files_Cons opj del: Un_insert_right)
  also have "(\<lambda>f. (path_parts (as_posix (fst f)), snd f)) ` set fs = set fs"
    using path_parts_as_posix [OF lp(2)] by (simp cong: image_cong)
  finally show "member_files (archive_members fs cm) = set fs \<union> {([''operator.json''], canonical_json cm)}" .
  show "file_bytes (archive_members fs cm) = (\<Sum>f\<leftarrow>fs. int (length (snd f))) + int (length (canonical_json cm))"
    by (simp add: archive_members_def file_bytes_def tar_file_def comp_def filter_True)
qed

lemma archive_clash_free:
  assumes "posix_tree t" "iter_source_files (rglob t) = Inr fs" "map_of t [''operator.json''] = None"
  shows "clash_free (archive_members fs cm)"
proof -
  note am = archive_member_facts [OF assms(1,2), of cm] and lf = listed_files [OF assms(1,2)]
  have opj: "[''operator.json''] \<notin> fst ` set fs" using lf(2) assms(3) by auto
  have isf: "\<exists>d. map_of t p = Some (SFile d)" if "p \<in> fst ` set fs" for p using lf(2) that by auto
  have top: "map_of t (''operator.json'' # q) = None" for q
  proof (cases q)
    case (Cons x xs)
    show ?thesis
    proof (rule ccontr)
      assume "map_of t (''operator.json'' # q) \<noteq> None"
      then obtain n where "([''operator.json''] @ q, n) \<in> set t" by (auto dest: map_of_SomeD)
      from posix_above [OF assms(1) this] Cons assms(3) show False by simp
    qed
  qed (use assms(3) in simp)
  have pre: "p = q" if pq: "p \<in> insert [''operator.json''] (fst ` set fs)" "q \<in> insert [''operator.json''] (fst ` set fs)" and "prefix p q" for p q
  proof (rule ccontr)
    assume "p \<noteq> q"
    then obtain r where r: "q = p @ r" "r \<noteq> []" using \<open>prefix p q\<close> by (auto simp: prefix_def)
    have "p \<noteq> []" using pq(1) listed_path(1) [OF assms(1,2)] by fastforce
    then have qf: "q \<in> fst ` set fs" using pq(2) r by (cases p) auto
    then obtain d where d: "map_of t q = Some (SFile d)" using isf by blast
    then have "map_of t p = Some SDir" using posix_above [OF assms(1) _ r(2) \<open>p \<noteq> []\<close>] r(1) map_of_SomeD [OF d] by blast
    moreover have "p \<in> fst ` set fs" using pq(1) d top r(1) by auto
    ultimately show False using isf [of p] by simp
  qed
  have mem: "member_path x \<in> insert [''operator.json''] (fst ` set fs)" if "x \<in> set (archive_members fs cm)" for x
    using arg_cong [OF am(2), of set] that by auto
  have "distinct (map fst fs @ [[''operator.json'']])" using lf(1) opj by simp
  then show ?thesis unfolding clash_free_def am(2) using pre [OF mem mem] by blast
qed

lemma identity_fields:
  "map_of (json_fields (sort_keys (release_identity r e p i ou s))) k = map_option sort_keys (map_of (json_fields (release_identity r e p i ou s)) k)"
  unfolding release_identity_def json_fields_def json.case by (subst sort_keys_fields [unfolded json_fields_def]) simp_all

lemma sort_str_arr: "sort_keys (str_arr xs) = str_arr xs"
  by (simp add: str_arr_def)

lemma str_arr_inj: "str_arr xs = str_arr ys \<longleftrightarrow> xs = ys"
  by (simp add: str_arr_def inj_map_eq_map inj_def)

lemma release_identity_inj:
  assumes "canonical_json (release_identity r e p i ou s) = canonical_json (release_identity r' e' p' i' ou' s')"
  shows "r = r' \<and> e = e' \<and> p = p' \<and> i = i' \<and> ou = ou' \<and> s = s'"
proof -
  have eq: "sort_keys (release_identity r e p i ou s) = sort_keys (release_identity r' e' p' i' ou' s')" using assms by (simp add: canonical_json_inj)
  have f: "map_option sort_keys (map_of (json_fields (release_identity r e p i ou s)) k) =
      map_option sort_keys (map_of (json_fields (release_identity r' e' p' i' ou' s')) k)" for k
    using identity_fields [of r e p i ou s k] identity_fields [of r' e' p' i' ou' s' k] eq by simp
  note f [of "''runtime_id''"] f [of "''entrypoint''"] f [of "''profile''"] f [of "''input_attributes''"] f [of "''output_attributes''"] f [of "''source''"]
  then show ?thesis by (simp add: release_identity_def json_fields_def sort_str_arr str_arr_inj)
qed

text \<open>The texts whose digests tell two publications apart.\<close>

definition digested :: "publish_world \<Rightarrow> publish_args \<Rightarrow> release_spec \<Rightarrow> (path \<times> bytes) list \<Rightarrow> bytes set" where
  "digested w a s fs = {pa_runtime_image a, concat (map (hash_frame (pw_digest w)) fs),
     canonical_json (release_identity (pw_sha256 w (pa_runtime_image a)) (rs_entrypoint s) (pa_profile a) (rs_inputs s) (rs_outputs s)
       (pw_sha256 w (concat (map (hash_frame (pw_digest w)) fs))))}"

lemma source_id_inj:
  assumes "source_id w a s fs = source_id w b s' gs" "inj_on (pw_sha256 w) (digested w a s fs \<union> digested w b s' gs)"
  shows "pa_runtime_image a = pa_runtime_image b \<and> s = s' \<and> pa_profile a = pa_profile b \<and>
    concat (map (hash_frame (pw_digest w)) fs) = concat (map (hash_frame (pw_digest w)) gs)"
proof -
  note inj = inj_onD [OF assms(2)]
  let ?id = "\<lambda>a s fs. canonical_json (release_identity (pw_sha256 w (pa_runtime_image a)) (rs_entrypoint s) (pa_profile a) (rs_inputs s) (rs_outputs s)
       (pw_sha256 w (concat (map (hash_frame (pw_digest w)) fs))))"
  have "pw_sha256 w (?id a s fs) = pw_sha256 w (?id b s' gs)" using assms(1) by (simp add: source_id_def release_id_of_def)
  then have "?id a s fs = ?id b s' gs" by (rule inj) (simp_all add: digested_def)
  note eq = release_identity_inj [OF this]
  have "pa_runtime_image a = pa_runtime_image b" by (rule inj) (use eq in \<open>simp_all add: digested_def\<close>)
  moreover have "concat (map (hash_frame (pw_digest w)) fs) = concat (map (hash_frame (pw_digest w)) gs)"
    by (rule inj) (use eq in \<open>simp_all add: digested_def\<close>)
  ultimately show ?thesis using eq by simp
qed

lemma empty_tree_facts: "files_of empty_tree = {}" "\<not> is_file_at empty_tree q"
  by (auto simp: empty_tree_def files_of_def is_file_at_def split: if_splits)

section \<open>Properties\<close>

lemma release_installs:
  assumes "posix_tree t" "map_of t [''operator.json''] = None" "untar (pw_pack w (archive_members fs manifest)) = Inr (archive_members fs manifest)"
    and "publish w c t a = (Inr rel, c')" "c' \<noteq> c"
    and "iter_source_files (rglob t) = Inr fs"
    and "manifest = compiled_manifest (rel_id rel) (entrypoint rel) (input_attributes rel) (output_attributes rel)"
    and "int (length fs) < max_files m" "(\<Sum>f\<leftarrow>fs. int (length (snd f))) + int (length (canonical_json manifest)) \<le> max_expanded_bytes m"
    and "map_of (mat_targets m) (rel_id rel) = None"
  shows "\<exists>artifact m' installed. map_option artifact_file (map_of (cat_dirs c') (rel_id rel)) = Some (Some artifact) \<and>
    install (pw_sha256 w) untar m (rel_id rel) (artifact_sha256 rel) artifact = (Inr (mat_root m @ [rel_id rel]), m') \<and>
    map_of (mat_targets m') (rel_id rel) = Some installed \<and>
    files_of installed = {(p, d). map_of t p = Some (SFile d) \<and> \<not> ignored p} \<union> {([''operator.json''], canonical_json manifest)}"
proof -
  obtain s where rel: "rel_id rel = source_id w a s fs" "artifact_sha256 rel = pw_sha256 w (source_artifact w a s fs)"
    "entrypoint rel = rs_entrypoint s" "input_attributes rel = rs_inputs s" "output_attributes rel = rs_outputs s"
    and sv: "map_option artifact_file (map_of (cat_dirs c') (rel_id rel)) = Some (Some (source_artifact w a s fs))"
    by (rule published_new [OF assms(4-6)])
  let ?cm = "spec_manifest (source_id w a s fs) s" and ?art = "source_artifact w a s fs"
  have cm: "manifest = ?cm" using rel assms(7) by (simp add: spec_manifest_def)
  let ?ms = "archive_members fs ?cm"
  note am = archive_member_facts [OF assms(1,6), of ?cm]
  have len: "length ?ms = Suc (length fs)" by (simp add: archive_members_def)
  have room: "list_all (room_for empty_tree) ?ms"
    using am(1) by (auto simp: list_all_iff room_for_def plain_file_def empty_tree_def is_file_at_def split: if_splits)
  have "\<exists>t'. unpack m staging 0 0 {} empty_tree ?ms = Inr t'" for staging
    by (rule unpack_complete [OF am(1) archive_clash_free [OF assms(1,6,2)] room]) (use len assms(8,9) cm am(4) in simp_all)
  then obtain t' where t': "unpack m (mat_root m @ [staging_name m (rel_id rel)]) 0 0 {} empty_tree ?ms = Inr t'" by blast
  have "0 \<le> (\<Sum>f\<leftarrow>fs. int (length (snd f)))" by (rule sum_list_nonneg) auto
  then have lim: "0 \<le> max_files m" "0 \<le> max_expanded_bytes m" using assms(8,9) by linarith+
  have files: "files_of t' = set fs \<union> {([''operator.json''], canonical_json ?cm)}"
    using unpack_facts [OF t' lim] am(3) by (simp add: empty_tree_facts)
  then have "([''operator.json''], canonical_json ?cm) \<in> files_of t'" by simp
  then have "is_file_at t' [''operator.json'']" by (auto simp: files_of_def is_file_at_def)
  then have ins: "install (pw_sha256 w) untar m (rel_id rel) (artifact_sha256 rel) ?art =
      (Inr (mat_root m @ [rel_id rel]), m\<lparr>mat_staging := AList.delete (staging_name m (rel_id rel)) (mat_staging m),
        mat_targets := AList.update (rel_id rel) (make_read_only t') (mat_targets m)\<rparr>)"
    using t' assms(3,10) rel cm by (simp add: install_def Let_def source_artifact_def)
  show ?thesis
    by (rule exI [of _ ?art], rule exI, rule exI [of _ "make_read_only t'"], intro conjI, rule sv, rule ins)
      (use files cm listed_files(2) [OF assms(1,6)] in \<open>simp_all add: files_make_read_only\<close>)
qed


text \<open>C36: A project with a regular file at \<open>operator.json\<close> is published without an error, but its release can never be installed: the archive
  has that path twice, and the materializer refuses every such artifact and keeps its targets.\<close>

theorem shadowed_manifest_never_installs:
  assumes "posix_tree t" "map_of t [''operator.json''] = Some (SFile d)"
    and "publish w c t a = (Inr rel, c')" "c' \<noteq> c" "iter_source_files (rglob t) = Inr fs"
    and "manifest = compiled_manifest (rel_id rel) (entrypoint rel) (input_attributes rel) (output_attributes rel)"
    and "untar (pw_pack w (archive_members fs manifest)) = Inr (archive_members fs manifest)"
    and "map_of (mat_targets m) (rel_id rel) = None"
  shows "\<exists>artifact e m'. map_option artifact_file (map_of (cat_dirs c') (rel_id rel)) = Some (Some artifact) \<and>
    install (pw_sha256 w) untar m (rel_id rel) (artifact_sha256 rel) artifact = (Inl e, m') \<and> mat_targets m' = mat_targets m"
proof -
  obtain s where rel: "rel_id rel = source_id w a s fs" "entrypoint rel = rs_entrypoint s" "input_attributes rel = rs_inputs s" "output_attributes rel = rs_outputs s"
    and sv: "map_option artifact_file (map_of (cat_dirs c') (rel_id rel)) = Some (Some (source_artifact w a s fs))"
    by (rule published_new [OF assms(3-5)])
  let ?art = "source_artifact w a s fs"
  have cm: "manifest = spec_manifest (source_id w a s fs) s" using rel assms(6) by (simp add: spec_manifest_def)
  have "([''operator.json''], d) \<in> set fs"
    using listed_files(2) [OF assms(1,5)] assms(2) by (simp add: ignored_def IGNORED_PARTS_def)
  then have "\<not> distinct (map member_path (archive_members fs manifest))"
    unfolding archive_member_facts(2) [OF assms(1,5)] by force
  then have "\<not> distinct (map (\<lambda>x. as_posix (member_path x)) (archive_members fs manifest))"
    using distinct_map [of as_posix "map member_path (archive_members fs manifest)"] by (auto simp: comp_def)
  then have bad: "\<exists>e. unpack m staging 0 0 {} empty_tree (archive_members fs manifest) = Inl e" for staging
    using unpack_distinct [of m staging 0 0 "{}" empty_tree "archive_members fs manifest"]
    by (cases "unpack m staging 0 0 {} empty_tree (archive_members fs manifest)") auto
  have "untar ?art = Inr (archive_members fs manifest)" using assms(7) cm by (simp add: source_artifact_def)
  then have "\<exists>e m'. install (pw_sha256 w) untar m (rel_id rel) (artifact_sha256 rel) ?art = (Inl e, m') \<and> mat_targets m' = mat_targets m"
    using bad [of "mat_root m @ [staging_name m (rel_id rel)]"] assms(8) by (auto simp: install_def Let_def)
  then show ?thesis using sv by blast
qed

text \<open>C24: A release id stands for its content: two new releases with the same id were published from the same regular files, for the
  same runtime image, entrypoint, profile and attributes, and have the same artifact, when SHA-256 does not collide on their texts.\<close>

theorem release_id_identifies:
  assumes "posix_tree t" "posix_tree u" "iter_source_files (rglob t) = Inr fs" "iter_source_files (rglob u) = Inr gs"
    and "read_spec (pw_yaml w) t a = Inr s" "read_spec (pw_yaml w) u b = Inr s'"
    and "publish w c t a = (Inr rel, c')" "c' \<noteq> c" "publish w d u b = (Inr rel', d')" "d' \<noteq> d"
    and "\<And>x. length (pw_digest w x) = 32" "inj_on (pw_digest w) (snd ` set fs \<union> snd ` set gs)"
    and "inj_on (pw_sha256 w) (digested w a s fs \<union> digested w b s' gs)"
    and "rel_id rel = rel_id rel'"
  shows "fs = gs \<and> entrypoint rel = entrypoint rel' \<and> rel_profile rel = rel_profile rel' \<and> env_image (rel_runtime rel) = env_image (rel_runtime rel') \<and>
    input_attributes rel = input_attributes rel' \<and> output_attributes rel = output_attributes rel' \<and> artifact_sha256 rel = artifact_sha256 rel'"
proof -
  obtain s1 where 1: "read_spec (pw_yaml w) t a = Inr s1" "rel_id rel = source_id w a s1 fs" "artifact_sha256 rel = pw_sha256 w (source_artifact w a s1 fs)"
    "env_image (rel_runtime rel) = pa_runtime_image a" "rel_profile rel = pa_profile a"
    "entrypoint rel = rs_entrypoint s1" "input_attributes rel = rs_inputs s1" "output_attributes rel = rs_outputs s1"
    by (rule published_new [OF assms(7,8,3)])
  obtain s2 where 2: "read_spec (pw_yaml w) u b = Inr s2" "rel_id rel' = source_id w b s2 gs" "artifact_sha256 rel' = pw_sha256 w (source_artifact w b s2 gs)"
    "env_image (rel_runtime rel') = pa_runtime_image b" "rel_profile rel' = pa_profile b"
    "entrypoint rel' = rs_entrypoint s2" "input_attributes rel' = rs_inputs s2" "output_attributes rel' = rs_outputs s2"
    by (rule published_new [OF assms(9,10,4)])
  have s: "s1 = s" "s2 = s'" using 1(1) 2(1) assms(5,6) by simp_all
  have ids: "source_id w a s fs = source_id w b s' gs" using 1(2) 2(2) assms(14) s by simp
  note eq = source_id_inj [OF ids assms(13)]
  then have "fs = gs" using source_hash_inj [OF assms(1-4,11,12)] by blast
  moreover have "source_artifact w a s fs = source_artifact w b s' gs" using eq ids \<open>fs = gs\<close> by (simp add: source_artifact_def)
  ultimately show ?thesis using 1 2 s eq by simp
qed

text \<open>Publishing a project again, with the same arguments, returns the release that is already there and leaves the catalog as it is.\<close>

theorem republish_idempotent:
  assumes "publish w c t a = (Inr rel, c')"
  shows "publish w c' t a = (Inr rel, c')"
proof -
  obtain s fs where s: "read_spec (pw_yaml w) t a = Inr s" "iter_source_files (rglob t) = Inr fs"
      "int (length (source_artifact w a s fs)) \<le> MAX_ARTIFACT_BYTES"
    and save: "catalog_save c (release_manifest (source_id w a s fs) (pw_sha256 w (source_artifact w a s fs)) (pw_sha256 w (pa_runtime_image a)) a
       (rs_entrypoint s) (rs_inputs s) (rs_outputs s)) (source_artifact w a s fs) = (Inr rel, c')"
    by (rule publish_ok [OF assms])
  have "catalog_save c' (release_manifest (source_id w a s fs) (pw_sha256 w (source_artifact w a s fs)) (pw_sha256 w (pa_runtime_image a)) a
       (rs_entrypoint s) (rs_inputs s) (rs_outputs s)) (source_artifact w a s fs) = (Inr rel, c')"
    by (rule catalog_save_again [OF save])
  then show ?thesis using publish_saves [OF s] by simp
qed

section \<open>Witnesses\<close>

definition demo_publish_world :: publish_world where
  "demo_publish_world = \<lparr>pw_sha256 = (\<lambda>x. x), pw_digest = (\<lambda>x. take 32 (x @ replicate 32 (CHR 0x00))),
     pw_yaml = (\<lambda>_. Inr (JObj [(''entrypoint'', JStr ''m:f'')])), pw_pack = (\<lambda>_. ''gz'')\<rparr>"

definition demo_project :: source_tree where
  "demo_project = [([''operator.yaml''], SFile ''y''), ([''m.py''], SFile ''p''), ([''.git''], SDir), ([''.git'', ''x''], SFile ''g'')]"

definition demo_shadow_project :: source_tree where
  "demo_shadow_project = ([''operator.json''], SFile ''{}'') # demo_project"

definition demo_publish_args :: publish_args where
  "demo_publish_args = \<lparr>pa_runtime_image = ''i'', pa_profile = ''s'', pa_python = ''3'', pa_allow_mutable_image = True\<rparr>"

definition demo_catalog :: catalog where
  "demo_catalog = \<lparr>cat_root = ''/c'', cat_dirs = []\<rparr>"

definition demo_materializer :: "int \<Rightarrow> materializer" where
  "demo_materializer limit = \<lparr>mat_root = [''r''], mat_pid = ''1'', max_files = 9, max_expanded_bytes = limit, mat_targets = [], mat_staging = []\<rparr>"

lemma demo_listed:
  "iter_source_files (rglob demo_project) = Inr [([''m.py''], ''p''), ([''operator.yaml''], ''y'')]"
  "iter_source_files (rglob demo_shadow_project) = Inr [([''m.py''], ''p''), ([''operator.json''], ''{}''), ([''operator.yaml''], ''y'')]"
  "posix_tree demo_project" "posix_tree demo_shadow_project"
  "map_of demo_project [''operator.json''] = None" "map_of demo_shadow_project [''operator.json''] = Some (SFile ''{}'')"
  by code_simp+

lemma demo_read_spec:
  "read_spec (pw_yaml demo_publish_world) demo_project demo_publish_args = Inr \<lparr>rs_entrypoint = ''m:f'', rs_inputs = [], rs_outputs = []\<rparr>"
  "read_spec (pw_yaml demo_publish_world) demo_shadow_project demo_publish_args = Inr \<lparr>rs_entrypoint = ''m:f'', rs_inputs = [], rs_outputs = []\<rparr>"
  by code_simp+

lemma demo_publishes:
  assumes "read_spec (pw_yaml demo_publish_world) t demo_publish_args = Inr s" "iter_source_files (rglob t) = Inr fs" "cat_dirs c = []"
  obtains rel c' where "publish demo_publish_world c t demo_publish_args = (Inr rel, c')" "c' \<noteq> c"
proof -
  let ?rid = "source_id demo_publish_world demo_publish_args s fs" and ?art = "source_artifact demo_publish_world demo_publish_args s fs"
  have art: "?art = ''gz''" by (simp add: source_artifact_def demo_publish_world_def)
  let ?man = "release_manifest ?rid (pw_sha256 demo_publish_world ?art) (pw_sha256 demo_publish_world (pa_runtime_image demo_publish_args)) demo_publish_args
    (rs_entrypoint s) (rs_inputs s) (rs_outputs s)"
  let ?c = "run_steps (save_steps ?rid ?man ?art) c"
  have save: "catalog_save c ?man ?art = (catalog_get ?c ?rid, ?c)"
    by (simp add: catalog_save_def need_id Let_def assms(3))
  have "\<exists>rel. catalog_get ?c ?rid = Inr rel" by (simp add: catalog_get_def save_steps_lookup release_of_manifest)
  moreover have "?c \<noteq> c"
  proof
    assume "?c = c"
    then have "map_of (cat_dirs ?c) ?rid = None" by (simp add: assms(3))
    then show False by (simp add: save_steps_lookup)
  qed
  moreover have "publish demo_publish_world c t demo_publish_args = catalog_save c ?man ?art"
    by (rule publish_saves [OF assms(1,2)]) (simp add: art MAX_ARTIFACT_BYTES_def)
  ultimately show thesis using that save by fastforce
qed


theorem shadowed_manifest_never_installs_witness:
  "\<exists>rel c' untar artifact e m'. publish demo_publish_world demo_catalog demo_shadow_project demo_publish_args = (Inr rel, c') \<and>
     install (pw_sha256 demo_publish_world) untar (demo_materializer 1000) (rel_id rel) (artifact_sha256 rel) artifact = (Inl e, m')"
proof -
  obtain rel c' where p: "publish demo_publish_world demo_catalog demo_shadow_project demo_publish_args = (Inr rel, c')" "c' \<noteq> demo_catalog"
    by (rule demo_publishes [OF demo_read_spec(2) demo_listed(2), of demo_catalog]) (simp_all add: demo_catalog_def)
  let ?man = "compiled_manifest (rel_id rel) (entrypoint rel) (input_attributes rel) (output_attributes rel)"
  have "map_of (mat_targets (demo_materializer 1000)) (rel_id rel) = None" by (simp add: demo_materializer_def)
  from shadowed_manifest_never_installs [OF demo_listed(4,6) p demo_listed(2) refl _ this,
      where untar = "\<lambda>_. Inr (archive_members [([''m.py''], ''p''), ([''operator.json''], ''{}''), ([''operator.yaml''], ''y'')] ?man)"] p
  show ?thesis by blast
qed

theorem release_id_identifies_witness:
  "\<exists>rel c' rel' d'. publish demo_publish_world demo_catalog demo_project demo_publish_args = (Inr rel, c') \<and>
     publish demo_publish_world (demo_catalog\<lparr>cat_root := ''/d''\<rparr>) demo_project demo_publish_args = (Inr rel', d') \<and>
     rel_id rel = rel_id rel' \<and> artifact_sha256 rel = artifact_sha256 rel'"
proof -
  let ?d = "demo_catalog\<lparr>cat_root := ''/d''\<rparr>"
  obtain rel c' where p: "publish demo_publish_world demo_catalog demo_project demo_publish_args = (Inr rel, c')" "c' \<noteq> demo_catalog"
    by (rule demo_publishes [OF demo_read_spec(1) demo_listed(1), of demo_catalog]) (simp_all add: demo_catalog_def)
  obtain rel' d' where q: "publish demo_publish_world ?d demo_project demo_publish_args = (Inr rel', d')" "d' \<noteq> ?d"
    by (rule demo_publishes [OF demo_read_spec(1) demo_listed(1), of ?d]) (simp_all add: demo_catalog_def)
  have "length (pw_digest demo_publish_world x) = 32" for x by (simp add: demo_publish_world_def)
  moreover have "inj_on (pw_digest demo_publish_world) {''p'', ''y''}" by (simp add: demo_publish_world_def)
  moreover have "inj_on (pw_sha256 demo_publish_world) A" for A by (simp add: demo_publish_world_def)
  moreover have ids: "rel_id rel = rel_id rel'"
    by (rule published_new [OF p demo_listed(1)], rule published_new [OF q demo_listed(1)]) (use demo_read_spec in simp)
  ultimately show ?thesis
    using release_id_identifies [OF demo_listed(3,3,1,1) demo_read_spec(1,1) p q] p q by auto
qed

theorem republish_idempotent_witness:
  "\<exists>rel c'. publish demo_publish_world demo_catalog demo_project demo_publish_args = (Inr rel, c') \<and>
     publish demo_publish_world c' demo_project demo_publish_args = (Inr rel, c')"
proof -
  obtain rel c' where p: "publish demo_publish_world demo_catalog demo_project demo_publish_args = (Inr rel, c')"
    by (rule demo_publishes [OF demo_read_spec(1) demo_listed(1), of demo_catalog]) (simp_all add: demo_catalog_def)
  from republish_idempotent [OF p] p show ?thesis by blast
qed

end
