(* ===== verification/Source_Snapshot.thy ===== *)
theory Source_Snapshot
  imports Release_Publisher
begin

text \<open>
  Immutable copies of a user's workspace: the revision of \<^verbatim>\<open>operator_authoring/ast_scanner.py\<close>,
  \<^verbatim>\<open>operator_authoring/snapshot.py\<close> and \<^verbatim>\<open>publish_service/source_store.py\<close>.  The store is one directory per revision; a
  revision is a digest, so a single path component.  What other processes do to the store between the copy and
  the rename is an argument.
\<close>

section \<open>Revisions\<close>

definition EXCLUDED_DIRS :: "string list" where
  "EXCLUDED_DIRS = [''.git'', ''.idea'', ''.vscode'', ''.qoder'', ''__pycache__'', ''.ipynb_checkpoints'', ''.pytest_cache'', ''.mypy_cache'',
     ''venv'', ''.venv'', ''site-packages'', ''dist'', ''build'']"

definition excluded :: "path \<Rightarrow> bool" where
  "excluded p \<longleftrightarrow> list_ex (\<lambda>part. part \<in> set EXCLUDED_DIRS) p"

definition symlink_message :: "path \<Rightarrow> string" where
  "symlink_message p = ''symlinks are not allowed in operator workspace: '' @ as_posix p"

fun scan_source_files :: "(path \<times> source_node) list \<Rightarrow> (path \<times> bytes) list result" where
  "scan_source_files [] = Inr []"
| "scan_source_files ((p, n) # es) =
     (if excluded p then scan_source_files es
      else case n of
        SLink _ \<Rightarrow> Inl (value_error (symlink_message p))
      | SFile d \<Rightarrow> map_sum id (Cons (p, d)) (scan_source_files es)
      | SDir \<Rightarrow> scan_source_files es)"

definition source_revision :: "(bytes \<Rightarrow> string) \<Rightarrow> (bytes \<Rightarrow> bytes) \<Rightarrow> source_tree \<Rightarrow> string result" where
  "source_revision h dg t = map_sum id (\<lambda>fs. h (concat (map (hash_frame dg) fs))) (scan_source_files (rglob t))"

section \<open>Snapshots\<close>

definition snapshot_error :: "string \<Rightarrow> exn" where
  "snapshot_error msg = PyExn ''SnapshotError'' msg"

text \<open>\<open>mkdir(parents=True, exist_ok=True)\<close> of every directory on the way; a missing one is created.\<close>

definition make_dirs :: "path list \<Rightarrow> source_tree \<Rightarrow> source_tree" where
  "make_dirs ps t = fold (\<lambda>p u. if map_of u p = None then u @ [(p, SDir)] else u) ps t"

definition parents :: "path \<Rightarrow> path list" where
  "parents p = map (\<lambda>i. take i p) [1..<length p]"

fun copy_entries :: "int \<Rightarrow> (path \<times> source_node) list \<Rightarrow> int \<Rightarrow> source_tree \<Rightarrow> source_tree result" where
  "copy_entries max_bytes [] tot dest = Inr dest"
| "copy_entries max_bytes ((p, n) # es) tot dest =
     (if excluded p then copy_entries max_bytes es tot dest
      else case n of
        SLink _ \<Rightarrow> Inl (snapshot_error (symlink_message p))
      | SDir \<Rightarrow> copy_entries max_bytes es tot (make_dirs (parents p @ [p]) dest)
      | SFile d \<Rightarrow>
          if max_bytes < tot + int (length d) then Inl (snapshot_error (''workspace source exceeds '' @ int_text max_bytes @ '' bytes''))
          else copy_entries max_bytes es (tot + int (length d)) (make_dirs (parents p) dest @ [(p, SFile d)]))"

definition snapshot_workspace :: "int \<Rightarrow> source_tree \<Rightarrow> source_tree result" where
  "snapshot_workspace max_bytes t =
     (if path_bytes t [''requirements.txt''] = None then Inl (snapshot_error ''workspace root must contain requirements.txt; it may be empty'')
      else copy_entries max_bytes (rglob t) 0 [])"

text \<open>\<open>line.split(" #", 1)[0]\<close> for a line that contains the separator.\<close>

fun before_comment :: "string \<Rightarrow> string" where
  "before_comment [] = []"
| "before_comment (c # cs) = (if take 2 (c # cs) = '' #'' then [] else c # before_comment cs)"

definition rstrip :: "string \<Rightarrow> string" where
  "rstrip s = rev (dropWhile is_space (rev s))"

definition requirement_line :: "nat \<Rightarrow> string \<Rightarrow> string option result" where
  "requirement_line n r =
     (let line = strip r; text = (if before_comment line = line then line else rstrip (before_comment line)) in
      if line = [] \<or> take 1 line = ''#'' then Inr None
      else if last line = CHR 0x5C then
        Inl (snapshot_error (''requirements.txt line '' @ nat_text n @ '': line continuations are not supported''))
      else if take 1 line = ''-'' then
        Inl (snapshot_error (''requirements.txt line '' @ nat_text n @
          '': pip options/includes are not supported; configure package indexes in Build Service''))
      else Inr (if text = [] then None else Some text))"

fun requirement_lines :: "nat \<Rightarrow> string list \<Rightarrow> string list result" where
  "requirement_lines n [] = Inr []"
| "requirement_lines n (r # rs) =
     result_bind (requirement_line n r) (\<lambda>text.
     map_sum id (\<lambda>ts. case text of None \<Rightarrow> ts | Some x \<Rightarrow> x # ts) (requirement_lines (n + 1) rs))"

definition read_requirements :: "source_tree \<Rightarrow> string list result" where
  "read_requirements t =
     (case path_bytes t [''requirements.txt''] of
        None \<Rightarrow> Inl (snapshot_error ''requirements.txt is required'')
      | Some text \<Rightarrow> requirement_lines 1 (splitlines text))"

section \<open>The store\<close>

record source_store =
  ss_revisions :: "(string, source_tree) dict"
  ss_max_source_bytes :: int

definition source_store_error :: "string \<Rightarrow> exn" where
  "source_store_error msg = PyExn ''SourceStoreError'' msg"

definition put_workspace :: "(bytes \<Rightarrow> string) \<Rightarrow> (bytes \<Rightarrow> bytes) \<Rightarrow> (source_store \<Rightarrow> source_store) \<Rightarrow> source_store \<Rightarrow> source_tree \<Rightarrow> string \<Rightarrow>
    string result \<times> source_store" where
  "put_workspace h dg meanwhile st workspace expected =
     (case map_of (ss_revisions st) expected of
        Some t \<Rightarrow>
          (case source_revision h dg t of
             Inl e \<Rightarrow> (Inl e, st)
           | Inr actual \<Rightarrow>
               if actual \<noteq> expected then (Inl (source_store_error (''source store corruption: expected '' @ expected @ '', found '' @ actual)), st)
               else (Inr (''local:'' @ expected), st))
      | None \<Rightarrow>
          (case result_bind (snapshot_workspace (ss_max_source_bytes st) workspace) (\<lambda>t. map_sum id (Pair t) (source_revision h dg t)) of
             Inl e \<Rightarrow> (Inl e, meanwhile st)
           | Inr (t, actual) \<Rightarrow>
               if actual \<noteq> expected then
                 (Inl (source_store_error ''workspace changed while creating immutable source snapshot; analyze again''), meanwhile st)
               else
                 let st' = meanwhile st in
                 (Inr (''local:'' @ expected),
                  if map_of (ss_revisions st') expected = None then st'\<lparr>ss_revisions := ss_revisions st' @ [(expected, t)]\<rparr> else st')))"

text \<open>The store as one tree, which is what the reference \<open>local:.\<close> would name.\<close>

definition store_tree :: "source_store \<Rightarrow> source_tree" where
  "store_tree st = concat (map (\<lambda>(r, t). ([r], SDir) # map (\<lambda>(p, n). (r # p, n)) t) (ss_revisions st))"

definition source_resolve :: "source_store \<Rightarrow> string \<Rightarrow> source_tree result" where
  "source_resolve st ref =
     (if take 6 ref \<noteq> ''local:'' then Inl (source_store_error (''unsupported source_ref: '' @ ref))
      else let revision = drop 6 ref in
        if revision = [] \<or> CHR ''/'' \<in> set revision \<or> CHR 0x5C \<in> set revision then Inl (source_store_error ''invalid local source_ref'')
        else if revision = ''..'' then Inl (source_store_error ''source_ref escapes source root'')
        else if revision = ''.'' then Inr (store_tree st)
        else case map_of (ss_revisions st) revision of
          None \<Rightarrow> Inl (source_store_error (''source snapshot not found: '' @ ref))
        | Some t \<Rightarrow> Inr t)"

section \<open>A snapshot has the files of its workspace\<close>

text \<open>A copy in progress: some of the entries that are not excluded, each once.\<close>

definition partial_copy :: "source_tree \<Rightarrow> source_tree \<Rightarrow> bool" where
  "partial_copy t dest \<longleftrightarrow> distinct (map fst dest) \<and> set dest \<subseteq> {(p, n) \<in> set t. \<not> excluded p}"

lemma partial_copy_add:
  "partial_copy t dest \<Longrightarrow> (p, n) \<in> set t \<Longrightarrow> \<not> excluded p \<Longrightarrow> p \<notin> fst ` set dest \<Longrightarrow> partial_copy t (dest @ [(p, n)])"
  by (auto simp: partial_copy_def)

lemma make_dirs_Cons: "make_dirs (p # ps) t = make_dirs ps (if map_of t p = None then t @ [(p, SDir)] else t)"
  by (simp add: make_dirs_def)

lemma make_dirs_copy:
  assumes "distinct (map fst t)" "partial_copy t dest" "\<forall>q\<in>set ps. (q, SDir) \<in> set t \<and> \<not> excluded q"
  shows "partial_copy t (make_dirs ps dest) \<and> set (make_dirs ps dest) = set dest \<union> (\<lambda>q. (q, SDir)) ` set ps"
  using assms(2,3)
proof (induction ps arbitrary: dest)
  case Nil
  then show ?case by (simp add: make_dirs_def)
next
  case (Cons q ps)
  show ?case
  proof (cases "map_of dest q")
    case None
    then have "partial_copy t (dest @ [(q, SDir)])" using Cons.prems by (intro partial_copy_add) (auto simp: map_of_eq_None_iff)
    then show ?thesis using Cons.IH [of "dest @ [(q, SDir)]"] Cons.prems None by (simp add: make_dirs_Cons)
  next
    case (Some n)
    then have "(q, n) \<in> set dest" by (rule map_of_SomeD)
    moreover from this have "n = SDir" using Cons.prems assms(1) by (auto simp: partial_copy_def dest: eq_key_imp_eq_value)
    ultimately show ?thesis using Cons Some by (auto simp: make_dirs_Cons)
  qed
qed

lemma excluded_take: "excluded (take i p) \<Longrightarrow> excluded p"
  by (auto simp: excluded_def list_ex_iff dest: in_set_takeD)

lemma parents_dirs:
  assumes "posix_tree t" "(p, n) \<in> set t" "\<not> excluded p"
  shows "\<forall>q\<in>set (parents p). (q, SDir) \<in> set t \<and> \<not> excluded q"
proof
  fix q assume "q \<in> set (parents p)"
  then obtain i where i: "1 \<le> i" "i < length p" "q = take i p" by (auto simp: parents_def)
  then have "p = q @ drop i p" "drop i p \<noteq> []" "q \<noteq> []" by auto
  then have "map_of t q = Some SDir" using posix_above [OF assms(1), of q "drop i p" n] assms(2) by simp
  then show "(q, SDir) \<in> set t \<and> \<not> excluded q" using assms(3) excluded_take i(3) map_of_SomeD by metis
qed

lemma copy_entries_copy:
  assumes "posix_tree t" "copy_entries m es tot dest = Inr u" "set es \<subseteq> set t" "distinct (map fst es)" "partial_copy t dest"
    and "\<forall>p d. (p, SFile d) \<in> set dest \<longrightarrow> p \<notin> fst ` set es"
  shows "partial_copy t u \<and> set u \<supseteq> set dest \<union> {(p, n) \<in> set es. \<not> excluded p}"
  using assms(2-6)
proof (induction m es tot dest rule: copy_entries.induct)
  case (2 m p n es tot dest)
  have dt: "distinct (map fst t)" using assms(1) by (simp add: posix_tree_def)
  have e: "(p, n) \<in> set t" using "2.prems"(2) by simp
  show ?case
  proof (cases "excluded p")
    case True
    then show ?thesis using "2.IH"(1) [OF True] "2.prems" by auto
  next
    case False
    note par = parents_dirs [OF assms(1) e False]
    show ?thesis
    proof (cases n)
      case SDir
      have q: "\<forall>q\<in>set (parents p @ [p]). (q, SDir) \<in> set t \<and> \<not> excluded q" using par e SDir False by auto
      note md = make_dirs_copy [OF dt "2.prems"(4) q]
      have "\<forall>q d. (q, SFile d) \<in> set (make_dirs (parents p @ [p]) dest) \<longrightarrow> q \<notin> fst ` set es" using "2.prems"(5) md by auto
      then show ?thesis using "2.IH"(2) [OF False SDir] "2.prems" md SDir False by auto
    next
      case (SFile d)
      note md = make_dirs_copy [OF dt "2.prems"(4) par]
      have fresh: "p \<notin> fst ` set (make_dirs (parents p) dest)"
      proof
        assume "p \<in> fst ` set (make_dirs (parents p) dest)"
        then obtain k where k: "(p, k) \<in> set (make_dirs (parents p) dest)" by auto
        then have "(p, k) \<in> set t" using md by (auto simp: partial_copy_def)
        then have "k = SFile d" using e SFile dt by (auto dest: eq_key_imp_eq_value)
        then show False using k md "2.prems"(5) by auto
      qed
      have pc: "partial_copy t (make_dirs (parents p) dest @ [(p, SFile d)])"
        using md e SFile False fresh by (intro partial_copy_add) auto
      have ok: "\<not> m < tot + int (length d)" using "2.prems"(1) SFile False by (auto split: if_splits)
      have "\<forall>q b. (q, SFile b) \<in> set (make_dirs (parents p) dest @ [(p, SFile d)]) \<longrightarrow> q \<notin> fst ` set es" using "2.prems"(3,5) md by auto
      then show ?thesis using "2.IH"(3) [OF False SFile ok] "2.prems" pc md SFile False ok by auto
    next
      case (SLink x)
      then show ?thesis using "2.prems"(1) False by simp
    qed
  qed
qed auto

lemma copy_entries_ok:
  "scan_source_files es = Inr fs \<Longrightarrow> tot + (\<Sum>f\<leftarrow>fs. int (length (snd f))) \<le> m \<Longrightarrow> \<exists>u. copy_entries m es tot dest = Inr u"
proof (induction m es tot dest arbitrary: fs rule: copy_entries.induct)
  case (2 m p n es tot dest)
  have pos: "0 \<le> (\<Sum>f\<leftarrow>gs. int (length (snd f)))" for gs :: "(path \<times> bytes) list" by (rule sum_list_nonneg) auto
  show ?case
  proof (cases "excluded p")
    case False
    then show ?thesis using "2.prems" "2.IH"(2) [OF False] "2.IH"(3) [OF False] pos
      by (cases n) (auto simp: map_sum_Inr, smt (verit) pos)
  qed (use 2 in auto)
qed auto

lemma scan_filter: "scan_source_files (filter (\<lambda>e. \<not> excluded (fst e)) es) = scan_source_files es"
  by (induction es rule: scan_source_files.induct) (auto split: source_node.splits)

lemma sort_key_eq:
  "distinct (map f xs) \<Longrightarrow> distinct (map f ys) \<Longrightarrow> set xs = set ys \<Longrightarrow> sort_key f xs = sort_key f ys"
proof -
  assume d: "distinct (map f xs)" "distinct (map f ys)" and s: "set xs = set ys"
  have "map f (sort_key f xs) = map f (sort_key f ys)"
    by (rule sorted_distinct_set_unique) (use d s in \<open>auto simp: distinct_map\<close>)
  then show ?thesis by (rule map_inj_on) (use d s in \<open>simp add: distinct_map\<close>)
qed

lemma snapshot_same_files:
  assumes "posix_tree t" "snapshot_workspace m t = Inr u"
  shows "scan_source_files (rglob u) = scan_source_files (rglob t)"
proof -
  from assms(2) have c: "copy_entries m (rglob t) 0 [] = Inr u" by (auto simp: snapshot_workspace_def split: if_splits)
  have dt: "distinct (map fst t)" using assms(1) by (simp add: posix_tree_def)
  have "partial_copy t u \<and> set u \<supseteq> {(p, n) \<in> set t. \<not> excluded p}"
    using copy_entries_copy [OF assms(1) c _ distinct_rglob [OF dt]] by (simp add: partial_copy_def)
  then have su: "set u = {e \<in> set t. \<not> excluded (fst e)}" and du: "distinct (map fst u)" by (auto simp: partial_copy_def)
  have keys: "inj_on (\<lambda>e. as_posix (fst e)) (set xs)" if "set xs \<subseteq> set t" "distinct (map fst xs)" for xs :: source_tree
  proof (rule inj_onI)
    fix x y assume xy: "x \<in> set xs" "y \<in> set xs" "as_posix (fst x) = as_posix (fst y)"
    then have "is_path (fst x)" "is_path (fst y)" using posix_path(1) [OF assms(1)] that(1) by (metis prod.collapse subsetD)+
    then have "fst x = fst y" using xy(3) as_posix_inj by blast
    then show "x = y" using xy(1,2) that(2) by (auto simp: distinct_map dest: inj_onD)
  qed
  let ?f = "filter (\<lambda>e. \<not> excluded (fst e)) t"
  have df: "distinct (map fst ?f)" using dt distinct_map_filter by blast
  have "rglob u = rglob ?f" unfolding rglob_def
    by (rule sort_key_eq) (use su du df keys [of u] keys [of ?f] in \<open>auto simp: distinct_map\<close>)
  also have "\<dots> = filter (\<lambda>e. \<not> excluded (fst e)) (rglob t)" unfolding rglob_def by (simp add: filter_sort)
  finally show ?thesis by (simp add: scan_filter)
qed

section \<open>Properties\<close>

text \<open>C29: Saving an unchanged workspace makes a snapshot: when the workspace has a \<open>requirements.txt\<close>, no symbolic links and fits the size limit,
  \<open>put_workspace\<close> for its revision succeeds, the returned reference resolves to a tree with the workspace's files outside the excluded
  directories and with that revision, and every snapshot that was in the store stays as it is.\<close>

theorem put_workspace_snapshots:
  assumes "posix_tree ws" "scan_source_files (rglob ws) = Inr fs" "path_bytes ws [''requirements.txt''] \<noteq> None"
    and "(\<Sum>f\<leftarrow>fs. int (length (snd f))) \<le> ss_max_source_bytes st" "expected = h (concat (map (hash_frame dg) fs))"
    and "expected \<noteq> []" "list_all hex_char expected" "map_of (ss_revisions st) expected = None" "map_of (ss_revisions (meanwhile st)) expected = None"
  shows "\<exists>st' t. put_workspace h dg meanwhile st ws expected = (Inr (''local:'' @ expected), st') \<and>
    source_resolve st' (''local:'' @ expected) = Inr t \<and> scan_source_files (rglob t) = Inr fs \<and> source_revision h dg t = Inr expected \<and>
    (\<forall>r u. map_of (ss_revisions (meanwhile st)) r = Some u \<longrightarrow> map_of (ss_revisions st') r = Some u)"
proof -
  obtain u where u: "snapshot_workspace (ss_max_source_bytes st) ws = Inr u"
    using copy_entries_ok [OF assms(2), of 0] assms(3,4) by (auto simp: snapshot_workspace_def)
  have files: "scan_source_files (rglob u) = Inr fs" using snapshot_same_files [OF assms(1) u] assms(2) by simp
  then have rev: "source_revision h dg u = Inr expected" using assms(5) by (simp add: source_revision_def)
  let ?st = "(meanwhile st)\<lparr>ss_revisions := ss_revisions (meanwhile st) @ [(expected, u)]\<rparr>"
  have put: "put_workspace h dg meanwhile st ws expected = (Inr (''local:'' @ expected), ?st)"
    using u rev assms(8,9) by (simp add: put_workspace_def Let_def)
  have hex: "\<not> hex_char (CHR ''/'')" "\<not> hex_char (CHR 0x5C)" "\<not> hex_char (CHR ''.'')" by code_simp+
  have "map_of (ss_revisions ?st) expected = Some u" using assms(9) by (simp add: map_add_def)
  then have res: "source_resolve ?st (''local:'' @ expected) = Inr u"
    using assms(6,7) hex by (auto simp: source_resolve_def Let_def list_all_iff)
  have "map_of (ss_revisions ?st) r = Some x" if "map_of (ss_revisions (meanwhile st)) r = Some x" for r x
    using that assms(9) by (auto simp: map_add_def split: option.splits)
  then show ?thesis using put res files rev by blast
qed

definition demo_workspace :: source_tree where
  "demo_workspace = [([''requirements.txt''], SFile ''r''), ([''src''], SDir), ([''src'', ''m.py''], SFile ''p''), ([''build''], SDir), ([''build'', ''l''], SLink None)]"

theorem put_workspace_snapshots_witness:
  "\<exists>st' t. put_workspace (\<lambda>_. ''ab'') (\<lambda>x. x) (\<lambda>st. st) \<lparr>ss_revisions = [], ss_max_source_bytes = 9\<rparr> demo_workspace ''ab'' = (Inr ''local:ab'', st') \<and>
     source_resolve st' ''local:ab'' = Inr t \<and> scan_source_files (rglob t) = Inr [([''requirements.txt''], ''r''), ([''src'', ''m.py''], ''p'')]"
proof -
  let ?st = "\<lparr>ss_revisions = [], ss_max_source_bytes = 9\<rparr>"
  have "posix_tree demo_workspace" "scan_source_files (rglob demo_workspace) = Inr [([''requirements.txt''], ''r''), ([''src'', ''m.py''], ''p'')]"
    "path_bytes demo_workspace [''requirements.txt''] \<noteq> None" "list_all hex_char ''ab''" by code_simp+
  note d = this
  from put_workspace_snapshots [OF d(1-3), of ?st "''ab''" "\<lambda>_. ''ab''" "\<lambda>x. x" "\<lambda>st. st"] d(4)
  show ?thesis by auto
qed

end
