(* ===== verification/Ast_Scanner.thy ===== *)
theory Ast_Scanner
  imports Source_Snapshot Contract_Compiler
begin

text \<open>
  \<^verbatim>\<open>operator_authoring/ast_scanner.py\<close>: the callables of a project.  Parsing is a parameter: it gives the statements of a
  module as far as the scanner looks at them.  An annotation is the text \<open>ast.unparse\<close> makes of it, a default its text and, when
  \<open>literal_eval\<close> and \<open>json.dumps\<close> accept it, its value.  Lower case is taken of ASCII letters.
\<close>

section \<open>Syntax trees\<close>

datatype decorator = DName string | DAttribute decorator string | DCall decorator | DOther

record py_arg =
  pa_name :: string
  pa_annotation :: "string option"

record py_default =
  df_literal :: "json option"
  df_text :: "string option"

record py_arguments =
  ar_posonlyargs :: "py_arg list"
  ar_args :: "py_arg list"
  ar_defaults :: "py_default list"
  ar_vararg :: "py_arg option"
  ar_kwonlyargs :: "(py_arg \<times> py_default option) list"
  ar_kwarg :: "py_arg option"

record py_function =
  fn_name :: string
  fn_decorators :: "decorator list"
  fn_arguments :: py_arguments
  fn_returns :: "string option"
  fn_lineno :: int
  fn_async :: bool

datatype py_stmt = FunctionDef py_function | ClassDef string int "py_stmt list" | OtherStmt

record scan_world =
  sw_sha256 :: "bytes \<Rightarrow> string"
  sw_digest :: "bytes \<Rightarrow> bytes"
  sw_isidentifier :: "string \<Rightarrow> bool"
  sw_parse :: "bytes \<Rightarrow> (int option \<times> string) + py_stmt list"

section \<open>Names\<close>

fun decorator_name :: "decorator \<Rightarrow> string" where
  "decorator_name (DName s) = s"
| "decorator_name (DAttribute d s) = (if decorator_name d = [] then s else decorator_name d @ ''.'' @ s)"
| "decorator_name (DCall d) = decorator_name d"
| "decorator_name DOther = []"

text \<open>\<open>with_suffix("")\<close> of a name that ends in \<open>.py\<close>; a name that is only the suffix stays.\<close>

definition without_py :: "string \<Rightarrow> string" where
  "without_py name = (if length name = 3 then name else take (length name - 3) name)"

definition dotted_name :: "path \<Rightarrow> string" where
  "dotted_name relative =
     join_with ''.'' (if last relative = ''__init__.py'' then butlast relative else butlast relative @ [without_py (last relative)])"

definition valid_module_name :: "scan_world \<Rightarrow> string \<Rightarrow> bool" where
  "valid_module_name w value \<longleftrightarrow> value \<noteq> [] \<and> list_all (sw_isidentifier w) (split_on (CHR ''.'') value)"

definition lower :: "string \<Rightarrow> string" where
  "lower s = map (\<lambda>c. let n = of_char c :: nat in if 65 \<le> n \<and> n \<le> 90 then char_of (n + 32) else c) s"

definition NAME_WEIGHTS :: "(string, int) dict" where
  "NAME_WEIGHTS = [(''run'', 100), (''process'', 95), (''predict'', 90), (''transform'', 85), (''execute'', 80), (''convert'', 80), (''calculate'', 80),
     (''handle'', 75), (''infer'', 75), (''main'', 20)]"

definition callable_score :: "string \<Rightarrow> string list \<Rightarrow> int" where
  "callable_score name decorators =
     (case map_of NAME_WEIGHTS (lower name) of None \<Rightarrow> 10 | Some n \<Rightarrow> n) - (if take 1 name = ''_'' then 25 else 0) +
     (if list_ex (\<lambda>d. d \<in> {''operator'', ''dsc.operator'', ''dsc_sdk.operator''}) decorators then 100 else 0)"

definition method_kind :: "string list \<Rightarrow> callable_kind" where
  "method_kind decorators =
     (if ''staticmethod'' \<in> set decorators then STATIC_METHOD else if ''classmethod'' \<in> set decorators then CLASS_METHOD else INSTANCE_METHOD)"

section \<open>Parameters\<close>

definition literal_value :: "py_default option \<Rightarrow> bool \<times> json" where
  "literal_value d = (case d of None \<Rightarrow> (False, JNull) | Some x \<Rightarrow> (case df_literal x of None \<Rightarrow> (False, JNull) | Some v \<Rightarrow> (True, v)))"

definition parameter_of :: "string \<Rightarrow> py_arg \<Rightarrow> py_default option \<Rightarrow> parameter_info" where
  "parameter_of kind a d =
     \<lparr>pi_name = pa_name a, pi_kind = kind, pi_annotation = pa_annotation a, pi_required = (d = None), pi_has_default = fst (literal_value d),
      pi_default_value = snd (literal_value d), pi_default_repr = Option.bind d df_text\<rparr>"

definition variadic :: "string \<Rightarrow> py_arg option \<Rightarrow> parameter_info list" where
  "variadic kind a = (case a of None \<Rightarrow> [] | Some x \<Rightarrow>
     [\<lparr>pi_name = pa_name x, pi_kind = kind, pi_annotation = pa_annotation x, pi_required = False, pi_has_default = False, pi_default_value = JNull,
       pi_default_repr = None\<rparr>])"

definition parameter_infos :: "py_arguments \<Rightarrow> bool \<Rightarrow> parameter_info list" where
  "parameter_infos a drop_first =
     (let positional = ar_posonlyargs a @ ar_args a; offset = int (length positional) - int (length (ar_defaults a));
          one = (\<lambda>(i, x). parameter_of (if i < length (ar_posonlyargs a) then ''POSITIONAL_ONLY'' else ''POSITIONAL_OR_KEYWORD'') x
                   (if offset \<le> int i then Some (ar_defaults a ! nat (int i - offset)) else None));
          kept = filter (\<lambda>(i, x). \<not> (drop_first \<and> i = 0 \<and> pa_name x \<in> {''self'', ''cls''})) (zip [0..<length positional] positional) in
      map one kept @ variadic ''VAR_POSITIONAL'' (ar_vararg a) @ map (\<lambda>(x, d). parameter_of ''KEYWORD_ONLY'' x d) (ar_kwonlyargs a) @
      variadic ''VAR_KEYWORD'' (ar_kwarg a))"

section \<open>Modules\<close>

definition function_info :: "string \<Rightarrow> string \<Rightarrow> py_function \<Rightarrow> callable_info" where
  "function_info modname fname f =
     (let decorators = map decorator_name (fn_decorators f) in
      \<lparr>ca_id = modname @ '':'' @ fn_name f, ca_module = modname, ca_qualname = fn_name f, ca_kind = FUNCTION, ca_class_target = None,
       ca_method_name = None, ca_file = fname, ca_line = fn_lineno f, ca_is_async = fn_async f, ca_decorators = decorators,
       ca_score = callable_score (fn_name f) decorators, ca_parameters = parameter_infos (fn_arguments f) False,
       ca_return_annotation = fn_returns f\<rparr>)"

definition method_info :: "string \<Rightarrow> string \<Rightarrow> string \<Rightarrow> py_function \<Rightarrow> callable_info" where
  "method_info modname fname cls f =
     (let decorators = map decorator_name (fn_decorators f); kind = method_kind decorators; qualname = cls @ ''.'' @ fn_name f in
      \<lparr>ca_id = modname @ '':'' @ qualname, ca_module = modname, ca_qualname = qualname, ca_kind = kind,
       ca_class_target = Some (modname @ '':'' @ cls), ca_method_name = Some (fn_name f), ca_file = fname, ca_line = fn_lineno f,
       ca_is_async = fn_async f, ca_decorators = decorators, ca_score = callable_score (fn_name f) decorators,
       ca_parameters = parameter_infos (fn_arguments f) (kind = INSTANCE_METHOD \<or> kind = CLASS_METHOD), ca_return_annotation = fn_returns f\<rparr>)"

definition dunder :: "string \<Rightarrow> bool" where
  "dunder name \<longleftrightarrow> take 2 name = ''__'' \<and> drop (length name - 2) name = ''__''"

fun class_members :: "string \<Rightarrow> string \<Rightarrow> string \<Rightarrow> py_stmt list \<Rightarrow> parameter_info list \<Rightarrow> parameter_info list \<times> callable_info list" where
  "class_members modname fname cls [] constructor = (constructor, [])"
| "class_members modname fname cls (FunctionDef f # body) constructor =
     (if fn_name f = ''__init__'' then class_members modname fname cls body (parameter_infos (fn_arguments f) True)
      else if dunder (fn_name f) then class_members modname fname cls body constructor
      else let (c, ms) = class_members modname fname cls body constructor in (c, method_info modname fname cls f # ms))"
| "class_members modname fname cls (_ # body) constructor = class_members modname fname cls body constructor"

definition class_info_of :: "string \<Rightarrow> string \<Rightarrow> string \<Rightarrow> int \<Rightarrow> py_stmt list \<Rightarrow> class_info" where
  "class_info_of modname fname cls line body =
     (let (constructor, methods) = class_members modname fname cls body []; target = modname @ '':'' @ cls in
      \<lparr>cl_id = target, cl_module = modname, cl_qualname = cls, cl_target = target, cl_file = fname, cl_line = line,
       cl_constructor = constructor, cl_methods = methods\<rparr>)"

fun scan_body :: "string \<Rightarrow> string \<Rightarrow> py_stmt list \<Rightarrow> callable_info list \<times> class_info list" where
  "scan_body modname fname [] = ([], [])"
| "scan_body modname fname (s # ss) =
     (let (fs, cs) = scan_body modname fname ss in
      case s of
        FunctionDef f \<Rightarrow> (function_info modname fname f # fs, cs)
      | ClassDef name line body \<Rightarrow> (fs, class_info_of modname fname name line body # cs)
      | OtherStmt \<Rightarrow> (fs, cs))"

section \<open>Projects\<close>

definition py_files :: "path \<Rightarrow> source_tree \<Rightarrow> (path \<times> source_node) list" where
  "py_files sub t = sort_key fst (filter (\<lambda>(p, _). take (length sub) p = sub \<and> length sub < length p \<and>
     drop (length (last p) - 3) (last p) = ''.py'') t)"

definition no_results :: "callable_info list \<times> class_info list \<times> catalog_warning list" where
  "no_results = ([], [], [])"

text \<open>One file of the loop: what it adds to the functions, classes and warnings.\<close>

definition scan_file :: "scan_world \<Rightarrow> string \<Rightarrow> path \<Rightarrow> path \<times> source_node \<Rightarrow>
    (callable_info list \<times> class_info list \<times> catalog_warning list) result" where
  "scan_file w python_path sub entry =
     (let p = fst entry; fname = as_posix p; modname = dotted_name (drop (length sub) p) in
      if excluded p \<or> take 5 (last p) = ''test_'' \<or> is_symlink (snd entry) then Inr no_results
      else if \<not> valid_module_name w modname then
        Inr ([], [], [\<lparr>cw_severity = ''warning'', cw_file = fname, cw_line = None,
          cw_message = ''file is not importable from python_path='' @ python_path @ ''; module='' @ modname\<rparr>])
      else case node_bytes (snd entry) of
        None \<Rightarrow> Inl (os_error ''IsADirectoryError'' p)
      | Some text \<Rightarrow>
          (case sw_parse w text of
             Inl (line, message) \<Rightarrow> Inr ([], [], [\<lparr>cw_severity = ''error'', cw_file = fname, cw_line = line, cw_message = message\<rparr>])
           | Inr body \<Rightarrow> let (fs, cs) = scan_body modname fname body in Inr (fs, cs, [])))"

fun scan_files :: "scan_world \<Rightarrow> string \<Rightarrow> path \<Rightarrow> (path \<times> source_node) list \<Rightarrow>
    (callable_info list \<times> class_info list \<times> catalog_warning list) result" where
  "scan_files w python_path sub [] = Inr no_results"
| "scan_files w python_path sub (e # es) =
     result_bind (scan_file w python_path sub e) (\<lambda>(fs, cs, ws).
     map_sum id (\<lambda>(fs', cs', ws'). (fs @ fs', cs @ cs', ws @ ws')) (scan_files w python_path sub es))"

text \<open>\<open>base\<close> is the absolute path of the project; its directories up to the Python base are no symbolic links.\<close>

definition scan_project :: "scan_world \<Rightarrow> path \<Rightarrow> source_tree \<Rightarrow> string \<Rightarrow> project_catalog result" where
  "scan_project w base t python_path =
     (let python_root = resolve_from (if is_absolute python_path then [] else base) (path_parts python_path); sub = drop (length base) python_root in
      if take (length base) python_root \<noteq> base then Inl (value_error ''python_path escapes the workspace'')
      else if sub \<noteq> [] \<and> map_of t sub \<noteq> Some SDir then Inl (value_error (''python_path does not exist: '' @ python_path))
      else
        result_bind (scan_files w python_path sub (py_files sub t)) (\<lambda>(fs, cs, ws).
        map_sum id (\<lambda>revision.
          \<lparr>pc_source_revision = revision, pc_python_path = python_path, pc_functions = sort_key by_score fs, pc_classes = sort_key cl_id cs, pc_warnings = ws\<rparr>)
          (source_revision (sw_sha256 w) (sw_digest w) t)))"

section \<open>What a scan finds\<close>

text \<open>A function, and a method of a class, of a module.\<close>

definition function_ok :: "scan_world \<Rightarrow> callable_info \<Rightarrow> bool" where
  "function_ok w c \<longleftrightarrow> ca_kind c = FUNCTION \<and> ca_class_target c = None \<and> ca_id c = ca_module c @ '':'' @ ca_qualname c \<and> valid_module_name w (ca_module c)"

definition method_ok :: "class_info \<Rightarrow> callable_info \<Rightarrow> bool" where
  "method_ok k c \<longleftrightarrow> ca_kind c \<noteq> FUNCTION \<and> ca_class_target c = Some (cl_target k) \<and> ca_module c = cl_module k \<and>
     (\<exists>m. ca_method_name c = Some m \<and> ca_qualname c = cl_qualname k @ ''.'' @ m) \<and> ca_id c = ca_module c @ '':'' @ ca_qualname c"

definition class_ok :: "scan_world \<Rightarrow> class_info \<Rightarrow> bool" where
  "class_ok w k \<longleftrightarrow> cl_target k = cl_module k @ '':'' @ cl_qualname k \<and> valid_module_name w (cl_module k) \<and> list_all (method_ok k) (cl_methods k)"

lemma class_members_ok:
  "snd (class_members modname fname cls body constructor) = ms \<Longrightarrow> c \<in> set ms \<Longrightarrow> \<exists>f. c = method_info modname fname cls f"
  by (induction modname fname cls body constructor arbitrary: ms rule: class_members.induct)
    (auto simp: Let_def split: if_splits prod.splits)

lemma method_info_ok:
  "cl_target k = modname @ '':'' @ cls \<Longrightarrow> cl_module k = modname \<Longrightarrow> cl_qualname k = cls \<Longrightarrow> method_ok k (method_info modname fname cls f)"
  by (simp add: method_ok_def method_info_def method_kind_def Let_def)

lemma class_info_ok: "valid_module_name w modname \<Longrightarrow> class_ok w (class_info_of modname fname cls line body)"
proof -
  assume v: "valid_module_name w modname"
  obtain cs ms where cm: "class_members modname fname cls body [] = (cs, ms)" by (cases "class_members modname fname cls body []")
  let ?k = "class_info_of modname fname cls line body"
  have k: "cl_target ?k = modname @ '':'' @ cls" "cl_module ?k = modname" "cl_qualname ?k = cls" "cl_methods ?k = ms"
    using cm by (simp_all add: class_info_of_def Let_def)
  have "method_ok ?k c" if "c \<in> set ms" for c
    using class_members_ok [of modname fname cls body "[]" ms c] cm that method_info_ok [OF k(1-3)] by auto
  then show ?thesis using v k by (simp add: class_ok_def list_all_iff)
qed

lemma scan_body_ok:
  "scan_body modname fname body = (fs, cs) \<Longrightarrow> valid_module_name w modname \<Longrightarrow> list_all (function_ok w) fs \<and> list_all (class_ok w) cs"
proof (induction modname fname body arbitrary: fs cs rule: scan_body.induct)
  case (2 modname fname s ss)
  obtain fs' cs' where r: "scan_body modname fname ss = (fs', cs')" by (cases "scan_body modname fname ss")
  then show ?case using "2.IH" [OF r "2.prems"(2)] "2.prems" class_info_ok [of w modname]
    by (auto simp: function_ok_def function_info_def Let_def split: py_stmt.splits)
qed simp

lemma scan_files_ok:
  "scan_files w python_path sub es = Inr (fs, cs, ws) \<Longrightarrow> list_all (function_ok w) fs \<and> list_all (class_ok w) cs"
proof (induction es arbitrary: fs cs ws)
  case Nil
  then show ?case by (simp add: no_results_def)
next
  case (Cons e es)
  from Cons.prems obtain f1 c1 w1 f2 c2 w2 where r: "scan_file w python_path sub e = Inr (f1, c1, w1)" "scan_files w python_path sub es = Inr (f2, c2, w2)"
    "fs = f1 @ f2" "cs = c1 @ c2" by (auto simp: result_bind_ok map_sum_Inr)
  have "list_all (function_ok w) f1 \<and> list_all (class_ok w) c1"
    using r(1) scan_body_ok [of _ _ _ f1 c1 w]
    by (auto simp: scan_file_def Let_def no_results_def split: if_splits option.splits sum.splits prod.splits)
  then show ?case using Cons.IH [OF r(2)] r(3,4) by simp
qed

lemma scan_project_ok:
  assumes "scan_project w base t python_path = Inr cat"
  shows "list_all (function_ok w) (pc_functions cat)" "list_all (class_ok w) (pc_classes cat)"
    "source_revision (sw_sha256 w) (sw_digest w) t = Inr (pc_source_revision cat)" "pc_python_path cat = python_path"
proof -
  from assms obtain sub fs cs ws where s: "scan_files w python_path sub (py_files sub t) = Inr (fs, cs, ws)"
    and c: "pc_functions cat = sort_key by_score fs" "pc_classes cat = sort_key cl_id cs"
      "source_revision (sw_sha256 w) (sw_digest w) t = Inr (pc_source_revision cat)" "pc_python_path cat = python_path"
    by (auto simp: scan_project_def Let_def result_bind_ok map_sum_Inr split: if_splits)
  show "list_all (function_ok w) (pc_functions cat)" "list_all (class_ok w) (pc_classes cat)"
    using scan_files_ok [OF s] c by (simp_all add: list_all_iff)
qed (use assms in \<open>auto simp: scan_project_def Let_def result_bind_ok map_sum_Inr split: if_splits\<close>)

lemma module_no_colon:
  assumes "\<And>s. sw_isidentifier w s \<Longrightarrow> CHR '':'' \<notin> set s" "valid_module_name w m"
  shows "CHR '':'' \<notin> set m"
proof -
  have join: "join_with ''.'' (split_on (CHR ''.'') s) = s" for s
  proof (induction s)
    case (Cons c cs)
    obtain v vs where v: "split_on (CHR ''.'') cs = v # vs" by (cases "split_on (CHR ''.'') cs") auto
    then show ?case using Cons by (cases vs) auto
  qed simp
  have "CHR '':'' \<notin> set (join_with ''.'' (split_on (CHR ''.'') m))"
    using set_join_with [of "CHR '':''" "''.''" "split_on (CHR ''.'') m"] assms by (auto simp: valid_module_name_def list_all_iff)
  then show ?thesis unfolding join .
qed

section \<open>Properties\<close>


definition demo_scan_world :: scan_world where
  "demo_scan_world = \<lparr>sw_sha256 = (\<lambda>x. x), sw_digest = (\<lambda>x. x), sw_isidentifier = (\<lambda>s. s \<noteq> [] \<and> CHR '':'' \<notin> set s),
     sw_parse = (\<lambda>_. Inr [ClassDef ''C'' 1 [FunctionDef \<lparr>fn_name = ''run'', fn_decorators = [],
       fn_arguments = \<lparr>ar_posonlyargs = [], ar_args = [\<lparr>pa_name = ''self'', pa_annotation = None\<rparr>], ar_defaults = [], ar_vararg = None, ar_kwonlyargs = [],
         ar_kwarg = None\<rparr>, fn_returns = None, fn_lineno = 2, fn_async = False\<rparr>]])\<rparr>"

lemma demo_scan:
  "map_sum id (\<lambda>cat. map ca_id (all_callables cat)) (scan_project demo_scan_world [''w''] [([''m.py''], SFile ''x'')] ''.'') = Inr [''m:C.run'']"
  by code_simp


end
