(* ===== verification/Backend_Contracts.thy ===== *)
theory Backend_Contracts
  imports Source_Snapshot Contract_Compiler
begin

text \<open>
  \<^verbatim>\<open>publish_service/backends\<close>: what a virtual contract becomes for the runner and for NiFi.  Parameters are SHA-256, Python's
  \<open>repr\<close>, the YAML writer, the two program texts \<open>_TEMPLATE\<close> and \<open>_NATIVE_TEMPLATE\<close> (whose programs are the subject of
  \<open>Operator_Adapter\<close>) and the path of the temporary directory that a package is made in.
\<close>

record backend_world =
  bw_sha256 :: "bytes \<Rightarrow> string"
  bw_repr :: "json \<Rightarrow> string"
  bw_yaml_dump :: "json \<Rightarrow> bytes"
  bw_runner_template :: string
  bw_native_template :: string
  bw_mkdtemp :: path

section \<open>Shared parts\<close>

text \<open>\<open>str(value)\<close>.\<close>

definition py_str :: "backend_world \<Rightarrow> json \<Rightarrow> string" where
  "py_str w j = (case j of JStr s \<Rightarrow> s | _ \<Rightarrow> bw_repr w j)"

text \<open>\<open>text.replace(old, new)\<close> for a nonempty \<open>old\<close>.\<close>

fun replace_all :: "string \<Rightarrow> string \<Rightarrow> string \<Rightarrow> string" where
  "replace_all old new [] = []"
| "replace_all old new (c # cs) =
     (if old \<noteq> [] \<and> take (length old) (c # cs) = old then new @ replace_all old new (drop (length old - 1) cs)
      else c # replace_all old new cs)"

definition variant_key_payload :: "string \<Rightarrow> string \<Rightarrow> string \<Rightarrow> json \<Rightarrow> json" where
  "variant_key_payload sha backend compiler_version options =
     JObj [(''contract_sha256'', JStr sha), (''backend'', JStr backend), (''compiler_version'', JStr compiler_version), (''options'', options)]"

definition backend_variant_key :: "backend_world \<Rightarrow> string \<Rightarrow> string \<Rightarrow> string \<Rightarrow> json \<Rightarrow> string" where
  "backend_variant_key w sha backend compiler_version options =
     bw_sha256 w (canonical_json (variant_key_payload sha backend compiler_version options))"

record backend_base =
  bb_contract :: virtual_contract
  bb_parent_contract_id :: string
  bb_parent_contract_version :: nat
  bb_parent_contract_sha256 :: string
  bb_backend :: string
  bb_compiler_version :: string
  bb_variant_key :: string
  bb_options :: json

definition base_fields :: "backend_base \<Rightarrow> (string, json) dict" where
  "base_fields b = json_fields (contract_json (bb_contract b)) @
     [(''backend_contract_version'', JStr ''dsc.backend-contract/v1''), (''parent_contract_id'', JStr (bb_parent_contract_id b)),
      (''parent_contract_version'', JInt (int (bb_parent_contract_version b))), (''parent_contract_sha256'', JStr (bb_parent_contract_sha256 b)),
      (''backend'', JStr (bb_backend b)), (''compiler_version'', JStr (bb_compiler_version b)), (''variant_key'', JStr (bb_variant_key b)),
      (''backend_options'', bb_options b)]"

section \<open>Execution plans as JSON\<close>

definition PLAN_COMPILER_VERSION :: string where
  "PLAN_COMPILER_VERSION = ''virtual-direct-v1''"

definition compiled_binding_json :: "compiled_binding \<Rightarrow> json" where
  "compiled_binding_json b = JObj ([(''source'', JStr (source_text (cb_source b))), (''codec'', JStr (codec_text (cb_codec b))),
     (''required'', JBool (cb_required b)), (''metadata_key'', json_opt (cb_metadata_key b)), (''parameter_key'', json_opt (cb_parameter_key b)),
     (''constant'', cb_constant b)] @
     (case cb_default b of None \<Rightarrow> [] | Some (has, v) \<Rightarrow> [(''has_default'', JBool has), (''default'', v)]))"

definition target_payload_json :: "target_payload \<Rightarrow> json" where
  "target_payload_json t = JObj ([(''kind'', JStr (kind_text (tp_kind t))), (''module'', JStr (tp_module t)), (''qualname'', JStr (tp_qualname t)),
     (''class_target'', json_opt (tp_class_target t)), (''method_name'', json_opt (tp_method_name t))] @
     (case tp_class t of None \<Rightarrow> [] | Some (m, q) \<Rightarrow> [(''class_module'', JStr m), (''class_qualname'', JStr q)]))"

definition compiled_parameter_json :: "compiled_parameter \<Rightarrow> json" where
  "compiled_parameter_json p = JObj [(''key'', JStr (cp_key p)), (''display_name'', JStr (cp_display_name p)), (''description'', JStr (cp_description p)),
     (''required'', JBool (cp_required p)), (''has_default'', JBool (cp_has_default p)), (''default'', cp_default p)]"

definition str_list :: "string list \<Rightarrow> json" where
  "str_list xs = JArr (map JStr xs)"

definition plan_json :: "execution_plan \<Rightarrow> json" where
  "plan_json p = JObj [(''compiler_version'', JStr PLAN_COMPILER_VERSION), (''source_revision'', JStr (ep_source_revision p)),
     (''source_ref'', json_opt (ep_source_ref p)), (''python_path'', JStr (ep_python_path p)), (''target'', target_payload_json (ep_target p)),
     (''constructor_arguments'', JObj (map (\<lambda>(k, b). (k, compiled_binding_json b)) (ep_constructor_arguments p))),
     (''arguments'', JObj (map (\<lambda>(k, b). (k, compiled_binding_json b)) (ep_arguments p))), (''output'', output_json (ep_output p)),
     (''parameters'', JArr (map compiled_parameter_json (ep_parameters p))), (''input_metadata'', str_list (ep_input_metadata p)),
     (''output_metadata'', str_list (ep_output_metadata p)), (''contract_sha256'', JStr (ep_contract_sha256 p))]"

section \<open>The runner backend\<close>

definition RUNNER_COMPILER_VERSION :: string where
  "RUNNER_COMPILER_VERSION = ''runner-contract-v1''"

record runner_manifest =
  rm_name :: string
  rm_entrypoint :: string
  rm_input_attributes :: "string list"
  rm_output_attributes :: "string list"

record runner_parameter =
  rp_key :: string
  rp_nifi_property_name :: string
  rp_display_name :: string
  rp_description :: string
  rp_required :: bool
  rp_has_default :: bool
  rp_default :: json

record runner_contract =
  rc_base :: backend_base
  rc_runtime_profile :: string
  rc_manifest :: runner_manifest
  rc_parameters :: "runner_parameter list"

definition runner_manifest_json :: "runner_manifest \<Rightarrow> json" where
  "runner_manifest_json m = JObj [(''name'', JStr (rm_name m)), (''entrypoint'', JStr (rm_entrypoint m)),
     (''input_attributes'', str_list (rm_input_attributes m)), (''output_attributes'', str_list (rm_output_attributes m))]"

definition runner_parameter_json :: "runner_parameter \<Rightarrow> json" where
  "runner_parameter_json p = JObj [(''key'', JStr (rp_key p)), (''nifi_property_name'', JStr (rp_nifi_property_name p)),
     (''display_name'', JStr (rp_display_name p)), (''description'', JStr (rp_description p)), (''required'', JBool (rp_required p)),
     (''has_default'', JBool (rp_has_default p)), (''default'', rp_default p)]"

definition runner_contract_json :: "runner_contract \<Rightarrow> json" where
  "runner_contract_json c = JObj (base_fields (rc_base c) @ [(''runtime_profile'', JStr (rc_runtime_profile c)),
     (''runner_manifest'', runner_manifest_json (rc_manifest c)), (''parameters'', JArr (map runner_parameter_json (rc_parameters c)))])"

definition option_value :: "json \<Rightarrow> string \<Rightarrow> json option" where
  "option_value options k = map_of (json_fields options) k"

definition compile_runner_contract :: "backend_world \<Rightarrow> string \<Rightarrow> nat \<Rightarrow> virtual_contract \<Rightarrow> execution_plan \<Rightarrow> json \<Rightarrow> runner_contract" where
  "compile_runner_contract w contract_id contract_version parent plan options =
     (let profile = (case option_value options ''profile'' of None \<Rightarrow> ''standard'' | Some v \<Rightarrow> py_str w v);
          opts = JObj [(''profile'', JStr profile)] in
      \<lparr>rc_base = \<lparr>bb_contract = parent, bb_parent_contract_id = contract_id, bb_parent_contract_version = contract_version,
         bb_parent_contract_sha256 = ep_contract_sha256 plan, bb_backend = ''runner'', bb_compiler_version = RUNNER_COMPILER_VERSION,
         bb_variant_key = backend_variant_key w (ep_contract_sha256 plan) ''runner'' RUNNER_COMPILER_VERSION opts, bb_options = opts\<rparr>,
       rc_runtime_profile = profile,
       rc_manifest = \<lparr>rm_name = om_name (vc_metadata parent), rm_entrypoint = ''__dsc_entry__:process'', rm_input_attributes = ep_input_metadata plan,
         rm_output_attributes = ep_output_metadata plan\<rparr>,
       rc_parameters = map (\<lambda>p. \<lparr>rp_key = cp_key p, rp_nifi_property_name = ''Parameter.'' @ cp_key p, rp_display_name = cp_display_name p,
         rp_description = cp_description p, rp_required = cp_required p, rp_has_default = cp_has_default p, rp_default = cp_default p\<rparr>) (ep_parameters plan)\<rparr>)"

definition generate_runner_adapter :: "backend_world \<Rightarrow> execution_plan \<Rightarrow> bytes" where
  "generate_runner_adapter w plan = replace_all ''__PLAN_JSON__'' (bw_repr w (JStr (canonical_json (plan_json plan)))) (bw_runner_template w)"

definition publish_info :: "backend_world \<Rightarrow> runner_contract \<Rightarrow> execution_plan \<Rightarrow> json" where
  "publish_info w c plan = JObj [(''schema'', JInt 3), (''backend'', JStr ''runner''), (''parent_contract_id'', JStr (bb_parent_contract_id (rc_base c))),
     (''parent_contract_version'', JInt (int (bb_parent_contract_version (rc_base c)))),
     (''parent_contract_sha256'', JStr (bb_parent_contract_sha256 (rc_base c))), (''variant_key'', JStr (bb_variant_key (rc_base c))),
     (''execution_plan_sha256'', JStr (bw_sha256 w (canonical_json (plan_json plan)))), (''execution_plan_embedded_in'', JStr ''__dsc_entry__.py'')]"

definition write_runner_release_files :: "backend_world \<Rightarrow> source_tree \<Rightarrow> runner_contract \<Rightarrow> execution_plan \<Rightarrow> source_tree" where
  "write_runner_release_files w staging c plan =
     AList.update [''publish-info.json''] (SFile (canonical_json (publish_info w c plan)))
    (AList.update [''operator.yaml''] (SFile (bw_yaml_dump w (runner_manifest_json (rc_manifest c))))
    (AList.update [''__dsc_entry__.py''] (SFile (generate_runner_adapter w plan))
    (AList.update [''operator-contract.yaml''] (SFile (bw_yaml_dump w (runner_contract_json c))) staging)))"

text \<open>\<open>shutil.copytree\<close> into a new directory: links are followed, and one that leads nowhere fails the copy.\<close>

fun copied_node :: "source_node \<Rightarrow> source_node result" where
  "copied_node (SLink None) = Inl (PyExn ''Error'' ''No such file or directory'')"
| "copied_node (SLink (Some d)) = Inr (SFile d)"
| "copied_node n = Inr n"

fun copytree :: "source_tree \<Rightarrow> path \<Rightarrow> source_tree result" where
  "copytree [] dst = Inr [(dst, SDir)]"
| "copytree ((p, n) # t) dst = result_bind (copied_node n) (\<lambda>m. map_sum id (\<lambda>u. u @ [(dst @ p, m)]) (copytree t dst))"

lemma copytree_entries:
  "copytree t dst = Inr u \<Longrightarrow> set u = insert (dst, SDir) {(dst @ p, m) | p m. \<exists>n. (p, n) \<in> set t \<and> copied_node n = Inr m} \<and>
     map fst u = dst # map ((@) dst) (rev (map fst t))"
proof (induction t dst arbitrary: u rule: copytree.induct)
  case (2 p n t dst)
  from "2.prems" obtain m v where m: "copied_node n = Inr m" "copytree t dst = Inr v" "u = v @ [(dst @ p, m)]" by (auto simp: result_bind_ok map_sum_Inr)
  note v = "2.IH" [OF m(2)]
  show ?case using v m(1,3) by auto
qed simp

lemma copytree_total: "list_all (\<lambda>(p, n). n \<noteq> SLink None) t \<Longrightarrow> \<exists>u. copytree t dst = Inr u"
proof (induction t dst rule: copytree.induct)
  case (2 p n t dst)
  then show ?case by (cases n rule: copied_node.cases) (auto simp: map_sum_Inr)
qed simp

end
