(* ===== verification/Native_Package.thy ===== *)
theory Native_Package
  imports Backend_Contracts
begin

text \<open>
  \<^verbatim>\<open>publish_service/backends/nifi_native.py\<close> up to the template: the names of the generated processor, its contract and its package.
  A ZIP file is the list of its members.  Of the file system the store has the directories outside the temporary directory of a
  call: a path that leads through a directory that does not exist is an error, and so is making a directory that does.  There are
  no symbolic links among them and no other file is in the way.
\<close>

section \<open>Names and contract\<close>

definition NATIVE_COMPILER_VERSION :: string where
  "NATIVE_COMPILER_VERSION = ''nifi-native-contract-v1''"

definition ascii_digit :: "char \<Rightarrow> bool" where
  "ascii_digit c \<longleftrightarrow> (let n = of_char c :: nat in 48 \<le> n \<and> n \<le> 57)"

text \<open>\<open>re.sub(r"[^A-Za-z0-9_]+", "_", value)\<close>.\<close>

fun underscored :: "string \<Rightarrow> string" where
  "underscored [] = []"
| "underscored (c # cs) =
     (if word_char c then c # underscored cs
      else CHR ''_'' # (case cs of [] \<Rightarrow> [] | d # _ \<Rightarrow> if word_char d then underscored cs else tl (underscored cs)))"

definition strip_underscores :: "string \<Rightarrow> string" where
  "strip_underscores s = rev (dropWhile (\<lambda>c. c = CHR ''_'') (rev (dropWhile (\<lambda>c. c = CHR ''_'') s)))"

definition py_identifier :: "string \<Rightarrow> string" where
  "py_identifier s =
     (let v = strip_underscores (underscored s); v = (if v = [] then ''GeneratedOperator'' else v) in
      if ascii_digit (hd v) then CHR ''_'' # v else v)"

text \<open>The nonempty parts that \<open>re.split(r"[^A-Za-z0-9]+", name)\<close> gives.\<close>

definition alnum :: "char \<Rightarrow> bool" where
  "alnum c \<longleftrightarrow> word_char c \<and> c \<noteq> CHR ''_''"

fun alnum_parts :: "string \<Rightarrow> string \<Rightarrow> string list" where
  "alnum_parts [] part = (if part = [] then [] else [part])"
| "alnum_parts (c # cs) part = (if alnum c then alnum_parts cs (part @ [c]) else (if part = [] then [] else [part]) @ alnum_parts cs [])"

definition upper_char :: "char \<Rightarrow> char" where
  "upper_char c = (let n = of_char c :: nat in if 97 \<le> n \<and> n \<le> 122 then char_of (n - 32) else c)"

definition capitalized :: "string \<Rightarrow> string" where
  "capitalized s = map upper_char (take 1 s) @ drop 1 s"

definition py_class_name :: "string \<Rightarrow> string \<Rightarrow> string" where
  "py_class_name name sfx =
     (let base = concat (map capitalized (alnum_parts name [])); base = (if base = [] then ''GeneratedOperator'' else base);
          base = (if ascii_digit (hd base) then ''Operator'' @ base else base) in
      base @ ''_'' @ sfx)"

record native_contract =
  nc_base :: backend_base
  nc_class_name :: string
  nc_package_name :: string
  nc_properties :: "compiled_parameter list"
  nc_requirements :: "string list"

definition native_contract_json :: "native_contract \<Rightarrow> json" where
  "native_contract_json c = JObj (base_fields (nc_base c) @ [(''processor_type'', JStr ''FlowFileTransform''), (''class_name'', JStr (nc_class_name c)),
     (''package_name'', JStr (nc_package_name c)), (''properties'', JArr (map compiled_parameter_json (nc_properties c))),
     (''requirements'', str_list (nc_requirements c)), (''deployment_mode'', JStr ''package_only'')])"

text \<open>\<open>str(options.get(key) or default)\<close>.\<close>

definition option_or :: "backend_world \<Rightarrow> json \<Rightarrow> string \<Rightarrow> string \<Rightarrow> string" where
  "option_or w options k dflt = (case option_value options k of None \<Rightarrow> dflt | Some v \<Rightarrow> if json_truthy v then py_str w v else dflt)"

definition compile_nifi_native_contract :: "backend_world \<Rightarrow> string \<Rightarrow> nat \<Rightarrow> virtual_contract \<Rightarrow> execution_plan \<Rightarrow> source_tree \<Rightarrow> json \<Rightarrow>
    native_contract result" where
  "compile_nifi_native_contract w contract_id contract_version parent plan source options =
     map_sum id (\<lambda>requirements.
       let sha = ep_contract_sha256 plan; name = om_name (vc_metadata parent);
           class_name = option_or w options ''className'' (py_class_name name (take 8 sha));
           package_name = option_or w options ''packageName'' (py_identifier (''dsc_'' @ name @ ''_'' @ take 8 sha));
           opts = JObj [(''className'', JStr class_name), (''packageName'', JStr package_name)] in
       \<lparr>nc_base = \<lparr>bb_contract = parent, bb_parent_contract_id = contract_id, bb_parent_contract_version = contract_version,
          bb_parent_contract_sha256 = sha, bb_backend = ''nifi_native'', bb_compiler_version = NATIVE_COMPILER_VERSION,
          bb_variant_key = backend_variant_key w sha ''nifi_native'' NATIVE_COMPILER_VERSION opts, bb_options = opts\<rparr>,
        nc_class_name = class_name, nc_package_name = package_name, nc_properties = ep_parameters plan, nc_requirements = requirements\<rparr>)
     (read_requirements source)"

definition native_source :: "backend_world \<Rightarrow> native_contract \<Rightarrow> execution_plan \<Rightarrow> bytes" where
  "native_source w c plan =
     (let m = vc_metadata (bb_contract (nc_base c)) in
      replace_all ''__DESCRIPTION__'' (bw_repr w (JStr (if om_description m = [] then om_display_name m else om_description m)))
     (replace_all ''__CLASS_NAME__'' (nc_class_name c)
     (replace_all ''__PROPERTIES_JSON__'' (bw_repr w (JStr (canonical_json (JArr (map compiled_parameter_json (nc_properties c))))))
     (replace_all ''__PLAN_JSON__'' (bw_repr w (JStr (canonical_json (plan_json plan)))) (bw_native_template w)))))"

section \<open>The package\<close>

record native_store =
  ns_root :: path
  ns_archives :: "(path, (string \<times> bytes) list) dict"
  ns_dirs :: "path list"

definition join_path :: "path \<Rightarrow> string \<Rightarrow> path" where
  "join_path base s = (if is_absolute s then path_parts s else base @ path_parts s)"

text \<open>The file that a path names, and the directories that \<open>mkdir(parents=True)\<close> makes on the way to one.\<close>

fun walk :: "path list \<Rightarrow> path \<Rightarrow> path \<Rightarrow> path result" where
  "walk dirs cur [] = Inr cur"
| "walk dirs cur (p # ps) =
     (if cur \<notin> set dirs then Inl (os_error ''FileNotFoundError'' cur) else walk dirs (if p = ''..'' then butlast cur else cur @ [p]) ps)"

fun visited :: "path \<Rightarrow> path \<Rightarrow> path list" where
  "visited cur [] = [cur]"
| "visited cur (p # ps) = cur # visited (if p = ''..'' then butlast cur else cur @ [p]) ps"

definition write_target :: "path list \<Rightarrow> path \<Rightarrow> path result" where
  "write_target dirs parts = result_bind (walk dirs [] parts) (\<lambda>z. if z \<in> set dirs then Inl (os_error ''IsADirectoryError'' parts) else Inr z)"

text \<open>
  The files below the package directory \<open>base\<close>.  A class name may lead out of it, and then the archive does not have the module.
\<close>

definition package_tree :: "backend_world \<Rightarrow> path list \<Rightarrow> path \<Rightarrow> path \<Rightarrow> native_contract \<Rightarrow> execution_plan \<Rightarrow> source_tree \<Rightarrow> source_tree result" where
  "package_tree w dirs package_root base c plan source =
     result_bind (write_target dirs (join_path package_root (nc_class_name c @ ''.py''))) (\<lambda>z.
     result_bind (case path_bytes source [''requirements.txt''] of None \<Rightarrow> Inl (os_error ''FileNotFoundError'' [''requirements.txt'']) | Some d \<Rightarrow> Inr d) (\<lambda>requirements.
     map_sum id (\<lambda>runtime.
       AList.update [''requirements.txt''] (SFile requirements)
         (let t = [([''__init__.py''], SFile [])] in
          if take (length base) z = base then AList.update (drop (length base) z) (SFile (native_source w c plan)) t else t) @ runtime)
       (copytree source [''runtime''])))"

definition archive_of :: "string \<Rightarrow> source_tree \<Rightarrow> (string \<times> bytes) list" where
  "archive_of name t = concat (map (\<lambda>(p, n). case node_bytes n of None \<Rightarrow> [] | Some d \<Rightarrow> [(as_posix (name # p), d)]) (sort_key fst t))"

text \<open>What is left outside the temporary directory when it is removed.\<close>

definition outside :: "path \<Rightarrow> path list \<Rightarrow> path list" where
  "outside temp dirs = filter (\<lambda>p. take (length temp) p \<noteq> temp) dirs"

definition write_native_package :: "backend_world \<Rightarrow> native_store \<Rightarrow> native_contract \<Rightarrow> execution_plan \<Rightarrow> source_tree \<Rightarrow> path result \<times> native_store" where
  "write_native_package w st c plan source =
     (let final_zip = join_path (ns_root st) (nc_package_name c @ ''.zip''); temp = bw_mkdtemp w; package_root = join_path temp (nc_package_name c);
          dirs = visited [] temp @ visited [] (ns_root st) @ ns_dirs st; base = resolve_from [] package_root;
          dirs' = visited [] package_root @ dirs; st' = st\<lparr>ns_dirs := outside temp dirs'\<rparr> in
      if base \<in> set (butlast (visited [] package_root) @ dirs) then (Inl (os_error ''FileExistsError'' package_root), st')
      else case result_bind (package_tree w dirs' package_root base c plan source) (\<lambda>t. map_sum id (Pair t) (write_target dirs' final_zip)) of
        Inl e \<Rightarrow> (Inl e, st')
      | Inr (t, z) \<Rightarrow> (Inr final_zip, st'\<lparr>ns_archives := AList.update z (archive_of (last package_root) t) (ns_archives st)\<rparr>))"

section \<open>Names are identifiers\<close>

definition is_identifier :: "string \<Rightarrow> bool" where
  "is_identifier s \<longleftrightarrow> starts_name s \<and> list_all word_char s"

lemma underscore_word [simp]: "word_char (CHR ''_'')"
  by code_simp

lemma word_starts: "word_char c \<Longrightarrow> \<not> ascii_digit c \<Longrightarrow> letter_or_underscore c"
  by (auto simp: word_char_def ascii_digit_def Let_def)

lemma identifier_Cons: "is_identifier (c # cs) \<longleftrightarrow> word_char c \<and> \<not> ascii_digit c \<and> list_all word_char cs"
proof -
  have "\<not> ascii_digit (CHR ''_'')" by code_simp
  then have "letter_or_underscore c \<Longrightarrow> \<not> ascii_digit c" by (auto simp: letter_or_underscore_def ascii_digit_def Let_def)
  moreover have "letter_or_underscore c \<Longrightarrow> word_char c" by (simp add: word_char_def)
  ultimately show ?thesis using word_starts [of c] by (auto simp: is_identifier_def starts_name_def)
qed

lemma identifier_append: "is_identifier s \<Longrightarrow> list_all word_char t \<Longrightarrow> is_identifier (s @ t)"
  by (cases s) (auto simp: identifier_Cons, simp add: is_identifier_def starts_name_def)

lemma underscored_words: "list_all word_char (underscored s)"
proof (induction s)
  case (Cons c cs)
  have "list_all word_char (tl (underscored cs))" using Cons by (cases "underscored cs") auto
  with Cons show ?case by (auto split: list.splits)
qed simp

lemma strip_underscores_words: "list_all word_char s \<Longrightarrow> list_all word_char (strip_underscores s)"
  by (auto simp: strip_underscores_def list_all_iff dest!: set_dropWhileD)

lemma py_identifier_valid: "is_identifier (py_identifier s)"
proof -
  let ?v = "strip_underscores (underscored s)"
  have d: "is_identifier ''GeneratedOperator''" by code_simp
  have w: "list_all word_char ?v" by (intro strip_underscores_words underscored_words)
  show ?thesis
  proof (cases ?v)
    case Nil
    then show ?thesis using d by (simp add: py_identifier_def identifier_Cons)
  next
    case (Cons c cs)
    moreover have "\<not> ascii_digit (CHR ''_'')" by code_simp
    ultimately show ?thesis using w by (simp add: py_identifier_def identifier_Cons Let_def)
  qed
qed

lemma upper_word: "word_char c \<Longrightarrow> word_char (upper_char c)"
  by (auto simp: upper_char_def word_char_def letter_or_underscore_def Let_def)

lemma alnum_parts_words: "list_all word_char part \<Longrightarrow> w \<in> set (alnum_parts s part) \<Longrightarrow> list_all word_char w"
  by (induction s part rule: alnum_parts.induct) (auto simp: alnum_def split: if_splits)

lemma capitalized_words: "list_all word_char s \<Longrightarrow> list_all word_char (capitalized s)"
  by (cases s) (auto simp: capitalized_def upper_word)

lemma py_class_name_valid:
  assumes "list_all word_char sfx"
  shows "is_identifier (py_class_name name sfx)"
proof -
  let ?base = "concat (map capitalized (alnum_parts name []))"
  have d: "is_identifier ''GeneratedOperator''" "is_identifier ''Operator''" by code_simp+
  have w: "list_all word_char ?base"
    using capitalized_words alnum_parts_words [of "[]" _ name] unfolding list_all_iff by (simp, blast)
  have s: "list_all word_char (''_'' @ sfx)" using assms by simp
  show ?thesis
  proof (cases ?base)
    case Nil
    then show ?thesis using identifier_append [OF d(1) s] d(1) by (simp add: py_class_name_def identifier_Cons)
  next
    case (Cons c cs)
    then show ?thesis using w s identifier_append [OF d(2), of "c # cs @ ''_'' @ sfx"] by (auto simp: py_class_name_def identifier_Cons Let_def)
  qed
qed

section \<open>Paths\<close>

lemma path_parts_word: "list_all word_char s \<Longrightarrow> s \<noteq> [] \<Longrightarrow> CHR ''/'' \<notin> set ext \<Longrightarrow> path_parts (s @ ext) = [s @ ext]"
proof -
  assume s: "list_all word_char s" "s \<noteq> []" "CHR ''/'' \<notin> set ext"
  have n: "\<not> word_char (CHR ''/'')" "\<not> word_char (CHR ''.'')" by code_simp+
  then have "CHR ''/'' \<notin> set (s @ ext)" using s by (auto simp: list_all_iff)
  then show "path_parts (s @ ext) = [s @ ext]" using n s by (cases s) (auto simp: path_parts_def split_on_plain)
qed

lemma word_relative: "list_all word_char s \<Longrightarrow> s \<noteq> [] \<Longrightarrow> \<not> is_absolute (s @ ext)"
proof -
  have "\<not> word_char (CHR ''/'')" by code_simp
  then show "list_all word_char s \<Longrightarrow> s \<noteq> [] \<Longrightarrow> \<not> is_absolute (s @ ext)" by (cases s) (auto simp: is_absolute_def)
qed

lemma word_not_up: "list_all word_char s \<Longrightarrow> s \<noteq> [] \<Longrightarrow> s @ ext \<noteq> ''..''"
proof -
  have "\<not> word_char (CHR ''.'')" by code_simp
  then show "list_all word_char s \<Longrightarrow> s \<noteq> [] \<Longrightarrow> s @ ext \<noteq> ''..''" by (cases s) auto
qed

lemma visited_append: "visited cur (ps @ [p]) = visited cur ps @ [resolve_from cur (ps @ [p])]"
  by (induction ps arbitrary: cur) auto

lemma walk_visited: "set (butlast (visited cur ps)) \<subseteq> set dirs \<Longrightarrow> walk dirs cur ps = Inr (resolve_from cur ps)"
proof (induction ps arbitrary: cur)
  case (Cons p ps)
  have "visited c ps \<noteq> []" for c by (cases ps) auto
  with Cons show ?case by auto
qed simp

lemma walk_result: "walk dirs cur ps = Inr q \<Longrightarrow> q = resolve_from cur ps"
  by (induction ps arbitrary: cur) (auto split: if_splits)

lemma visited_plain: "''..'' \<notin> set ps \<Longrightarrow> set (visited cur ps) = {cur @ take n ps | n. n \<le> length ps}"
proof (induction ps arbitrary: cur)
  case (Cons p ps)
  have "{cur @ take n (p # ps) | n. n \<le> length (p # ps)} = insert cur {(cur @ [p]) @ take n ps | n. n \<le> length ps}"
  proof (intro equalityI subsetI)
    fix q assume "q \<in> {cur @ take n (p # ps) | n. n \<le> length (p # ps)}"
    then obtain n where "q = cur @ take n (p # ps)" "n \<le> Suc (length ps)" by auto
    then show "q \<in> insert cur {(cur @ [p]) @ take n ps | n. n \<le> length ps}" by (cases n) auto
  next
    fix q assume "q \<in> insert cur {(cur @ [p]) @ take n ps | n. n \<le> length ps}"
    then obtain n where "q = cur @ take n (p # ps)" "n \<le> length (p # ps)"
    proof (elim insertE CollectE exE conjE)
      assume "q = cur"
      then show thesis using that [of 0] by simp
    next
      fix n assume "q = (cur @ [p]) @ take n ps" "n \<le> length ps"
      then show thesis using that [of "Suc n"] by simp
    qed
    then show "q \<in> {cur @ take n (p # ps) | n. n \<le> length (p # ps)}" by blast
  qed
  then show ?case using Cons by auto
qed simp

lemma write_target_plain:
  assumes "set (visited [] ps) \<subseteq> set dirs" "''..'' \<notin> set ps" "p \<noteq> ''..''" "ps @ [p] \<notin> set dirs"
  shows "write_target dirs (ps @ [p]) = Inr (ps @ [p])"
  using walk_visited [of "[]" "ps @ [p]" dirs] assms by (simp add: write_target_def visited_append resolve_from_plain)

section \<open>Packages\<close>

lemma archive_member: "(p, n) \<in> set t \<Longrightarrow> node_bytes n = Some d \<Longrightarrow> (as_posix (name # p), d) \<in> set (archive_of name t)"
  by (force simp: archive_of_def)

lemma path_bytes_member:
  assumes "path_bytes t p = Some d"
  obtains n where "(p, n) \<in> set t" "node_bytes n = Some d"
  using assms map_of_SomeD by (fastforce simp: path_bytes_def bind_eq_Some_conv)

definition holds_package :: "(string \<times> bytes) list \<Rightarrow> backend_world \<Rightarrow> native_contract \<Rightarrow> execution_plan \<Rightarrow> source_tree \<Rightarrow> bool" where
  "holds_package a w c plan source \<longleftrightarrow>
     (as_posix [nc_package_name c, nc_class_name c @ ''.py''], native_source w c plan) \<in> set a \<and>
     (\<forall>d. path_bytes source [''requirements.txt''] = Some d \<longrightarrow> (as_posix [nc_package_name c, ''requirements.txt''], d) \<in> set a) \<and>
     (\<forall>p d. path_bytes source p = Some d \<longrightarrow> (as_posix (nc_package_name c # ''runtime'' # p), d) \<in> set a)"

lemma package_tree_complete:
  assumes "write_target dirs (join_path package_root (nc_class_name c @ ''.py'')) = Inr (base @ [nc_class_name c @ ''.py''])"
    and "path_bytes source [''requirements.txt''] = Some rq" "list_all (\<lambda>(p, n). n \<noteq> SLink None) source"
  shows "\<exists>t. package_tree w dirs package_root base c plan source = Inr t \<and> holds_package (archive_of (nc_package_name c) t) w c plan source"
proof -
  obtain u where u: "copytree source [''runtime''] = Inr u" using copytree_total [OF assms(3)] by blast
  let ?m = "[nc_class_name c @ ''.py'']" and ?s = "SFile (native_source w c plan)" and ?r = "[''requirements.txt'']"
  let ?own = "AList.update ?r (SFile rq) (AList.update ?m ?s [([''__init__.py''], SFile [])])"
  have t: "package_tree w dirs package_root base c plan source = Inr (?own @ u)" by (simp add: package_tree_def assms u)
  have "last (nc_class_name c @ ''.py'') \<noteq> last ''requirements.txt''" by simp
  then have "?m \<noteq> ?r" by fastforce
  then have own: "map_of ?own ?m = Some ?s" "map_of ?own ?r = Some (SFile rq)" by (simp_all add: update_conv')
  have "(as_posix (nc_package_name c # ''runtime'' # p), d) \<in> set (archive_of (nc_package_name c) (?own @ u))" if pd: "path_bytes source p = Some d" for p d
  proof -
    obtain n where n: "(p, n) \<in> set source" "node_bytes n = Some d" by (rule path_bytes_member [OF pd])
    then obtain m where "copied_node n = Inr m" "node_bytes m = Some d" by (cases n rule: copied_node.cases) auto
    then have "([''runtime''] @ p, m) \<in> set u" using copytree_entries [OF u] n(1) by blast
    then show ?thesis using \<open>node_bytes m = Some d\<close> by (intro archive_member) auto
  qed
  moreover have "(as_posix (nc_package_name c # q), d) \<in> set (archive_of (nc_package_name c) (?own @ u))" if "map_of ?own q = Some (SFile d)" for q d
    using map_of_SomeD [OF that] archive_member [of q "SFile d" "?own @ u" d] by (simp del: AList.update.simps)
  ultimately have "holds_package (archive_of (nc_package_name c) (?own @ u)) w c plan source" using own assms(2) by (simp add: holds_package_def)
  with t show ?thesis by blast
qed

lemma visited_apart:
  assumes "''..'' \<notin> set ps" "take (length qs) ps \<noteq> qs"
  shows "qs @ r # rs \<notin> set (visited [] ps)"
proof
  assume "qs @ r # rs \<in> set (visited [] ps)"
  then obtain n where "take n ps = qs @ r # rs" using visited_plain [OF assms(1), of "[]"] by auto
  then have "ps = qs @ (r # rs) @ drop n ps" using append_take_drop_id [of n ps] by simp
  then show False using assms(2) by (metis append_eq_conv_conj)
qed

lemma visited_own:
  assumes "''..'' \<notin> set ps"
  shows "ps @ r # rs \<notin> set (visited [] ps)"
proof
  assume "ps @ r # rs \<in> set (visited [] ps)"
  then obtain n where "ps @ r # rs = take n ps" using visited_plain [OF assms, of "[]"] by auto
  then have "length (ps @ r # rs) = length (take n ps)" by (rule arg_cong)
  then show False by (simp add: min_def split: if_splits)
qed

lemma plain_package:
  assumes "is_identifier (nc_package_name c)" "is_identifier (nc_class_name c)"
    and "''..'' \<notin> set (ns_root st)" "''..'' \<notin> set (bw_mkdtemp w)" "bw_mkdtemp w @ [nc_package_name c] \<notin> set (ns_dirs st)"
    and "bw_mkdtemp w @ [nc_package_name c, nc_class_name c @ ''.py''] \<notin> set (ns_dirs st)" "ns_root st @ [nc_package_name c @ ''.zip''] \<notin> set (ns_dirs st)"
    and "take (length (bw_mkdtemp w)) (ns_root st) \<noteq> bw_mkdtemp w" "take (length (ns_root st)) (bw_mkdtemp w) \<noteq> ns_root st"
    and "path_bytes source [''requirements.txt''] = Some rq" "list_all (\<lambda>(p, n). n \<noteq> SLink None) source"
  shows "\<exists>st' a. write_native_package w st c plan source = (Inr (ns_root st @ [nc_package_name c @ ''.zip'']), st') \<and>
    ns_archives st' = AList.update (ns_root st @ [nc_package_name c @ ''.zip'']) a (ns_archives st) \<and> holds_package a w c plan source"
proof -
  let ?p = "nc_package_name c" and ?c = "nc_class_name c" and ?temp = "bw_mkdtemp w" and ?root = "ns_root st"
  let ?pr = "?temp @ [?p]" and ?z = "?root @ [?p @ ''.zip'']" and ?m = "?temp @ [?p, ?c @ ''.py'']"
  let ?dirs = "visited [] ?temp @ visited [] ?root @ ns_dirs st"
  let ?all = "visited [] ?pr @ ?dirs"
  have words: "list_all word_char ?p" "?p \<noteq> []" "list_all word_char ?c" "?c \<noteq> []"
    using assms(1,2) by (auto simp: is_identifier_def starts_name_def)
  note up = word_not_up [OF words(1,2)] word_not_up [OF words(3,4)]
  have up0: "?p \<noteq> ''..''" using up(1) [of "[]"] by simp
  have parts: "join_path ?root (?p @ ''.zip'') = ?z" "join_path ?temp ?p = ?pr" "join_path ?pr (?c @ ''.py'') = ?m"
    using word_relative [OF words(1,2)] word_relative [OF words(3,4)] path_parts_word [OF words(1,2)] path_parts_word [OF words(3,4)]
      word_relative [OF words(1,2), of "[]"] path_parts_word [OF words(1,2), of "[]"] by (simp_all add: join_path_def)
  have base: "resolve_from [] ?pr = ?pr" using assms(4) up0 by (simp add: resolve_from_plain)
  have vis: "visited [] ?pr = visited [] ?temp @ [?pr]" by (simp only: visited_append base)
  have new: "?pr \<notin> set ?dirs" "?m \<notin> set ?all" "?z \<notin> set ?all"
    using visited_own [OF assms(3)] visited_own [OF assms(4)] visited_apart [OF assms(3,8)] visited_apart [OF assms(4,9)] assms(5-8) unfolding vis by auto
  have m: "write_target ?all ?m = Inr ?m"
    using write_target_plain [of ?pr ?all "?c @ ''.py''"] assms(4) up0 up(2) new(2) by simp
  have z: "write_target ?all ?z = Inr ?z"
    using write_target_plain [of ?root ?all "?p @ ''.zip''"] assms(3) up(1) new(3) by auto
  obtain t where t: "package_tree w ?all ?pr ?pr c plan source = Inr t" "holds_package (archive_of ?p t) w c plan source"
    using package_tree_complete [of ?all ?pr c ?pr source rq w plan] parts(3) m assms(10,11) by auto
  show ?thesis using new(1) t z by (simp add: write_native_package_def Let_def parts base vis) blast
qed

text \<open>C14: Without options, the package of a contract is made in one place and has everything.  The class and the package are identifiers, the ZIP
  file lies directly in the directory of packages under the package's name, no other archive changes, and it has the generated module, the requirements
  and every file of the source below \<open>runtime\<close>.  The contract's digest starts with eight word characters, the temporary directory is new and apart
  from the directory of packages, and the source has no dangling link.\<close>

theorem native_package_complete:
  assumes "compile_nifi_native_contract w i v parent plan source options = Inr c" "option_value options ''className'' = None" "option_value options ''packageName'' = None"
    and "list_all word_char (take 8 (ep_contract_sha256 plan))" "list_all (\<lambda>(p, n). n \<noteq> SLink None) source"
    and "''..'' \<notin> set (ns_root st)" "''..'' \<notin> set (bw_mkdtemp w)" "\<forall>q\<in>set (ns_dirs st). take (length (bw_mkdtemp w)) q \<noteq> bw_mkdtemp w"
    and "take (length (bw_mkdtemp w)) (ns_root st) \<noteq> bw_mkdtemp w" "take (length (ns_root st)) (bw_mkdtemp w) \<noteq> ns_root st"
    and "ns_root st @ [nc_package_name c @ ''.zip''] \<notin> set (ns_dirs st)"
  shows "is_identifier (nc_package_name c) \<and> is_identifier (nc_class_name c) \<and>
    (\<exists>st' a. write_native_package w st c plan source = (Inr (ns_root st @ [nc_package_name c @ ''.zip'']), st') \<and>
       ns_archives st' = AList.update (ns_root st @ [nc_package_name c @ ''.zip'']) a (ns_archives st) \<and> holds_package a w c plan source)"
proof -
  obtain reqs where reqs: "read_requirements source = Inr reqs" using assms(1) by (auto simp: compile_nifi_native_contract_def map_sum_Inr)
  then obtain rq where rq: "path_bytes source [''requirements.txt''] = Some rq" by (auto simp: read_requirements_def split: option.splits)
  have names: "nc_class_name c = py_class_name (om_name (vc_metadata parent)) (take 8 (ep_contract_sha256 plan))"
    "nc_package_name c = py_identifier (''dsc_'' @ om_name (vc_metadata parent) @ ''_'' @ take 8 (ep_contract_sha256 plan))"
    using assms(1-3) reqs by (auto simp: compile_nifi_native_contract_def option_or_def Let_def)
  have ids: "is_identifier (nc_package_name c)" "is_identifier (nc_class_name c)"
    unfolding names using py_class_name_valid [OF assms(4)] py_identifier_valid by blast+
  have new: "bw_mkdtemp w @ qs \<notin> set (ns_dirs st)" for qs using assms(8) by force
  show ?thesis using plain_package [OF ids assms(6,7) new new assms(11,9,10) rq assms(5)] ids by blast
qed

definition demo_backend_world :: backend_world where
  "demo_backend_world = \<lparr>bw_sha256 = (\<lambda>_. ''h''), bw_repr = (\<lambda>_. ''r''), bw_yaml_dump = (\<lambda>_. ''y''), bw_runner_template = ''x'', bw_native_template = ''__CLASS_NAME__'',
     bw_mkdtemp = [''tmp'', ''n'']\<rparr>"

definition demo_native_source :: source_tree where
  "demo_native_source = [([''m.py''], SFile ''x''), ([''requirements.txt''], SFile ''a==1'')]"

definition demo_native_store :: native_store where
  "demo_native_store = \<lparr>ns_root = [''srv'', ''packages''], ns_archives = [], ns_dirs = [[], [''srv''], [''tmp'']]\<rparr>"

definition demo_native_plan :: execution_plan where
  "demo_native_plan = \<lparr>ep_source_revision = ''h'', ep_source_ref = None, ep_python_path = ''.'',
     ep_target = \<lparr>tp_kind = FUNCTION, tp_module = ''m'', tp_qualname = ''f'', tp_class_target = None, tp_method_name = None, tp_class = None\<rparr>,
     ep_constructor_arguments = [], ep_arguments = [],
     ep_output = \<lparr>out_payload = \<lparr>ov_source = RETURN, ov_path = [], ov_codec = JSON, ov_value = JNull\<rparr>, out_metadata = [], out_none_policy = KEEP_ORIGINAL\<rparr>,
     ep_parameters = [], ep_input_metadata = [], ep_output_metadata = [], ep_contract_sha256 = ''0123abcd''\<rparr>"

definition demo_native_parent :: virtual_contract where
  "demo_native_parent = \<lparr>vc_metadata = \<lparr>om_name = ''order-enricher'', om_display_name = ''O'', om_description = []\<rparr>,
     vc_source = \<lparr>so_source_revision = ''h'', so_python_path = ''.'', so_source_ref = None\<rparr>, vc_callable_id = ''m:f'', vc_constructor_arguments = [],
     vc_arguments = [], vc_output = ep_output demo_native_plan\<rparr>"

definition demo_native_contract :: "json \<Rightarrow> native_contract result" where
  "demo_native_contract options = compile_nifi_native_contract demo_backend_world ''c'' 1 demo_native_parent demo_native_plan demo_native_source options"

lemma demo_native_names:
  "map_sum id (\<lambda>c. (nc_class_name c, nc_package_name c)) (demo_native_contract (JObj [])) = Inr (''OrderEnricher_0123abcd'', ''dsc_order_enricher_0123abcd'')"
  by code_simp

theorem native_package_complete_witness:
  "\<exists>c st' a. demo_native_contract (JObj []) = Inr c \<and>
     write_native_package demo_backend_world demo_native_store c demo_native_plan demo_native_source = (Inr [''srv'', ''packages'', ''dsc_order_enricher_0123abcd.zip''], st') \<and>
     holds_package a demo_backend_world c demo_native_plan demo_native_source"
proof -
  obtain c where c: "demo_native_contract (JObj []) = Inr c" "nc_package_name c = ''dsc_order_enricher_0123abcd''"
    using demo_native_names by (cases "demo_native_contract (JObj [])") auto
  have st: "ns_root demo_native_store = [''srv'', ''packages'']" "set (ns_dirs demo_native_store) = {[], [''srv''], [''tmp'']}" "bw_mkdtemp demo_backend_world = [''tmp'', ''n'']"
    by (simp_all add: demo_native_store_def demo_backend_world_def)
  have sha: "list_all word_char (take 8 (ep_contract_sha256 demo_native_plan))" and src: "list_all (\<lambda>(p, n). n \<noteq> SLink None) demo_native_source" by code_simp+
  have "option_value (JObj []) k = None" for k by (simp add: option_value_def json_fields_def)
  from native_package_complete [OF c(1) [unfolded demo_native_contract_def] this this sha src, of demo_native_store] c show ?thesis
    unfolding st by auto
qed

lemma resolve_append: "resolve_from b (xs @ ys) = resolve_from (resolve_from b xs) ys"
  by (induction xs arbitrary: b) auto

lemma up_parts:
  assumes "is_identifier x" "CHR ''/'' \<notin> set ext"
  shows "join_path base (''../'' @ x @ ext) = base @ [''..'', x @ ext]"
proof -
  have w: "list_all word_char x" "x \<noteq> []" using assms(1) by (auto simp: is_identifier_def starts_name_def)
  have "split_on (CHR ''/'') (''..'' @ CHR ''/'' # x @ ext) = ''..'' # split_on (CHR ''/'') (x @ ext)" by (rule split_on_append) simp
  then have "path_parts (''../'' @ x @ ext) = ''..'' # path_parts (x @ ext)" by (simp add: path_parts_def)
  then show ?thesis using path_parts_word [OF w assms(2)] by (simp add: join_path_def is_absolute_def)
qed


definition demo_escape :: "path result \<times> native_store" where
  "demo_escape = (case demo_native_contract (JObj [(''packageName'', JStr ''../x'')]) of
     Inr c \<Rightarrow> write_native_package demo_backend_world demo_native_store c demo_native_plan demo_native_source | Inl e \<Rightarrow> (Inl e, demo_native_store))"

lemma demo_escape_ok: "is_ok (demo_native_contract (JObj [(''packageName'', JStr ''../x'')])) \<and> is_ok (fst demo_escape)"
  by code_simp


end
