(* ===== verification/Parameter_Inference.thy ===== *)
theory Parameter_Inference
  imports Ast_Scanner Native_Package
begin

text \<open>
  \<^verbatim>\<open>operator_authoring/inference.py\<close>: which bindings to suggest for a parameter.  Confidences are in hundredths.  Letters whose
  case changes are ASCII letters.
\<close>

definition CONTENT_NAMES :: "string list" where
  "CONTENT_NAMES = [''content'', ''payload'', ''body'', ''data'', ''input'', ''record'', ''order'', ''request'', ''document'']"

definition METADATA_NAMES :: "(string, string) dict" where
  "METADATA_NAMES = [(''filename'', ''filename''), (''file_name'', ''filename''), (''mime_type'', ''mime.type''), (''mimetype'', ''mime.type''),
     (''path'', ''path''), (''uuid'', ''uuid'')]"

text \<open>\<open>needle in text\<close>.\<close>

fun contains_text :: "string \<Rightarrow> string \<Rightarrow> bool" where
  "contains_text needle [] \<longleftrightarrow> needle = []"
| "contains_text needle (c # cs) \<longleftrightarrow> take (length needle) (c # cs) = needle \<or> contains_text needle cs"

definition codec_for :: "parameter_info \<Rightarrow> bool \<Rightarrow> codec" where
  "codec_for p payload =
     (let annotation = lower (filter (\<lambda>c. c \<noteq> CHR '' '') (text_or (pi_annotation p) [])); name = lower (pi_name p) in
      if contains_text ''bytes'' annotation \<or> contains_text ''bytearray'' annotation then BYTES
      else if contains_text ''dict'' annotation \<or> contains_text ''list'' annotation \<or> contains_text ''json'' name \<or>
        name \<in> {''record'', ''order'', ''document''} then JSON
      else if contains_text ''str'' annotation then TEXT
      else if payload then BYTES else TEXT)"

definition ascii_letter :: "char \<Rightarrow> bool" where
  "ascii_letter c \<longleftrightarrow> letter_or_underscore c \<and> c \<noteq> CHR ''_''"

text \<open>\<open>str.title()\<close>: a letter is upper case after a character that is none, and lower case otherwise.\<close>

fun title_case :: "bool \<Rightarrow> string \<Rightarrow> string" where
  "title_case after [] = []"
| "title_case after (c # cs) = (if after then hd (lower [c]) else upper_char c) # title_case (ascii_letter c) cs"

record suggestion =
  sg_source :: binding_source
  sg_codec :: codec
  sg_metadata_key :: "string option"
  sg_parameter_key :: "string option"
  sg_parameter_display_name :: "string option"
  sg_parameter_required :: bool
  sg_parameter_default :: "json option"
  sg_confidence :: int

definition parameter_suggestions :: "parameter_info \<Rightarrow> nat \<Rightarrow> bool \<Rightarrow> suggestion list" where
  "parameter_suggestions p index constructor =
     (let name = lower (pi_name p) in
      sort_key (\<lambda>s. - sg_confidence s)
       ((if \<not> constructor \<and> (name \<in> set CONTENT_NAMES \<or> index = 0) then
           [\<lparr>sg_source = INPUT_PAYLOAD, sg_codec = codec_for p True, sg_metadata_key = None, sg_parameter_key = None, sg_parameter_display_name = None,
             sg_parameter_required = False, sg_parameter_default = None, sg_confidence = (if name \<in> set CONTENT_NAMES then 95 else 60)\<rparr>]
         else []) @
        (if \<not> constructor then
           (case map_of METADATA_NAMES name of
              None \<Rightarrow> []
            | Some key \<Rightarrow>
                [\<lparr>sg_source = INPUT_METADATA, sg_codec = TEXT, sg_metadata_key = Some key, sg_parameter_key = None, sg_parameter_display_name = None,
                  sg_parameter_required = False, sg_parameter_default = None, sg_confidence = 90\<rparr>])
         else []) @
        [\<lparr>sg_source = OPERATOR_PARAMETER, sg_codec = codec_for p False, sg_metadata_key = None, sg_parameter_key = Some (pi_name p),
          sg_parameter_display_name = Some (title_case False (map (\<lambda>c. if c = CHR ''_'' then CHR '' '' else c) (pi_name p))),
          sg_parameter_required = pi_required p, sg_parameter_default = (if pi_has_default p then Some (pi_default_value p) else None),
          sg_confidence = (if constructor \<or> pi_has_default p then 70 else 50)\<rparr>]))"

definition suggestion_json :: "suggestion \<Rightarrow> json" where
  "suggestion_json s = JObj ([(''source'', JStr (source_text (sg_source s))), (''codec'', JStr (codec_text (sg_codec s)))] @
     (case sg_metadata_key s of None \<Rightarrow> [] | Some k \<Rightarrow> [(''metadataKey'', JStr k)]) @
     (case sg_parameter_key s of None \<Rightarrow> [] | Some k \<Rightarrow>
        [(''parameterKey'', JStr k), (''parameterDisplayName'', json_opt (sg_parameter_display_name s)), (''parameterRequired'', JBool (sg_parameter_required s)),
         (''parameterHasDefault'', JBool (sg_parameter_default s \<noteq> None))]) @
     [(''confidence'', JInt (sg_confidence s))] @
     (case sg_parameter_default s of None \<Rightarrow> [] | Some v \<Rightarrow> [(''parameterDefault'', v)]))"

end
