(* ===== verification/Contract_Reader.thy ===== *)
theory Contract_Reader
  imports Contract_Compiler "HOL-Library.Multiset"
begin

text \<open>
  \<open>VirtualOperatorContract.model_validate\<close> on a stored contract (\<^verbatim>\<open>publish_service/service.py\<close>, line 277, with the models of
  \<^verbatim>\<open>operator_authoring/model.py\<close>).  A \<open>jsonb\<close> column gives back the value that was stored up to the order of its keys.  An absent
  field takes the default of its model; unknown fields are ignored; a value of another JSON type than \<open>model_dump\<close> writes
  for the field is refused.
\<close>

section \<open>Reading fields\<close>

definition get_field :: "json \<Rightarrow> string \<Rightarrow> (json \<Rightarrow> 'a result) \<Rightarrow> 'a result \<Rightarrow> 'a result" where
  "get_field raw k read absent = (case map_of (json_fields raw) k of None \<Rightarrow> absent | Some v \<Rightarrow> read v)"

definition missing_field :: "'a result" where
  "missing_field = Inl (invalid ''Field required'')"

definition str_of_json :: "json \<Rightarrow> string result" where
  "str_of_json j = (case j of JStr s \<Rightarrow> Inr s | _ \<Rightarrow> Inl (invalid ''Input should be a valid string''))"

definition bool_of_json :: "json \<Rightarrow> bool result" where
  "bool_of_json j = (case j of JBool b \<Rightarrow> Inr b | _ \<Rightarrow> Inl (invalid ''Input should be a valid boolean''))"

definition opt_of_json :: "(json \<Rightarrow> 'a result) \<Rightarrow> json \<Rightarrow> 'a option result" where
  "opt_of_json read j = (if j = JNull then Inr None else map_sum id Some (read j))"

definition enum_of_json :: "('a \<Rightarrow> string) \<Rightarrow> 'a list \<Rightarrow> json \<Rightarrow> 'a result" where
  "enum_of_json text values j =
     result_bind (str_of_json j) (\<lambda>s. case List.find (\<lambda>x. text x = s) values of None \<Rightarrow> Inl (invalid ''Input should be one of the values'') | Some x \<Rightarrow> Inr x)"

definition model_of_json :: "(json \<Rightarrow> 'a result) \<Rightarrow> json \<Rightarrow> 'a result" where
  "model_of_json read j = (case j of JObj _ \<Rightarrow> read j | _ \<Rightarrow> Inl (invalid ''Input should be a valid dictionary''))"

definition dict_of_json :: "(json \<Rightarrow> 'a result) \<Rightarrow> json \<Rightarrow> (string, 'a) dict result" where
  "dict_of_json read j = (case j of JObj kvs \<Rightarrow> each_value read kvs | _ \<Rightarrow> Inl (invalid ''Input should be a valid dictionary''))"

fun list_of_json :: "(json \<Rightarrow> 'a result) \<Rightarrow> json list \<Rightarrow> 'a list result" where
  "list_of_json read [] = Inr []"
| "list_of_json read (j # js) = result_bind (read j) (\<lambda>x. map_sum id (Cons x) (list_of_json read js))"

definition path_item_of_json :: "json \<Rightarrow> path_item result" where
  "path_item_of_json j = (case j of JStr s \<Rightarrow> Inr (Key s) | JInt i \<Rightarrow> Inr (Index i) | _ \<Rightarrow> Inl (invalid ''Input should be a valid string or integer''))"

definition path_of_json :: "json \<Rightarrow> path_item list result" where
  "path_of_json j = (case j of JArr js \<Rightarrow> list_of_json path_item_of_json js | _ \<Rightarrow> Inl (invalid ''Input should be a valid list''))"

section \<open>Models\<close>

definition parameter_spec_of_json :: "json \<Rightarrow> parameter_spec result" where
  "parameter_spec_of_json = model_of_json (\<lambda>raw.
     result_bind (get_field raw ''key'' str_of_json missing_field) (\<lambda>key.
     result_bind (get_field raw ''display_name'' str_of_json (Inr [])) (\<lambda>display_name.
     result_bind (get_field raw ''description'' str_of_json (Inr [])) (\<lambda>description.
     result_bind (get_field raw ''required'' bool_of_json (Inr False)) (\<lambda>req.
     result_bind (get_field raw ''has_default'' bool_of_json (Inr False)) (\<lambda>has_default.
     result_bind (get_field raw ''default'' Inr (Inr JNull)) (\<lambda>dflt.
     make_parameter_spec \<lparr>os_key = key, os_display_name = display_name, os_description = description, os_required = req,
       os_has_default = has_default, os_default = dflt\<rparr>)))))))"

definition codec_of_json :: "json \<Rightarrow> codec result" where
  "codec_of_json = enum_of_json codec_text [BYTES, TEXT, JSON]"

definition binding_of_json :: "json \<Rightarrow> argument_binding result" where
  "binding_of_json = model_of_json (\<lambda>raw.
     result_bind (get_field raw ''source'' (enum_of_json source_text [INPUT_PAYLOAD, INPUT_METADATA, OPERATOR_PARAMETER, CONSTANT]) missing_field) (\<lambda>source.
     result_bind (get_field raw ''codec'' codec_of_json (Inr TEXT)) (\<lambda>codec.
     result_bind (get_field raw ''metadata_key'' (opt_of_json str_of_json) (Inr None)) (\<lambda>metadata_key.
     result_bind (get_field raw ''parameter'' (opt_of_json parameter_spec_of_json) (Inr None)) (\<lambda>parameter.
     result_bind (get_field raw ''constant'' Inr (Inr JNull)) (\<lambda>constant.
     make_binding \<lparr>ab_source = source, ab_codec = codec, ab_metadata_key = metadata_key, ab_parameter = parameter, ab_constant = constant\<rparr>))))))"

definition output_value_of_json :: "json \<Rightarrow> output_value result" where
  "output_value_of_json = model_of_json (\<lambda>raw.
     result_bind (get_field raw ''source'' (enum_of_json output_source_text [RETURN, RETURN_PATH, OUTPUT_CONSTANT]) (Inr RETURN)) (\<lambda>source.
     result_bind (get_field raw ''path'' path_of_json (Inr [])) (\<lambda>path.
     result_bind (get_field raw ''codec'' codec_of_json (Inr BYTES)) (\<lambda>codec.
     result_bind (get_field raw ''value'' Inr (Inr JNull)) (\<lambda>value.
     make_output_value \<lparr>ov_source = source, ov_path = path, ov_codec = codec, ov_value = value\<rparr>)))))"

definition default_output_value :: output_value where
  "default_output_value = \<lparr>ov_source = RETURN, ov_path = [], ov_codec = BYTES, ov_value = JNull\<rparr>"

definition output_of_json :: "json \<Rightarrow> output_spec result" where
  "output_of_json = model_of_json (\<lambda>raw.
     result_bind (get_field raw ''payload'' output_value_of_json (Inr default_output_value)) (\<lambda>payload.
     result_bind (get_field raw ''metadata'' (dict_of_json output_value_of_json) (Inr [])) (\<lambda>metadata.
     result_bind (get_field raw ''none_policy'' (enum_of_json none_policy_text [KEEP_ORIGINAL, EMPTY]) (Inr KEEP_ORIGINAL)) (\<lambda>policy.
     Inr \<lparr>out_payload = payload, out_metadata = metadata, out_none_policy = policy\<rparr>))))"

definition metadata_of_json :: "json \<Rightarrow> operator_metadata result" where
  "metadata_of_json = model_of_json (\<lambda>raw.
     result_bind (get_field raw ''name'' str_of_json missing_field) (\<lambda>name.
     result_bind (get_field raw ''display_name'' str_of_json missing_field) (\<lambda>display_name.
     result_bind (get_field raw ''description'' str_of_json (Inr [])) (\<lambda>description.
     make_metadata \<lparr>om_name = name, om_display_name = display_name, om_description = description\<rparr>))))"

definition source_of_json :: "json \<Rightarrow> source_spec result" where
  "source_of_json = model_of_json (\<lambda>raw.
     result_bind (get_field raw ''source_revision'' str_of_json missing_field) (\<lambda>revision.
     result_bind (get_field raw ''python_path'' str_of_json (Inr ''.'')) (\<lambda>python_path.
     result_bind (get_field raw ''source_ref'' (opt_of_json str_of_json) (Inr None)) (\<lambda>source_ref.
     make_source \<lparr>so_source_revision = revision, so_python_path = python_path, so_source_ref = source_ref\<rparr>))))"

definition target_of_json :: "json \<Rightarrow> string result" where
  "target_of_json = model_of_json (\<lambda>raw. get_field raw ''callable_id'' str_of_json missing_field)"

definition literal_field :: "string \<Rightarrow> json \<Rightarrow> unit result" where
  "literal_field text j = (if j = JStr text then Inr () else Inl (invalid (''Input should be '' @ text)))"

definition default_output :: output_spec where
  "default_output = \<lparr>out_payload = default_output_value, out_metadata = [], out_none_policy = KEEP_ORIGINAL\<rparr>"

definition contract_of_json :: "json \<Rightarrow> virtual_contract result" where
  "contract_of_json = model_of_json (\<lambda>raw.
     result_bind (get_field raw ''api_version'' (literal_field ''dsc.virtual-operator/v1'') (Inr ())) (\<lambda>_.
     result_bind (get_field raw ''execution_model'' (literal_field ''direct'') (Inr ())) (\<lambda>_.
     result_bind (get_field raw ''metadata'' metadata_of_json missing_field) (\<lambda>metadata.
     result_bind (get_field raw ''source'' source_of_json missing_field) (\<lambda>source.
     result_bind (get_field raw ''target'' target_of_json missing_field) (\<lambda>target.
     result_bind (get_field raw ''constructor_arguments'' (dict_of_json binding_of_json) (Inr [])) (\<lambda>constructor.
     result_bind (get_field raw ''arguments'' (dict_of_json binding_of_json) (Inr [])) (\<lambda>arguments.
     result_bind (get_field raw ''output'' output_of_json (Inr default_output)) (\<lambda>out.
     Inr \<lparr>vc_metadata = metadata, vc_source = source, vc_callable_id = target, vc_constructor_arguments = constructor, vc_arguments = arguments,
          vc_output = out\<rparr>)))))))))"

section \<open>Values up to the order of their keys\<close>

definition same_json :: "json \<Rightarrow> json \<Rightarrow> bool" where
  "same_json a b \<longleftrightarrow> sort_keys a = sort_keys b"

lemma same_json_refl [simp]: "same_json j j"
  by (simp add: same_json_def)

lemma same_json_sym: "same_json a b \<Longrightarrow> same_json b a"
  by (simp add: same_json_def)

lemma same_json_trans: "same_json a b \<Longrightarrow> same_json b c \<Longrightarrow> same_json a c"
  by (simp add: same_json_def)

lemma same_json_leaf [simp]:
  "same_json j JNull \<longleftrightarrow> j = JNull" "same_json j (JBool b) \<longleftrightarrow> j = JBool b" "same_json j (JInt i) \<longleftrightarrow> j = JInt i"
  "same_json j (JStr s) \<longleftrightarrow> j = JStr s"
  by (cases j; simp add: same_json_def)+

lemma same_json_canonical: "same_json a b \<Longrightarrow> canonical_json a = canonical_json b"
  by (simp add: same_json_def canonical_json_def)

lemma same_obj:
  assumes "list_all2 (\<lambda>x y. fst x = fst y \<and> same_json (snd x) (snd y)) kvs kvs'"
  shows "same_json (JObj kvs) (JObj kvs')"
proof -
  have "map (\<lambda>(k, v). (k, sort_keys v)) kvs = map (\<lambda>(k, v). (k, sort_keys v)) kvs'"
    using assms by (induction rule: list_all2_induct) (auto simp: same_json_def)
  then show ?thesis by (simp add: same_json_def)
qed

lemma same_arr: "same_json j (JArr xs) \<Longrightarrow> \<exists>ys. j = JArr ys \<and> list_all2 same_json ys xs"
proof -
  assume "same_json j (JArr xs)"
  then obtain ys where "j = JArr ys" "map sort_keys ys = map sort_keys xs" by (cases j) (auto simp: same_json_def)
  moreover from this(2) have "list_all2 same_json ys xs"
    by (auto simp: list_all2_conv_all_nth same_json_def list_eq_iff_nth_eq)
  ultimately show ?thesis by blast
qed

lemma same_members:
  assumes "same_json j (JObj kvs)" "distinct (map fst kvs)"
  obtains kvs' where "j = JObj kvs'" "distinct (map fst kvs')" "set (map fst kvs') = set (map fst kvs)"
    "\<forall>k. map_option sort_keys (map_of kvs' k) = map_option sort_keys (map_of kvs k)"
proof -
  let ?f = "\<lambda>(k, v). (k, sort_keys v)"
  from assms(1) obtain kvs' where j: "j = JObj kvs'" and eq: "sort_key fst (map ?f kvs') = sort_key fst (map ?f kvs)"
    by (cases j) (auto simp: same_json_def)
  have fst: "map fst (map ?f l) = map fst l" for l by (induction l) auto
  have ms: "mset (map ?f kvs') = mset (map ?f kvs)" using arg_cong [OF eq, of mset] by simp
  have "mset (map fst (map ?f kvs')) = mset (map fst (map ?f kvs))" using arg_cong [OF ms, of "image_mset fst"] by (simp only: mset_map)
  then have keys: "mset (map fst kvs') = mset (map fst kvs)" unfolding fst .
  have d: "distinct (map fst kvs')" using mset_eq_imp_distinct_iff [OF keys] assms(2) by simp
  have "map_option sort_keys (map_of kvs' k) = map_option sort_keys (map_of kvs k)" for k
    using sort_keys_fields [OF d, of k] sort_keys_fields [OF assms(2), of k] eq by (simp add: json_fields_def)
  with that [OF j d] keys show thesis using mset_eq_setD by blast
qed

lemma get_field_same:
  assumes "same_json j (JObj kvs)" "distinct (map fst kvs)" "map_of kvs k = Some v"
  obtains v' where "same_json v' v" "map_of (json_fields j) k = Some v'"
proof -
  obtain kvs' where k: "j = JObj kvs'" "distinct (map fst kvs')" "set (map fst kvs') = set (map fst kvs)"
    "\<forall>k. map_option sort_keys (map_of kvs' k) = map_option sort_keys (map_of kvs k)"
    by (rule same_members [OF assms(1,2)])
  then obtain v' where "map_of kvs' k = Some v'" "sort_keys v' = sort_keys v" using k(4) [rule_format, of k] assms(3) by (cases "map_of kvs' k") auto
  with that k(1) show thesis by (simp add: json_fields_def same_json_def)
qed

lemma get_same_leaf:
  assumes "same_json j (JObj kvs)" "distinct (map fst kvs)"
  shows "map_of kvs k = Some (JStr s) \<Longrightarrow> get_field j k str_of_json absent = Inr s"
    "map_of kvs k = Some (JBool b) \<Longrightarrow> get_field j k bool_of_json absent' = Inr b"
    "map_of kvs k = Some (json_opt x) \<Longrightarrow> get_field j k (opt_of_json str_of_json) absent'' = Inr x"
    "map_of kvs k = Some (JStr t) \<Longrightarrow> get_field j k (literal_field t) absent''' = Inr ()"
    "map_of kvs k = Some (JStr (text y)) \<Longrightarrow> inj text \<Longrightarrow> y \<in> set ys \<Longrightarrow> get_field j k (enum_of_json text ys) absent'''' = Inr y"
proof -
  note get = get_field_same [OF assms]
  show "map_of kvs k = Some (JStr s) \<Longrightarrow> get_field j k str_of_json absent = Inr s" by (erule get) (simp add: get_field_def str_of_json_def)
  show "map_of kvs k = Some (JBool b) \<Longrightarrow> get_field j k bool_of_json absent' = Inr b" by (erule get) (simp add: get_field_def bool_of_json_def)
  show "map_of kvs k = Some (json_opt x) \<Longrightarrow> get_field j k (opt_of_json str_of_json) absent'' = Inr x"
    by (erule get) (cases x; simp add: get_field_def json_opt_def opt_of_json_def str_of_json_def)
  show "map_of kvs k = Some (JStr t) \<Longrightarrow> get_field j k (literal_field t) absent''' = Inr ()" by (erule get) (simp add: get_field_def literal_field_def)
  show "map_of kvs k = Some (JStr (text y)) \<Longrightarrow> inj text \<Longrightarrow> y \<in> set ys \<Longrightarrow> get_field j k (enum_of_json text ys) absent'''' = Inr y"
  proof (erule get)
    fix v' assume v: "same_json v' (JStr (text y))" "map_of (json_fields j) k = Some v'" and i: "inj text" "y \<in> set ys"
    have "List.find (\<lambda>x. text x = text y) ys = Some y" using i by (induction ys) (auto dest: injD)
    then show "get_field j k (enum_of_json text ys) absent'''' = Inr y" using v by (simp add: get_field_def enum_of_json_def str_of_json_def)
  qed
qed

lemma enum_texts_inj: "inj codec_text" "inj source_text" "inj output_source_text" "inj none_policy_text"
  by (rule injI; simp add: codec_text_def source_text_def output_source_text_def none_policy_text_def split: codec.splits binding_source.splits
      output_source.splits none_policy.splits)+

section \<open>Reading back what was written\<close>

text \<open>A model that can be written and read: reading a dump, whatever the order of its keys, succeeds and gives a model with the same dump.\<close>

locale json_codec =
  fixes enc :: "'a \<Rightarrow> json" and dec :: "json \<Rightarrow> 'a result" and ok :: "'a \<Rightarrow> bool"
  assumes read_back: "ok x \<Longrightarrow> same_json j (enc x) \<Longrightarrow> \<exists>y. dec j = Inr y \<and> ok y \<and> same_json (enc y) (enc x)"
begin

lemma each_value_reads:
  assumes "\<And>k v. (k, v) \<in> set kvs \<Longrightarrow> \<exists>x. ok x \<and> same_json v (enc x)"
  shows "\<exists>d'. each_value dec kvs = Inr d' \<and> list_all ok (map snd d') \<and> map fst d' = map fst kvs \<and>
    list_all2 (\<lambda>x y. fst x = fst y \<and> same_json (snd x) (snd y)) (map (\<lambda>(k, x). (k, enc x)) d') kvs"
  using assms
proof (induction kvs)
  case (Cons kv kvs)
  obtain k v where kv: "kv = (k, v)" by fastforce
  obtain x where x: "ok x" "same_json v (enc x)" using Cons.prems [of k v] kv by auto
  then obtain y where y: "dec v = Inr y" "ok y" "same_json (enc y) v" using read_back [OF x] by (metis same_json_sym same_json_trans)
  obtain d' where d': "each_value dec kvs = Inr d'" "list_all ok (map snd d')" "map fst d' = map fst kvs"
    "list_all2 (\<lambda>x y. fst x = fst y \<and> same_json (snd x) (snd y)) (map (\<lambda>(k, x). (k, enc x)) d') kvs"
    using Cons.IH Cons.prems by (meson list.set_intros(2))
  show ?case using y d' kv by (intro exI [of _ "(k, y) # d'"]) simp
qed simp

lemma dict_reads:
  assumes "list_all ok (map snd d)" "distinct (map fst d)" "same_json j (JObj (map (\<lambda>(k, x). (k, enc x)) d))"
  shows "\<exists>d'. dict_of_json dec j = Inr d' \<and> list_all ok (map snd d') \<and> distinct (map fst d') \<and>
    same_json (JObj (map (\<lambda>(k, x). (k, enc x)) d')) (JObj (map (\<lambda>(k, x). (k, enc x)) d))"
proof -
  let ?kvs = "map (\<lambda>(k, x). (k, enc x)) d"
  have f: "map fst ?kvs = map fst d" by (induction d) auto
  obtain kvs' where k: "j = JObj kvs'" "distinct (map fst kvs')" "set (map fst kvs') = set (map fst ?kvs)"
    "\<forall>k. map_option sort_keys (map_of kvs' k) = map_option sort_keys (map_of ?kvs k)"
    by (rule same_members [OF assms(3) assms(2) [folded f]])
  have read: "\<exists>x. ok x \<and> same_json v (enc x)" if "(k, v) \<in> set kvs'" for k v
  proof -
    have "map_of kvs' k = Some v" using that k(2) by simp
    then obtain w where w: "map_of ?kvs k = Some w" "sort_keys v = sort_keys w" using k(4) [rule_format, of k] by (cases "map_of ?kvs k") auto
    from map_of_SomeD [OF w(1)] obtain x where "(k, x) \<in> set d" "w = enc x" by auto
    then show ?thesis using w(2) assms(1) by (force simp: same_json_def list_all_iff)
  qed
  obtain d' where d': "each_value dec kvs' = Inr d'" "list_all ok (map snd d')" "map fst d' = map fst kvs'"
    "list_all2 (\<lambda>x y. fst x = fst y \<and> same_json (snd x) (snd y)) (map (\<lambda>(k, x). (k, enc x)) d') kvs'" using each_value_reads [of kvs'] read by blast
  from same_obj [OF d'(4)] assms(3) k(1) have "same_json (JObj (map (\<lambda>(k, x). (k, enc x)) d')) (JObj ?kvs)" by (blast intro: same_json_trans)
  then show ?thesis using d' k(1,2) by (auto simp: dict_of_json_def)
qed

end

section \<open>The models of a contract\<close>

definition spec_ok :: "parameter_spec \<Rightarrow> bool" where
  "spec_ok s \<longleftrightarrow> make_parameter_spec s = Inr s"

definition binding_ok :: "argument_binding \<Rightarrow> bool" where
  "binding_ok b \<longleftrightarrow> make_binding b = Inr b \<and> (case ab_parameter b of None \<Rightarrow> True | Some s \<Rightarrow> spec_ok s)"

definition value_ok :: "output_value \<Rightarrow> bool" where
  "value_ok v \<longleftrightarrow> make_output_value v = Inr v"

definition dict_ok :: "('a \<Rightarrow> bool) \<Rightarrow> (string, 'a) dict \<Rightarrow> bool" where
  "dict_ok p d \<longleftrightarrow> list_all p (map snd d) \<and> distinct (map fst d)"

definition output_ok :: "output_spec \<Rightarrow> bool" where
  "output_ok out \<longleftrightarrow> value_ok (out_payload out) \<and> dict_ok value_ok (out_metadata out)"

text \<open>A contract whose fields passed their validators.\<close>

definition contract_ok :: "virtual_contract \<Rightarrow> bool" where
  "contract_ok c \<longleftrightarrow> make_metadata (vc_metadata c) = Inr (vc_metadata c) \<and> make_source (vc_source c) = Inr (vc_source c) \<and>
     dict_ok binding_ok (vc_constructor_arguments c) \<and> dict_ok binding_ok (vc_arguments c) \<and> output_ok (vc_output c)"

lemma model_of_same: "same_json j (JObj kvs) \<Longrightarrow> model_of_json read j = read j"
  by (cases j) (auto simp: model_of_json_def same_json_def)

lemma get_any:
  assumes "same_json j (JObj kvs)" "distinct (map fst kvs)" "map_of kvs k = Some v"
  obtains v' where "same_json v' v" "get_field j k Inr absent = Inr v'"
  by (rule get_field_same [OF assms]) (simp add: get_field_def that)

interpretation parameter_spec_codec: json_codec parameter_spec_json parameter_spec_of_json spec_ok
proof
  fix s j assume s: "spec_ok s" and j: "same_json j (parameter_spec_json s)"
  note same = j [unfolded parameter_spec_json_def]
  obtain v where v: "same_json v (os_default s)" "get_field j ''default'' Inr (Inr JNull) = Inr v"
    by (rule get_any [OF same, where k = "''default''"]) simp_all
  have upd: "\<lparr>os_key = os_key s, os_display_name = os_display_name s, os_description = os_description s, os_required = os_required s,
      os_has_default = os_has_default s, os_default = v\<rparr> = s\<lparr>os_default := v\<rparr>" by (cases s) simp
  have "parameter_spec_of_json j = make_parameter_spec \<lparr>os_key = os_key s, os_display_name = os_display_name s, os_description = os_description s, os_required = os_required s,
      os_has_default = os_has_default s, os_default = v\<rparr>"
    using v(2) by (simp add: parameter_spec_of_json_def model_of_same [OF same] get_same_leaf [OF same])
  then have "parameter_spec_of_json j = make_parameter_spec (s\<lparr>os_default := v\<rparr>)" unfolding upd .
  moreover have "make_parameter_spec (s\<lparr>os_default := v\<rparr>) = Inr (s\<lparr>os_default := v\<rparr>)" "spec_ok (s\<lparr>os_default := v\<rparr>)"
    using s by (cases s; auto simp: spec_ok_def make_parameter_spec_def Let_def split: if_splits)+
  moreover have "same_json (parameter_spec_json (s\<lparr>os_default := v\<rparr>)) (parameter_spec_json s)"
    unfolding parameter_spec_json_def by (rule same_obj) (simp add: v(1))
  ultimately show "\<exists>y. parameter_spec_of_json j = Inr y \<and> spec_ok y \<and> same_json (parameter_spec_json y) (parameter_spec_json s)" by auto
qed

lemma optional_spec_reads:
  assumes "case x of None \<Rightarrow> True | Some s \<Rightarrow> spec_ok s" "same_json v (case x of None \<Rightarrow> JNull | Some s \<Rightarrow> parameter_spec_json s)"
  obtains y where "opt_of_json parameter_spec_of_json v = Inr y" "case y of None \<Rightarrow> True | Some s \<Rightarrow> spec_ok s" "(y = None) = (x = None)"
    "same_json (case y of None \<Rightarrow> JNull | Some s \<Rightarrow> parameter_spec_json s) (case x of None \<Rightarrow> JNull | Some s \<Rightarrow> parameter_spec_json s)"
proof (cases x)
  case None
  then show thesis using assms that [of None] by (simp add: opt_of_json_def)
next
  case (Some s)
  have v: "same_json v (parameter_spec_json s)" "v \<noteq> JNull" using assms(2) Some by (auto simp: same_json_def parameter_spec_json_def)
  obtain y where "parameter_spec_of_json v = Inr y" "spec_ok y" "same_json (parameter_spec_json y) (parameter_spec_json s)"
    using parameter_spec_codec.read_back [OF _ v(1)] assms(1) Some by auto
  then show thesis using v(2) Some that [of "Some y"] by (simp add: opt_of_json_def)
qed

interpretation binding_codec: json_codec binding_json binding_of_json binding_ok
proof
  fix b j assume b: "binding_ok b" and j: "same_json j (binding_json b)"
  note same = j [unfolded binding_json_def]
  obtain v where v: "same_json v (ab_constant b)" "get_field j ''constant'' Inr (Inr JNull) = Inr v"
    by (rule get_any [OF same, where k = "''constant''"]) simp_all
  obtain w where w: "same_json w (case ab_parameter b of None \<Rightarrow> JNull | Some s \<Rightarrow> parameter_spec_json s)" "map_of (json_fields j) ''parameter'' = Some w"
    by (rule get_field_same [OF same, where k = "''parameter''"], simp, simp, blast)
  obtain p where p: "opt_of_json parameter_spec_of_json w = Inr p" "case p of None \<Rightarrow> True | Some s \<Rightarrow> spec_ok s" "(p = None) = (ab_parameter b = None)"
    "same_json (case p of None \<Rightarrow> JNull | Some s \<Rightarrow> parameter_spec_json s) (case ab_parameter b of None \<Rightarrow> JNull | Some s \<Rightarrow> parameter_spec_json s)"
    by (rule optional_spec_reads [OF _ w(1)]) (use b in \<open>simp add: binding_ok_def\<close>)
  let ?b = "b\<lparr>ab_parameter := p, ab_constant := v\<rparr>"
  have enums: "ab_source b \<in> set [INPUT_PAYLOAD, INPUT_METADATA, OPERATOR_PARAMETER, CONSTANT]" "ab_codec b \<in> set [BYTES, TEXT, JSON]"
    by (cases "ab_source b"; simp) (cases "ab_codec b"; simp)
  have upd: "\<lparr>ab_source = ab_source b, ab_codec = ab_codec b, ab_metadata_key = ab_metadata_key b, ab_parameter = p, ab_constant = v\<rparr> = ?b"
    by (cases b) simp
  have "binding_of_json j = make_binding \<lparr>ab_source = ab_source b, ab_codec = ab_codec b, ab_metadata_key = ab_metadata_key b, ab_parameter = p, ab_constant = v\<rparr>"
    using v(2) w(2) p(1) get_same_leaf(5) [OF same, of _ source_text "ab_source b"] get_same_leaf(5) [OF same, of _ codec_text "ab_codec b"] enums enum_texts_inj
    by (simp add: binding_of_json_def model_of_same [OF same] get_same_leaf(3) [OF same] codec_of_json_def get_field_def [of j "''parameter''"])
  then have "binding_of_json j = make_binding ?b" unfolding upd .
  moreover have "make_binding ?b = Inr ?b" using b p(3) by (auto simp: binding_ok_def make_binding_def split: if_splits)
  moreover from this have "binding_ok ?b" using p(2) by (simp add: binding_ok_def)
  moreover have "same_json (binding_json ?b) (binding_json b)"
    unfolding binding_json_def by (rule same_obj) (simp add: v(1) p(4))
  ultimately show "\<exists>y. binding_of_json j = Inr y \<and> binding_ok y \<and> same_json (binding_json y) (binding_json b)" by auto
qed

lemma path_item_reads: "same_json x (path_item_json p) \<Longrightarrow> path_item_of_json x = Inr p"
  by (cases p) (simp_all add: path_item_json_def path_item_of_json_def)

lemma path_reads: "same_json j (JArr (map path_item_json ps)) \<Longrightarrow> path_of_json j = Inr ps"
proof -
  assume "same_json j (JArr (map path_item_json ps))"
  then obtain js where js: "j = JArr js" "list_all2 same_json js (map path_item_json ps)" using same_arr by blast
  have "list_of_json path_item_of_json js = Inr ps" using js(2)
  proof (induction ps arbitrary: js)
    case (Cons p ps)
    then obtain x xs where "js = x # xs" "same_json x (path_item_json p)" "list_all2 same_json xs (map path_item_json ps)"
      by (auto simp: list_all2_Cons2)
    then show ?case using Cons.IH path_item_reads by simp
  qed simp
  then show ?thesis using js(1) by (simp add: path_of_json_def)
qed

interpretation output_value_codec: json_codec output_value_json output_value_of_json value_ok
proof
  fix v j assume ok: "value_ok v" and j: "same_json j (output_value_json v)"
  note same = j [unfolded output_value_json_def]
  obtain x where x: "same_json x (ov_value v)" "get_field j ''value'' Inr (Inr JNull) = Inr x"
    by (rule get_any [OF same, where k = "''value''"]) simp_all
  obtain w where w: "same_json w (JArr (map path_item_json (ov_path v)))" "map_of (json_fields j) ''path'' = Some w"
    by (rule get_field_same [OF same, where k = "''path''"], simp, simp, blast)
  have enums: "ov_source v \<in> set [RETURN, RETURN_PATH, OUTPUT_CONSTANT]" "ov_codec v \<in> set [BYTES, TEXT, JSON]"
    by (cases "ov_source v"; simp) (cases "ov_codec v"; simp)
  let ?v = "v\<lparr>ov_value := x\<rparr>"
  have upd: "\<lparr>ov_source = ov_source v, ov_path = ov_path v, ov_codec = ov_codec v, ov_value = x\<rparr> = ?v" by (cases v) simp
  have "output_value_of_json j = make_output_value \<lparr>ov_source = ov_source v, ov_path = ov_path v, ov_codec = ov_codec v, ov_value = x\<rparr>"
    using x(2) w(2) path_reads [OF w(1)] get_same_leaf(5) [OF same, of _ output_source_text "ov_source v"]
      get_same_leaf(5) [OF same, of _ codec_text "ov_codec v"] enums enum_texts_inj
    by (simp add: output_value_of_json_def model_of_same [OF same] codec_of_json_def get_field_def [of j "''path''"])
  then have "output_value_of_json j = make_output_value ?v" unfolding upd .
  moreover have "make_output_value ?v = Inr ?v" using ok by (auto simp: value_ok_def make_output_value_def split: if_splits)
  moreover from this have "value_ok ?v" by (simp add: value_ok_def)
  moreover have "same_json (output_value_json ?v) (output_value_json v)"
    unfolding output_value_json_def by (rule same_obj) (simp add: x(1))
  ultimately show "\<exists>y. output_value_of_json j = Inr y \<and> value_ok y \<and> same_json (output_value_json y) (output_value_json v)" by auto
qed

interpretation output_codec: json_codec output_json output_of_json output_ok
proof
  fix v j assume ok: "output_ok v" and j: "same_json j (output_json v)"
  note same = j [unfolded output_json_def]
  obtain w where w: "same_json w (output_value_json (out_payload v))" "map_of (json_fields j) ''payload'' = Some w"
    by (rule get_field_same [OF same, where k = "''payload''"], simp, simp, blast)
  obtain x where x: "same_json x (JObj (map (\<lambda>(k, v). (k, output_value_json v)) (out_metadata v)))" "map_of (json_fields j) ''metadata'' = Some x"
    by (rule get_field_same [OF same, where k = "''metadata''"], simp, simp, blast)
  obtain p where p: "output_value_of_json w = Inr p" "value_ok p" "same_json (output_value_json p) (output_value_json (out_payload v))"
    using output_value_codec.read_back [OF _ w(1)] ok by (auto simp: output_ok_def)
  obtain m where m: "dict_of_json output_value_of_json x = Inr m" "dict_ok value_ok m"
    "same_json (JObj (map (\<lambda>(k, v). (k, output_value_json v)) m)) (JObj (map (\<lambda>(k, v). (k, output_value_json v)) (out_metadata v)))"
    using output_value_codec.dict_reads [OF _ _ x(1)] ok by (auto simp: output_ok_def dict_ok_def)
  have enum: "out_none_policy v \<in> set [KEEP_ORIGINAL, EMPTY]" by (cases "out_none_policy v"; simp)
  have "output_of_json j = Inr \<lparr>out_payload = p, out_metadata = m, out_none_policy = out_none_policy v\<rparr>"
    using w(2) x(2) p(1) m(1) get_same_leaf(5) [OF same, of _ none_policy_text "out_none_policy v"] enum enum_texts_inj
    by (simp add: output_of_json_def model_of_same [OF same] get_field_def [of j "''payload''"] get_field_def [of j "''metadata''"])
  moreover have "same_json (output_json \<lparr>out_payload = p, out_metadata = m, out_none_policy = out_none_policy v\<rparr>) (output_json v)"
    unfolding output_json_def by (rule same_obj) (simp add: p(3) m(3))
  ultimately show "\<exists>y. output_of_json j = Inr y \<and> output_ok y \<and> same_json (output_json y) (output_json v)"
    using p(2) m(2) by (auto simp: output_ok_def)
qed

lemma metadata_reads:
  assumes "make_metadata m = Inr m"
    and "same_json j (JObj [(''name'', JStr (om_name m)), (''display_name'', JStr (om_display_name m)), (''description'', JStr (om_description m))])"
  shows "metadata_of_json j = Inr m"
proof -
  have "\<lparr>om_name = om_name m, om_display_name = om_display_name m, om_description = om_description m\<rparr> = m" by simp
  from arg_cong [OF this, of make_metadata] show ?thesis
    using assms(1) by (simp add: metadata_of_json_def model_of_same [OF assms(2)] get_same_leaf [OF assms(2)])
qed

lemma source_reads:
  assumes "make_source s = Inr s"
    and "same_json j (JObj [(''source_revision'', JStr (so_source_revision s)), (''python_path'', JStr (so_python_path s)), (''source_ref'', json_opt (so_source_ref s))])"
  shows "source_of_json j = Inr s"
proof -
  have "\<lparr>so_source_revision = so_source_revision s, so_python_path = so_python_path s, so_source_ref = so_source_ref s\<rparr> = s" by simp
  from arg_cong [OF this, of make_source] show ?thesis
    using assms(1) by (simp add: source_of_json_def model_of_same [OF assms(2)] get_same_leaf [OF assms(2)])
qed

lemma target_reads: "same_json j (JObj [(''callable_id'', JStr t)]) \<Longrightarrow> target_of_json j = Inr t"
  by (simp add: target_of_json_def model_of_same get_same_leaf)

text \<open>What reading keeps exactly, beside the dump.\<close>

lemma contract_reads:
  assumes ok: "contract_ok c" and j: "same_json j (contract_json c)"
  shows "\<exists>c'. contract_of_json j = Inr c' \<and> contract_ok c' \<and> same_json (contract_json c') (contract_json c) \<and>
    vc_metadata c' = vc_metadata c \<and> vc_source c' = vc_source c \<and> vc_callable_id c' = vc_callable_id c \<and>
    same_json (JObj (map (\<lambda>(k, b). (k, binding_json b)) (vc_constructor_arguments c'))) (JObj (map (\<lambda>(k, b). (k, binding_json b)) (vc_constructor_arguments c))) \<and>
    same_json (JObj (map (\<lambda>(k, b). (k, binding_json b)) (vc_arguments c'))) (JObj (map (\<lambda>(k, b). (k, binding_json b)) (vc_arguments c))) \<and>
    same_json (output_json (vc_output c')) (output_json (vc_output c))"
proof -
  note same = j [unfolded contract_json_def]
  note get = get_field_same [OF same]
  let ?dict = "\<lambda>d. JObj (map (\<lambda>(k, b). (k, binding_json b)) d)"
  obtain m where m: "same_json m (JObj [(''name'', JStr (om_name (vc_metadata c))), (''display_name'', JStr (om_display_name (vc_metadata c))),
      (''description'', JStr (om_description (vc_metadata c)))])" "map_of (json_fields j) ''metadata'' = Some m"
    by (rule get [where k = "''metadata''"], simp, simp, blast)
  obtain s where s: "same_json s (JObj [(''source_revision'', JStr (so_source_revision (vc_source c))), (''python_path'', JStr (so_python_path (vc_source c))),
      (''source_ref'', json_opt (so_source_ref (vc_source c)))])" "map_of (json_fields j) ''source'' = Some s"
    by (rule get [where k = "''source''"], simp, simp, blast)
  obtain t where t: "same_json t (JObj [(''callable_id'', JStr (vc_callable_id c))])" "map_of (json_fields j) ''target'' = Some t"
    by (rule get [where k = "''target''"], simp, simp, blast)
  obtain k where k: "same_json k (?dict (vc_constructor_arguments c))" "map_of (json_fields j) ''constructor_arguments'' = Some k"
    by (rule get [where k = "''constructor_arguments''"], simp, simp, blast)
  obtain a where a: "same_json a (?dict (vc_arguments c))" "map_of (json_fields j) ''arguments'' = Some a"
    by (rule get [where k = "''arguments''"], simp, simp, blast)
  obtain out where out: "same_json out (output_json (vc_output c))" "map_of (json_fields j) ''output'' = Some out"
    by (rule get [where k = "''output''"], simp, simp, blast)
  obtain k' where k': "dict_of_json binding_of_json k = Inr k'" "dict_ok binding_ok k'" "same_json (?dict k') (?dict (vc_constructor_arguments c))"
    using binding_codec.dict_reads [OF _ _ k(1)] ok by (auto simp: contract_ok_def dict_ok_def)
  obtain a' where a': "dict_of_json binding_of_json a = Inr a'" "dict_ok binding_ok a'" "same_json (?dict a') (?dict (vc_arguments c))"
    using binding_codec.dict_reads [OF _ _ a(1)] ok by (auto simp: contract_ok_def dict_ok_def)
  obtain o' where o': "output_of_json out = Inr o'" "output_ok o'" "same_json (output_json o') (output_json (vc_output c))"
    using output_codec.read_back [OF _ out(1)] ok by (auto simp: contract_ok_def)
  let ?c = "\<lparr>vc_metadata = vc_metadata c, vc_source = vc_source c, vc_callable_id = vc_callable_id c, vc_constructor_arguments = k',
      vc_arguments = a', vc_output = o'\<rparr>"
  have "metadata_of_json m = Inr (vc_metadata c)" "source_of_json s = Inr (vc_source c)" "target_of_json t = Inr (vc_callable_id c)"
    using metadata_reads [OF _ m(1)] source_reads [OF _ s(1)] target_reads [OF t(1)] ok by (simp_all add: contract_ok_def)
  then have "contract_of_json j = Inr ?c"
    using m(2) s(2) t(2) k(2) a(2) out(2) k'(1) a'(1) o'(1) get_same_leaf(4) [OF same]
    by (simp add: contract_of_json_def model_of_same [OF same] get_field_def [of j "''metadata''"] get_field_def [of j "''source''"] get_field_def [of j "''target''"]
        get_field_def [of j "''constructor_arguments''"] get_field_def [of j "''arguments''"] get_field_def [of j "''output''"])
  moreover have "contract_ok ?c" using ok k'(2) a'(2) o'(2) by (simp add: contract_ok_def)
  moreover have "same_json (contract_json ?c) (contract_json c)"
    unfolding contract_json_def by (rule same_obj) (simp add: k'(3) a'(3) o'(3))
  ultimately show ?thesis using k'(3) a'(3) o'(3) by auto
qed

interpretation contract_codec: json_codec contract_json contract_of_json contract_ok
  by unfold_locales (use contract_reads in blast)

section \<open>Contracts of selections\<close>

lemma strip_strip [simp]: "strip (strip s) = strip s"
proof -
  have dw: "dropWhile p (dropWhile p xs) = dropWhile p xs" for p :: "char \<Rightarrow> bool" and xs by (induction xs) auto
  have keep: "dropWhile p (rev (dropWhile p (rev (dropWhile p xs)))) = rev (dropWhile p (rev (dropWhile p xs)))" for p :: "char \<Rightarrow> bool" and xs
  proof (cases "dropWhile p xs")
    case (Cons y ys)
    then have y: "\<not> p y" using hd_dropWhile [of p xs] by (metis list.distinct(1) list.sel(1))
    have "\<exists>zs. rev (dropWhile p (rev ys @ [y])) = y # zs" using y by (auto simp: dropWhile_append intro: exI [of _ "rev (dropWhile p (rev ys))"])
    then show ?thesis using Cons y by auto
  next
    case Nil
    show ?thesis unfolding Nil by simp
  qed
  show ?thesis by (simp add: strip_def dw keep)
qed

lemma make_metadata_idem: "make_metadata m = Inr n \<Longrightarrow> make_metadata n = Inr n"
  by (auto simp: make_metadata_def Let_def split: if_splits)

lemma make_parameter_spec_idem: "make_parameter_spec s = Inr t \<Longrightarrow> spec_ok t"
  by (auto simp: spec_ok_def make_parameter_spec_def Let_def split: if_splits)

lemma selection_binding_ok: "selection_binding v = Inr b \<Longrightarrow> binding_ok b"
  using make_parameter_spec_idem
  by (auto simp: selection_binding_def result_bind_ok map_sum_Inr make_binding_def binding_ok_def split: if_splits)

lemma each_value_ok:
  assumes "each_value f d = Inr d'" "\<And>x y. f x = Inr y \<Longrightarrow> p y" "distinct (map fst d)"
  shows "dict_ok p d'"
proof -
  have "list_all p (map snd d') \<and> map fst d' = map fst d" using assms(1)
  proof (induction d arbitrary: d')
    case (Cons e d)
    obtain k v where e: "e = (k, v)" by fastforce
    from Cons.prems obtain w d2 where w: "f v = Inr w" "each_value f d = Inr d2" "d' = (k, w) # d2" by (auto simp: e result_bind_ok map_sum_Inr)
    show ?case using Cons.IH [OF w(2)] assms(2) [OF w(1)] w(3) e by simp
  qed simp
  then show ?thesis using assms(3) by (simp add: dict_ok_def)
qed

text \<open>A python path that normalization leaves as it is also passes it a second time.\<close>

lemma make_source_stable:
  assumes "make_source s = Inr t" "so_python_path t = so_python_path s"
  shows "make_source t = Inr t"
proof -
  have "t = s" using assms by (auto simp: make_source_def Let_def split: if_splits)
  then show ?thesis using assms(1) by simp
qed

lemma selected_contract_ok:
  assumes "selection_to_virtual_contract sel ref = Inr c" "so_python_path (vc_source c) = cr_python_root sel"
    and "distinct (map fst (cr_constructor_bindings sel))" "distinct (map fst (cr_argument_bindings sel))" "distinct (map fst (out_metadata (cr_output sel)))"
  shows "contract_ok c"
proof -
  let ?s = "\<lparr>so_source_revision = cr_source_revision sel, so_python_path = cr_python_root sel, so_source_ref = ref\<rparr>"
  from assms(1) have m: "make_metadata (cr_operator sel) = Inr (vc_metadata c)" and s: "make_source ?s = Inr (vc_source c)"
    and k: "each_value selection_binding (cr_constructor_bindings sel) = Inr (vc_constructor_arguments c)"
    and a: "each_value selection_binding (cr_argument_bindings sel) = Inr (vc_arguments c)"
    and p: "make_output_value (out_payload (cr_output sel)) = Inr (out_payload (vc_output c))"
    and o': "each_value make_output_value (out_metadata (cr_output sel)) = Inr (out_metadata (vc_output c))"
    by (auto simp: selection_to_virtual_contract_def result_bind_ok)
  have vok: "make_output_value x = Inr y \<Longrightarrow> value_ok y" for x y by (auto simp: make_output_value_def value_ok_def split: if_splits)
  show ?thesis
    using make_metadata_idem [OF m] make_source_stable [OF s] assms(2) each_value_ok [OF k selection_binding_ok assms(3)] each_value_ok [OF a selection_binding_ok assms(4)]
      vok [OF p] each_value_ok [OF o' vok assms(5)] by (simp add: contract_ok_def output_ok_def)
qed

end
