(* ===== verification/Contract_Stability.thy ===== *)
theory Contract_Stability
  imports Contract_Reader
begin

text \<open>
  The compiler does not depend on the order of a contract's keys: a contract that is equal to one that compiles up to that order
  (as it is after it was stored in a \<open>jsonb\<close> column) compiles too, to a plan with the same digest, target and attributes.
\<close>

section \<open>Equality of Python values\<close>

lemma bools_sort_keys: "sort_keys (bools_as_ints j) = bools_as_ints (sort_keys j)"
proof (induction j rule: sort_keys.induct)
  case (2 kvs)
  let ?b = "\<lambda>(k, v). (k, bools_as_ints v)" and ?s = "\<lambda>(k, v). (k, sort_keys v)"
  have "map ?s (map ?b kvs) = map ?b (map ?s kvs)" using 2 by auto
  moreover have "sort_key fst (map ?b l) = map ?b (sort_key fst l)" for l :: "(string \<times> json) list"
    by (rule sort_key_map) (simp add: case_prod_beta)
  ultimately show ?case by (metis bools_as_ints.simps(3) sort_keys.simps(2))
qed simp_all

lemma same_json_py_equal: "same_json a b \<Longrightarrow> py_equal a b"
  by (simp add: py_equal_def bools_sort_keys same_json_def)

lemma py_equal_equiv: "py_equal a a" "py_equal a b \<Longrightarrow> py_equal b a" "py_equal a b \<Longrightarrow> py_equal b c \<Longrightarrow> py_equal a c"
  by (simp_all add: py_equal_def)

lemma same_parameter_equiv:
  "same_parameter x x" "same_parameter x y \<Longrightarrow> same_parameter y x" "same_parameter x y \<Longrightarrow> same_parameter y z \<Longrightarrow> same_parameter x z"
  by (simp_all add: same_parameter_def py_equal_def)

section \<open>Bindings with the same dump\<close>

definition same_spec :: "parameter_spec \<Rightarrow> parameter_spec \<Rightarrow> bool" where
  "same_spec s t \<longleftrightarrow> os_key s = os_key t \<and> os_display_name s = os_display_name t \<and> os_description s = os_description t \<and> os_required s = os_required t \<and>
     os_has_default s = os_has_default t \<and> same_json (os_default s) (os_default t)"

definition same_binding :: "argument_binding \<Rightarrow> argument_binding \<Rightarrow> bool" where
  "same_binding b c \<longleftrightarrow> ab_source b = ab_source c \<and> ab_metadata_key b = ab_metadata_key c \<and> rel_option same_spec (ab_parameter b) (ab_parameter c)"

lemma same_field:
  assumes "same_json (JObj kvs) (JObj kvs')" "distinct (map fst kvs')"
  shows "map_option sort_keys (map_of kvs k) = map_option sort_keys (map_of kvs' k)"
proof -
  obtain l where "JObj kvs = JObj l" "distinct (map fst l)" "set (map fst l) = set (map fst kvs')"
    "\<forall>k. map_option sort_keys (map_of l k) = map_option sort_keys (map_of kvs' k)" by (rule same_members [OF assms])
  then show ?thesis by simp
qed

lemma same_spec_dump: "same_json (parameter_spec_json s) (parameter_spec_json t) \<Longrightarrow> same_spec s t"
proof -
  assume "same_json (parameter_spec_json s) (parameter_spec_json t)"
  note f = same_field [OF this [unfolded parameter_spec_json_def]]
  show ?thesis using f [of "''key''"] f [of "''display_name''"] f [of "''description''"] f [of "''required''"] f [of "''has_default''"] f [of "''default''"]
    by (simp add: same_spec_def same_json_def)
qed

lemma same_binding_dump: "same_json (binding_json b) (binding_json c) \<Longrightarrow> same_binding b c"
proof -
  assume "same_json (binding_json b) (binding_json c)"
  note f = same_field [OF this [unfolded binding_json_def]]
  have "ab_source b = ab_source c" using f [of "''source''"] enum_texts_inj(2) by (simp add: inj_eq)
  moreover have "ab_metadata_key b = ab_metadata_key c" using f [of "''metadata_key''"] by (simp add: json_opt_def split: option.splits)
  moreover have "rel_option same_spec (ab_parameter b) (ab_parameter c)"
    using f [of "''parameter''"] same_spec_dump
    by (cases "ab_parameter b"; cases "ab_parameter c") (auto simp: same_json_def parameter_spec_json_def)
  ultimately show ?thesis by (simp add: same_binding_def)
qed

lemma same_dict:
  assumes "same_json (JObj (map (\<lambda>(k, x). (k, enc x)) d)) (JObj (map (\<lambda>(k, x). (k, enc x)) d'))" "distinct (map fst d)" "distinct (map fst d')"
  shows "fst ` set d = fst ` set d'" "(k, x) \<in> set d \<Longrightarrow> \<exists>y. (k, y) \<in> set d' \<and> same_json (enc x) (enc y)"
proof -
  let ?e = "map (\<lambda>(k, x). (k, enc x))"
  have keys: "map fst (?e l) = map fst l" for l :: "(string \<times> 'a) list" by (induction l) auto
  have lk: "map_of (?e l) k = map_option enc (map_of l k)" for l :: "(string \<times> 'a) list" and k by (induction l) auto
  have f: "map_option sort_keys (map_option enc (map_of d k)) = map_option sort_keys (map_option enc (map_of d' k))" for k
    using same_field [OF assms(1) assms(3) [folded keys [of d']], of k] unfolding lk .
  have "k \<in> fst ` set d \<longleftrightarrow> k \<in> fst ` set d'" for k
    using f [of k] by (metis map_of_eq_None_iff option.map_disc_iff)
  then show "fst ` set d = fst ` set d'" by blast
  assume "(k, x) \<in> set d"
  then have "map_of d k = Some x" using assms(2) by simp
  then obtain y where "map_of d' k = Some y" "sort_keys (enc x) = sort_keys (enc y)" using f [of k] by (cases "map_of d' k") auto
  then show "\<exists>y. (k, y) \<in> set d' \<and> same_json (enc x) (enc y)" by (auto simp: same_json_def dest: map_of_SomeD)
qed

section \<open>When bindings compile\<close>

lemma validate_bindings_iff:
  "validate_bindings ps d label = Inr () \<longleftrightarrow>
     (\<forall>n\<in>fst ` set d. parameter_map ps n \<noteq> None) \<and> (\<forall>p\<in>set ps. pi_required p \<longrightarrow> pi_name p \<in> fst ` set d)"
  by (auto simp: validate_bindings_def Let_def filter_empty_conv map_of_eq_None_iff)

text \<open>The parameter that a binding defines, and the definitions of a dictionary of bindings.\<close>

definition defined_parameter :: "parameter_info list \<Rightarrow> string \<Rightarrow> argument_binding \<Rightarrow> compiled_parameter option" where
  "defined_parameter ps name b =
     (if ab_source b = OPERATOR_PARAMETER then
        (case (parameter_map ps name, ab_parameter b) of (Some p, Some s) \<Rightarrow> Some (compiled_parameter_of p s) | _ \<Rightarrow> None)
      else None)"

definition definitions_of :: "parameter_info list \<Rightarrow> (string, argument_binding) dict \<Rightarrow> compiled_parameter set" where
  "definitions_of ps d = {x. \<exists>(name, b)\<in>set d. defined_parameter ps name b = Some x}"

definition consistent :: "compiled_parameter set \<Rightarrow> bool" where
  "consistent X \<longleftrightarrow> (\<forall>x\<in>X. \<forall>y\<in>X. cp_key x = cp_key y \<longrightarrow> same_parameter x y)"

definition table_ok :: "parameter_table \<Rightarrow> bool" where
  "table_ok tab \<longleftrightarrow> (\<forall>(k, x)\<in>set tab. k = cp_key x) \<and> distinct (map fst tab)"

definition complete_binding :: "parameter_info list \<Rightarrow> string \<times> argument_binding \<Rightarrow> bool" where
  "complete_binding ps e \<longleftrightarrow> parameter_map ps (fst e) \<noteq> None \<and> (ab_source (snd e) = OPERATOR_PARAMETER \<longrightarrow> ab_parameter (snd e) \<noteq> None)"

lemma compile_binding_cases:
  assumes "parameter_map ps name = Some p" "table_ok tab"
  shows "case defined_parameter ps name b of
      None \<Rightarrow> if ab_source b = OPERATOR_PARAMETER then \<not> is_ok (compile_binding p b tab) else \<exists>c. compile_binding p b tab = Inr (c, tab) \<and> cb_source c = ab_source b \<and> cb_metadata_key c = ab_metadata_key b
    | Some x \<Rightarrow>
        (if \<exists>y\<in>snd ` set tab. cp_key y = cp_key x \<and> \<not> same_parameter y x then \<not> is_ok (compile_binding p b tab)
         else \<exists>c. compile_binding p b tab = Inr (c, AList.update (cp_key x) x tab) \<and> cb_source c = ab_source b \<and> cb_metadata_key c = ab_metadata_key b)"
proof (cases "defined_parameter ps name b")
  case None
  then show ?thesis using assms(1) by (auto simp: defined_parameter_def compile_binding_def Let_def split: option.splits if_splits)
next
  case (Some x)
  then obtain s where s: "ab_source b = OPERATOR_PARAMETER" "ab_parameter b = Some s" "x = compiled_parameter_of p s"
    using assms(1) by (auto simp: defined_parameter_def split: if_splits option.splits)
  have key: "cp_key x = os_key s" by (simp add: s(3) compiled_parameter_of_def)
  have clash: "(\<exists>y\<in>snd ` set tab. cp_key y = cp_key x \<and> \<not> same_parameter y x) \<longleftrightarrow> (case map_of tab (os_key s) of None \<Rightarrow> False | Some y \<Rightarrow> \<not> same_parameter y x)"
  proof (cases "map_of tab (os_key s)")
    case None
    then have "os_key s \<notin> fst ` set tab" by (simp add: map_of_eq_None_iff)
    then have "cp_key y \<noteq> os_key s" if "y \<in> snd ` set tab" for y using that assms(2) by (force simp: table_ok_def)
    then show ?thesis using None key by auto
  next
    case (Some y)
    have uniq: "z = y" if "z \<in> snd ` set tab" "cp_key z = os_key s" for z
    proof -
      obtain k where "(k, z) \<in> set tab" using \<open>z \<in> snd ` set tab\<close> by force
      then have "map_of tab (cp_key z) = Some z" using assms(2) by (auto simp: table_ok_def)
      then show ?thesis using Some that(2) by simp
    qed
    have mem: "y \<in> snd ` set tab" using map_of_SomeD [OF Some] by (metis image_eqI snd_conv)
    have "cp_key y = os_key s" using map_of_SomeD [OF Some] assms(2) unfolding table_ok_def by auto
    then show ?thesis unfolding Some key option.case using uniq mem by metis
  qed
  let ?c = "\<lparr>cb_source = ab_source b, cb_codec = ab_codec b, cb_required = cp_required x, cb_metadata_key = ab_metadata_key b,
      cb_parameter_key = Some (os_key s), cb_constant = ab_constant b, cb_default = Some (cp_has_default x, cp_default x)\<rparr>"
  have "compile_binding p b tab = (if case map_of tab (os_key s) of None \<Rightarrow> False | Some y \<Rightarrow> \<not> same_parameter y x
      then Inl (compile_error (''conflicting definitions for operator parameter '' @ os_key s)) else Inr (?c, AList.update (os_key s) x tab))"
    unfolding s(3) using s(1,2) by (simp add: compile_binding_def Let_def)
  then show ?thesis unfolding Some option.case clash unfolding key
    by (cases "case map_of tab (os_key s) of None \<Rightarrow> False | Some y \<Rightarrow> \<not> same_parameter y x") simp_all
qed

lemma update_subset: "set (AList.update k v al) \<subseteq> insert (k, v) (set al)"
  by (induction al) auto

lemma table_ok_update:
  assumes "table_ok tab"
  shows "table_ok (AList.update (cp_key x) x tab)" "snd ` set (AList.update (cp_key x) x tab) \<subseteq> insert x (snd ` set tab)"
proof -
  have sub: "e \<in> insert (cp_key x, x) (set tab)" if "e \<in> set (AList.update (cp_key x) x tab)" for e
    using that update_subset [of "cp_key x" x tab] by blast
  have "distinct (map fst (AList.update (cp_key x) x tab))" by (rule distinct_update) (use assms in \<open>simp add: table_ok_def\<close>)
  moreover have "fst e = cp_key (snd e)" if "e \<in> set (AList.update (cp_key x) x tab)" for e
    using sub [OF that] assms by (auto simp: table_ok_def)
  ultimately show "table_ok (AList.update (cp_key x) x tab)" by (auto simp: table_ok_def)
  show "snd ` set (AList.update (cp_key x) x tab) \<subseteq> insert x (snd ` set tab)" using sub by force
qed

lemma consistent_mono: "consistent Y \<Longrightarrow> X \<subseteq> Y \<Longrightarrow> consistent X"
  by (auto simp: consistent_def)

lemma consistent_same:
  assumes "consistent X" "\<And>y. y \<in> Y \<Longrightarrow> \<exists>x\<in>X. cp_key x = cp_key y \<and> same_parameter x y"
  shows "consistent Y"
  unfolding consistent_def
proof (intro ballI impI)
  fix u v assume uv: "u \<in> Y" "v \<in> Y" "cp_key u = cp_key v"
  obtain a where a: "a \<in> X" "cp_key a = cp_key u" "same_parameter a u" using assms(2) [OF uv(1)] by blast
  obtain b where b: "b \<in> X" "cp_key b = cp_key v" "same_parameter b v" using assms(2) [OF uv(2)] by blast
  have "same_parameter a b" using assms(1) a(1,2) b(1,2) uv(3) by (simp add: consistent_def)
  then have "same_parameter a v" using b(3) same_parameter_equiv(3) by blast
  then show "same_parameter u v" using same_parameter_equiv(3) [OF same_parameter_equiv(2) [OF a(3)]] by blast
qed

text \<open>An entry that replaces one with the same definition.\<close>

lemma consistent_replace:
  assumes "consistent (X \<union> D)" "x \<in> X" "Y \<subseteq> {y. cp_key y = cp_key x \<and> same_parameter y x} \<union> X"
  shows "consistent (Y \<union> insert x D)"
proof (rule consistent_same [OF assms(1)])
  fix y assume "y \<in> Y \<union> insert x D"
  then consider "y \<in> X \<union> D" | "cp_key y = cp_key x" "same_parameter y x" using assms(2,3) by auto
  then show "\<exists>z\<in>X \<union> D. cp_key z = cp_key y \<and> same_parameter z y"
  proof cases
    case 1
    then show ?thesis using same_parameter_equiv(1) by blast
  next
    case 2
    then show ?thesis using assms(2) same_parameter_equiv(2) by (intro bexI [of _ x]) auto
  qed
qed

lemma definitions_Cons:
  "definitions_of ps ((name, b) # d) = (case defined_parameter ps name b of None \<Rightarrow> {} | Some x \<Rightarrow> {x}) \<union> definitions_of ps d"
  by (auto simp: definitions_of_def split: option.splits)

lemma updated_members: "y \<in> snd ` set tab \<Longrightarrow> table_ok tab \<Longrightarrow> y \<in> snd ` set (AList.update (cp_key x) x tab) \<or> cp_key y = cp_key x"
proof -
  assume "y \<in> snd ` set tab" "table_ok tab"
  then have y: "map_of tab (cp_key y) = Some y" by (force simp: table_ok_def)
  show ?thesis
  proof (cases "cp_key y = cp_key x")
    case False
    then have "map_of (AList.update (cp_key x) x tab) (cp_key y) = Some y" using y by (simp add: update_conv')
    then show ?thesis using map_of_SomeD by (metis image_eqI snd_conv)
  qed simp
qed

lemma updated_new: "x \<in> snd ` set (AList.update (cp_key x) x tab)"
proof -
  have "map_of (AList.update (cp_key x) x tab) (cp_key x) = Some x" by (simp add: update_conv')
  then show ?thesis using map_of_SomeD by (metis image_eqI snd_conv)
qed

definition binding_use :: "string \<times> argument_binding \<Rightarrow> binding_source \<times> string option" where
  "binding_use e = (ab_source (snd e), ab_metadata_key (snd e))"

definition uses :: "compiled_binding \<Rightarrow> binding_source \<times> string option" where
  "uses b = (cb_source b, cb_metadata_key b)"

lemma compile_bindings_sound:
  assumes "compile_bindings ps d tab = Inr (cs, tab')" "table_ok tab" "consistent (snd ` set tab)"
  shows "list_all (complete_binding ps) d \<and> consistent (snd ` set tab \<union> definitions_of ps d) \<and> table_ok tab' \<and>
    snd ` set tab' \<subseteq> snd ` set tab \<union> definitions_of ps d \<and> consistent (snd ` set tab') \<and>
    map (uses \<circ> snd) cs = map binding_use d"
  using assms
proof (induction ps d tab arbitrary: cs tab' rule: compile_bindings.induct)
  case (1 ps tab)
  then show ?case by (simp add: definitions_of_def)
next
  case (2 ps name b d tab)
  from "2.prems"(1) obtain p c tab1 cs1 where p: "parameter_map ps name = Some p" "compile_binding p b tab = Inr (c, tab1)"
    "compile_bindings ps d tab1 = Inr (cs1, tab')" "cs = (name, c) # cs1" by (auto simp: result_bind_ok map_sum_Inr split: option.splits)
  note cb = compile_binding_cases [OF p(1) "2.prems"(2), of b]
  show ?case
  proof (cases "defined_parameter ps name b")
    case None
    then have c: "tab1 = tab" "cb_source c = ab_source b" "cb_metadata_key c = ab_metadata_key b" "ab_source b \<noteq> OPERATOR_PARAMETER"
      using cb p(2) by (auto split: if_splits)
    note ih = "2.IH" [OF p(1) p(3) "2.prems"(2) [folded c(1)] "2.prems"(3) [folded c(1)], unfolded c(1)]
    show ?thesis using ih None c p(1,4) by (simp add: definitions_Cons complete_binding_def uses_def binding_use_def)
  next
    case (Some x)
    have nc: "\<not> (\<exists>y\<in>snd ` set tab. cp_key y = cp_key x \<and> \<not> same_parameter y x)" using cb p(2) Some by (auto split: if_splits)
    with cb p(2) Some have c: "tab1 = AList.update (cp_key x) x tab" "cb_source c = ab_source b" "cb_metadata_key c = ab_metadata_key b"
      by (auto split: if_splits)
    note t1 = table_ok_update [OF "2.prems"(2), of x, folded c(1)]
    have "consistent (insert x (snd ` set tab))"
      using "2.prems"(3) nc same_parameter_equiv(1,2) unfolding consistent_def by (metis insert_iff)
    then have "consistent (snd ` set tab1)" using t1(2) by (rule consistent_mono)
    note ih = "2.IH" [OF p(1) p(3) t1(1) this]
    have "snd ` set tab \<subseteq> {y. cp_key y = cp_key x \<and> same_parameter y x} \<union> snd ` set tab1"
      using updated_members [OF _ "2.prems"(2), of _ x] nc unfolding c(1) by blast
    then have "consistent (snd ` set tab \<union> insert x (definitions_of ps d))"
      using consistent_replace [of "snd ` set tab1" "definitions_of ps d" x "snd ` set tab"] ih updated_new [of x tab, folded c(1)] by blast
    moreover have "complete_binding ps (name, b)" using Some p(1) by (auto simp: complete_binding_def defined_parameter_def split: if_splits option.splits)
    moreover have "snd ` set tab' \<subseteq> snd ` set tab \<union> insert x (definitions_of ps d)" using ih t1(2) by blast
    ultimately show ?thesis using ih Some c p(4) by (simp add: definitions_Cons uses_def binding_use_def)
  qed
qed

text \<open>Every definition has one like it in the table that results.\<close>

lemma compile_bindings_covers:
  assumes "compile_bindings ps d tab = Inr (cs, tab')" "table_ok tab" "consistent (snd ` set tab)" "x \<in> snd ` set tab \<union> definitions_of ps d"
  shows "\<exists>y\<in>snd ` set tab'. cp_key y = cp_key x \<and> same_parameter y x"
  using assms
proof (induction ps d tab arbitrary: cs tab' x rule: compile_bindings.induct)
  case (1 ps tab)
  then show ?case using same_parameter_equiv(1) by (auto simp: definitions_of_def)
next
  case (2 ps name b d tab)
  from "2.prems"(1) obtain p c tab1 cs1 where p: "parameter_map ps name = Some p" "compile_binding p b tab = Inr (c, tab1)"
    "compile_bindings ps d tab1 = Inr (cs1, tab')" by (auto simp: result_bind_ok map_sum_Inr split: option.splits)
  note cb = compile_binding_cases [OF p(1) "2.prems"(2), of b]
  show ?case
  proof (cases "defined_parameter ps name b")
    case None
    then have c: "tab1 = tab" using cb p(2) by (auto split: if_splits)
    show ?thesis
      by (rule "2.IH" [OF p(1) p(3) "2.prems"(2) [folded c] "2.prems"(3) [folded c]]) (use "2.prems"(4) None c in \<open>simp add: definitions_Cons\<close>)
  next
    case (Some z)
    have nc: "\<not> (\<exists>y\<in>snd ` set tab. cp_key y = cp_key z \<and> \<not> same_parameter y z)" using cb p(2) Some by (auto split: if_splits)
    with cb p(2) Some have c: "tab1 = AList.update (cp_key z) z tab" by (auto split: if_splits)
    note t1 = table_ok_update [OF "2.prems"(2), of z, folded c]
    have "consistent (insert z (snd ` set tab))"
      using "2.prems"(3) nc same_parameter_equiv(1,2) unfolding consistent_def by (metis insert_iff)
    then have con: "consistent (snd ` set tab1)" using t1(2) by (rule consistent_mono)
    note ih = "2.IH" [OF p(1) p(3) t1(1) con]
    have new: "z \<in> snd ` set tab1" unfolding c by (rule updated_new)
    have x: "x \<in> snd ` set tab \<or> x = z \<or> x \<in> definitions_of ps d" using "2.prems"(4) Some by (auto simp: definitions_Cons)
    have "\<exists>u\<in>snd ` set tab1 \<union> definitions_of ps d. cp_key u = cp_key x \<and> same_parameter u x"
    proof (cases "x \<in> snd ` set tab1 \<union> definitions_of ps d")
      case False
      then have "x \<in> snd ` set tab" using x new by blast
      moreover from this have "cp_key x = cp_key z" using updated_members [OF _ "2.prems"(2), of x z, folded c] False by blast
      ultimately have "same_parameter z x" using nc same_parameter_equiv(2) by blast
      then show ?thesis using new \<open>cp_key x = cp_key z\<close> by (intro bexI [of _ z]) auto
    qed (use same_parameter_equiv(1) in blast)
    then obtain u where u: "u \<in> snd ` set tab1 \<union> definitions_of ps d" "cp_key u = cp_key x" "same_parameter u x" by blast
    from ih [OF u(1)] show ?thesis using u(2,3) same_parameter_equiv(3) by metis
  qed
qed

lemma compile_bindings_complete:
  assumes "list_all (complete_binding ps) d" "table_ok tab" "consistent (snd ` set tab \<union> definitions_of ps d)"
  shows "\<exists>cs tab'. compile_bindings ps d tab = Inr (cs, tab')"
  using assms
proof (induction ps d tab rule: compile_bindings.induct)
  case (2 ps name b d tab)
  obtain p where p: "parameter_map ps name = Some p" using "2.prems"(1) by (auto simp: complete_binding_def)
  note cb = compile_binding_cases [OF p "2.prems"(2), of b]
  obtain c tab1 where c: "compile_binding p b tab = Inr (c, tab1)" "table_ok tab1" "consistent (snd ` set tab1 \<union> definitions_of ps d)"
  proof (cases "defined_parameter ps name b")
    case None
    then have "ab_source b \<noteq> OPERATOR_PARAMETER" using "2.prems"(1) p by (auto simp: complete_binding_def defined_parameter_def split: if_splits option.splits)
    then obtain c where "compile_binding p b tab = Inr (c, tab)" using cb None by auto
    then show thesis using that [of c tab] None "2.prems"(2,3) by (simp add: definitions_Cons)
  next
    case (Some x)
    have con: "consistent (snd ` set tab \<union> insert x (definitions_of ps d))" using "2.prems"(3) Some by (simp add: definitions_Cons)
    then have nc: "\<not> (\<exists>y\<in>snd ` set tab. cp_key y = cp_key x \<and> \<not> same_parameter y x)" by (auto simp: consistent_def)
    from cb [unfolded Some option.case if_not_P [OF nc]] obtain c where "compile_binding p b tab = Inr (c, AList.update (cp_key x) x tab)" by blast
    moreover note t1 = table_ok_update [OF "2.prems"(2), of x]
    moreover have "consistent (snd ` set (AList.update (cp_key x) x tab) \<union> definitions_of ps d)"
      by (rule consistent_mono [OF con]) (use t1(2) in blast)
    ultimately show thesis using that by blast
  qed
  have "list_all (complete_binding ps) d" using "2.prems"(1) by simp
  from "2.IH" [OF p this c(2,3)] show ?case using p c(1) by auto
qed simp

section \<open>Contracts\<close>

text \<open>Bindings of the same names with the same dumps.\<close>

definition same_bindings :: "(string, argument_binding) dict \<Rightarrow> (string, argument_binding) dict \<Rightarrow> bool" where
  "same_bindings d d' \<longleftrightarrow> fst ` set d = fst ` set d' \<and> (\<forall>(k, b)\<in>set d. \<exists>b'. (k, b') \<in> set d' \<and> same_binding b b') \<and>
     (\<forall>(k, b')\<in>set d'. \<exists>b. (k, b) \<in> set d \<and> same_binding b b')"

lemma same_bindings_dump:
  assumes "same_json (JObj (map (\<lambda>(k, b). (k, binding_json b)) d')) (JObj (map (\<lambda>(k, b). (k, binding_json b)) d))" "dict_ok p d" "dict_ok p' d'"
  shows "same_bindings d d'"
proof -
  have dist: "distinct (map fst d)" "distinct (map fst d')" using assms(2,3) by (simp_all add: dict_ok_def)
  note fwd = same_dict [OF assms(1) dist(2,1)] and bwd = same_dict [OF same_json_sym [OF assms(1)] dist]
  have "\<exists>b'. (k, b') \<in> set d' \<and> same_binding b b'" if "(k, b) \<in> set d" for k b using bwd(2) [OF that] same_binding_dump by blast
  moreover have "\<exists>b. (k, b) \<in> set d \<and> same_binding b b'" if "(k, b') \<in> set d'" for k b'
    using fwd(2) [OF that] same_binding_dump same_json_sym by blast
  ultimately show ?thesis unfolding same_bindings_def using fwd(1) by auto
qed

lemma same_bindings_validate: "same_bindings d d' \<Longrightarrow> validate_bindings ps d label = Inr () \<longleftrightarrow> validate_bindings ps d' label = Inr ()"
  by (simp add: validate_bindings_iff same_bindings_def)

lemma same_bindings_empty: "same_bindings d d' \<Longrightarrow> d = [] \<longleftrightarrow> d' = []"
  by (auto simp: same_bindings_def)

lemma defined_same:
  assumes "same_binding b b'" "defined_parameter ps name b' = Some x'"
  shows "\<exists>x. defined_parameter ps name b = Some x \<and> cp_key x = cp_key x' \<and> same_parameter x x'"
proof -
  obtain p s' where s': "ab_source b' = OPERATOR_PARAMETER" "parameter_map ps name = Some p" "ab_parameter b' = Some s'" "x' = compiled_parameter_of p s'"
    using assms(2) by (auto simp: defined_parameter_def split: if_splits option.splits)
  then obtain s where s: "ab_source b = OPERATOR_PARAMETER" "ab_parameter b = Some s" "same_spec s s'"
    using assms(1) by (auto simp: same_binding_def option_rel_Some2)
  show ?thesis using s s' same_json_py_equal
    by (auto simp: defined_parameter_def same_spec_def same_parameter_def compiled_parameter_of_def)
qed

lemma same_bindings_definitions:
  assumes "same_bindings d d'" "x' \<in> definitions_of ps d'"
  shows "\<exists>x\<in>definitions_of ps d. cp_key x = cp_key x' \<and> same_parameter x x'"
proof -
  obtain name b' where b': "(name, b') \<in> set d'" "defined_parameter ps name b' = Some x'" using assms(2) by (auto simp: definitions_of_def)
  then obtain b where "(name, b) \<in> set d" "same_binding b b'" using assms(1) by (auto simp: same_bindings_def)
  then show ?thesis using defined_same [OF _ b'(2)] by (fastforce simp: definitions_of_def)
qed

lemma same_bindings_back: "same_bindings d d' \<Longrightarrow> (k, b') \<in> set d' \<Longrightarrow> \<exists>b. (k, b) \<in> set d \<and> same_binding b b'"
  by (auto simp: same_bindings_def)

lemma same_bindings_sym:
  assumes "same_bindings d d'"
  shows "(k, b) \<in> set d \<Longrightarrow> \<exists>b'. (k, b') \<in> set d' \<and> same_binding b b'"
  using assms by (auto simp: same_bindings_def)

lemma complete_same:
  assumes "same_bindings d d'" "list_all (complete_binding ps) d"
  shows "list_all (complete_binding ps) d'"
proof -
  have "complete_binding ps (k, b')" if b': "(k, b') \<in> set d'" for k b'
  proof -
    obtain b where b: "(k, b) \<in> set d" "same_binding b b'" using same_bindings_back [OF assms(1) b'] by blast
    have "complete_binding ps (k, b)" using assms(2) b(1) by (simp add: list_all_iff)
    then show ?thesis using b(2) by (auto simp: complete_binding_def same_binding_def option_rel_Some1)
  qed
  then show ?thesis by (auto simp: list_all_iff)
qed

lemma same_binding_use: "same_binding b b' \<Longrightarrow> binding_use (k, b) = binding_use (k, b')"
  by (simp add: same_binding_def binding_use_def)

lemma uses_same:
  assumes "same_bindings d d'"
  shows "binding_use ` set d' = binding_use ` set d"
proof (rule subset_antisym; rule image_subsetI)
  fix e assume "e \<in> set d'"
  then show "binding_use e \<in> binding_use ` set d"
    using same_bindings_back [OF assms, of "fst e" "snd e"] same_binding_use by (metis image_eqI prod.collapse)
next
  fix e assume "e \<in> set d"
  then show "binding_use e \<in> binding_use ` set d'"
    using same_bindings_sym [OF assms, of "fst e" "snd e"] same_binding_use by (metis image_eqI prod.collapse)
qed

lemma metadata_keys_uses:
  assumes "uses ` set bs = uses ` set bs'"
  shows "metadata_keys bs = metadata_keys bs'"
proof -
  let ?keys = "\<lambda>l. map (\<lambda>b. the (cb_metadata_key b)) (filter (\<lambda>b. cb_source b = INPUT_METADATA \<and> \<not> blank (cb_metadata_key b)) l)"
  have "set (?keys l) = (\<lambda>x. the (snd x)) ` {x \<in> uses ` set l. fst x = INPUT_METADATA \<and> \<not> blank (snd x)}" for l
    by (auto simp: uses_def image_image intro!: image_eqI [where x = "(INPUT_METADATA, _)"]) (force simp: uses_def)
  then have "set (?keys bs) = set (?keys bs')" using assms by simp
  then show ?thesis unfolding metadata_keys_def by (simp only: sorted_list_of_set_sort_remdups [symmetric])
qed

text \<open>The two dictionaries of bindings, compiled one after the other into one table.\<close>

lemma compile_both_stable:
  assumes k: "compile_bindings ks d [] = Inr (cs, tab1)" and a: "compile_bindings ps e tab1 = Inr (as, tab2)"
    and same: "same_bindings d d'" "same_bindings e e'"
  shows "\<exists>cs' tab1' as' tab2'. compile_bindings ks d' [] = Inr (cs', tab1') \<and> compile_bindings ps e' tab1' = Inr (as', tab2') \<and>
    metadata_keys (map snd cs' @ map snd as') = metadata_keys (map snd cs @ map snd as)"
proof -
  have nil: "table_ok []" "consistent (snd ` set [])" by (simp_all add: table_ok_def consistent_def)
  note ks = compile_bindings_sound [OF k nil]
  then have "consistent (snd ` set tab1)" "table_ok tab1" by blast+
  note as = compile_bindings_sound [OF a this(2,1)]
  let ?D = "definitions_of ks d" and ?E = "definitions_of ps e"
  have both: "consistent (?D \<union> ?E)"
  proof (rule consistent_same)
    show "consistent (snd ` set tab1 \<union> ?E)" using as by blast
    fix y assume "y \<in> ?D \<union> ?E"
    then show "\<exists>x\<in>snd ` set tab1 \<union> ?E. cp_key x = cp_key y \<and> same_parameter x y"
      using compile_bindings_covers [OF k nil] same_parameter_equiv(1) by blast
  qed
  have con': "consistent (definitions_of ks d' \<union> definitions_of ps e')"
    by (rule consistent_same [OF both]) (use same_bindings_definitions [OF same(1)] same_bindings_definitions [OF same(2)] in blast)
  obtain cs' tab1' where k': "compile_bindings ks d' [] = Inr (cs', tab1')"
    using compile_bindings_complete [OF complete_same [OF same(1)] nil(1), of ks] ks consistent_mono [OF con', of "definitions_of ks d'"] by (simp, blast)
  note ks' = compile_bindings_sound [OF k' nil]
  have "snd ` set tab1' \<union> definitions_of ps e' \<subseteq> definitions_of ks d' \<union> definitions_of ps e'" using ks' by auto
  from consistent_mono [OF con' this] obtain as' tab2' where a': "compile_bindings ps e' tab1' = Inr (as', tab2')"
    using compile_bindings_complete [OF complete_same [OF same(2)], of ps tab1'] ks' as by blast
  have "consistent (snd ` set tab1')" "table_ok tab1'" using ks' by blast+
  note as' = compile_bindings_sound [OF a' this(2,1)]
  have img: "uses ` set (map snd cs0 @ map snd as0) = set (map (uses \<circ> snd) cs0) \<union> set (map (uses \<circ> snd) as0)" for cs0 as0 :: "(string, compiled_binding) dict"
    by (simp add: image_Un image_image)
  have "uses ` set (map snd cs' @ map snd as') = uses ` set (map snd cs @ map snd as)"
    unfolding img using ks as ks' as' uses_same [OF same(1)] uses_same [OF same(2)] by simp
  then show ?thesis using k' a' metadata_keys_uses by blast
qed

lemma compile_stable:
  assumes comp: "compile_virtual_contract h c catalog = Inr plan"
    and src: "vc_source c' = vc_source c" "vc_callable_id c' = vc_callable_id c"
    and same: "same_bindings (vc_constructor_arguments c) (vc_constructor_arguments c')" "same_bindings (vc_arguments c) (vc_arguments c')"
    and out: "mset (map fst (out_metadata (vc_output c'))) = mset (map fst (out_metadata (vc_output c)))"
    and dump: "same_json (contract_json c') (contract_json c)"
  shows "\<exists>plan'. compile_virtual_contract h c' catalog = Inr plan' \<and> ep_contract_sha256 plan' = ep_contract_sha256 plan \<and> ep_target plan' = ep_target plan \<and>
    ep_input_metadata plan' = ep_input_metadata plan \<and> ep_output_metadata plan' = ep_output_metadata plan \<and> ep_python_path plan' = ep_python_path plan"
proof -
  from comp obtain ci ks cs tab1 as tab2 target where ci: "select_callable c catalog = Inr ci" and ks: "constructor_parameters c catalog ci = Inr ks"
    and va: "validate_bindings (ca_parameters ci) (vc_arguments c) ''invoke arguments'' = Inr ()"
    and k: "compile_bindings ks (vc_constructor_arguments c) [] = Inr (cs, tab1)" and a: "compile_bindings (ca_parameters ci) (vc_arguments c) tab1 = Inr (as, tab2)"
    and target: "make_target_payload ci = Inr target" and plan: "ep_contract_sha256 plan = contract_sha256 h c" "ep_target plan = target"
      "ep_input_metadata plan = metadata_keys (map snd cs @ map snd as)" "ep_output_metadata plan = sort (map fst (out_metadata (vc_output c)))"
      "ep_python_path plan = so_python_path (vc_source c)"
    by (auto simp: compile_virtual_contract_def result_bind_ok)
  have ci': "select_callable c' catalog = Inr ci" using ci unfolding select_callable_def src by (auto split: if_splits option.splits)
  have ks': "constructor_parameters c' catalog ci = Inr ks"
    using ks same_bindings_validate [OF same(1)] same_bindings_empty [OF same(1)]
    by (auto simp: constructor_parameters_def map_sum_Inr split: if_splits option.splits)
  have va': "validate_bindings (ca_parameters ci) (vc_arguments c') ''invoke arguments'' = Inr ()" using va same_bindings_validate [OF same(2)] by simp
  obtain cs' tab1' as' tab2' where b': "compile_bindings ks (vc_constructor_arguments c') [] = Inr (cs', tab1')"
    "compile_bindings (ca_parameters ci) (vc_arguments c') tab1' = Inr (as', tab2')"
    "metadata_keys (map snd cs' @ map snd as') = metadata_keys (map snd cs @ map snd as)" using compile_both_stable [OF k a same] by blast
  have "contract_sha256 h c' = contract_sha256 h c" using same_json_canonical [OF dump] by (simp add: contract_sha256_def)
  moreover have "sort (map fst (out_metadata (vc_output c'))) = sort (map fst (out_metadata (vc_output c)))"
    by (rule properties_for_sort) (simp_all only: mset_sort out sorted_sort)
  ultimately show ?thesis
    using ci' ks' va' b' target plan src by (auto simp: compile_virtual_contract_def)
qed

end
