(* ===== verification/Publish_Store.thy ===== *)
theory Publish_Store
  imports Contract_Compiler
begin

text \<open>
  \<^verbatim>\<open>publish_service/store.py\<close> on the tables of \<^verbatim>\<open>publish_service/schema.py\<close>: operators, contract versions, backend
  variants and publish jobs.  The database's \<open>now()\<close> and the values of \<open>uuid4()\<close> are arguments.  A transaction that meets a
  unique or not-null constraint raises and leaves the tables as they were.
\<close>

section \<open>Tables\<close>

record operator_row =
  op_id :: string
  op_workspace :: string
  op_name :: string
  op_display_name :: string
  op_description :: string
  op_created_at :: int
  op_updated_at :: int

record contract_row =
  ct_id :: string
  ct_operator_id :: string
  ct_version :: nat
  ct_source_revision :: string
  ct_source_ref :: string
  ct_sha256 :: string
  ct_json :: json
  ct_created_at :: int

datatype variant_status = COMPILED | PUBLISHED | VARIANT_FAILED

record variant_row =
  va_id :: string
  va_contract_id :: string
  va_backend :: string
  va_compiler_version :: string
  va_variant_key :: string
  va_options_json :: json
  va_contract_sha256 :: string
  va_contract_json :: json
  va_status :: variant_status
  va_published_ref :: "string option"
  va_published_metadata :: "json option"
  va_last_error :: "string option"
  va_created_at :: int
  va_updated_at :: int

datatype job_status = JOB_PENDING | JOB_RUNNING | JOB_READY | JOB_FAILED

record publish_job_row =
  pj_id :: string
  pj_variant_id :: string
  pj_status :: job_status
  pj_artifact_ref :: "string option"
  pj_result_json :: "json option"
  pj_error_message :: "string option"
  pj_created_at :: int
  pj_started_at :: "int option"
  pj_finished_at :: "int option"

record publish_db =
  pd_operators :: "operator_row list"
  pd_contracts :: "contract_row list"
  pd_variants :: "variant_row list"
  pd_jobs :: "publish_job_row list"

definition empty_publish_db :: publish_db where
  "empty_publish_db = \<lparr>pd_operators = [], pd_contracts = [], pd_variants = [], pd_jobs = []\<rparr>"

section \<open>Transactions\<close>

definition operator_match :: "string \<Rightarrow> string \<Rightarrow> operator_row \<Rightarrow> bool" where
  "operator_match workspace name r \<longleftrightarrow> op_workspace r = workspace \<and> op_name r = name"

text \<open>\<open>INSERT .. ON CONFLICT (workspace, name) DO UPDATE\<close>, lines 47 to 63.\<close>

definition upsert_operator :: "publish_db \<Rightarrow> string \<Rightarrow> int \<Rightarrow> string \<Rightarrow> virtual_contract \<Rightarrow> publish_db result" where
  "upsert_operator db uuid dbnow workspace c =
     (let m = vc_metadata c; p = operator_match workspace (om_name m) in
      if list_ex p (pd_operators db) then
        Inr (db\<lparr>pd_operators := update_where p
          (\<lambda>r. r\<lparr>op_display_name := om_display_name m, op_description := om_description m, op_updated_at := dbnow\<rparr>) (pd_operators db)\<rparr>)
      else if uuid \<in> op_id ` set (pd_operators db) then Inl unique_violation
      else Inr (db\<lparr>pd_operators := pd_operators db @
        [\<lparr>op_id = uuid, op_workspace = workspace, op_name = om_name m, op_display_name = om_display_name m, op_description = om_description m,
          op_created_at = dbnow, op_updated_at = dbnow\<rparr>]\<rparr>))"

definition versions_of :: "publish_db \<Rightarrow> string \<Rightarrow> nat list" where
  "versions_of db operator_id = map ct_version (filter (\<lambda>r. ct_operator_id r = operator_id) (pd_contracts db))"

definition next_version :: "publish_db \<Rightarrow> string \<Rightarrow> nat" where
  "next_version db operator_id = fold max (versions_of db operator_id) 0 + 1"

definition not_null_violation :: exn where
  "not_null_violation = PyExn ''NotNullViolation'' []"

definition save_virtual_contract :: "(bytes \<Rightarrow> string) \<Rightarrow> publish_db \<Rightarrow> string \<Rightarrow> string \<Rightarrow> int \<Rightarrow> string \<Rightarrow> virtual_contract \<Rightarrow>
    (operator_row \<times> contract_row \<times> bool) result \<times> publish_db" where
  "save_virtual_contract h db operator_uuid contract_uuid dbnow workspace c =
     (let digest = contract_sha256 h c in
      case upsert_operator db operator_uuid dbnow workspace c of
        Inl e \<Rightarrow> (Inl e, db)
      | Inr db1 \<Rightarrow>
          (case fetchone (operator_match workspace (om_name (vc_metadata c))) (pd_operators db1) of
             None \<Rightarrow> (Inl (PyExn ''RuntimeError'' ''failed to create or load logical operator''), db)
           | Some operator \<Rightarrow>
               (case fetchone (\<lambda>r. ct_operator_id r = op_id operator \<and> ct_sha256 r = digest) (pd_contracts db1) of
                  Some existing \<Rightarrow> (Inr (operator, existing, False), db1)
                | None \<Rightarrow>
                    (case so_source_ref (vc_source c) of
                       None \<Rightarrow> (Inl not_null_violation, db)
                     | Some source_ref \<Rightarrow>
                         if contract_uuid \<in> ct_id ` set (pd_contracts db1) then (Inl unique_violation, db)
                         else
                           let row = \<lparr>ct_id = contract_uuid, ct_operator_id = op_id operator, ct_version = next_version db1 (op_id operator),
                                ct_source_revision = so_source_revision (vc_source c), ct_source_ref = source_ref, ct_sha256 = digest,
                                ct_json = contract_json c, ct_created_at = dbnow\<rparr> in
                           (Inr (operator, row, True), db1\<lparr>pd_contracts := pd_contracts db1 @ [row]\<rparr>)))))"

definition publish_get_operator :: "publish_db \<Rightarrow> string \<Rightarrow> operator_row option" where
  "publish_get_operator db operator_id = fetchone (\<lambda>r. op_id r = operator_id) (pd_operators db)"

text \<open>\<open>ORDER BY version DESC LIMIT 1\<close>; versions of one operator are unique.\<close>

fun latest :: "contract_row list \<Rightarrow> contract_row option" where
  "latest [] = None"
| "latest (r # rs) = (case latest rs of None \<Rightarrow> Some r | Some s \<Rightarrow> Some (if ct_version r < ct_version s then s else r))"

definition get_latest_contract :: "publish_db \<Rightarrow> string \<Rightarrow> contract_row option" where
  "get_latest_contract db operator_id = latest (filter (\<lambda>r. ct_operator_id r = operator_id) (pd_contracts db))"

text \<open>A contract version joined with its operator.\<close>

definition get_contract :: "publish_db \<Rightarrow> string \<Rightarrow> (contract_row \<times> operator_row) option" where
  "get_contract db contract_id =
     (case fetchone (\<lambda>r. ct_id r = contract_id) (pd_contracts db) of
        None \<Rightarrow> None
      | Some c \<Rightarrow> map_option (Pair c) (fetchone (\<lambda>r. op_id r = ct_operator_id c) (pd_operators db)))"

text \<open>\<open>ORDER BY backend, created_at DESC\<close>.\<close>

definition list_variants :: "publish_db \<Rightarrow> string \<Rightarrow> variant_row list" where
  "list_variants db contract_id =
     sort_key (\<lambda>r. (va_backend r, - va_created_at r)) (filter (\<lambda>r. va_contract_id r = contract_id) (pd_variants db))"

record variant_args =
  ua_contract_id :: string
  ua_backend :: string
  ua_compiler_version :: string
  ua_variant_key :: string
  ua_options :: json
  ua_contract_sha256 :: string
  ua_contract :: json

definition variant_match :: "variant_args \<Rightarrow> variant_row \<Rightarrow> bool" where
  "variant_match a r \<longleftrightarrow> va_contract_id r = ua_contract_id a \<and> va_backend r = ua_backend a \<and> va_variant_key r = ua_variant_key a"

definition recompiled :: "int \<Rightarrow> variant_args \<Rightarrow> variant_row \<Rightarrow> variant_row" where
  "recompiled dbnow a r = r\<lparr>va_compiler_version := ua_compiler_version a, va_options_json := ua_options a, va_contract_sha256 := ua_contract_sha256 a,
     va_contract_json := ua_contract a, va_status := (if va_status r = PUBLISHED then PUBLISHED else COMPILED), va_last_error := None, va_updated_at := dbnow\<rparr>"

definition upsert_variant :: "publish_db \<Rightarrow> string \<Rightarrow> int \<Rightarrow> variant_args \<Rightarrow> variant_row result \<times> publish_db" where
  "upsert_variant db uuid dbnow a =
     (case fetchone (variant_match a) (pd_variants db) of
        Some r \<Rightarrow> (Inr (recompiled dbnow a r), db\<lparr>pd_variants := update_where (variant_match a) (recompiled dbnow a) (pd_variants db)\<rparr>)
      | None \<Rightarrow>
          if uuid \<in> va_id ` set (pd_variants db) then (Inl unique_violation, db)
          else
            let r = \<lparr>va_id = uuid, va_contract_id = ua_contract_id a, va_backend = ua_backend a, va_compiler_version = ua_compiler_version a,
                 va_variant_key = ua_variant_key a, va_options_json = ua_options a, va_contract_sha256 = ua_contract_sha256 a,
                 va_contract_json = ua_contract a, va_status = COMPILED, va_published_ref = None, va_published_metadata = None, va_last_error = None,
                 va_created_at = dbnow, va_updated_at = dbnow\<rparr> in
            (Inr r, db\<lparr>pd_variants := pd_variants db @ [r]\<rparr>))"

definition create_publish_job :: "publish_db \<Rightarrow> string \<Rightarrow> int \<Rightarrow> string \<Rightarrow> publish_job_row result \<times> publish_db" where
  "create_publish_job db uuid dbnow variant_id =
     (if uuid \<in> pj_id ` set (pd_jobs db) then (Inl unique_violation, db)
      else
        let r = \<lparr>pj_id = uuid, pj_variant_id = variant_id, pj_status = JOB_PENDING, pj_artifact_ref = None, pj_result_json = None,
             pj_error_message = None, pj_created_at = dbnow, pj_started_at = None, pj_finished_at = None\<rparr> in
        (Inr r, db\<lparr>pd_jobs := pd_jobs db @ [r]\<rparr>))"

definition mark_job_running :: "publish_db \<Rightarrow> int \<Rightarrow> string \<Rightarrow> publish_db" where
  "mark_job_running db dbnow job_id =
     db\<lparr>pd_jobs := update_where (\<lambda>j. pj_id j = job_id) (\<lambda>j. j\<lparr>pj_status := JOB_RUNNING, pj_started_at := Some dbnow\<rparr>) (pd_jobs db)\<rparr>"

definition mark_job_ready :: "publish_db \<Rightarrow> int \<Rightarrow> string \<Rightarrow> string \<Rightarrow> string \<Rightarrow> json \<Rightarrow> publish_db" where
  "mark_job_ready db dbnow job_id variant_id artifact_ref result =
     db\<lparr>pd_jobs := update_where (\<lambda>j. pj_id j = job_id)
          (\<lambda>j. j\<lparr>pj_status := JOB_READY, pj_artifact_ref := Some artifact_ref, pj_result_json := Some result, pj_error_message := None,
                 pj_finished_at := Some dbnow\<rparr>) (pd_jobs db),
        pd_variants := update_where (\<lambda>v. va_id v = variant_id)
          (\<lambda>v. v\<lparr>va_status := PUBLISHED, va_published_ref := Some artifact_ref, va_published_metadata := Some result, va_last_error := None,
                 va_updated_at := dbnow\<rparr>) (pd_variants db)\<rparr>"

definition mark_job_failed :: "publish_db \<Rightarrow> int \<Rightarrow> string \<Rightarrow> string \<Rightarrow> string \<Rightarrow> publish_db" where
  "mark_job_failed db dbnow job_id variant_id error_message =
     (let message = py_last 8192 error_message in
      db\<lparr>pd_jobs := update_where (\<lambda>j. pj_id j = job_id)
           (\<lambda>j. j\<lparr>pj_status := JOB_FAILED, pj_error_message := Some message, pj_finished_at := Some dbnow\<rparr>) (pd_jobs db),
         pd_variants := update_where (\<lambda>v. va_id v = variant_id)
           (\<lambda>v. v\<lparr>va_status := (if va_status v = PUBLISHED then PUBLISHED else VARIANT_FAILED), va_last_error := Some message,
                  va_updated_at := dbnow\<rparr>) (pd_variants db)\<rparr>)"

section \<open>Any sequence of transactions\<close>

inductive publish_step :: "(bytes \<Rightarrow> string) \<Rightarrow> publish_db \<Rightarrow> publish_db \<Rightarrow> bool" for h where
  save: "save_virtual_contract h db u1 u2 dbnow workspace c = (r, db') \<Longrightarrow> publish_step h db db'"
| upsert: "upsert_variant db u dbnow a = (r, db') \<Longrightarrow> publish_step h db db'"
| job: "create_publish_job db u dbnow v = (r, db') \<Longrightarrow> publish_step h db db'"
| running: "publish_step h db (mark_job_running db dbnow j)"
| ready: "publish_step h db (mark_job_ready db dbnow j v ref result)"
| failed: "publish_step h db (mark_job_failed db dbnow j v msg)"

definition operator_versions :: "contract_row list \<Rightarrow> string \<Rightarrow> nat list" where
  "operator_versions rs o_id = map ct_version (filter (\<lambda>r. ct_operator_id r = o_id) rs)"

definition contracts_ok :: "(bytes \<Rightarrow> string) \<Rightarrow> contract_row list \<Rightarrow> bool" where
  "contracts_ok h rs \<longleftrightarrow> distinct (map ct_id rs) \<and> distinct (map (\<lambda>r. (ct_operator_id r, ct_sha256 r)) rs) \<and>
     (\<forall>i. operator_versions rs i = [1..<Suc (length (operator_versions rs i))]) \<and>
     list_all (\<lambda>r. ct_sha256 r = h (canonical_json (ct_json r))) rs"

definition variant_identity :: "variant_row \<Rightarrow> string \<times> string \<times> string" where
  "variant_identity v = (va_contract_id v, va_backend v, va_variant_key v)"

definition variants_ok :: "variant_row list \<Rightarrow> bool" where
  "variants_ok vs \<longleftrightarrow> distinct (map va_id vs) \<and> distinct (map variant_identity vs) \<and>
     list_all (\<lambda>v. va_status v = PUBLISHED \<longrightarrow> va_published_ref v \<noteq> None) vs"

definition operators_ok :: "operator_row list \<Rightarrow> bool" where
  "operators_ok os \<longleftrightarrow> distinct (map op_id os) \<and> distinct (map (\<lambda>r. (op_workspace r, op_name r)) os)"

definition publish_inv :: "(bytes \<Rightarrow> string) \<Rightarrow> publish_db \<Rightarrow> bool" where
  "publish_inv h db \<longleftrightarrow> operators_ok (pd_operators db) \<and> contracts_ok h (pd_contracts db) \<and> variants_ok (pd_variants db)"

lemma fold_max_upt: "fold max [1..<Suc n] 0 = (n :: nat)"
  by (induction n) (simp_all add: max_def)

lemma next_version_eq:
  "contracts_ok h (pd_contracts db) \<Longrightarrow> next_version db i = Suc (length (operator_versions (pd_contracts db) i))"
  unfolding next_version_def versions_of_def contracts_ok_def operator_versions_def [symmetric] by (metis fold_max_upt Suc_eq_plus1)

lemma upsert_operator_ok:
  assumes "upsert_operator db u dbnow w c = Inr db'"
  shows "pd_contracts db' = pd_contracts db" "pd_variants db' = pd_variants db" "pd_jobs db' = pd_jobs db"
    "operators_ok (pd_operators db) \<Longrightarrow> operators_ok (pd_operators db')"
proof -
  show "pd_contracts db' = pd_contracts db" "pd_variants db' = pd_variants db" "pd_jobs db' = pd_jobs db"
    using assms by (auto simp: upsert_operator_def Let_def split: if_splits)
  assume ok: "operators_ok (pd_operators db)"
  have keep: "map op_id (update_where p (\<lambda>r. r\<lparr>op_display_name := a, op_description := b, op_updated_at := n\<rparr>) os) = map op_id os"
    "map (\<lambda>r. (op_workspace r, op_name r)) (update_where p (\<lambda>r. r\<lparr>op_display_name := a, op_description := b, op_updated_at := n\<rparr>) os) =
      map (\<lambda>r. (op_workspace r, op_name r)) os" for p a b n os
    by (rule map_update_where_key; simp)+
  show "operators_ok (pd_operators db')"
  proof (cases "list_ex (operator_match w (om_name (vc_metadata c))) (pd_operators db)")
    case True
    then show ?thesis using assms ok by (auto simp: upsert_operator_def Let_def operators_ok_def keep)
  next
    case False
    then have "(w, om_name (vc_metadata c)) \<notin> (\<lambda>r. (op_workspace r, op_name r)) ` set (pd_operators db)"
      by (auto simp: operator_match_def list_ex_iff)
    then show ?thesis using False assms ok by (auto simp: upsert_operator_def Let_def operators_ok_def split: if_splits)
  qed
qed

lemma append_contract_ok:
  assumes "contracts_ok h rs" "ct_id r \<notin> ct_id ` set rs" "fetchone (\<lambda>x. ct_operator_id x = ct_operator_id r \<and> ct_sha256 x = ct_sha256 r) rs = None"
    and "ct_version r = Suc (length (operator_versions rs (ct_operator_id r)))" "ct_sha256 r = h (canonical_json (ct_json r))"
  shows "contracts_ok h (rs @ [r])"
proof -
  have vs: "operator_versions rs i = [1..<Suc (length (operator_versions rs i))]" for i using assms(1) by (simp add: contracts_ok_def)
  have "operator_versions (rs @ [r]) i = [1..<Suc (length (operator_versions (rs @ [r]) i))]" for i
  proof (cases "ct_operator_id r = i")
    case True
    then have "operator_versions (rs @ [r]) i = operator_versions rs i @ [Suc (length (operator_versions rs i))]"
      using assms(4) by (simp add: operator_versions_def)
    then show ?thesis using vs [of i] by simp
  next
    case False
    then have "operator_versions (rs @ [r]) i = operator_versions rs i" by (simp add: operator_versions_def)
    then show ?thesis using vs [of i] by simp
  qed
  moreover have "(ct_operator_id r, ct_sha256 r) \<notin> (\<lambda>r. (ct_operator_id r, ct_sha256 r)) ` set rs" using assms(3) by (auto simp: fetchone_None)
  ultimately show ?thesis using assms(1,2,5) by (simp add: contracts_ok_def)
qed

text \<open>What a save does to the tables of contracts.\<close>

lemma save_contract_cases:
  assumes "save_virtual_contract h db u1 u2 dbnow w c = (r, db')"
  shows "db' = db \<and> (\<exists>e. r = Inl e) \<or>
    (\<exists>db1 op. upsert_operator db u1 dbnow w c = Inr db1 \<and> fetchone (operator_match w (om_name (vc_metadata c))) (pd_operators db1) = Some op \<and>
      (db' = db1 \<and> (\<exists>x. r = Inr (op, x, False) \<and> fetchone (\<lambda>r. ct_operator_id r = op_id op \<and> ct_sha256 r = contract_sha256 h c) (pd_contracts db1) = Some x) \<or>
       (\<exists>row. r = Inr (op, row, True) \<and> db' = db1\<lparr>pd_contracts := pd_contracts db1 @ [row]\<rparr> \<and> ct_id row \<notin> ct_id ` set (pd_contracts db1) \<and>
          fetchone (\<lambda>r. ct_operator_id r = op_id op \<and> ct_sha256 r = contract_sha256 h c) (pd_contracts db1) = None \<and>
          ct_operator_id row = op_id op \<and> ct_sha256 row = contract_sha256 h c \<and> ct_version row = next_version db1 (op_id op) \<and> ct_json row = contract_json c)))"
  using assms by (auto simp: save_virtual_contract_def Let_def split: sum.splits option.splits if_splits)

lemma save_inv:
  assumes "save_virtual_contract h db u1 u2 dbnow w c = (r, db')" "publish_inv h db"
  shows "publish_inv h db' \<and> set (pd_contracts db) \<subseteq> set (pd_contracts db') \<and> pd_variants db' = pd_variants db"
  using save_contract_cases [OF assms(1)]
proof (elim disjE conjE exE)
  assume "db' = db"
  then show ?thesis using assms(2) by simp
next
  fix db1 op
  assume up: "upsert_operator db u1 dbnow w c = Inr db1" and "db' = db1"
  then show ?thesis using upsert_operator_ok [OF up] assms(2) by (simp add: publish_inv_def)
next
  fix db1 op row
  assume up: "upsert_operator db u1 dbnow w c = Inr db1" and db': "db' = db1\<lparr>pd_contracts := pd_contracts db1 @ [row]\<rparr>"
    and row: "ct_id row \<notin> ct_id ` set (pd_contracts db1)"
      "fetchone (\<lambda>r. ct_operator_id r = op_id op \<and> ct_sha256 r = contract_sha256 h c) (pd_contracts db1) = None"
      "ct_operator_id row = op_id op" "ct_sha256 row = contract_sha256 h c" "ct_version row = next_version db1 (op_id op)" "ct_json row = contract_json c"
  note u = upsert_operator_ok [OF up]
  have ok: "contracts_ok h (pd_contracts db1)" using u(1) assms(2) by (simp add: publish_inv_def)
  have "contracts_ok h (pd_contracts db1 @ [row])"
    by (rule append_contract_ok [OF ok row(1)]) (use row next_version_eq [OF ok] in \<open>simp_all add: contract_sha256_def\<close>)
  then show ?thesis using u db' assms(2) by (auto simp: publish_inv_def)
qed

text \<open>Updates of variants that keep their identity, and publications that stay.\<close>

definition keeps_publication :: "variant_row \<Rightarrow> variant_row \<Rightarrow> bool" where
  "keeps_publication v v' \<longleftrightarrow> va_id v' = va_id v \<and> variant_identity v' = variant_identity v \<and>
     (va_status v = PUBLISHED \<longrightarrow> va_status v' = PUBLISHED) \<and> (va_published_ref v \<noteq> None \<longrightarrow> va_published_ref v' \<noteq> None) \<and>
     (va_status v' = PUBLISHED \<longrightarrow> va_status v = PUBLISHED \<or> va_published_ref v' \<noteq> None)"

lemma keeps_publication_refl [simp]: "keeps_publication v v"
  by (simp add: keeps_publication_def)

lemma keeps_publication_all: "set vs \<subseteq> set vs' \<Longrightarrow> \<forall>v\<in>set vs. \<exists>v'\<in>set vs'. keeps_publication v v'"
  using keeps_publication_refl by blast

lemma update_variants:
  assumes "variants_ok vs" "\<And>v. p v \<Longrightarrow> keeps_publication v (f v)"
  shows "variants_ok (update_where p f vs) \<and> (\<forall>v\<in>set vs. \<exists>v'\<in>set (update_where p f vs). keeps_publication v v')"
proof -
  have same: "map g (update_where p f vs) = map g vs" if "\<And>v. p v \<Longrightarrow> g (f v) = g v" for g :: "variant_row \<Rightarrow> 'x"
    using that by (auto simp: update_where_def)
  have "map va_id (update_where p f vs) = map va_id vs" "map variant_identity (update_where p f vs) = map variant_identity vs"
    by (rule same, use assms(2) in \<open>simp add: keeps_publication_def\<close>)+
  moreover have "list_all (\<lambda>v. va_status v = PUBLISHED \<longrightarrow> va_published_ref v \<noteq> None) (update_where p f vs)"
    using assms by (fastforce simp: variants_ok_def list_all_iff set_update_where keeps_publication_def)
  moreover have "\<exists>v'\<in>set (update_where p f vs). keeps_publication v v'" if "v \<in> set vs" for v
  proof (cases "p v")
    case True
    then show ?thesis using that assms(2) by (intro bexI [of _ "f v"]) (auto simp: set_update_where)
  next
    case False
    then show ?thesis using that by (intro bexI [of _ v]) (auto simp: set_update_where)
  qed
  ultimately show ?thesis using assms(1) by (simp add: variants_ok_def)
qed

lemma publish_step_inv:
  assumes "publish_step h db db'" "publish_inv h db"
  shows "publish_inv h db' \<and> set (pd_contracts db) \<subseteq> set (pd_contracts db') \<and>
    (\<forall>v\<in>set (pd_variants db). \<exists>v'\<in>set (pd_variants db'). keeps_publication v v')"
  using assms(1)
proof cases
  case (save u1 u2 dbnow w c r)
  show ?thesis using save_inv [OF save assms(2)] keeps_publication_all [of "pd_variants db" "pd_variants db'"] by simp
next
  case (upsert u dbnow a r)
  have kp: "variant_match a v \<Longrightarrow> keeps_publication v (recompiled dbnow a v)" for v
    by (auto simp: keeps_publication_def recompiled_def variant_identity_def)
  show ?thesis
  proof (cases "fetchone (variant_match a) (pd_variants db)")
    case None
    then have "(ua_contract_id a, ua_backend a, ua_variant_key a) \<notin> variant_identity ` set (pd_variants db)"
      by (auto simp: fetchone_None variant_match_def variant_identity_def)
    moreover have "db' = db \<or> (\<exists>v. db' = db\<lparr>pd_variants := pd_variants db @ [v]\<rparr> \<and> va_id v \<notin> va_id ` set (pd_variants db) \<and>
        variant_identity v = (ua_contract_id a, ua_backend a, ua_variant_key a) \<and> va_status v = COMPILED)"
      using None upsert by (auto simp: upsert_variant_def Let_def variant_identity_def split: if_splits)
    ultimately have "variants_ok (pd_variants db')" "set (pd_variants db) \<subseteq> set (pd_variants db')" "pd_contracts db' = pd_contracts db"
      "pd_operators db' = pd_operators db" using assms(2) by (auto simp: publish_inv_def variants_ok_def)
    then show ?thesis using assms(2) keeps_publication_all [of "pd_variants db" "pd_variants db'"] by (simp add: publish_inv_def)
  next
    case (Some v)
    then show ?thesis using upsert assms(2) update_variants [of "pd_variants db" "variant_match a", OF _ kp]
      by (auto simp: upsert_variant_def publish_inv_def)
  qed
next
  case (job u dbnow v r)
  then have "pd_operators db' = pd_operators db" "pd_contracts db' = pd_contracts db" "pd_variants db' = pd_variants db"
    by (auto simp: create_publish_job_def Let_def split: if_splits)
  then show ?thesis using assms(2) keeps_publication_all [of "pd_variants db" "pd_variants db'"] by (simp add: publish_inv_def)
next
  case (running dbnow j)
  then show ?thesis using assms(2) keeps_publication_all [of "pd_variants db" "pd_variants db'"] by (simp add: mark_job_running_def publish_inv_def)
next
  case (ready dbnow j i ref result)
  have "keeps_publication v (v\<lparr>va_status := PUBLISHED, va_published_ref := Some ref, va_published_metadata := Some result, va_last_error := None,
      va_updated_at := dbnow\<rparr>)" for v by (simp add: keeps_publication_def variant_identity_def)
  then show ?thesis using update_variants [of "pd_variants db" "\<lambda>v. va_id v = i"] ready assms(2) by (simp add: mark_job_ready_def publish_inv_def)
next
  case (failed dbnow j i msg)
  have "keeps_publication v (v\<lparr>va_status := (if va_status v = PUBLISHED then PUBLISHED else VARIANT_FAILED), va_last_error := Some m,
      va_updated_at := dbnow\<rparr>)" for v m by (simp add: keeps_publication_def variant_identity_def)
  then show ?thesis using update_variants [of "pd_variants db" "\<lambda>v. va_id v = i"] failed assms(2) by (simp add: mark_job_failed_def Let_def publish_inv_def)
qed

interpretation publications: invariant_machine "\<lambda>db. db = empty_publish_db" "publish_step h" "publish_inv h" for h
proof
  show "publish_inv h db" if "db = empty_publish_db" for db
    using that by (simp add: publish_inv_def empty_publish_db_def operators_ok_def contracts_ok_def variants_ok_def operator_versions_def)
  show "publish_inv h db'" if "publish_inv h db" "publish_step h db db'" for db db' using publish_step_inv that by blast
qed

section \<open>Properties\<close>

lemma latest_None [simp]: "latest rs = None \<longleftrightarrow> rs = []"
  by (cases rs) (auto split: option.splits)

lemma latest_Some: "latest rs = Some r \<Longrightarrow> r \<in> set rs \<and> (\<forall>x\<in>set rs. ct_version x \<le> ct_version r)"
proof (induction rs arbitrary: r)
  case (Cons x rs)
  show ?case
  proof (cases "latest rs")
    case None
    then show ?thesis using Cons.prems by simp
  next
    case (Some s)
    then show ?thesis using Cons.IH [OF Some] Cons.prems by (fastforce split: if_splits)
  qed
qed simp

lemma versions_numbered:
  assumes "publish_inv h db"
  shows "versions_of db i = [1..<Suc (length (versions_of db i))]"
proof -
  have "versions_of db i = operator_versions (pd_contracts db) i" by (simp add: versions_of_def operator_versions_def)
  then show ?thesis using assms unfolding publish_inv_def contracts_ok_def by metis
qed

lemma latest_version:
  assumes "publish_inv h db"
  shows "map_option ct_version (get_latest_contract db i) = (if versions_of db i = [] then None else Some (length (versions_of db i)))"
proof (cases "get_latest_contract db i")
  case None
  then show ?thesis by (simp add: get_latest_contract_def versions_of_def)
next
  case (Some r)
  then have r: "ct_version r \<in> set (versions_of db i)" "\<forall>n\<in>set (versions_of db i). n \<le> ct_version r"
    using latest_Some [of "filter (\<lambda>r. ct_operator_id r = i) (pd_contracts db)" r] by (auto simp: get_latest_contract_def versions_of_def)
  have s: "set (versions_of db i) = {1..<Suc (length (versions_of db i))}" using versions_numbered [OF assms, of i] by (metis set_upt)
  have "length (versions_of db i) \<in> set (versions_of db i)" using r(1) unfolding s by auto
  then have "length (versions_of db i) \<le> ct_version r" using r(2) by blast
  moreover have "ct_version r < Suc (length (versions_of db i))" using r(1) unfolding s by simp
  ultimately have "ct_version r = length (versions_of db i)" by linarith
  then show ?thesis using Some r(1) by auto
qed

text \<open>C30: Whatever transactions interleave, the contract versions of every operator are numbered 1, 2, .. without gaps or repetitions in the
  order they were saved, the latest one is the one with the highest number, and every version's digest is that of its contract; a
  variant that is PUBLISHED has its reference.  No later transaction changes a contract version or takes a variant out of PUBLISHED.\<close>

theorem contract_versions_immutable:
  assumes "reach (\<lambda>db. db = empty_publish_db) (publish_step h) db" "publish_step h db db'"
  shows "versions_of db i = [1..<Suc (length (versions_of db i))] \<and>
    map_option ct_version (get_latest_contract db i) = (if versions_of db i = [] then None else Some (length (versions_of db i))) \<and>
    list_all (\<lambda>r. ct_sha256 r = h (canonical_json (ct_json r))) (pd_contracts db) \<and>
    list_all (\<lambda>v. va_status v = PUBLISHED \<longrightarrow> va_published_ref v \<noteq> None) (pd_variants db) \<and>
    set (pd_contracts db) \<subseteq> set (pd_contracts db') \<and>
    (\<forall>v\<in>set (pd_variants db). va_status v = PUBLISHED \<longrightarrow> (\<exists>v'\<in>set (pd_variants db'). va_id v' = va_id v \<and> va_status v' = PUBLISHED))"
proof -
  have inv: "publish_inv h db" by (rule publications.inv_reach [OF assms(1)])
  note step = publish_step_inv [OF assms(2) inv]
  have vs: "versions_of db i = [1..<Suc (length (versions_of db i))]" by (rule versions_numbered [OF inv])
  have "map_option ct_version (get_latest_contract db i) = (if versions_of db i = [] then None else Some (length (versions_of db i)))"
    by (rule latest_version [OF inv])
  then show ?thesis using vs inv step by (auto simp: publish_inv_def contracts_ok_def variants_ok_def keeps_publication_def)
qed

text \<open>Saving a contract that equals an earlier version does not make it current again.  The save succeeds and names the earlier version, but
  \<open>get_latest_contract\<close>, which every compilation and publication uses, still returns the later one.\<close>

theorem resave_not_current:
  assumes "reach (\<lambda>db. db = empty_publish_db) (publish_step h) db"
    and "save_virtual_contract h db u1 u2 dbnow workspace c = (Inr (operator, row, False), db')"
    and "ct_version row < length (versions_of db (op_id operator))"
  shows "\<exists>other. get_latest_contract db' (op_id operator) = Some other \<and> other \<noteq> row \<and> ct_version row < ct_version other \<and>
    ct_sha256 row = contract_sha256 h c \<and> ct_sha256 other \<noteq> contract_sha256 h c"
proof -
  have inv: "publish_inv h db" by (rule publications.inv_reach [OF assms(1)])
  note si = save_inv [OF assms(2) inv]
  from save_contract_cases [OF assms(2)] obtain db1 where up: "upsert_operator db u1 dbnow workspace c = Inr db1" and db': "db' = db1"
    and row: "fetchone (\<lambda>r. ct_operator_id r = op_id operator \<and> ct_sha256 r = contract_sha256 h c) (pd_contracts db1) = Some row" by auto
  have same: "pd_contracts db' = pd_contracts db" using upsert_operator_ok(1) [OF up] db' by simp
  have r: "row \<in> set (pd_contracts db')" "ct_operator_id row = op_id operator" "ct_sha256 row = contract_sha256 h c" using fetchone_SomeD [OF row] db' by auto
  have vs: "versions_of db' (op_id operator) = versions_of db (op_id operator)" using same by (simp add: versions_of_def)
  then have "versions_of db' (op_id operator) \<noteq> []" using assms(3) by auto
  then obtain x where x: "get_latest_contract db' (op_id operator) = Some x" "ct_version x = length (versions_of db (op_id operator))"
    using latest_version [of h db' "op_id operator"] si vs by auto
  have xm: "x \<in> set (pd_contracts db')" "ct_operator_id x = op_id operator"
    using latest_Some [OF x(1) [unfolded get_latest_contract_def]] by auto
  have "ct_sha256 x \<noteq> contract_sha256 h c"
  proof
    assume "ct_sha256 x = contract_sha256 h c"
    then have "(ct_operator_id x, ct_sha256 x) = (ct_operator_id row, ct_sha256 row)" using r xm by simp
    moreover have "distinct (map (\<lambda>r. (ct_operator_id r, ct_sha256 r)) (pd_contracts db'))" using si by (simp add: publish_inv_def contracts_ok_def)
    ultimately have "x = row" using distinct_key_eq [of "\<lambda>r. (ct_operator_id r, ct_sha256 r)"] r xm by blast
    then show False using x(2) assms(3) by simp
  qed
  then show ?thesis using x assms(3) r by auto
qed

section \<open>Witnesses\<close>

definition demo_saved_contract :: "string \<Rightarrow> virtual_contract" where
  "demo_saved_contract description = \<lparr>vc_metadata = \<lparr>om_name = ''op'', om_display_name = ''Op'', om_description = description\<rparr>,
     vc_source = \<lparr>so_source_revision = ''r'', so_python_path = ''.'', so_source_ref = Some ''local:r''\<rparr>, vc_callable_id = ''m:f'', vc_constructor_arguments = [],
     vc_arguments = [], vc_output = \<lparr>out_payload = \<lparr>ov_source = RETURN, ov_path = [], ov_codec = BYTES, ov_value = JNull\<rparr>, out_metadata = [],
       out_none_policy = KEEP_ORIGINAL\<rparr>\<rparr>"

definition demo_save :: "publish_db \<Rightarrow> string \<Rightarrow> string \<Rightarrow> (operator_row \<times> contract_row \<times> bool) result \<times> publish_db" where
  "demo_save db uuid description = save_virtual_contract (\<lambda>t. t) db ''o'' uuid 0 ''w'' (demo_saved_contract description)"

definition demo_saved_db :: "publish_db" where
  "demo_saved_db = snd (demo_save (snd (demo_save empty_publish_db ''c1'' ''A'')) ''c2'' ''B'')"

lemma demo_saved_reach: "reach (\<lambda>db. db = empty_publish_db) (publish_step (\<lambda>t. t)) demo_saved_db"
proof -
  have step: "publish_step (\<lambda>t. t) db (snd (demo_save db u d))" for db u d
    by (rule publish_step.save [OF prod.collapse [symmetric], of "\<lambda>t. t" db "''o''" u 0 "''w''" "demo_saved_contract d", folded demo_save_def])
  have "reach (\<lambda>db. db = empty_publish_db) (publish_step (\<lambda>t. t)) empty_publish_db" by (rule reach_init) simp
  then have "reach (\<lambda>db. db = empty_publish_db) (publish_step (\<lambda>t. t)) (snd (demo_save empty_publish_db ''c1'' ''A''))"
    by (rule reach_step) (rule step)
  then show ?thesis unfolding demo_saved_db_def by (rule reach_step) (rule step)
qed

theorem contract_versions_immutable_witness:
  "versions_of demo_saved_db ''o'' = [1..<Suc (length (versions_of demo_saved_db ''o''))] \<and>
   set (pd_contracts demo_saved_db) \<subseteq> set (pd_contracts (mark_job_running demo_saved_db 5 ''j''))"
  using contract_versions_immutable [OF demo_saved_reach publish_step.running, of "''o''" 5 "''j''"] by blast

lemma demo_resave:
  "map_sum id (\<lambda>(operator, row, created). (op_id operator, ct_version row, created)) (fst (demo_save demo_saved_db ''c3'' ''A'')) = Inr (''o'', 1, False)"
  "length (versions_of demo_saved_db ''o'') = 2"
  by code_simp+

theorem resave_not_current_witness:
  "\<exists>operator row db' other. demo_save demo_saved_db ''c3'' ''A'' = (Inr (operator, row, False), db') \<and>
     get_latest_contract db' (op_id operator) = Some other \<and> ct_version row < ct_version other"
proof -
  obtain operator row db' where s: "demo_save demo_saved_db ''c3'' ''A'' = (Inr (operator, row, False), db')" "op_id operator = ''o''" "ct_version row = 1"
    using demo_resave(1) by (cases "demo_save demo_saved_db ''c3'' ''A''") (auto simp: map_sum_Inr)
  have "ct_version row < length (versions_of demo_saved_db (op_id operator))" using demo_resave(2) s(2,3) by simp
  from resave_not_current [OF demo_saved_reach s(1) [unfolded demo_save_def] this] s(1) show ?thesis by blast
qed

end
