(* ===== verification/Build_Spec.thy ===== *)
theory Build_Spec
  imports Base64 Json_Access Py_Text "HOL-Library.Sublist"
begin

text \<open>
  \<^verbatim>\<open>build_service/model.py\<close> and \<^verbatim>\<open>build_service/builder.py\<close>: what a runtime environment is built from, and
  the steps of building one.  The packaging library (\<open>canonicalize_name\<close>, \<open>Requirement\<close>), the resolver
  \<open>uv\<close> and \<open>docker\<close> are the parameter \<open>build_world\<close>.  What \<open>docker run\<close> finds in an image is its list of
  installed distributions; the script that compares them with the expected packages is part of the
  model.  Messages quote the offending text itself where the code prints its \<open>repr\<close>.
\<close>

section \<open>Lock files\<close>

definition build_value_error :: "string \<Rightarrow> exn" where
  "build_value_error msg = PyExn ''ValueError'' msg"

definition pin_name_char :: "char \<Rightarrow> bool" where
  "pin_name_char c \<longleftrightarrow> (let n = of_char c :: nat in
     48 \<le> n \<and> n \<le> 57 \<or> 65 \<le> n \<and> n \<le> 90 \<or> 97 \<le> n \<and> n \<le> 122 \<or> c \<in> {CHR ''_'', CHR ''.'', CHR ''-''})"

definition pin_version_char :: "char \<Rightarrow> bool" where
  "pin_version_char c \<longleftrightarrow> \<not> is_space c \<and> c \<noteq> CHR '';'' \<and> c \<noteq> CHR 0x5C"

text \<open>The regular expression \<open>_PIN\<close>; its name part cannot contain an equals sign, so it never backtracks.\<close>

definition match_pin :: "string \<Rightarrow> (string \<times> string) option" where
  "match_pin line =
     (let s = dropWhile is_space line;
          name = takeWhile pin_name_char s;
          rest = dropWhile pin_name_char s;
          version = takeWhile pin_version_char (drop 2 rest) in
      if name \<noteq> [] \<and> take 2 rest = ''=='' \<and> version \<noteq> [] then Some (name, version) else None)"

definition skipped_line :: "string \<Rightarrow> bool" where
  "skipped_line line \<longleftrightarrow>
     (let s = dropWhile is_space line in
      s = [] \<or> take 1 s = ''#'' \<or> take 2 s = ''--'' \<or> (case line of [] \<Rightarrow> False | c # _ \<Rightarrow> is_space c))"

fun parse_lines :: "(string \<Rightarrow> string) \<Rightarrow> string list \<Rightarrow> (string, string) dict \<Rightarrow> (string, string) dict result" where
  "parse_lines canon [] packages = Inr packages"
| "parse_lines canon (line # ls) packages =
     (if skipped_line line then parse_lines canon ls packages
      else case match_pin line of
        None \<Rightarrow> Inl (build_value_error (''lock line is not an exact pin: '' @ line))
      | Some (raw, version) \<Rightarrow>
          let name = canon raw in
          (case map_of packages name of
             Some previous \<Rightarrow>
               if previous \<noteq> version then Inl (build_value_error (name @ '' has conflicting versions''))
               else parse_lines canon ls (AList.update name version packages)
           | None \<Rightarrow> parse_lines canon ls (AList.update name version packages)))"

definition parse_locked_packages :: "(string \<Rightarrow> string) \<Rightarrow> string \<Rightarrow> (string, string) dict result" where
  "parse_locked_packages canon lock_text =
     map_sum id (sort_key fst) (parse_lines canon (splitlines lock_text) [])"

record build_spec =
  sp_base_image :: string
  sp_python_version :: string
  sp_platform :: string
  sp_requirements_lock :: string
  sp_policy_version :: string

definition spec_identity :: "(bytes \<Rightarrow> string) \<Rightarrow> build_spec \<Rightarrow> json" where
  "spec_identity h sp = JObj
     [(''schema'', JInt 1),
      (''base_image'', JStr (sp_base_image sp)),
      (''python_version'', JStr (sp_python_version sp)),
      (''platform'', JStr (sp_platform sp)),
      (''requirements_lock_sha256'', JStr (h (sp_requirements_lock sp))),
      (''build_policy_version'', JStr (sp_policy_version sp))]"

definition env_key :: "(bytes \<Rightarrow> string) \<Rightarrow> build_spec \<Rightarrow> string result" where
  "env_key h sp =
     (if \<not> sublist ''@sha256:'' (sp_base_image sp) then
        Inl (build_value_error ''base_image must be pinned as repo@sha256:<digest>'')
      else Inr (h (canonical_json (spec_identity h sp))))"

section \<open>Building\<close>

record build_world =
  bw_canonicalize :: "string \<Rightarrow> string"
  bw_requirement :: "string \<Rightarrow> (string \<times> bool) option"
  bw_uv_compile :: "string \<Rightarrow> string \<Rightarrow> string option \<Rightarrow> string \<Rightarrow> string result"
  bw_buildx :: "nat \<Rightarrow> build_spec \<Rightarrow> string \<Rightarrow> json result"
  bw_installed :: "nat \<Rightarrow> string \<Rightarrow> (string \<times> string) list result"

definition ascii_lower :: "string \<Rightarrow> string" where
  "ascii_lower s = map (\<lambda>c. let n = of_char c :: nat in if 65 \<le> n \<and> n \<le> 90 then char_of (n + 32) else c) s"

fun normalize_each :: "build_world \<Rightarrow> string list \<Rightarrow> string list result" where
  "normalize_each bw [] = Inr []"
| "normalize_each bw (raw # rs) =
     (let value = strip raw in
      if value = [] then normalize_each bw rs
      else if CHR 0x0A \<in> set value \<or> CHR 0x0D \<in> set value \<or> take 1 value = ''-'' then
        Inl (build_value_error (''unsupported requirement: '' @ raw))
      else case bw_requirement bw value of
        None \<Rightarrow> Inl (build_value_error (''invalid requirement: '' @ raw))
      | Some (text, has_url) \<Rightarrow>
          if has_url then Inl (build_value_error ''URL/VCS/path dependencies are not allowed'')
          else map_sum id (Cons text) (normalize_each bw rs))"

text \<open>The set of requirements in the order of their lower case texts; the order of texts that differ only
  in case is not specified by the code and is the order of the texts here.\<close>

definition normalize_requirements :: "build_world \<Rightarrow> string list \<Rightarrow> string list result" where
  "normalize_requirements bw values = map_sum id (\<lambda>rs. sort_key ascii_lower (sort (remdups rs))) (normalize_each bw values)"

definition lock_requirements :: "build_world \<Rightarrow> string list \<Rightarrow> string \<Rightarrow> string \<Rightarrow> string option \<Rightarrow> string result" where
  "lock_requirements bw requirements python_version python_platform uv_default_index =
     result_bind (normalize_requirements bw requirements) (\<lambda>normalized.
     bw_uv_compile bw python_version python_platform (if uv_default_index = Some [] then None else uv_default_index)
       (join_with [CHR 0x0A] normalized @ (if normalized = [] then [] else [CHR 0x0A])))"

definition build_runtime_image :: "build_world \<Rightarrow> nat \<Rightarrow> build_spec \<Rightarrow> string \<Rightarrow> string \<Rightarrow> string result" where
  "build_runtime_image bw attempt sp registry_repo build_tag =
     result_bind (bw_buildx bw attempt sp (registry_repo @ '':'' @ build_tag)) (\<lambda>metadata.
     case map_of (json_fields metadata) ''containerimage.digest'' of
       Some (JStr digest) \<Rightarrow>
         if take 7 digest = ''sha256:'' then Inr (registry_repo @ ''@'' @ digest)
         else Inl (PyExn ''RuntimeError'' ''buildx did not return containerimage.digest'')
     | _ \<Rightarrow> Inl (PyExn ''RuntimeError'' ''buildx did not return containerimage.digest''))"

text \<open>\<open>re.sub(r"[-_.]+", "-", name).lower()\<close> of the verification script.\<close>

fun collapse_separators :: "bool \<Rightarrow> string \<Rightarrow> string" where
  "collapse_separators inside [] = []"
| "collapse_separators inside (c # cs) =
     (if c \<in> {CHR ''-'', CHR ''_'', CHR ''.''} then (if inside then [] else ''-'') @ collapse_separators True cs
      else c # collapse_separators False cs)"

definition normalize_name :: "string \<Rightarrow> string" where
  "normalize_name name = ascii_lower (collapse_separators False name)"

fun installed_versions :: "(string \<times> string) list \<Rightarrow> (string, string) dict \<Rightarrow> (string, string) dict" where
  "installed_versions [] actual = actual"
| "installed_versions ((name, version) # ds) actual =
     installed_versions ds (if name = [] then actual else AList.update (normalize_name name) version actual)"

definition verify_runtime_image :: "build_world \<Rightarrow> nat \<Rightarrow> string \<Rightarrow> (string, string) dict \<Rightarrow> unit result" where
  "verify_runtime_image bw attempt image_ref expected =
     result_bind (bw_installed bw attempt image_ref) (\<lambda>dists.
     let actual = installed_versions dists [] in
     if list_all (\<lambda>(name, version). map_of actual name = Some version) expected then Inr ()
     else Inl (PyExn ''CalledProcessError'' ''docker run''))"

section \<open>Lemmas\<close>

definition contains_packages :: "(string, string) dict \<Rightarrow> (string, string) dict \<Rightarrow> bool" where
  "contains_packages available needed \<longleftrightarrow> list_all (\<lambda>(name, version). map_of available name = Some version) needed"

lemma contains_packages_trans:
  "contains_packages a b \<Longrightarrow> contains_packages b c \<Longrightarrow> contains_packages a c"
  unfolding contains_packages_def list_all_iff by (fastforce dest: map_of_SomeD)

lemma parse_lines_distinct:
  "parse_lines canon ls packages = Inr ps \<Longrightarrow> distinct (map fst packages) \<Longrightarrow> distinct (map fst ps)"
  by (induction canon ls packages rule: parse_lines.induct)
    (auto simp: Let_def distinct_update split: if_splits option.splits)

lemma parse_locked_distinct: "parse_locked_packages canon text = Inr ps \<Longrightarrow> distinct (map fst ps)"
  using parse_lines_distinct [of canon "splitlines text" "[]"]
  by (cases "parse_lines canon (splitlines text) []") (auto simp: parse_locked_packages_def distinct_map)

lemma contains_packages_refl: "distinct (map fst ps) \<Longrightarrow> contains_packages ps ps"
  by (auto simp: contains_packages_def list_all_iff)

text \<open>Equal keys mean equal specifications, when the digest does not collide on their texts.\<close>

lemma env_key_inj:
  assumes "env_key h a = Inr k" "env_key h b = Inr k"
    and "inj_on h {canonical_json (spec_identity h a), canonical_json (spec_identity h b), sp_requirements_lock a, sp_requirements_lock b}"
  shows "a = b"
proof -
  have "h (canonical_json (spec_identity h a)) = h (canonical_json (spec_identity h b))"
    using assms(1,2) by (auto simp: env_key_def split: if_splits)
  then have "canonical_json (spec_identity h a) = canonical_json (spec_identity h b)" by (rule inj_onD [OF assms(3)]) simp_all
  then have s: "sort_keys (spec_identity h a) = sort_keys (spec_identity h b)" by (simp add: canonical_json_inj)
  have field: "map_of (json_fields (sort_keys (spec_identity h x))) k = map_option sort_keys (map_of (json_fields (spec_identity h x)) k)" for x k
    using sort_keys_fields [of "json_fields (spec_identity h x)" k] by (simp add: spec_identity_def json_fields_def)
  have eq: "map_option sort_keys (map_of (json_fields (spec_identity h a)) k) = map_option sort_keys (map_of (json_fields (spec_identity h b)) k)" for k
    using field [of a k] field [of b k] s by simp
  have "map_of (json_fields (spec_identity h x)) ''base_image'' = Some (JStr (sp_base_image x))"
    "map_of (json_fields (spec_identity h x)) ''python_version'' = Some (JStr (sp_python_version x))"
    "map_of (json_fields (spec_identity h x)) ''platform'' = Some (JStr (sp_platform x))"
    "map_of (json_fields (spec_identity h x)) ''build_policy_version'' = Some (JStr (sp_policy_version x))"
    "map_of (json_fields (spec_identity h x)) ''requirements_lock_sha256'' = Some (JStr (h (sp_requirements_lock x)))" for x
    by (simp_all add: spec_identity_def json_fields_def)
  note fields = this
  have "sp_base_image a = sp_base_image b" using eq [of "''base_image''", unfolded fields] by simp
  moreover have "sp_python_version a = sp_python_version b" using eq [of "''python_version''", unfolded fields] by simp
  moreover have "sp_platform a = sp_platform b" using eq [of "''platform''", unfolded fields] by simp
  moreover have "sp_policy_version a = sp_policy_version b" using eq [of "''build_policy_version''", unfolded fields] by simp
  moreover have "h (sp_requirements_lock a) = h (sp_requirements_lock b)"
    using eq [of "''requirements_lock_sha256''", unfolded fields] by simp
  moreover from this have "sp_requirements_lock a = sp_requirements_lock b" by (rule inj_onD [OF assms(3)]) simp_all
  ultimately show ?thesis by simp
qed

end
