(* ===== verification/Build_Store.thy ===== *)
theory Build_Store
  imports Build_Spec
begin

text \<open>
  \<^verbatim>\<open>build_service/store.py\<close>: the tables of runtime environments, request aliases and build jobs, and the
  transactions on them.  Instants are microseconds; the database's \<open>now()\<close> and \<open>uuid4()\<close> are arguments.  A
  transaction that meets a unique constraint raises and leaves the tables as they were.
\<close>

section \<open>Tables\<close>

datatype env_status = PENDING | BUILDING | VERIFYING | READY | FAILED

datatype resolution_kind = Exact | Superset

record env_row =
  ev_id :: string
  ev_env_key :: string
  ev_base_image :: string
  ev_python_version :: string
  ev_platform :: string
  ev_policy_version :: string
  ev_lock_sha256 :: string
  ev_requirements_lock :: string
  ev_packages :: "(string, string) dict"
  ev_package_count :: int
  ev_image_ref :: "string option"
  ev_status :: env_status
  ev_last_error :: "string option"
  ev_created_at :: int
  ev_updated_at :: int

record alias_row =
  al_request_env_key :: string
  al_env_id :: string
  al_resolution_kind :: resolution_kind
  al_created_at :: int

record job_row =
  jb_id :: string
  jb_env_id :: string
  jb_status :: env_status
  jb_error_message :: "string option"
  jb_started_at :: "int option"
  jb_finished_at :: "int option"

record build_db =
  bd_envs :: "env_row list"
  bd_aliases :: "alias_row list"
  bd_jobs :: "job_row list"

definition empty_build_db :: build_db where
  "empty_build_db = \<lparr>bd_envs = [], bd_aliases = [], bd_jobs = []\<rparr>"

text \<open>A row joined with the alias that led to it.\<close>

record resolved =
  rs_env :: env_row
  rs_request_env_key :: string
  rs_resolution_kind :: resolution_kind

section \<open>Transactions\<close>

definition build_get :: "build_db \<Rightarrow> string \<Rightarrow> env_row option" where
  "build_get db env_id = fetchone (\<lambda>e. ev_id e = env_id) (bd_envs db)"

definition get_for_request :: "build_db \<Rightarrow> string \<Rightarrow> resolved option" where
  "get_for_request db key =
     (case fetchone (\<lambda>a. al_request_env_key a = key) (bd_aliases db) of
        None \<Rightarrow> None
      | Some a \<Rightarrow>
          map_option (\<lambda>e. \<lparr>rs_env = e, rs_request_env_key = al_request_env_key a, rs_resolution_kind = al_resolution_kind a\<rparr>)
            (fetchone (\<lambda>e. ev_id e = al_env_id a) (bd_envs db)))"

definition superset_of :: "build_spec \<Rightarrow> (string, string) dict \<Rightarrow> env_row \<Rightarrow> bool" where
  "superset_of sp packages e \<longleftrightarrow>
     ev_status e = READY \<and> ev_base_image e = sp_base_image sp \<and> ev_python_version e = sp_python_version sp \<and>
     ev_platform e = sp_platform sp \<and> ev_policy_version e = sp_policy_version sp \<and>
     contains_packages (ev_packages e) packages"

text \<open>\<open>ORDER BY package_count, created_at LIMIT 1\<close>; among equal rows the first of the table.\<close>

definition smaller_env :: "env_row \<Rightarrow> env_row \<Rightarrow> bool" where
  "smaller_env e f \<longleftrightarrow> ev_package_count e < ev_package_count f \<or>
     ev_package_count e = ev_package_count f \<and> ev_created_at e < ev_created_at f"

fun least_env :: "env_row list \<Rightarrow> env_row option" where
  "least_env [] = None"
| "least_env (e # es) = (case least_env es of None \<Rightarrow> Some e | Some f \<Rightarrow> Some (if smaller_env f e then f else e))"

definition find_smallest_superset :: "build_db \<Rightarrow> build_spec \<Rightarrow> (string, string) dict \<Rightarrow> env_row option" where
  "find_smallest_superset db sp packages = least_env (filter (superset_of sp packages) (bd_envs db))"

definition new_env_row :: "(bytes \<Rightarrow> string) \<Rightarrow> string \<Rightarrow> int \<Rightarrow> string \<Rightarrow> build_spec \<Rightarrow> (string, string) dict \<Rightarrow> env_row" where
  "new_env_row h uuid dbnow key sp packages =
     \<lparr>ev_id = uuid, ev_env_key = key, ev_base_image = sp_base_image sp, ev_python_version = sp_python_version sp,
      ev_platform = sp_platform sp, ev_policy_version = sp_policy_version sp, ev_lock_sha256 = h (sp_requirements_lock sp),
      ev_requirements_lock = sp_requirements_lock sp, ev_packages = packages, ev_package_count = int (length packages),
      ev_image_ref = None, ev_status = PENDING, ev_last_error = None, ev_created_at = dbnow, ev_updated_at = dbnow\<rparr>"

definition get_or_create_exact :: "(bytes \<Rightarrow> string) \<Rightarrow> build_db \<Rightarrow> string \<Rightarrow> int \<Rightarrow> string \<Rightarrow> build_spec \<Rightarrow> (string, string) dict \<Rightarrow>
    env_row result \<times> build_db" where
  "get_or_create_exact h db uuid dbnow key sp packages =
     (case fetchone (\<lambda>e. ev_env_key e = key) (bd_envs db) of
        Some e \<Rightarrow> (Inr e, db)
      | None \<Rightarrow>
          if uuid \<in> ev_id ` set (bd_envs db) then (Inl unique_violation, db)
          else let e = new_env_row h uuid dbnow key sp packages in (Inr e, db\<lparr>bd_envs := bd_envs db @ [e]\<rparr>))"

definition bind_request :: "build_db \<Rightarrow> int \<Rightarrow> string \<Rightarrow> string \<Rightarrow> resolution_kind \<Rightarrow> build_db" where
  "bind_request db dbnow key env_id kind =
     (if key \<in> al_request_env_key ` set (bd_aliases db) then db
      else db\<lparr>bd_aliases := bd_aliases db @
        [\<lparr>al_request_env_key = key, al_env_id = env_id, al_resolution_kind = kind, al_created_at = dbnow\<rparr>]\<rparr>)"

definition reset_failed :: "build_db \<Rightarrow> int \<Rightarrow> string \<Rightarrow> env_row option \<times> build_db" where
  "reset_failed db dbnow env_id =
     (let p = (\<lambda>e. ev_id e = env_id \<and> ev_status e = FAILED);
          f = (\<lambda>e. e\<lparr>ev_status := PENDING, ev_image_ref := None, ev_last_error := None, ev_updated_at := dbnow\<rparr>) in
      (map_option f (fetchone p (bd_envs db)), db\<lparr>bd_envs := update_where p f (bd_envs db)\<rparr>))"

definition claim_build :: "build_db \<Rightarrow> string \<Rightarrow> int \<Rightarrow> string \<Rightarrow> string option result \<times> build_db" where
  "claim_build db uuid dbnow env_id =
     (let p = (\<lambda>e. ev_id e = env_id \<and> ev_status e = PENDING);
          f = (\<lambda>e. e\<lparr>ev_status := BUILDING, ev_last_error := None, ev_updated_at := dbnow\<rparr>) in
      if fetchone p (bd_envs db) = None then (Inr None, db)
      else if uuid \<in> jb_id ` set (bd_jobs db) then (Inl unique_violation, db)
      else (Inr (Some uuid),
            db\<lparr>bd_envs := update_where p f (bd_envs db),
               bd_jobs := bd_jobs db @ [\<lparr>jb_id = uuid, jb_env_id = env_id, jb_status = BUILDING, jb_error_message = None,
                 jb_started_at = Some dbnow, jb_finished_at = None\<rparr>]\<rparr>))"

definition mark_verifying :: "build_db \<Rightarrow> int \<Rightarrow> string \<Rightarrow> string \<Rightarrow> build_db" where
  "mark_verifying db dbnow env_id job_id =
     db\<lparr>bd_envs := update_where (\<lambda>e. ev_id e = env_id) (\<lambda>e. e\<lparr>ev_status := VERIFYING, ev_updated_at := dbnow\<rparr>) (bd_envs db),
        bd_jobs := update_where (\<lambda>j. jb_id j = job_id) (\<lambda>j. j\<lparr>jb_status := VERIFYING\<rparr>) (bd_jobs db)\<rparr>"

definition mark_ready :: "build_db \<Rightarrow> int \<Rightarrow> string \<Rightarrow> string \<Rightarrow> string \<Rightarrow> unit result \<times> build_db" where
  "mark_ready db dbnow env_id job_id image_ref =
     (if list_ex (\<lambda>e. ev_image_ref e = Some image_ref \<and> ev_id e \<noteq> env_id) (bd_envs db) \<and> env_id \<in> ev_id ` set (bd_envs db) then
        (Inl unique_violation, db)
      else (Inr (),
        db\<lparr>bd_envs := update_where (\<lambda>e. ev_id e = env_id)
              (\<lambda>e. e\<lparr>ev_status := READY, ev_image_ref := Some image_ref, ev_last_error := None, ev_updated_at := dbnow\<rparr>) (bd_envs db),
           bd_jobs := update_where (\<lambda>j. jb_id j = job_id) (\<lambda>j. j\<lparr>jb_status := READY, jb_finished_at := Some dbnow\<rparr>) (bd_jobs db)\<rparr>))"

definition mark_failed :: "build_db \<Rightarrow> int \<Rightarrow> string \<Rightarrow> string \<Rightarrow> string \<Rightarrow> build_db" where
  "mark_failed db dbnow env_id job_id error_message =
     (let message = py_last 8192 error_message in
      db\<lparr>bd_envs := update_where (\<lambda>e. ev_id e = env_id)
            (\<lambda>e. e\<lparr>ev_status := FAILED, ev_last_error := Some message, ev_updated_at := dbnow\<rparr>) (bd_envs db),
         bd_jobs := update_where (\<lambda>j. jb_id j = job_id)
            (\<lambda>j. j\<lparr>jb_status := FAILED, jb_error_message := Some message, jb_finished_at := Some dbnow\<rparr>) (bd_jobs db)\<rparr>)"

section \<open>The smallest superset\<close>

lemma least_env_None [simp]: "least_env es = None \<longleftrightarrow> es = []"
  by (cases es) (auto split: option.splits)

lemma smaller_env_order:
  "smaller_env e f \<Longrightarrow> \<not> smaller_env f e" "\<not> smaller_env g f \<Longrightarrow> \<not> smaller_env f e \<Longrightarrow> \<not> smaller_env g e"
  unfolding smaller_env_def by linarith+

lemma least_env_Some: "least_env es = Some e \<Longrightarrow> e \<in> set es \<and> (\<forall>f\<in>set es. \<not> smaller_env f e)"
proof (induction es arbitrary: e)
  case Nil
  then show ?case by simp
next
  case (Cons x es)
  have irr: "\<not> smaller_env x x" by (simp add: smaller_env_def)
  show ?case
  proof (cases "least_env es")
    case None
    then have "es = []" by simp
    then have "e = x" using Cons.prems by simp
    then show ?thesis using \<open>es = []\<close> irr by simp
  next
    case (Some f)
    note ih = Cons.IH [OF Some]
    show ?thesis
    proof (cases "smaller_env f x")
      case True
      then have "e = f" using Cons.prems Some by simp
      then show ?thesis using ih smaller_env_order(1) [OF True] by simp
    next
      case False
      then have "e = x" using Cons.prems Some by simp
      then show ?thesis using ih irr smaller_env_order(2) [OF _ False] by simp
    qed
  qed
qed

end
