(* ===== verification/Build_Machine.thy ===== *)
theory Build_Machine
  imports Build_Store
begin

text \<open>
  Concurrent builds on one database: the transactions of \<^verbatim>\<open>build_service/store.py\<close> in the order any number
  of threads and processes run them.  A builder is a thread between its claim and its last transaction;
  it knows the specification it builds and, once built, the image.  The lists of verified images and of
  requested specifications are history that the statements refer to.
\<close>

record builder =
  by_env :: string
  by_job :: string
  by_spec :: build_spec
  by_image :: "string option"

record build_state =
  bs_db :: build_db
  bs_builders :: "builder list"
  bs_verified :: "(string \<times> (string, string) dict) list"
  bs_requests :: "build_spec list"

definition init_build :: "build_state \<Rightarrow> bool" where
  "init_build s \<longleftrightarrow> bs_db s = empty_build_db \<and> bs_builders s = [] \<and> bs_verified s = []"

definition wanted :: "(bytes \<Rightarrow> string) \<Rightarrow> build_world \<Rightarrow> build_spec \<Rightarrow> string \<Rightarrow> (string, string) dict \<Rightarrow> bool" where
  "wanted h bw sp key pk \<longleftrightarrow> env_key h sp = Inr key \<and> parse_locked_packages (bw_canonicalize bw) (sp_requirements_lock sp) = Inr pk"

inductive build_step :: "(bytes \<Rightarrow> string) \<Rightarrow> build_world \<Rightarrow> build_state \<Rightarrow> build_state \<Rightarrow> bool" for h bw where
  create: "wanted h bw sp key pk \<Longrightarrow> get_or_create_exact h (bs_db s) uuid now key sp pk = (r, db) \<Longrightarrow>
    build_step h bw s (s\<lparr>bs_db := db, bs_requests := sp # bs_requests s\<rparr>)"
| bind_exact: "wanted h bw sp key pk \<Longrightarrow> e \<in> set (bd_envs (bs_db s)) \<Longrightarrow> ev_env_key e = key \<Longrightarrow>
    build_step h bw s (s\<lparr>bs_db := bind_request (bs_db s) now key (ev_id e) Exact, bs_requests := sp # bs_requests s\<rparr>)"
| bind_superset: "wanted h bw sp key pk \<Longrightarrow> e \<in> set (bd_envs (bs_db s)) \<Longrightarrow> superset_of sp pk e \<Longrightarrow>
    build_step h bw s (s\<lparr>bs_db := bind_request (bs_db s) now key (ev_id e) Superset, bs_requests := sp # bs_requests s\<rparr>)"
| claim: "e \<in> set (bd_envs (bs_db s)) \<Longrightarrow> wanted h bw sp (ev_env_key e) pk \<Longrightarrow>
    claim_build (bs_db s) uuid now (ev_id e) = (Inr (Some job), db) \<Longrightarrow>
    build_step h bw s (s\<lparr>bs_db := db, bs_builders := \<lparr>by_env = ev_id e, by_job = job, by_spec = sp, by_image = None\<rparr> # bs_builders s,
      bs_requests := sp # bs_requests s\<rparr>)"
| built: "bs_builders s = xs @ b # ys \<Longrightarrow> by_image b = None \<Longrightarrow>
    build_step h bw s (s\<lparr>bs_db := mark_verifying (bs_db s) now (by_env b) (by_job b), bs_builders := xs @ b\<lparr>by_image := Some i\<rparr> # ys\<rparr>)"
| ready: "bs_builders s = xs @ b # ys \<Longrightarrow> by_image b = Some i \<Longrightarrow>
    parse_locked_packages (bw_canonicalize bw) (sp_requirements_lock (by_spec b)) = Inr pk \<Longrightarrow>
    verify_runtime_image bw n i pk = Inr () \<Longrightarrow> mark_ready (bs_db s) now (by_env b) (by_job b) i = (Inr (), db) \<Longrightarrow>
    build_step h bw s (s\<lparr>bs_db := db, bs_builders := xs @ ys, bs_verified := (i, pk) # bs_verified s\<rparr>)"
| failed: "bs_builders s = xs @ b # ys \<Longrightarrow>
    build_step h bw s (s\<lparr>bs_db := mark_failed (bs_db s) now (by_env b) (by_job b) msg, bs_builders := xs @ ys\<rparr>)"
| reset: "reset_failed (bs_db s) now env_id = (r, db) \<Longrightarrow> build_step h bw s (s\<lparr>bs_db := db\<rparr>)"
| crash: "bs_builders s = xs @ b # ys \<Longrightarrow> build_step h bw s (s\<lparr>bs_builders := xs @ ys\<rparr>)"

section \<open>Invariant\<close>

definition row_spec :: "env_row \<Rightarrow> build_spec" where
  "row_spec e = \<lparr>sp_base_image = ev_base_image e, sp_python_version = ev_python_version e, sp_platform = ev_platform e,
     sp_requirements_lock = ev_requirements_lock e, sp_policy_version = ev_policy_version e\<rparr>"

text \<open>The columns that no transaction changes.\<close>

definition static :: "env_row \<Rightarrow> string \<times> string \<times> build_spec \<times> (string, string) dict \<times> int \<times> int" where
  "static e = (ev_id e, ev_env_key e, row_spec e, ev_packages e, ev_package_count e, ev_created_at e)"

definition texts :: "(bytes \<Rightarrow> string) \<Rightarrow> build_spec list \<Rightarrow> string set" where
  "texts h sps = (\<lambda>sp. canonical_json (spec_identity h sp)) ` set sps \<union> sp_requirements_lock ` set sps"

definition collision_free :: "(bytes \<Rightarrow> string) \<Rightarrow> build_spec list \<Rightarrow> bool" where
  "collision_free h sps \<longleftrightarrow> inj_on h (texts h sps)"

definition env_ok :: "(bytes \<Rightarrow> string) \<Rightarrow> build_world \<Rightarrow> build_spec list \<Rightarrow> env_row \<Rightarrow> bool" where
  "env_ok h bw reqs e \<longleftrightarrow> wanted h bw (row_spec e) (ev_env_key e) (ev_packages e) \<and>
     ev_package_count e = int (length (ev_packages e)) \<and> row_spec e \<in> set reqs"

definition alias_ok :: "(bytes \<Rightarrow> string) \<Rightarrow> build_world \<Rightarrow> build_spec list \<Rightarrow> env_row list \<Rightarrow> alias_row \<Rightarrow> bool" where
  "alias_ok h bw reqs envs a \<longleftrightarrow> (\<exists>e\<in>set envs. \<exists>sp\<in>set reqs. \<exists>pk. ev_id e = al_env_id a \<and> wanted h bw sp (al_request_env_key a) pk \<and>
     (case al_resolution_kind a of Exact \<Rightarrow> ev_env_key e = al_request_env_key a | Superset \<Rightarrow> superset_of sp pk e))"

definition builder_ok :: "env_row list \<Rightarrow> builder \<Rightarrow> bool" where
  "builder_ok envs b \<longleftrightarrow> (\<exists>e\<in>set envs. ev_id e = by_env b \<and> by_spec b = row_spec e \<and>
     ev_status e = (case by_image b of None \<Rightarrow> BUILDING | Some _ \<Rightarrow> VERIFYING))"

definition ready_ok :: "(string \<times> (string, string) dict) list \<Rightarrow> env_row \<Rightarrow> bool" where
  "ready_ok verified e \<longleftrightarrow> (ev_status e = READY \<longrightarrow> (\<exists>i. ev_image_ref e = Some i \<and> (i, ev_packages e) \<in> set verified))"

definition tables_ok :: "(bytes \<Rightarrow> string) \<Rightarrow> build_world \<Rightarrow> build_state \<Rightarrow> bool" where
  "tables_ok h bw s \<longleftrightarrow>
     distinct (map ev_id (bd_envs (bs_db s))) \<and> distinct (map ev_env_key (bd_envs (bs_db s))) \<and>
     list_all (env_ok h bw (bs_requests s)) (bd_envs (bs_db s)) \<and>
     list_all (alias_ok h bw (bs_requests s) (bd_envs (bs_db s))) (bd_aliases (bs_db s)) \<and>
     list_all (ready_ok (bs_verified s)) (bd_envs (bs_db s))"

definition builders_ok :: "build_state \<Rightarrow> bool" where
  "builders_ok s \<longleftrightarrow> distinct (map by_env (bs_builders s)) \<and> list_all (builder_ok (bd_envs (bs_db s))) (bs_builders s)"

definition build_inv :: "(bytes \<Rightarrow> string) \<Rightarrow> build_world \<Rightarrow> build_state \<Rightarrow> bool" where
  "build_inv h bw s \<longleftrightarrow> (collision_free h (bs_requests s) \<longrightarrow>
     tables_ok h bw s \<and> builders_ok s \<and> list_all (\<lambda>(i, pk). \<exists>n. verify_runtime_image bw n i pk = Inr ()) (bs_verified s))"

lemma collision_free_mono: "collision_free h reqs' \<Longrightarrow> set reqs \<subseteq> set reqs' \<Longrightarrow> collision_free h reqs"
  unfolding collision_free_def texts_def by (rule inj_on_subset) auto

lemma wanted_unique:
  "wanted h bw a k pk \<Longrightarrow> wanted h bw b k pk' \<Longrightarrow> collision_free h reqs \<Longrightarrow> a \<in> set reqs \<Longrightarrow> b \<in> set reqs \<Longrightarrow> a = b"
proof (rule env_key_inj [of h a k b])
  assume w: "wanted h bw a k pk" "wanted h bw b k pk'" and c: "collision_free h reqs" and r: "a \<in> set reqs" "b \<in> set reqs"
  from w show "env_key h a = Inr k" "env_key h b = Inr k" by (simp_all add: wanted_def)
  show "inj_on h {canonical_json (spec_identity h a), canonical_json (spec_identity h b), sp_requirements_lock a, sp_requirements_lock b}"
    using c r unfolding collision_free_def texts_def by (rule_tac inj_on_subset) auto
qed

lemma static_fields:
  "static e = static f \<Longrightarrow> ev_id e = ev_id f \<and> ev_env_key e = ev_env_key f \<and> row_spec e = row_spec f \<and> ev_packages e = ev_packages f \<and>
     ev_package_count e = ev_package_count f"
  by (simp add: static_def)

lemma env_ok_static: "static e = static f \<Longrightarrow> env_ok h bw reqs e = env_ok h bw reqs f"
  using static_fields [of e f] by (simp add: env_ok_def)

lemma env_ok_mono: "env_ok h bw reqs e \<Longrightarrow> set reqs \<subseteq> set reqs' \<Longrightarrow> env_ok h bw reqs' e"
  by (auto simp: env_ok_def)

lemma env_ok_Cons: "env_ok h bw reqs e \<Longrightarrow> env_ok h bw (sp # reqs) e"
  by (erule env_ok_mono) auto

text \<open>An update of rows that were not ready, keeping the static columns.\<close>

lemma distinct_static:
  "map static envs' = map static envs \<Longrightarrow> map ev_id envs' = map ev_id envs \<and> map ev_env_key envs' = map ev_env_key envs"
proof -
  assume eq: "map static envs' = map static envs"
  have "map ev_id es = map fst (map static es)" "map ev_env_key es = map (fst \<circ> snd) (map static es)" for es
    by (simp_all add: static_def)
  then show ?thesis using eq by metis
qed

lemma alias_ok_change:
  assumes "alias_ok h bw reqs envs a" "set reqs \<subseteq> set reqs'"
    and "\<And>e. e \<in> set envs \<Longrightarrow> \<exists>e'\<in>set envs'. static e' = static e \<and> (ev_status e = READY \<longrightarrow> e' = e)"
  shows "alias_ok h bw reqs' envs' a"
proof -
  from assms(1) obtain e sp pk where e: "e \<in> set envs" "sp \<in> set reqs" "ev_id e = al_env_id a" "wanted h bw sp (al_request_env_key a) pk"
    "case al_resolution_kind a of Exact \<Rightarrow> ev_env_key e = al_request_env_key a | Superset \<Rightarrow> superset_of sp pk e"
    unfolding alias_ok_def by blast
  from assms(3) [OF e(1)] obtain e' where e': "e' \<in> set envs'" "static e' = static e" "ev_status e = READY \<longrightarrow> e' = e" by blast
  have "case al_resolution_kind a of Exact \<Rightarrow> ev_env_key e' = al_request_env_key a | Superset \<Rightarrow> superset_of sp pk e'"
    using e(5) e'(3) static_fields [OF e'(2)] by (auto simp: superset_of_def split: resolution_kind.splits)
  then show ?thesis unfolding alias_ok_def using e e' assms(2) static_fields [OF e'(2)] by (intro bexI [of _ e'] bexI [of _ sp] exI [of _ pk]) auto
qed

lemma alias_ok_mono: "alias_ok h bw reqs envs a \<Longrightarrow> set reqs \<subseteq> set reqs' \<Longrightarrow> set envs \<subseteq> set envs' \<Longrightarrow> alias_ok h bw reqs' envs' a"
  by (erule alias_ok_change) auto

lemma ready_ok_mono: "ready_ok v e \<Longrightarrow> set v \<subseteq> set v' \<Longrightarrow> ready_ok v' e"
  unfolding ready_ok_def by blast

lemma update_tables:
  assumes ok: "tables_ok h bw s" and st: "\<And>e. static (f e) = static e"
    and nr: "\<And>e. e \<in> set (bd_envs (bs_db s)) \<Longrightarrow> p e \<Longrightarrow> ev_status e \<noteq> READY \<and> ready_ok (bs_verified t) (f e)"
    and v: "set (bs_verified s) \<subseteq> set (bs_verified t)" and r: "set (bs_requests s) \<subseteq> set (bs_requests t)"
    and t: "bd_envs (bs_db t) = update_where p f (bd_envs (bs_db s))" "bd_aliases (bs_db t) = bd_aliases (bs_db s)"
  shows "tables_ok h bw t"
proof -
  let ?E = "bd_envs (bs_db s)" and ?E' = "bd_envs (bs_db t)"
  have stat: "map static ?E' = map static ?E" unfolding t(1) by (rule map_update_where_key) (rule st)
  have change: "\<exists>e'\<in>set ?E'. static e' = static e \<and> (ev_status e = READY \<longrightarrow> e' = e)" if "e \<in> set ?E" for e
  proof (cases "p e")
    case True
    then show ?thesis using nr [OF that] st that unfolding t(1) by (intro bexI [of _ "f e"]) (auto simp: set_update_where)
  next
    case False
    then show ?thesis using that unfolding t(1) by (intro bexI [of _ e]) (auto simp: set_update_where)
  qed
  have envs: "env_ok h bw (bs_requests t) e" if "e \<in> set ?E'" for e
  proof -
    from that obtain e0 where "e0 \<in> set ?E" "static e = static e0" using st unfolding t(1) by (auto simp: set_update_where)
    then show ?thesis using ok r env_ok_static [of e e0] env_ok_mono by (auto simp: tables_ok_def list_all_iff)
  qed
  have rdy: "ready_ok (bs_verified t) e" if "e \<in> set ?E'" for e
    using that ok nr ready_ok_mono [OF _ v] unfolding t(1) by (auto simp: set_update_where tables_ok_def list_all_iff)
  have al: "alias_ok h bw (bs_requests t) ?E' a" if "a \<in> set (bd_aliases (bs_db t))" for a
    using that ok t(2) by (intro alias_ok_change [OF _ r change]) (auto simp: tables_ok_def list_all_iff)
  show ?thesis using ok distinct_static [OF stat] envs rdy al by (auto simp: tables_ok_def list_all_iff)
qed

lemma builder_ok_other:
  assumes "builder_ok envs b" "\<And>e. static (f e) = static e" "\<And>e. p e \<Longrightarrow> ev_id e \<noteq> by_env b"
  shows "builder_ok (update_where p f envs) b"
proof -
  from assms(1) obtain e where e: "e \<in> set envs" "ev_id e = by_env b" "by_spec b = row_spec e"
    "ev_status e = (case by_image b of None \<Rightarrow> BUILDING | Some _ \<Rightarrow> VERIFYING)" by (auto simp: builder_ok_def)
  then have "e \<in> set (update_where p f envs)" using assms(3) by (auto simp: set_update_where)
  then show ?thesis using e by (auto simp: builder_ok_def)
qed

lemma static_updates [simp]:
  "static (e\<lparr>ev_status := st, ev_updated_at := u\<rparr>) = static e"
  "static (e\<lparr>ev_status := st, ev_last_error := l, ev_updated_at := u\<rparr>) = static e"
  "static (e\<lparr>ev_status := st, ev_image_ref := i, ev_last_error := l, ev_updated_at := u\<rparr>) = static e"
  by (simp_all add: static_def row_spec_def)

lemma builder_row:
  assumes "tables_ok h bw s" "builders_ok s" "b \<in> set (bs_builders s)" "e \<in> set (bd_envs (bs_db s))" "ev_id e = by_env b"
  shows "ev_status e = (case by_image b of None \<Rightarrow> BUILDING | Some _ \<Rightarrow> VERIFYING)" "by_spec b = row_spec e"
proof -
  from assms(2,3) obtain e' where e': "e' \<in> set (bd_envs (bs_db s))" "ev_id e' = by_env b" "by_spec b = row_spec e'"
    "ev_status e' = (case by_image b of None \<Rightarrow> BUILDING | Some _ \<Rightarrow> VERIFYING)"
    by (auto simp: builders_ok_def list_all_iff builder_ok_def)
  have "distinct (map ev_id (bd_envs (bs_db s)))" using assms(1) by (simp add: tables_ok_def)
  then have "e' = e" using distinct_key_eq e' assms(4,5) by metis
  with e' show "ev_status e = (case by_image b of None \<Rightarrow> BUILDING | Some _ \<Rightarrow> VERIFYING)" "by_spec b = row_spec e" by auto
qed

section \<open>Preservation\<close>

lemma insert_env_tables:
  assumes "tables_ok h bw s" "wanted h bw sp key pk" "get_or_create_exact h (bs_db s) uuid now key sp pk = (r, db)"
  shows "tables_ok h bw (s\<lparr>bs_db := db, bs_requests := sp # bs_requests s\<rparr>)"
proof (cases "db = bs_db s")
  case True
  have "set (bs_requests s) \<subseteq> set (sp # bs_requests s)" by auto
  then show ?thesis using True assms(1) env_ok_mono alias_ok_mono by (fastforce simp: tables_ok_def list_all_iff)
next
  case False
  let ?e = "new_env_row h uuid now key sp pk"
  from False assms(3) have new: "fetchone (\<lambda>e. ev_env_key e = key) (bd_envs (bs_db s)) = None" "uuid \<notin> ev_id ` set (bd_envs (bs_db s))"
    "db = (bs_db s)\<lparr>bd_envs := bd_envs (bs_db s) @ [?e]\<rparr>"
    by (auto simp: get_or_create_exact_def Let_def split: option.splits if_splits)
  have fresh: "key \<notin> ev_env_key ` set (bd_envs (bs_db s))" using new(1) by (auto simp: fetchone_None)
  have rs: "row_spec ?e = sp" by (simp add: row_spec_def new_env_row_def)
  have ok: "env_ok h bw (sp # bs_requests s) ?e" "ready_ok (bs_verified s) ?e"
    using assms(2) rs by (simp_all add: env_ok_def ready_ok_def, simp_all add: new_env_row_def)
  have ids: "ev_id ?e = uuid" "ev_env_key ?e = key" by (simp_all add: new_env_row_def)
  have al: "alias_ok h bw (sp # bs_requests s) (bd_envs (bs_db s) @ [?e]) a" if "alias_ok h bw (bs_requests s) (bd_envs (bs_db s)) a" for a
    by (rule alias_ok_mono [OF that]) auto
  show ?thesis using assms(1) ok ids fresh new(2) al env_ok_Cons [of h bw "bs_requests s"]
    unfolding new(3) by (auto simp: tables_ok_def list_all_iff)
qed

lemma bind_tables:
  assumes "tables_ok h bw s" "wanted h bw sp key pk" "e \<in> set (bd_envs (bs_db s))"
    and "case kind of Exact \<Rightarrow> ev_env_key e = key | Superset \<Rightarrow> superset_of sp pk e"
  shows "tables_ok h bw (s\<lparr>bs_db := bind_request (bs_db s) now key (ev_id e) kind, bs_requests := sp # bs_requests s\<rparr>)"
proof -
  have old: "alias_ok h bw (sp # bs_requests s) (bd_envs (bs_db s)) a" if "a \<in> set (bd_aliases (bs_db s))" for a
    using assms(1) that by (rule_tac alias_ok_mono [of h bw "bs_requests s" "bd_envs (bs_db s)"]) (auto simp: tables_ok_def list_all_iff)
  have new: "alias_ok h bw (sp # bs_requests s) (bd_envs (bs_db s))
      \<lparr>al_request_env_key = key, al_env_id = ev_id e, al_resolution_kind = kind, al_created_at = now\<rparr>"
    unfolding alias_ok_def by (rule bexI [OF _ assms(3)], rule bexI [of _ sp], rule exI [of _ pk]) (use assms(2,4) in \<open>auto split: resolution_kind.splits\<close>)
  show ?thesis using assms(1) old new env_ok_Cons [of h bw "bs_requests s"]
    by (auto simp: tables_ok_def bind_request_def list_all_iff)
qed

text \<open>A transaction of a builder on its own row.\<close>

lemma own_row_tables:
  assumes "tables_ok h bw s" "builders_ok s" "b \<in> set (bs_builders s)" "\<And>e. static (f e) = static e"
    and "\<And>e. e \<in> set (bd_envs (bs_db s)) \<Longrightarrow> ev_id e = by_env b \<Longrightarrow> ready_ok (bs_verified t) (f e)"
    and "set (bs_verified s) \<subseteq> set (bs_verified t)" "bs_requests t = bs_requests s"
    and "bd_envs (bs_db t) = update_where (\<lambda>e. ev_id e = by_env b) f (bd_envs (bs_db s))" "bd_aliases (bs_db t) = bd_aliases (bs_db s)"
  shows "tables_ok h bw t"
proof (rule update_tables [OF assms(1,4) _ assms(6) _ assms(8,9)])
  fix e assume e: "e \<in> set (bd_envs (bs_db s))" "ev_id e = by_env b"
  then show "ev_status e \<noteq> READY \<and> ready_ok (bs_verified t) (f e)"
    using builder_row(1) [OF assms(1-3) e] assms(5) [OF e] by (auto split: option.splits)
qed (use assms(7) in simp)

lemma other_builders:
  assumes "builders_ok s" "bs_builders s = xs @ b # ys" "\<And>e. static (f e) = static e" "c \<in> set (xs @ ys)"
  shows "builder_ok (update_where (\<lambda>e. ev_id e = by_env b) f (bd_envs (bs_db s))) c"
  using assms by (intro builder_ok_other) (auto simp: builders_ok_def list_all_iff)

lemma builders_keep:
  assumes "builders_ok s" "bs_builders s = xs @ b # ys" "\<And>e. static (f e) = static e"
    and "bd_envs (bs_db t) = update_where (\<lambda>e. ev_id e = by_env b) f (bd_envs (bs_db s))" "bs_builders t = xs @ ys"
  shows "builders_ok t"
  using assms(1,2,4,5) other_builders [OF assms(1-3)] by (auto simp: builders_ok_def list_all_iff)

lemma mark_ready_ok:
  "mark_ready db now env_id job i = (Inr (), db') \<Longrightarrow>
     bd_envs db' = update_where (\<lambda>e. ev_id e = env_id)
       (\<lambda>e. e\<lparr>ev_status := READY, ev_image_ref := Some i, ev_last_error := None, ev_updated_at := now\<rparr>) (bd_envs db) \<and>
     bd_aliases db' = bd_aliases db"
  by (auto simp: mark_ready_def split: if_splits)

lemma claim_build_ok:
  assumes "claim_build db uuid now env_id = (Inr (Some job), db')"
  shows "\<exists>e. fetchone (\<lambda>e. ev_id e = env_id \<and> ev_status e = PENDING) (bd_envs db) = Some e"
    "bd_envs db' = update_where (\<lambda>e. ev_id e = env_id \<and> ev_status e = PENDING)
       (\<lambda>e. e\<lparr>ev_status := BUILDING, ev_last_error := None, ev_updated_at := now\<rparr>) (bd_envs db)"
    "bd_aliases db' = bd_aliases db"
  using assms by (auto simp: claim_build_def Let_def split: if_splits)

lemma claim_step:
  assumes ok: "tables_ok h bw s" "builders_ok s" and e: "e \<in> set (bd_envs (bs_db s))" and w: "wanted h bw sp (ev_env_key e) pk"
    and cl: "claim_build (bs_db s) uuid now (ev_id e) = (Inr (Some job), db)"
    and t: "t = s\<lparr>bs_db := db, bs_builders := \<lparr>by_env = ev_id e, by_job = job, by_spec = sp, by_image = None\<rparr> # bs_builders s,
      bs_requests := sp # bs_requests s\<rparr>"
    and cf: "collision_free h (bs_requests t)"
  shows "tables_ok h bw t \<and> builders_ok t"
proof -
  note c = claim_build_ok [OF cl]
  let ?p = "\<lambda>x. ev_id x = ev_id e \<and> ev_status x = PENDING"
    and ?f = "\<lambda>e. e\<lparr>ev_status := BUILDING, ev_last_error := None, ev_updated_at := now\<rparr>"
  have dist: "distinct (map ev_id (bd_envs (bs_db s)))" using ok(1) by (simp add: tables_ok_def)
  obtain x where x: "x \<in> set (bd_envs (bs_db s))" "?p x" using c(1) fetchone_SomeD by fastforce
  then have pend: "ev_status e = PENDING" using distinct_key_eq [OF dist x(1) e] by auto
  have tabs: "tables_ok h bw t"
    by (rule update_tables [OF ok(1), of ?f ?p]) (use t c(2,3) in \<open>auto simp: ready_ok_def\<close>)
  have fe: "?f e \<in> set (bd_envs (bs_db t))" using t c(2) e pend by (auto simp: set_update_where)
  have "env_ok h bw (bs_requests t) (?f e)" using tabs fe by (simp add: tables_ok_def list_all_iff)
  moreover have "row_spec (?f e) = row_spec e" "ev_env_key (?f e) = ev_env_key e" by (simp_all add: row_spec_def)
  ultimately have "sp = row_spec e" using wanted_unique [OF w _ cf] t by (auto simp: env_ok_def)
  then have own: "builder_ok (bd_envs (bs_db t)) \<lparr>by_env = ev_id e, by_job = job, by_spec = sp, by_image = None\<rparr>"
    unfolding builder_ok_def by (intro bexI [OF _ fe]) (simp add: row_spec_def)
  have away: "ev_id e \<noteq> by_env b" if "b \<in> set (bs_builders s)" for b
    using builder_row(1) [OF ok that e] pend by (auto split: option.splits)
  have others: "builder_ok (bd_envs (bs_db t)) b" if "b \<in> set (bs_builders s)" for b
    using ok(2) that away [OF that] t c(2) by (auto simp: builders_ok_def list_all_iff intro!: builder_ok_other)
  show ?thesis using tabs own others away ok(2) t by (auto simp: builders_ok_def list_all_iff)
qed

lemma built_step:
  assumes ok: "tables_ok h bw s" "builders_ok s" and b: "bs_builders s = xs @ b # ys" "by_image b = None"
    and t: "t = s\<lparr>bs_db := mark_verifying (bs_db s) now (by_env b) (by_job b), bs_builders := xs @ b\<lparr>by_image := Some i\<rparr> # ys\<rparr>"
  shows "tables_ok h bw t \<and> builders_ok t"
proof -
  let ?f = "\<lambda>e. e\<lparr>ev_status := VERIFYING, ev_updated_at := now\<rparr>"
  have E: "bd_envs (bs_db t) = update_where (\<lambda>e. ev_id e = by_env b) ?f (bd_envs (bs_db s))" using t by (simp add: mark_verifying_def)
  have bm: "b \<in> set (bs_builders s)" using b(1) by simp
  have tabs: "tables_ok h bw t"
    by (rule own_row_tables [OF ok bm, of ?f]) (use t in \<open>auto simp: ready_ok_def mark_verifying_def\<close>)
  obtain e where e: "e \<in> set (bd_envs (bs_db s))" "ev_id e = by_env b" "by_spec b = row_spec e"
    using ok(2) bm by (auto simp: builders_ok_def list_all_iff builder_ok_def)
  have "?f e \<in> set (bd_envs (bs_db t))" using E e by (auto simp: set_update_where)
  then have "builder_ok (bd_envs (bs_db t)) (b\<lparr>by_image := Some i\<rparr>)"
    unfolding builder_ok_def using e by (intro bexI [of _ "?f e"]) (simp_all add: row_spec_def)
  moreover have "builder_ok (bd_envs (bs_db t)) c" if "c \<in> set (xs @ ys)" for c
    unfolding E by (rule other_builders [OF ok(2) b(1) _ that]) simp
  ultimately show ?thesis using tabs ok(2) b(1) t by (auto simp: builders_ok_def list_all_iff)
qed

lemma ready_step:
  assumes ok: "tables_ok h bw s" "builders_ok s" and b: "bs_builders s = xs @ b # ys" "by_image b = Some i"
    and pk: "parse_locked_packages (bw_canonicalize bw) (sp_requirements_lock (by_spec b)) = Inr pk"
    and mk: "mark_ready (bs_db s) now (by_env b) (by_job b) i = (Inr (), db)"
    and t: "t = s\<lparr>bs_db := db, bs_builders := xs @ ys, bs_verified := (i, pk) # bs_verified s\<rparr>"
  shows "tables_ok h bw t \<and> builders_ok t"
proof -
  let ?f = "\<lambda>e. e\<lparr>ev_status := READY, ev_image_ref := Some i, ev_last_error := None, ev_updated_at := now\<rparr>"
  note m = mark_ready_ok [OF mk]
  have bm: "b \<in> set (bs_builders s)" using b(1) by simp
  have pkgs: "ev_packages e = pk" if "e \<in> set (bd_envs (bs_db s))" "ev_id e = by_env b" for e
  proof -
    have "by_spec b = row_spec e" using builder_row(2) [OF ok bm that] .
    moreover have "env_ok h bw (bs_requests s) e" using ok(1) that(1) by (simp add: tables_ok_def list_all_iff)
    ultimately show ?thesis using pk by (simp add: env_ok_def wanted_def)
  qed
  have tabs: "tables_ok h bw t"
    by (rule own_row_tables [OF ok bm, of ?f]) (use t m pkgs in \<open>auto simp: ready_ok_def\<close>)
  moreover have "builders_ok t" by (rule builders_keep [OF ok(2) b(1), of ?f]) (use t m in simp_all)
  ultimately show ?thesis by blast
qed

lemma failed_step:
  assumes ok: "tables_ok h bw s" "builders_ok s" and b: "bs_builders s = xs @ b # ys"
    and t: "t = s\<lparr>bs_db := mark_failed (bs_db s) now (by_env b) (by_job b) msg, bs_builders := xs @ ys\<rparr>"
  shows "tables_ok h bw t \<and> builders_ok t"
proof -
  let ?f = "\<lambda>e. e\<lparr>ev_status := FAILED, ev_last_error := Some (py_last 8192 msg), ev_updated_at := now\<rparr>"
  have bm: "b \<in> set (bs_builders s)" using b by simp
  have E: "bd_envs (bs_db t) = update_where (\<lambda>e. ev_id e = by_env b) ?f (bd_envs (bs_db s))" "bd_aliases (bs_db t) = bd_aliases (bs_db s)"
    using t by (simp_all add: mark_failed_def Let_def)
  have "tables_ok h bw t"
    by (rule own_row_tables [OF ok bm, of ?f]) (use t E in \<open>auto simp: ready_ok_def\<close>)
  moreover have "builders_ok t" by (rule builders_keep [OF ok(2) b, of ?f]) (use t E in simp_all)
  ultimately show ?thesis by blast
qed

lemma reset_step:
  assumes ok: "tables_ok h bw s" "builders_ok s" and r: "reset_failed (bs_db s) now env_id = (r, db)" and t: "t = s\<lparr>bs_db := db\<rparr>"
  shows "tables_ok h bw t \<and> builders_ok t"
proof -
  let ?p = "\<lambda>e. ev_id e = env_id \<and> ev_status e = FAILED"
    and ?f = "\<lambda>e. e\<lparr>ev_status := PENDING, ev_image_ref := None, ev_last_error := None, ev_updated_at := now\<rparr>"
  have E: "bd_envs (bs_db t) = update_where ?p ?f (bd_envs (bs_db s))" "bd_aliases (bs_db t) = bd_aliases (bs_db s)"
    using r t by (auto simp: reset_failed_def Let_def)
  have tabs: "tables_ok h bw t"
    by (rule update_tables [OF ok(1), of ?f ?p]) (use t E in \<open>auto simp: ready_ok_def\<close>)
  have "builder_ok (bd_envs (bs_db t)) b" if "b \<in> set (bs_builders s)" for b
  proof -
    from ok(2) that obtain e where e: "e \<in> set (bd_envs (bs_db s))" "ev_id e = by_env b" "by_spec b = row_spec e"
      "ev_status e = (case by_image b of None \<Rightarrow> BUILDING | Some _ \<Rightarrow> VERIFYING)"
      by (auto simp: builders_ok_def list_all_iff builder_ok_def)
    then have "e \<in> set (bd_envs (bs_db t))" using E by (auto simp: set_update_where split: option.splits)
    then show ?thesis using e by (auto simp: builder_ok_def)
  qed
  then show ?thesis using tabs ok(2) t by (auto simp: builders_ok_def list_all_iff)
qed

lemma rows_stay:
  "builder_ok envs b \<Longrightarrow> set envs \<subseteq> set envs' \<Longrightarrow> builder_ok envs' b"
  unfolding builder_ok_def by blast

lemma build_step_inv:
  assumes "build_step h bw s t" "build_inv h bw s"
  shows "build_inv h bw t"
  unfolding build_inv_def
proof (rule impI)
  assume cf: "collision_free h (bs_requests t)"
  have "set (bs_requests s) \<subseteq> set (bs_requests t)" using assms(1) by cases auto
  then have inv: "tables_ok h bw s" "builders_ok s" "list_all (\<lambda>(i, pk). \<exists>n. verify_runtime_image bw n i pk = Inr ()) (bs_verified s)"
    using assms(2) collision_free_mono [OF cf] by (simp_all add: build_inv_def)
  from assms(1) have "tables_ok h bw t \<and> builders_ok t \<and> (bs_verified t = bs_verified s \<or>
      (\<exists>i pk n. bs_verified t = (i, pk) # bs_verified s \<and> verify_runtime_image bw n i pk = Inr ()))"
  proof cases
    case (create sp key pk uuid now r db)
    have "set (bd_envs (bs_db s)) \<subseteq> set (bd_envs db)" using create(3)
      by (auto simp: get_or_create_exact_def Let_def split: option.splits if_splits)
    then have "builders_ok t" using inv(2) rows_stay create(1) by (fastforce simp: builders_ok_def list_all_iff)
    then show ?thesis using insert_env_tables [OF inv(1) create(2,3)] create(1) by simp
  next
    case (bind_exact sp key pk e now)
    then show ?thesis using bind_tables [OF inv(1) bind_exact(2,3), of Exact now] inv(2)
      by (simp add: builders_ok_def bind_request_def)
  next
    case (bind_superset sp key pk e now)
    then show ?thesis using bind_tables [OF inv(1) bind_superset(2,3), of Superset now] inv(2)
      by (simp add: builders_ok_def bind_request_def)
  next
    case (claim e sp pk uuid now job db)
    then show ?thesis using claim_step [OF inv(1,2) claim(2-4) claim(1) cf] by simp
  next
    case (built xs b ys now i)
    then show ?thesis using built_step [OF inv(1,2) built(2,3,1)] by simp
  next
    case (ready xs b ys i pk n now db)
    then show ?thesis using ready_step [OF inv(1,2) ready(2,3,4,6,1)] by auto
  next
    case (failed xs b ys now msg)
    then show ?thesis using failed_step [OF inv(1,2) failed(2,1)] by simp
  next
    case (reset now env_id r db)
    then show ?thesis using reset_step [OF inv(1,2) reset(2,1)] by simp
  next
    case (crash xs b ys)
    then show ?thesis using inv(1,2) by (auto simp: builders_ok_def tables_ok_def)
  qed
  then show "tables_ok h bw t \<and> builders_ok t \<and> list_all (\<lambda>(i, pk). \<exists>n. verify_runtime_image bw n i pk = Inr ()) (bs_verified t)"
    using inv(3) by auto
qed

interpretation builds: invariant_machine init_build "build_step h bw" "build_inv h bw" for h bw
proof
  show "build_inv h bw s" if "init_build s" for s
    using that by (simp add: build_inv_def init_build_def tables_ok_def builders_ok_def empty_build_db_def)
  show "build_inv h bw t" if "build_inv h bw s" "build_step h bw s t" for s t
    using build_step_inv that by blast
qed

end
