(* ===== verification/Build_Service.thy ===== *)
theory Build_Service
  imports Build_Machine
begin

text \<open>
  \<^verbatim>\<open>build_service/service.py\<close> and the handlers of \<^verbatim>\<open>build_service/app.py\<close>.  Every transaction draws the next
  index of the clock and of the identifiers; logging has no effect in the model, except that the length
  of \<open>spec.packages\<close> that it prints parses the lock file and may raise.
\<close>

record build_settings =
  set_base_image :: string
  set_registry_repo :: string
  set_python_version :: string
  set_platform :: string
  set_uv_python_platform :: string
  set_policy_version :: string
  set_uv_default_index :: "string option"
  set_allow_superset_reuse :: bool

record build_service =
  sv_db :: build_db
  sv_settings :: build_settings
  sv_now :: "nat \<Rightarrow> int"
  sv_uuids :: "nat \<Rightarrow> string"
  sv_draws :: nat

definition sv_put :: "build_db \<Rightarrow> build_service \<Rightarrow> build_service" where
  "sv_put db b = b\<lparr>sv_db := db, sv_draws := sv_draws b + 1\<rparr>"

definition bnow :: "build_service \<Rightarrow> int" where
  "bnow b = sv_now b (sv_draws b)"

definition buuid :: "build_service \<Rightarrow> string" where
  "buuid b = sv_uuids b (sv_draws b)"

section \<open>Building one environment\<close>

text \<open>\<open>type(exc).__name__\<close> and the line \<open>f"{type(exc).__name__}: {exc}"\<close>.\<close>

definition exn_type_name :: "exn \<Rightarrow> string" where
  "exn_type_name e = (case e of PyExn t _ \<Rightarrow> t
     | RunnerExn k _ _ _ \<Rightarrow> (case k of RunnerError \<Rightarrow> ''RunnerError'' | CatalogError \<Rightarrow> ''CatalogError'' | LeaseError \<Rightarrow> ''LeaseError''
         | QuotaError \<Rightarrow> ''QuotaError'' | SandboxError \<Rightarrow> ''SandboxError''))"

definition exn_line :: "exn \<Rightarrow> string" where
  "exn_line e = exn_type_name e @ '': '' @ exn_str e"

text \<open>The body of the \<open>try\<close> statement of \<open>_build\<close>: how it ends, and the tables then.\<close>

definition run_build :: "build_world \<Rightarrow> build_service \<Rightarrow> string \<Rightarrow> string \<Rightarrow> build_spec \<Rightarrow> (string, string) dict \<Rightarrow> unit result \<times> build_service" where
  "run_build bw b env_id job sp packages =
     (case build_runtime_image bw (sv_draws b) sp (set_registry_repo (sv_settings b)) (''env-'' @ env_id) of
        Inl e \<Rightarrow> (Inl e, b)
      | Inr img \<Rightarrow>
          let b1 = sv_put (mark_verifying (sv_db b) (bnow b) env_id job) b in
          (case verify_runtime_image bw (sv_draws b1) img packages of
             Inl e \<Rightarrow> (Inl e, b1)
           | Inr _ \<Rightarrow>
               let (r, db) = mark_ready (sv_db b1) (bnow b1) env_id job img in (r, sv_put db b1)))"

text \<open>The whole \<open>try\<close> statement: an exception marks the environment failed.\<close>

definition attempt_build :: "build_world \<Rightarrow> build_service \<Rightarrow> string \<Rightarrow> string \<Rightarrow> build_spec \<Rightarrow> (string, string) dict \<Rightarrow> build_service" where
  "attempt_build bw b env_id job sp packages =
     (case run_build bw b env_id job sp packages of
        (Inr _, b') \<Rightarrow> b'
      | (Inl e, b') \<Rightarrow> sv_put (mark_failed (sv_db b') (bnow b') env_id job (exn_line e)) b')"

definition build_env :: "build_world \<Rightarrow> build_service \<Rightarrow> string \<Rightarrow> env_row \<Rightarrow> build_spec \<Rightarrow> resolved option result \<times> build_service" where
  "build_env bw b request_key env sp =
     (case claim_build (sv_db b) (buuid b) (bnow b) (ev_id env) of
        (Inl e, db) \<Rightarrow> (Inl e, sv_put db b)
      | (Inr None, db) \<Rightarrow> let b1 = sv_put db b in (Inr (get_for_request (sv_db b1) request_key), b1)
      | (Inr (Some job), db) \<Rightarrow>
          let b1 = sv_put db b in
          (case parse_locked_packages (bw_canonicalize bw) (sp_requirements_lock sp) of
             Inl e \<Rightarrow> (Inl e, b1)
           | Inr packages \<Rightarrow>
               let b2 = attempt_build bw b1 (ev_id env) job sp packages in
               (Inr (get_for_request (sv_db b2) request_key), b2)))"

section \<open>Operations\<close>

definition spec_of :: "build_settings \<Rightarrow> string \<Rightarrow> build_spec" where
  "spec_of st lock_text = \<lparr>sp_base_image = set_base_image st, sp_python_version = set_python_version st, sp_platform = set_platform st,
     sp_requirements_lock = lock_text, sp_policy_version = set_policy_version st\<rparr>"

text \<open>Lines 99 to 119: the exact environment of a request that has no alias and no superset.\<close>

definition resolve_exact :: "(bytes \<Rightarrow> string) \<Rightarrow> build_world \<Rightarrow> build_service \<Rightarrow> string \<Rightarrow> build_spec \<Rightarrow> (string, string) dict \<Rightarrow>
    resolved option result \<times> build_service" where
  "resolve_exact h bw b key sp packages =
     (case get_or_create_exact h (sv_db b) (buuid b) (bnow b) key sp packages of
        (Inl e, db) \<Rightarrow> (Inl e, sv_put db b)
      | (Inr env, db) \<Rightarrow>
          let b1 = sv_put db b;
              b2 = sv_put (bind_request (sv_db b1) (bnow b1) key (ev_id env) Exact) b1 in
          if ev_status env = PENDING then build_env bw b2 key env sp
          else (Inr (get_for_request (sv_db b2) key), b2))"

text \<open>The decision of \<open>resolve\<close> once the lock file is known.\<close>

definition resolve_spec :: "(bytes \<Rightarrow> string) \<Rightarrow> build_world \<Rightarrow> build_service \<Rightarrow> string \<Rightarrow> build_spec \<Rightarrow> (string, string) dict \<Rightarrow>
    resolved option result \<times> build_service" where
  "resolve_spec h bw b key sp packages =
     (case get_for_request (sv_db b) key of
        Some existing \<Rightarrow>
          if ev_status (rs_env existing) = PENDING then build_env bw b key (rs_env existing) sp
          else (Inr (Some existing), b)
      | None \<Rightarrow>
          (case (if set_allow_superset_reuse (sv_settings b) then find_smallest_superset (sv_db b) sp packages else None) of
             Some candidate \<Rightarrow>
               let b1 = sv_put (bind_request (sv_db b) (bnow b) key (ev_id candidate) Superset) b in
               (Inr (get_for_request (sv_db b1) key), b1)
           | None \<Rightarrow> resolve_exact h bw b key sp packages))"

definition build_resolve :: "(bytes \<Rightarrow> string) \<Rightarrow> build_world \<Rightarrow> build_service \<Rightarrow> string list \<Rightarrow> resolved option result \<times> build_service" where
  "build_resolve h bw b requirements =
     (case lock_requirements bw requirements (set_python_version (sv_settings b)) (set_uv_python_platform (sv_settings b))
             (set_uv_default_index (sv_settings b)) of
        Inl e \<Rightarrow> (Inl e, b)
      | Inr lock_text \<Rightarrow>
          let sp = spec_of (sv_settings b) lock_text in
          (case env_key h sp of
             Inl e \<Rightarrow> (Inl e, b)
           | Inr key \<Rightarrow>
               (case parse_locked_packages (bw_canonicalize bw) lock_text of
                  Inl e \<Rightarrow> (Inl e, b)
                | Inr packages \<Rightarrow> resolve_spec h bw b key sp packages)))"

definition status_text :: "env_status \<Rightarrow> string" where
  "status_text st = (case st of PENDING \<Rightarrow> ''PENDING'' | BUILDING \<Rightarrow> ''BUILDING'' | VERIFYING \<Rightarrow> ''VERIFYING''
     | READY \<Rightarrow> ''READY'' | FAILED \<Rightarrow> ''FAILED'')"

definition build_retry :: "build_world \<Rightarrow> build_service \<Rightarrow> string \<Rightarrow> resolved option result \<times> build_service" where
  "build_retry bw b key =
     (case get_for_request (sv_db b) key of
        None \<Rightarrow> (Inl (PyExn ''KeyError'' key), b)
      | Some existing \<Rightarrow>
          if ev_status (rs_env existing) \<noteq> FAILED then
            (Inl (build_value_error (''runtime environment status is '' @ status_text (ev_status (rs_env existing)) @
              ''; only FAILED environments can be retried'')), b)
          else
            let (reset, db) = reset_failed (sv_db b) (bnow b) (ev_id (rs_env existing)); b1 = sv_put db b in
            (case reset of
               None \<Rightarrow> (case get_for_request (sv_db b1) key of
                           None \<Rightarrow> (Inl (PyExn ''KeyError'' key), b1)
                         | Some current \<Rightarrow> (Inr (Some current), b1))
             | Some env \<Rightarrow> build_env bw b1 key env (row_spec env)))"

section \<open>HTTP handlers\<close>

definition opt_json :: "string option \<Rightarrow> json" where
  "opt_json v = (case v of None \<Rightarrow> JNull | Some s \<Rightarrow> JStr s)"

definition serialize_environment :: "resolved option \<Rightarrow> json" where
  "serialize_environment row =
     (case row of
        None \<Rightarrow> JObj [(''found'', JBool False)]
      | Some r \<Rightarrow>
          let e = rs_env r in
          JObj [(''found'', JBool True), (''environmentId'', JStr (ev_id e)), (''envKey'', JStr (rs_request_env_key r)),
            (''runtimeEnvKey'', JStr (ev_env_key e)),
            (''resolutionKind'', JStr (case rs_resolution_kind r of Exact \<Rightarrow> ''exact'' | Superset \<Rightarrow> ''superset'')),
            (''status'', JStr (status_text (ev_status e))), (''image'', opt_json (ev_image_ref e)),
            (''error'', opt_json (ev_last_error e)), (''canRetry'', JBool (ev_status e = FAILED))])"

datatype http_answer = Ok json | HttpFailure nat string | Crash exn

definition is_exn :: "string \<Rightarrow> exn \<Rightarrow> bool" where
  "is_exn t e = (case e of PyExn t' _ \<Rightarrow> t' = t | RunnerExn _ _ _ _ \<Rightarrow> False)"

definition http_resolve :: "(bytes \<Rightarrow> string) \<Rightarrow> build_world \<Rightarrow> build_service \<Rightarrow> string list \<Rightarrow> http_answer \<times> build_service" where
  "http_resolve h bw b requirements =
     (case build_resolve h bw b requirements of
        (Inr row, b') \<Rightarrow> (Ok (serialize_environment row), b')
      | (Inl e, b') \<Rightarrow> ((if is_exn ''ValueError'' e then HttpFailure 400 (exn_str e) else Crash e), b'))"

definition http_get_environment :: "build_service \<Rightarrow> string \<Rightarrow> http_answer" where
  "http_get_environment b key =
     (case get_for_request (sv_db b) key of
        None \<Rightarrow> HttpFailure 404 ''runtime environment not found''
      | Some r \<Rightarrow> Ok (serialize_environment (Some r)))"

definition http_retry :: "build_world \<Rightarrow> build_service \<Rightarrow> string \<Rightarrow> http_answer \<times> build_service" where
  "http_retry bw b key =
     (case build_retry bw b key of
        (Inr row, b') \<Rightarrow> (Ok (serialize_environment row), b')
      | (Inl e, b') \<Rightarrow>
          ((if is_exn ''KeyError'' e then HttpFailure 404 ''runtime environment not found''
            else if is_exn ''ValueError'' e then HttpFailure 409 (exn_str e) else Crash e), b'))"

section \<open>Service calls are runs of the transaction machine\<close>

text \<open>A run from \<open>s\<close> that ends on the tables \<open>db\<close>, with no builder of the call left, having added at most
  the request \<open>sp\<close> to the history.\<close>

definition simulates :: "(bytes \<Rightarrow> string) \<Rightarrow> build_world \<Rightarrow> build_spec \<Rightarrow> build_state \<Rightarrow> build_db \<Rightarrow> build_state \<Rightarrow> bool" where
  "simulates h bw sp s db t \<longleftrightarrow> (build_step h bw)\<^sup>*\<^sup>* s t \<and> bs_db t = db \<and> bs_builders t = bs_builders s \<and>
     set (bs_requests t) \<subseteq> insert sp (set (bs_requests s))"

lemma simulates_refl: "simulates h bw sp s (bs_db s) s"
  by (auto simp: simulates_def)

lemma simulates_trans:
  "simulates h bw sp s db t \<Longrightarrow> simulates h bw sp t db' u \<Longrightarrow> simulates h bw sp s db' u"
  unfolding simulates_def by auto

lemma simulates_step:
  "build_step h bw s t \<Longrightarrow> bs_builders t = bs_builders s \<Longrightarrow> set (bs_requests t) \<subseteq> insert sp (set (bs_requests s)) \<Longrightarrow>
   simulates h bw sp s (bs_db t) t"
  by (auto simp: simulates_def)

lemma sv_db_put [simp]: "sv_db (sv_put db b) = db"
  by (simp add: sv_put_def)

lemma run_ends:
  "(build_step h bw)\<^sup>*\<^sup>* s t \<Longrightarrow> bs_db t = D \<Longrightarrow> bs_builders t = B \<Longrightarrow> bs_requests t = R \<Longrightarrow>
   \<exists>t. (build_step h bw)\<^sup>*\<^sup>* s t \<and> bs_db t = D \<and> bs_builders t = B \<and> bs_requests t = R"
  by blast

lemmas attempt_simps = attempt_build_def run_build_def Let_def

lemma attempt_build_runs:
  assumes db: "bs_db s = sv_db b" and bs: "bs_builders s = \<lparr>by_env = eid, by_job = job, by_spec = sp, by_image = None\<rparr> # B"
    and pk: "parse_locked_packages (bw_canonicalize bw) (sp_requirements_lock sp) = Inr pk"
  shows "\<exists>t. (build_step h bw)\<^sup>*\<^sup>* s t \<and> bs_db t = sv_db (attempt_build bw b eid job sp pk) \<and> bs_builders t = B \<and> bs_requests t = bs_requests s"
proof (cases "build_runtime_image bw (sv_draws b) sp (set_registry_repo (sv_settings b)) (''env-'' @ eid)")
  case (Inl e)
  have "build_step h bw s (s\<lparr>bs_db := mark_failed (bs_db s) (bnow b) eid job (exn_line e), bs_builders := B\<rparr>)"
    using build_step.failed [of s "[]" _ B h bw "bnow b" "exn_line e"] bs by simp
  from r_into_rtranclp [of "build_step h bw", OF this] show ?thesis by (rule run_ends) (use Inl db in \<open>simp_all add: attempt_simps\<close>)
next
  case (Inr i)
  note img = this
  let ?b1 = "sv_put (mark_verifying (sv_db b) (bnow b) eid job) b"
  let ?s1 = "s\<lparr>bs_db := sv_db ?b1, bs_builders := \<lparr>by_env = eid, by_job = job, by_spec = sp, by_image = Some i\<rparr> # B\<rparr>"
  have s1: "build_step h bw s ?s1"
    using build_step.built [where s = s and xs = "[]" and ys = B and now = "bnow b" and i = i and h = h and bw = bw] bs db by simp
  have two: "(build_step h bw)\<^sup>*\<^sup>* s u" if "build_step h bw ?s1 u" for u
    using rtranclp.rtrancl_into_rtrancl [OF r_into_rtranclp [of "build_step h bw", OF s1] that] .
  have fail: "build_step h bw ?s1 (?s1\<lparr>bs_db := mark_failed (bs_db ?s1) now eid job msg, bs_builders := B\<rparr>)" for now msg
    using build_step.failed [of ?s1 "[]" _ B h bw now msg] by simp
  show ?thesis
  proof (cases "verify_runtime_image bw (sv_draws ?b1) i pk")
    case (Inl e)
    show ?thesis by (rule run_ends [OF two [OF fail [of "bnow ?b1" "exn_line e"]]]) (use Inl Inr in \<open>simp_all add: attempt_simps\<close>)
  next
    case (Inr u)
    note ver = this
    obtain r db' where mr: "mark_ready (sv_db ?b1) (bnow ?b1) eid job i = (r, db')" by (cases "mark_ready (sv_db ?b1) (bnow ?b1) eid job i")
    show ?thesis
    proof (cases r)
      case (Inl e)
      have "db' = sv_db ?b1" using mr Inl by (auto simp: mark_ready_def split: if_splits)
      show ?thesis by (rule run_ends [OF two [OF fail [of "bnow (sv_put db' ?b1)" "exn_line e"]]])
          (use \<open>db' = sv_db ?b1\<close> Inl ver mr img in \<open>simp_all add: attempt_simps\<close>)
    next
      case (Inr v)
      have "build_step h bw ?s1 (?s1\<lparr>bs_db := db', bs_builders := B, bs_verified := (i, pk) # bs_verified ?s1\<rparr>)"
        using build_step.ready [where s = ?s1 and xs = "[]" and ys = B and i = i and bw = bw and pk = pk and n = "sv_draws ?b1" and now = "bnow ?b1" and db = db' and h = h] mr ver pk Inr by simp
      from two [OF this] show ?thesis by (rule run_ends) (use Inr ver mr img in \<open>simp_all add: attempt_simps\<close>)
    qed
  qed
qed

lemma build_env_runs:
  assumes db: "bs_db s = sv_db b" and e: "e \<in> set (bd_envs (sv_db b))" "ev_id env = ev_id e"
    and w: "wanted h bw sp (ev_env_key e) pk" and r: "build_env bw b key env sp = (r, b')"
  shows "\<exists>t. simulates h bw sp s (sv_db b') t" "r = Inr res \<Longrightarrow> res = get_for_request (sv_db b') key"
proof -
  obtain c db1 where cl: "claim_build (sv_db b) (buuid b) (bnow b) (ev_id e) = (c, db1)"
    by (cases "claim_build (sv_db b) (buuid b) (bnow b) (ev_id e)")
  have same: "db1 = sv_db b" if "\<And>job. c \<noteq> Inr (Some job)"
    using cl that by (auto simp: claim_build_def Let_def split: if_splits)
  have pk: "parse_locked_packages (bw_canonicalize bw) (sp_requirements_lock sp) = Inr pk" using w by (simp add: wanted_def)
  show "\<exists>t. simulates h bw sp s (sv_db b') t"
  proof (cases "\<exists>job. c = Inr (Some job)")
    case False
    then have "sv_db b' = bs_db s" using r cl same db e(2) by (auto simp: build_env_def Let_def split: sum.splits option.splits)
    then show ?thesis using simulates_refl [of h bw sp s] by auto
  next
    case True
    then obtain job where c: "c = Inr (Some job)" ..
    let ?s1 = "s\<lparr>bs_db := db1, bs_builders := \<lparr>by_env = ev_id e, by_job = job, by_spec = sp, by_image = None\<rparr> # bs_builders s,
      bs_requests := sp # bs_requests s\<rparr>"
    have s1: "build_step h bw s ?s1"
      by (rule build_step.claim [of _ _ _ _ _ _ "buuid b" "bnow b"]) (use e w cl c db in simp_all)
    have "\<exists>t. (build_step h bw)\<^sup>*\<^sup>* ?s1 t \<and> bs_db t = sv_db (attempt_build bw (sv_put db1 b) (ev_id e) job sp pk) \<and>
        bs_builders t = bs_builders s \<and> bs_requests t = bs_requests ?s1"
      by (rule attempt_build_runs) (simp_all add: pk)
    moreover have "b' = attempt_build bw (sv_put db1 b) (ev_id e) job sp pk"
      using r cl c pk e(2) by (simp add: build_env_def Let_def)
    ultimately show ?thesis using converse_rtranclp_into_rtranclp [of "build_step h bw", OF s1] by (fastforce simp: simulates_def)
  qed
  show "res = get_for_request (sv_db b') key" if "r = Inr res"
    using r that cl e(2) by (auto simp: build_env_def Let_def split: sum.splits option.splits)
qed

lemma get_for_requestD:
  assumes "get_for_request db key = Some r"
  shows "\<exists>a\<in>set (bd_aliases db). al_request_env_key a = key \<and> rs_env r \<in> set (bd_envs db) \<and> ev_id (rs_env r) = al_env_id a"
  using assms by (auto simp: get_for_request_def split: option.splits dest!: fetchone_SomeD)

lemma get_for_request_found:
  assumes "tables_ok h bw s" "key \<in> al_request_env_key ` set (bd_aliases (bs_db s))"
  shows "get_for_request (bs_db s) key \<noteq> None"
proof -
  obtain a where a: "fetchone (\<lambda>a. al_request_env_key a = key) (bd_aliases (bs_db s)) = Some a"
    using assms(2) by (cases "fetchone (\<lambda>a. al_request_env_key a = key) (bd_aliases (bs_db s))") (auto simp: fetchone_None)
  then have "alias_ok h bw (bs_requests s) (bd_envs (bs_db s)) a"
    using assms(1) by (auto simp: tables_ok_def list_all_iff dest!: fetchone_SomeD)
  then have "fetchone (\<lambda>e. ev_id e = al_env_id a) (bd_envs (bs_db s)) \<noteq> None" by (auto simp: alias_ok_def fetchone_None)
  then show ?thesis using a by (auto simp: get_for_request_def)
qed

text \<open>What an alias of a request says about the environment it leads to.\<close>

lemma alias_serves:
  assumes ok: "tables_ok h bw s" and cf: "collision_free h (sp # bs_requests s)" and w: "wanted h bw sp key pk"
    and g: "get_for_request (bs_db s) key = Some r"
  shows "ev_env_key (rs_env r) = key \<and> row_spec (rs_env r) = sp \<and> ev_packages (rs_env r) = pk \<or> superset_of sp pk (rs_env r)"
proof -
  obtain a where a: "a \<in> set (bd_aliases (bs_db s))" "al_request_env_key a = key" "rs_env r \<in> set (bd_envs (bs_db s))" "ev_id (rs_env r) = al_env_id a"
    using get_for_requestD [OF g] by blast
  from ok a(1) have "alias_ok h bw (bs_requests s) (bd_envs (bs_db s)) a" by (simp add: tables_ok_def list_all_iff)
  then obtain e sp' pk' where e: "e \<in> set (bd_envs (bs_db s))" "sp' \<in> set (bs_requests s)" "ev_id e = al_env_id a"
    "wanted h bw sp' (al_request_env_key a) pk'"
    "case al_resolution_kind a of Exact \<Rightarrow> ev_env_key e = al_request_env_key a | Superset \<Rightarrow> superset_of sp' pk' e"
    unfolding alias_ok_def by blast
  have "distinct (map ev_id (bd_envs (bs_db s)))" using ok by (simp add: tables_ok_def)
  then have er: "e = rs_env r" using distinct_key_eq e(1,3) a(3,4) by metis
  have sp: "sp' = sp" using wanted_unique [OF e(4) _ cf] w a(2) e(2) by simp
  then have "pk' = pk" using e(4) w a(2) by (simp add: wanted_def)
  show ?thesis
  proof (cases "al_resolution_kind a")
    case Exact
    then have k: "ev_env_key e = key" using e(5) a(2) by simp
    have ek: "env_ok h bw (bs_requests s) e" using ok e(1) by (simp add: tables_ok_def list_all_iff)
    then have "wanted h bw (row_spec e) key (ev_packages e)" "row_spec e \<in> set (bs_requests s)" using k by (simp_all add: env_ok_def)
    moreover from this have "row_spec e = sp" using wanted_unique [OF _ w cf] by simp
    ultimately have "ev_packages e = pk" using w by (simp add: wanted_def)
    then show ?thesis using k \<open>row_spec e = sp\<close> er by simp
  next
    case Superset
    then show ?thesis using e(5) sp \<open>pk' = pk\<close> er by simp
  qed
qed

text \<open>A call that is a run of the machine and reports the row its request key leads to.\<close>

definition answers :: "(bytes \<Rightarrow> string) \<Rightarrow> build_world \<Rightarrow> build_spec \<Rightarrow> build_state \<Rightarrow> string \<Rightarrow> resolved option result \<times> build_service \<Rightarrow> bool" where
  "answers h bw sp s key p \<longleftrightarrow> (\<exists>t. simulates h bw sp s (sv_db (snd p)) t) \<and>
     (\<forall>res. fst p = Inr res \<longrightarrow> res = get_for_request (sv_db (snd p)) key)"

lemma answers_after: "simulates h bw sp s db t \<Longrightarrow> answers h bw sp t key p \<Longrightarrow> answers h bw sp s key p"
  unfolding answers_def using simulates_trans by blast

lemma answers_now: "simulates h bw sp s (sv_db b) t \<Longrightarrow> answers h bw sp s key (Inr (get_for_request (sv_db b) key), b)"
  "simulates h bw sp s (sv_db b) t \<Longrightarrow> answers h bw sp s key (Inl e, b)"
  unfolding answers_def by auto

lemma build_env_answers:
  assumes "bs_db s = sv_db b" "e \<in> set (bd_envs (sv_db b))" "ev_id env = ev_id e" "wanted h bw sp (ev_env_key e) pk"
  shows "answers h bw sp s key (build_env bw b key env sp)"
  unfolding answers_def using build_env_runs [OF assms prod.collapse [symmetric]] by blast

lemma resolve_exact_answers:
  assumes db: "bs_db s = sv_db b" and w: "wanted h bw sp key pk"
  shows "answers h bw sp s key (resolve_exact h bw b key sp pk)"
proof -
  obtain c db1 where go: "get_or_create_exact h (sv_db b) (buuid b) (bnow b) key sp pk = (c, db1)"
    by (cases "get_or_create_exact h (sv_db b) (buuid b) (bnow b) key sp pk")
  let ?s1 = "s\<lparr>bs_db := db1, bs_requests := sp # bs_requests s\<rparr>" and ?b1 = "sv_put db1 b"
  have s1: "simulates h bw sp s (bs_db ?s1) ?s1"
    by (rule simulates_step, rule build_step.create [OF w, of _ "buuid b" "bnow b"]) (use go db in auto)
  show ?thesis
  proof (cases c)
    case (Inl e)
    then show ?thesis using go s1 answers_now(2) [of h bw sp s ?b1] by (auto simp: resolve_exact_def)
  next
    case (Inr e)
    have row: "e \<in> set (bd_envs db1)" "ev_env_key e = key"
      using go Inr by (auto simp: get_or_create_exact_def Let_def new_env_row_def split: option.splits if_splits dest!: fetchone_SomeD)
    let ?b2 = "sv_put (bind_request db1 (bnow ?b1) key (ev_id e) Exact) ?b1"
    let ?s2 = "?s1\<lparr>bs_db := sv_db ?b2, bs_requests := sp # bs_requests ?s1\<rparr>"
    have "build_step h bw ?s1 ?s2" using build_step.bind_exact [OF w, of e ?s1 "bnow ?b1"] row by simp
    then have s2: "simulates h bw sp s (sv_db ?b2) ?s2" using simulates_trans [OF s1 simulates_step [of h bw ?s1 ?s2 sp]] by auto
    have "answers h bw sp ?s2 key (build_env bw ?b2 key e sp)"
      by (rule build_env_answers [OF _ _ refl]) (use row w in \<open>simp_all add: bind_request_def\<close>)
    then show ?thesis using answers_after [OF s2] answers_now(1) [OF s2, of key] go Inr by (simp add: resolve_exact_def Let_def)
  qed
qed

lemma resolve_spec_answers:
  assumes db: "bs_db s = sv_db b" and w: "wanted h bw sp key pk" and ok: "tables_ok h bw s" and cf: "collision_free h (sp # bs_requests s)"
  shows "answers h bw sp s key (resolve_spec h bw b key sp pk)"
proof (cases "get_for_request (sv_db b) key")
  case (Some r)
  have "rs_env r \<in> set (bd_envs (sv_db b))" using get_for_requestD [OF Some] by blast
  moreover have "ev_env_key (rs_env r) = key" if "ev_status (rs_env r) = PENDING"
    using alias_serves [OF ok cf w] Some db that by (auto simp: superset_of_def)
  ultimately have "answers h bw sp s key (build_env bw b key (rs_env r) sp)" if "ev_status (rs_env r) = PENDING"
    using build_env_answers [OF db _ refl, of "rs_env r"] w that by simp
  moreover have "answers h bw sp s key (Inr (Some r), b)" using answers_now(1) [of h bw sp s b s key] simulates_refl [of h bw sp s] Some db by simp
  ultimately show ?thesis using Some by (simp add: resolve_spec_def)
next
  case None
  show ?thesis
  proof (cases "if set_allow_superset_reuse (sv_settings b) then find_smallest_superset (sv_db b) sp pk else None")
    case (Some e)
    then have e: "e \<in> set (bd_envs (bs_db s))" "superset_of sp pk e"
      using least_env_Some [of "filter (superset_of sp pk) (bd_envs (sv_db b))" e] db by (auto simp: find_smallest_superset_def split: if_splits)
    let ?b1 = "sv_put (bind_request (sv_db b) (bnow b) key (ev_id e) Superset) b"
    have "simulates h bw sp s (bs_db (s\<lparr>bs_db := sv_db ?b1, bs_requests := sp # bs_requests s\<rparr>)) (s\<lparr>bs_db := sv_db ?b1, bs_requests := sp # bs_requests s\<rparr>)"
      by (rule simulates_step) (use build_step.bind_superset [OF w e, of "bnow b"] db in auto)
    then have "simulates h bw sp s (sv_db ?b1) (s\<lparr>bs_db := sv_db ?b1, bs_requests := sp # bs_requests s\<rparr>)" by simp
    from answers_now(1) [OF this, of key] show ?thesis using None Some unfolding resolve_spec_def by (simp add: Let_def)
  next
    case None2: None
    then show ?thesis using None resolve_exact_answers [OF db w] unfolding resolve_spec_def by simp
  qed
qed


text \<open>The row a reset returns stands in the new table with its static columns.\<close>

lemma reset_failed_row:
  assumes "reset_failed db now env_id = (Some env, db')" "distinct (map ev_id (bd_envs db))" "e \<in> set (bd_envs db)" "ev_id e = env_id"
  shows "static env = static e" "env \<in> set (bd_envs db')"
proof -
  let ?p = "\<lambda>e. ev_id e = env_id \<and> ev_status e = FAILED"
  let ?f = "\<lambda>e. e\<lparr>ev_status := PENDING, ev_image_ref := None, ev_last_error := None, ev_updated_at := now\<rparr>"
  obtain x where x: "fetchone ?p (bd_envs db) = Some x" "env = ?f x" and db': "bd_envs db' = update_where ?p ?f (bd_envs db)"
    using assms(1) by (auto simp: reset_failed_def Let_def)
  then have "x = e" using fetchone_SomeD [OF x(1)] distinct_key_eq [OF assms(2) _ assms(3), of x] assms(4) by auto
  then show "static env = static e" using x(2) by simp
  show "env \<in> set (bd_envs db')" using x db' fetchone_SomeD [OF x(1)] by (auto simp: set_update_where)
qed

lemma build_retry_answers:
  assumes db: "bs_db s = sv_db b" and ok: "tables_ok h bw s" and g: "get_for_request (sv_db b) key = Some r"
  shows "answers h bw (row_spec (rs_env r)) s key (build_retry bw b key)"
proof -
  let ?e = "rs_env r" and ?sp = "row_spec (rs_env r)"
  obtain c db1 where rf: "reset_failed (sv_db b) (bnow b) (ev_id ?e) = (c, db1)" by (cases "reset_failed (sv_db b) (bnow b) (ev_id ?e)")
  let ?b1 = "sv_put db1 b" and ?s1 = "s\<lparr>bs_db := db1\<rparr>"
  have e: "?e \<in> set (bd_envs (sv_db b))" using get_for_requestD [OF g] by blast
  have "build_step h bw s ?s1" by (rule build_step.reset) (use rf db in simp)
  from simulates_step [OF this, of ?sp] have s1: "simulates h bw ?sp s (sv_db ?b1) ?s1" by auto
  have w: "wanted h bw ?sp (ev_env_key ?e) (ev_packages ?e)" and dist: "distinct (map ev_id (bd_envs (sv_db b)))"
    using ok e db by (simp_all add: tables_ok_def env_ok_def list_all_iff)
  have "answers h bw ?sp s key (build_env bw ?b1 key env (row_spec env))" if c: "c = Some env" for env
  proof (rule answers_after [OF s1])
    note row = reset_failed_row [OF rf [unfolded c] dist e refl] and same = static_fields [OF reset_failed_row(1) [OF rf [unfolded c] dist e refl]]
    show "answers h bw ?sp ?s1 key (build_env bw ?b1 key env (row_spec env))"
      using build_env_answers [of ?s1 ?b1 env env h bw "row_spec env" "ev_packages ?e" key] row(2) w same by simp
  qed
  then show ?thesis using rf g answers_now(1) [OF s1, of key] answers_now(2) [OF s1] answers_now(2) [of h bw ?sp s b s] simulates_refl [of h bw ?sp s] db
    by (auto simp: build_retry_def Let_def split: option.splits)
qed

section \<open>Properties\<close>

text \<open>An image that was checked to hold the given packages.\<close>

definition image_holds :: "build_world \<Rightarrow> string \<Rightarrow> (string, string) dict \<Rightarrow> bool" where
  "image_holds bw i pk \<longleftrightarrow> (\<exists>n dists. bw_installed bw n i = Inr dists \<and> contains_packages (installed_versions dists []) pk)"

lemma image_holds_verified: "verify_runtime_image bw n i pk = Inr () \<Longrightarrow> image_holds bw i pk"
  unfolding image_holds_def
  by (cases "bw_installed bw n i") (auto simp: verify_runtime_image_def contains_packages_def result_bind_def Let_def split: if_splits)

lemma image_holds_subset: "image_holds bw i pk \<Longrightarrow> contains_packages pk pk' \<Longrightarrow> image_holds bw i pk'"
  unfolding image_holds_def using contains_packages_trans by blast

lemma ready_image:
  assumes "build_inv h bw s" "collision_free h (bs_requests s)" "e \<in> set (bd_envs (bs_db s))" "ev_status e = READY"
  shows "\<exists>i. ev_image_ref e = Some i \<and> image_holds bw i (ev_packages e)"
proof -
  from assms have "ready_ok (bs_verified s) e" and v: "list_all (\<lambda>(i, pk). \<exists>n. verify_runtime_image bw n i pk = Inr ()) (bs_verified s)"
    by (auto simp: build_inv_def tables_ok_def list_all_iff)
  then obtain i where "ev_image_ref e = Some i" "(i, ev_packages e) \<in> set (bs_verified s)" using assms(4) by (auto simp: ready_ok_def)
  then show ?thesis using v image_holds_verified by (fastforce simp: list_all_iff)
qed

lemma reach_steps: "reach init step s \<Longrightarrow> step\<^sup>*\<^sup>* s t \<Longrightarrow> reach init step t"
  by (rotate_tac 1, induction rule: rtranclp_induct) (auto intro: reach_step)

text \<open>A call that answers leaves a state the machine reaches; its answer is the row behind the request.\<close>

lemma answers_sound:
  assumes inv: "build_inv h bw s" and cf: "collision_free h (sp # bs_requests s)" and w: "wanted h bw sp key pk"
    and a: "answers h bw sp s key (Inr (Some r), b')" and rd: "ev_status (rs_env r) = READY"
  shows "\<exists>i. ev_image_ref (rs_env r) = Some i \<and> image_holds bw i pk" "row_spec (rs_env r)\<lparr>sp_requirements_lock := sp_requirements_lock sp\<rparr> = sp"
proof -
  from a obtain t where t: "(build_step h bw)\<^sup>*\<^sup>* s t" "bs_db t = sv_db b'" "set (bs_requests t) \<subseteq> insert sp (set (bs_requests s))"
    and g: "get_for_request (sv_db b') key = Some r" by (auto simp: answers_def simulates_def)
  have cft: "collision_free h (sp # bs_requests t)" "collision_free h (bs_requests t)" 
    by (rule collision_free_mono [OF cf]; use t(3) in auto)+
  have invt: "build_inv h bw t" using builds.inv_steps [OF inv t(1)] .
  then have ok: "tables_ok h bw t" using cft(2) by (simp add: build_inv_def)
  have e: "rs_env r \<in> set (bd_envs (bs_db t))" using get_for_requestD [OF g] t(2) by auto
  have serves: "row_spec (rs_env r) = sp \<and> ev_packages (rs_env r) = pk \<or> superset_of sp pk (rs_env r)"
    using alias_serves [OF ok cft(1) w] g t(2) by auto
  have "contains_packages pk pk" using w parse_locked_distinct contains_packages_refl by (auto simp: wanted_def)
  then have "contains_packages (ev_packages (rs_env r)) pk" using serves by (auto simp: superset_of_def)
  then show "\<exists>i. ev_image_ref (rs_env r) = Some i \<and> image_holds bw i pk"
    using ready_image [OF invt cft(2) e rd] image_holds_subset by blast
  show "row_spec (rs_env r)\<lparr>sp_requirements_lock := sp_requirements_lock sp\<rparr> = sp"
    using serves by (auto simp: superset_of_def row_spec_def)
qed

text \<open>A small world that installs what the lock file pins, and a service on empty tables.\<close>

definition demo_build_world :: build_world where
  "demo_build_world = \<lparr>bw_canonicalize = (\<lambda>n. n), bw_requirement = (\<lambda>t. Some (t, False)), bw_uv_compile = (\<lambda>_ _ _ t. Inr t),
     bw_buildx = (\<lambda>_ _ _. Inr (JObj [(''containerimage.digest'', JStr ''sha256:0'')])), bw_installed = (\<lambda>_ _. Inr [(''a'', ''1'')])\<rparr>"

definition demo_build_service :: build_service where
  "demo_build_service = \<lparr>sv_db = empty_build_db, sv_settings = \<lparr>set_base_image = ''b@sha256:0'', set_registry_repo = ''r'', set_python_version = ''3'',
     set_platform = ''l'', set_uv_python_platform = ''x'', set_policy_version = ''1'', set_uv_default_index = None, set_allow_superset_reuse = True\<rparr>,
     sv_now = int, sv_uuids = (\<lambda>n. replicate n CHR ''u''), sv_draws = 0\<rparr>"

lemma demo_resolve:
  "map_sum id (map_option (\<lambda>r. (ev_status (rs_env r), ev_image_ref (rs_env r), ev_packages (rs_env r))))
     (fst (build_resolve (\<lambda>t. t) demo_build_world demo_build_service [''a==1''])) = Inr (Some (READY, Some ''r@sha256:0'', [(''a'', ''1'')]))"
  by code_simp

text \<open>C27: In every state that any interleaving of builds, retries and crashed builders reaches, a READY environment has an image that was
  inspected and found to hold every package of the environment's lock file, no thread is building it, and no two threads build the same
  environment.  The digests are assumed not to collide on the requested specifications.\<close>

theorem build_ready_verified:
  assumes "reach init_build (build_step h bw) s" "collision_free h (bs_requests s)" "e \<in> set (bd_envs (bs_db s))" "ev_status e = READY"
  shows "(\<exists>i. ev_image_ref e = Some i \<and> image_holds bw i (ev_packages e)) \<and>
    parse_locked_packages (bw_canonicalize bw) (ev_requirements_lock e) = Inr (ev_packages e) \<and>
    ev_id e \<notin> by_env ` set (bs_builders s) \<and> distinct (map by_env (bs_builders s))"
proof -
  have inv: "build_inv h bw s" by (rule builds.inv_reach [OF assms(1)])
  then have ok: "tables_ok h bw s" "builders_ok s" using assms(2) by (simp_all add: build_inv_def)
  have "wanted h bw (row_spec e) (ev_env_key e) (ev_packages e)" using ok(1) assms(3) by (auto simp: tables_ok_def env_ok_def list_all_iff)
  then have "parse_locked_packages (bw_canonicalize bw) (ev_requirements_lock e) = Inr (ev_packages e)" by (simp add: wanted_def row_spec_def)
  moreover have "ev_id e \<noteq> by_env b" if "b \<in> set (bs_builders s)" for b
    using builder_row(1) [OF ok that assms(3)] assms(4) by (auto split: option.splits)
  ultimately show ?thesis using ready_image [OF inv assms(2-4)] ok(2) by (auto simp: builders_ok_def)
qed

lemma resolve_ready_sound:
  assumes "reach init_build (build_step h bw) s" "bs_db s = sv_db b"
    and "lock_requirements bw reqs (set_python_version (sv_settings b)) (set_uv_python_platform (sv_settings b)) (set_uv_default_index (sv_settings b)) = Inr lock"
    and "parse_locked_packages (bw_canonicalize bw) lock = Inr pk"
    and "collision_free h (spec_of (sv_settings b) lock # bs_requests s)"
    and "build_resolve h bw b reqs = (Inr (Some r), b')" "ev_status (rs_env r) = READY"
  shows "(\<exists>i. ev_image_ref (rs_env r) = Some i \<and> image_holds bw i pk) \<and>
    ev_base_image (rs_env r) = set_base_image (sv_settings b) \<and> ev_python_version (rs_env r) = set_python_version (sv_settings b) \<and>
    ev_platform (rs_env r) = set_platform (sv_settings b) \<and> ev_policy_version (rs_env r) = set_policy_version (sv_settings b)"
proof -
  let ?sp = "spec_of (sv_settings b) lock"
  have inv: "build_inv h bw s" by (rule builds.inv_reach [OF assms(1)])
  have "collision_free h (bs_requests s)" by (rule collision_free_mono [OF assms(5)]) auto
  then have ok: "tables_ok h bw s" using inv by (simp add: build_inv_def)
  obtain key where key: "env_key h ?sp = Inr key" using assms(3,6) by (auto simp: build_resolve_def Let_def split: sum.splits)
  then have w: "wanted h bw ?sp key pk" using assms(4) by (simp add: wanted_def, simp add: spec_of_def)
  have "build_resolve h bw b reqs = resolve_spec h bw b key ?sp pk" using key assms(3,4) by (simp add: build_resolve_def Let_def)
  then have "answers h bw ?sp s key (Inr (Some r), b')" using resolve_spec_answers [OF assms(2) w ok assms(5)] assms(6) by simp
  note sound = answers_sound [OF inv assms(5) w this assms(7)]
  show ?thesis using sound(1) arg_cong [OF sound(2), of sp_base_image] arg_cong [OF sound(2), of sp_python_version]
    arg_cong [OF sound(2), of sp_platform] arg_cong [OF sound(2), of sp_policy_version] by (simp add: row_spec_def spec_of_def)
qed

text \<open>C28: When \<open>resolve\<close> answers a request with a READY environment, that environment has the base image, Python version, platform and
  build policy of the request's settings, and its image was inspected and found to hold every package the request's lock file pins.  The call starts in any state that concurrent builds can reach.\<close>

theorem resolve_sound:
  assumes "reach init_build (build_step h bw) s" "bs_db s = sv_db b"
    and "lock_requirements bw reqs (set_python_version (sv_settings b)) (set_uv_python_platform (sv_settings b)) (set_uv_default_index (sv_settings b)) = Inr lock"
    and "parse_locked_packages (bw_canonicalize bw) lock = Inr pk"
    and "collision_free h (spec_of (sv_settings b) lock # bs_requests s)"
    and "build_resolve h bw b reqs = (Inr (Some r), b')" "ev_status (rs_env r) = READY"
  shows "(\<exists>i. ev_image_ref (rs_env r) = Some i \<and> image_holds bw i pk) \<and>
    ev_base_image (rs_env r) = set_base_image (sv_settings b) \<and> ev_python_version (rs_env r) = set_python_version (sv_settings b) \<and>
    ev_platform (rs_env r) = set_platform (sv_settings b) \<and> ev_policy_version (rs_env r) = set_policy_version (sv_settings b)"
  by (rule resolve_ready_sound [OF assms])

lemma demo_collision_free: "collision_free (\<lambda>t. t) sps"
  by (simp add: collision_free_def)

definition demo_build_state :: build_state where
  "demo_build_state = \<lparr>bs_db = empty_build_db, bs_builders = [], bs_verified = [], bs_requests = []\<rparr>"

lemma demo_build_reach: "reach init_build (build_step h bw) demo_build_state" "bs_db demo_build_state = sv_db demo_build_service"
  by (auto intro!: reach_init simp: init_build_def demo_build_state_def demo_build_service_def)

lemma demo_answer:
  obtains r b' where "build_resolve (\<lambda>t. t) demo_build_world demo_build_service [''a==1''] = (Inr (Some r), b')"
    "ev_status (rs_env r) = READY" "ev_image_ref (rs_env r) = Some ''r@sha256:0''" "ev_packages (rs_env r) = [(''a'', ''1'')]"
proof (cases "build_resolve (\<lambda>t. t) demo_build_world demo_build_service [''a==1'']")
  case (Pair x b')
  then show ?thesis using that demo_resolve by (cases x) auto
qed

lemma demo_lock:
  "lock_requirements demo_build_world [''a==1''] (set_python_version (sv_settings demo_build_service))
     (set_uv_python_platform (sv_settings demo_build_service)) (set_uv_default_index (sv_settings demo_build_service)) = Inr (''a==1'' @ [CHR 0x0A])"
  "parse_locked_packages (bw_canonicalize demo_build_world) (''a==1'' @ [CHR 0x0A]) = Inr [(''a'', ''1'')]"
  by code_simp+

theorem resolve_sound_witness:
  "\<exists>r b'. build_resolve (\<lambda>t. t) demo_build_world demo_build_service [''a==1''] = (Inr (Some r), b') \<and> ev_status (rs_env r) = READY \<and>
     (\<exists>i. ev_image_ref (rs_env r) = Some i \<and> image_holds demo_build_world i [(''a'', ''1'')]) \<and> ev_platform (rs_env r) = ''l''"
proof -
  obtain r b' where r: "build_resolve (\<lambda>t. t) demo_build_world demo_build_service [''a==1''] = (Inr (Some r), b')" "ev_status (rs_env r) = READY"
    by (rule demo_answer)
  from resolve_sound [OF demo_build_reach(1,2) demo_lock demo_collision_free r] r show ?thesis by (auto simp: demo_build_service_def)
qed

theorem build_ready_verified_witness:
  "\<exists>s e. reach init_build (build_step (\<lambda>t. t) demo_build_world) s \<and> e \<in> set (bd_envs (bs_db s)) \<and> ev_status e = READY \<and>
     (\<exists>i. ev_image_ref e = Some i \<and> image_holds demo_build_world i (ev_packages e))"
proof -
  obtain r b' where r: "build_resolve (\<lambda>t. t) demo_build_world demo_build_service [''a==1''] = (Inr (Some r), b')" "ev_status (rs_env r) = READY"
    by (rule demo_answer)
  let ?sp = "spec_of (sv_settings demo_build_service) (''a==1'' @ [CHR 0x0A])"
  obtain key where key: "env_key (\<lambda>t. t) ?sp = Inr key" using demo_lock r by (auto simp: build_resolve_def Let_def split: sum.splits)
  then have w: "wanted (\<lambda>t. t) demo_build_world ?sp key [(''a'', ''1'')]" using demo_lock(2) by (simp add: wanted_def, simp add: spec_of_def)
  have "tables_ok (\<lambda>t. t) demo_build_world demo_build_state" by (simp add: tables_ok_def demo_build_state_def empty_build_db_def)
  from resolve_spec_answers [OF demo_build_reach(2) w this demo_collision_free]
  have "answers (\<lambda>t. t) demo_build_world ?sp demo_build_state key (Inr (Some r), b')"
    using r key demo_lock by (simp add: build_resolve_def Let_def)
  then obtain s where s: "(build_step (\<lambda>t. t) demo_build_world)\<^sup>*\<^sup>* demo_build_state s" "bs_db s = sv_db b'"
    and g: "get_for_request (sv_db b') key = Some r" by (auto simp: answers_def simulates_def)
  have re: "reach init_build (build_step (\<lambda>t. t) demo_build_world) s" by (rule reach_steps [OF demo_build_reach(1) s(1)])
  have e: "rs_env r \<in> set (bd_envs (bs_db s))" using get_for_requestD [OF g] s(2) by auto
  from build_ready_verified [OF re demo_collision_free e r(2)] re e r(2) show ?thesis by blast
qed


text \<open>The tables after a claim whose thread never comes back.\<close>

definition demo_stuck_service :: build_service where
  "demo_stuck_service =
     (let b = demo_build_service; sp = spec_of (sv_settings b) ''a==1''; key = canonical_json (spec_identity (\<lambda>t. t) sp);
          db1 = snd (get_or_create_exact (\<lambda>t. t) (sv_db b) ''e'' 0 key sp [(''a'', ''1'')]);
          db2 = bind_request db1 1 key ''e'' Exact in
      sv_put (snd (claim_build db2 ''j'' 2 ''e'')) b)"

definition demo_locked_world :: build_world where
  "demo_locked_world = demo_build_world\<lparr>bw_uv_compile := (\<lambda>_ _ _ _. Inr ''a==1'')\<rparr>"

definition demo_stuck_key :: string where
  "demo_stuck_key = canonical_json (spec_identity (\<lambda>t. t) (spec_of (sv_settings demo_build_service) ''a==1''))"

lemma demo_stuck:
  "map_option (\<lambda>r. (ev_status (rs_env r), ev_id (rs_env r))) (get_for_request (sv_db demo_stuck_service) demo_stuck_key) = Some (BUILDING, ''e'')"
  "distinct (map ev_id (bd_envs (sv_db demo_stuck_service)))"
  "lock_requirements demo_locked_world [] (set_python_version (sv_settings demo_stuck_service))
     (set_uv_python_platform (sv_settings demo_stuck_service)) (set_uv_default_index (sv_settings demo_stuck_service)) = Inr ''a==1''"
  "parse_locked_packages (bw_canonicalize demo_locked_world) ''a==1'' = Inr [(''a'', ''1'')]"
  "env_key (\<lambda>t. t) (spec_of (sv_settings demo_stuck_service) ''a==1'') = Inr demo_stuck_key"
  by code_simp+


end
