(* ===== verification/Publish_Service.thy ===== *)
theory Publish_Service
  imports Parameter_Inference Contract_Stability Publish_Store Build_Service
begin

text \<open>
  \<^verbatim>\<open>publish_service/service.py\<close>, \<^verbatim>\<open>build_client.py\<close> and the handlers of \<^verbatim>\<open>app.py\<close>.  The service has the workspaces, the source
  store, the tables, the release catalog and the directory of NiFi packages.  A call draws its identifiers and times from
  \<open>uuid\<close> and \<open>now\<close>, which are indexed by the transactions of the call.  Parameters are the worlds of the components, what \<open>jsonb\<close>
  gives back for a stored value, what the network gives back for a request to the build service, and what other writers of the
  source store do in the meantime.  The directories of workspaces are no symbolic links.
\<close>

section \<open>State and parameters\<close>

datatype client_outcome = Answered "json result" | HttpStatus nat string | Unreachable string

record service_world =
  sw_scan :: scan_world
  sw_backend :: backend_world
  sw_publish :: publish_world
  sw_jsonb :: "json \<Rightarrow> json"
  sw_build :: "string list \<Rightarrow> client_outcome"
  sw_meanwhile :: "source_store \<Rightarrow> source_store"

record publish_service =
  ps_workspace_root :: path
  ps_workspaces :: source_tree
  ps_source_root :: path
  ps_sources :: source_store
  ps_db :: publish_db
  ps_catalog :: catalog
  ps_native :: native_store
  ps_default_profile :: string

definition publish_error :: "string \<Rightarrow> exn" where
  "publish_error msg = PyExn ''PublishError'' msg"

section \<open>The build service client\<close>

definition client_error :: "string \<Rightarrow> exn" where
  "client_error msg = PyExn ''BuildServiceClientError'' msg"

definition client_resolve :: "service_world \<Rightarrow> string list \<Rightarrow> json result" where
  "client_resolve w requirements =
     (case sw_build w requirements of
        Answered r \<Rightarrow> r
      | HttpStatus code detail \<Rightarrow> Inl (client_error (''Build Service returned HTTP '' @ nat_text code @ '': '' @ detail))
      | Unreachable reason \<Rightarrow> Inl (client_error (''Build Service is unavailable: '' @ reason)))"

section \<open>Workspaces\<close>

definition subtree :: "path \<Rightarrow> source_tree \<Rightarrow> source_tree" where
  "subtree sub t = map (\<lambda>(p, n). (drop (length sub) p, n)) (filter (\<lambda>(p, _). take (length sub) p = sub \<and> length sub < length p) t)"

definition workspace_dir :: "publish_service \<Rightarrow> string \<Rightarrow> path result" where
  "workspace_dir s workspace =
     (if workspace = [] \<or> is_absolute workspace then Inl (publish_error ''workspace must be a non-empty relative path'')
      else let base = ps_workspace_root s; candidate = resolve_from base (path_parts workspace); sub = drop (length base) candidate in
        if take (length base) candidate \<noteq> base then Inl (publish_error ''workspace escapes PUBLISH_WORKSPACE_ROOT'')
        else if sub \<noteq> [] \<and> map_of (ps_workspaces s) sub \<noteq> Some SDir then Inl (publish_error (''workspace does not exist: '' @ workspace))
        else Inr sub)"

definition python_root_candidates :: "source_tree \<Rightarrow> (string \<times> bool) list" where
  "python_root_candidates t =
     (let result = (if map_of t [''src''] = Some SDir \<and> py_files [''src''] t \<noteq> [] then [(''src'', True)] else []) @
                   (if py_files [] t \<noteq> [] then [(''.'', False)] else []) in
      if result \<noteq> [] \<and> \<not> list_ex snd result then (fst (hd result), True) # tl result else result)"

definition select_python_root :: "source_tree \<Rightarrow> string option \<Rightarrow> (string \<times> (string \<times> bool) list) result" where
  "select_python_root t requested =
     (let candidates = python_root_candidates t in
      if candidates = [] then Inl (publish_error ''workspace does not contain Python source files'')
      else case requested of
        Some r \<Rightarrow> if r \<in> fst ` set candidates then Inr (r, candidates) else Inl (publish_error (''pythonRoot is not available: '' @ r))
      | None \<Rightarrow> Inr ((case List.find snd candidates of None \<Rightarrow> fst (hd candidates) | Some c \<Rightarrow> fst c), candidates))"

section \<open>Analyzing\<close>

definition allowed_sources :: "bool \<Rightarrow> binding_source list" where
  "allowed_sources constructor = (if constructor then [OPERATOR_PARAMETER, CONSTANT] else [INPUT_PAYLOAD, INPUT_METADATA, OPERATOR_PARAMETER, CONSTANT])"

definition parameter_view :: "nat \<Rightarrow> bool \<Rightarrow> parameter_info \<Rightarrow> json" where
  "parameter_view index constructor p =
     JObj [(''name'', JStr (pi_name p)), (''kind'', JStr (pi_kind p)), (''annotation'', json_opt (pi_annotation p)), (''required'', JBool (pi_required p)),
       (''hasLiteralDefault'', JBool (pi_has_default p)), (''defaultValue'', if pi_has_default p then pi_default_value p else JNull),
       (''defaultExpression'', json_opt (pi_default_repr p)), (''allowedSources'', JArr (map (\<lambda>x. JStr (source_text x)) (allowed_sources constructor))),
       (''suggestions'', JArr (map suggestion_json (parameter_suggestions p index constructor)))]"

definition parameter_views :: "bool \<Rightarrow> parameter_info list \<Rightarrow> json" where
  "parameter_views constructor ps = JArr (map (\<lambda>(i, p). parameter_view i constructor p) (zip [0..<length ps] ps))"

definition view_constructor :: "callable_info \<Rightarrow> project_catalog \<Rightarrow> parameter_info list" where
  "view_constructor c catalog =
     (if \<not> blank (ca_class_target c) \<and> ca_kind c = INSTANCE_METHOD then
        (case class_by_target catalog (the (ca_class_target c)) of None \<Rightarrow> [] | Some k \<Rightarrow> cl_constructor k)
      else [])"

definition callable_view :: "project_catalog \<Rightarrow> callable_info \<Rightarrow> json" where
  "callable_view catalog c =
     (let reasons = callable_support_reasons c catalog in
      JObj [(''id'', JStr (ca_id c)), (''kind'', JStr (kind_text (ca_kind c))), (''displayName'', JStr (ca_qualname c)), (''file'', JStr (ca_file c)),
        (''line'', JInt (ca_line c)), (''supported'', JBool (reasons = [])), (''unsupportedReasons'', str_list reasons),
        (''constructorParameters'', parameter_views True (view_constructor c catalog)), (''parameters'', parameter_views False (ca_parameters c)),
        (''returnAnnotation'', json_opt (ca_return_annotation c)), (''score'', JInt (ca_score c))])"

definition warning_json :: "catalog_warning \<Rightarrow> json" where
  "warning_json x = JObj [(''severity'', JStr (cw_severity x)), (''file'', JStr (cw_file x)), (''line'', case cw_line x of None \<Rightarrow> JNull | Some n \<Rightarrow> JInt n),
     (''message'', JStr (cw_message x))]"

definition recommended_callable :: "project_catalog \<Rightarrow> callable_info option" where
  "recommended_callable catalog = List.find (\<lambda>c. callable_support_reasons c catalog = []) (all_callables catalog)"

definition analyze :: "service_world \<Rightarrow> publish_service \<Rightarrow> string \<Rightarrow> string option \<Rightarrow> json result" where
  "analyze w s workspace python_root =
     result_bind (workspace_dir s workspace) (\<lambda>sub.
     let t = subtree sub (ps_workspaces s) in
     result_bind (select_python_root t python_root) (\<lambda>(selected, candidates).
     map_sum id (\<lambda>catalog.
       JObj [(''workspace'', JStr workspace), (''sourceRevision'', JStr (pc_source_revision catalog)), (''pythonRoot'', JStr selected),
         (''pythonRootCandidates'', JArr (map (\<lambda>(p, r). JObj [(''path'', JStr p), (''recommended'', JBool r)]) candidates)),
         (''recommendedCallableId'', json_opt (map_option ca_id (recommended_callable catalog))),
         (''callables'', JArr (map (callable_view catalog) (all_callables catalog))), (''warnings'', JArr (map warning_json (pc_warnings catalog)))])
       (scan_project (sw_scan w) (ps_workspace_root s @ sub) t selected)))"

section \<open>Contracts\<close>

definition scan_hash :: "service_world \<Rightarrow> bytes \<Rightarrow> string" where
  "scan_hash w = sw_sha256 (sw_scan w)"

text \<open>The checks of \<open>create_virtual_contract\<close> before anything is written, lines 193 to 202.\<close>

definition check_selection :: "service_world \<Rightarrow> publish_service \<Rightarrow> contract_request \<Rightarrow> source_tree result" where
  "check_selection w s sel =
     result_bind (workspace_dir s (cr_workspace sel)) (\<lambda>sub.
     let t = subtree sub (ps_workspaces s) in
     result_bind (scan_project (sw_scan w) (ps_workspace_root s @ sub) t (cr_python_root sel)) (\<lambda>catalog.
     if pc_source_revision catalog \<noteq> cr_source_revision sel then
       Inl (publish_error ''SOURCE_CHANGED: workspace changed after Analyze; analyze again before saving the contract'')
     else
       result_bind (selection_to_virtual_contract sel None) (\<lambda>draft.
       map_sum id (\<lambda>_. t) (compile_virtual_contract (scan_hash w) draft catalog))))"

text \<open>Lines 208 to 212: the contract that is saved, and its plan, made from the snapshot.\<close>

definition immutable_contract :: "service_world \<Rightarrow> publish_service \<Rightarrow> contract_request \<Rightarrow> string \<Rightarrow> (virtual_contract \<times> execution_plan) result" where
  "immutable_contract w s sel source_ref =
     result_bind (source_resolve (ps_sources s) source_ref) (\<lambda>t.
     result_bind (scan_project (sw_scan w) (ps_source_root s @ [cr_source_revision sel]) t (cr_python_root sel)) (\<lambda>catalog.
     result_bind (selection_to_virtual_contract sel (Some source_ref)) (\<lambda>parent.
     map_sum id (Pair parent) (compile_virtual_contract (scan_hash w) parent catalog))))"

definition contract_view :: "operator_row \<Rightarrow> contract_row \<Rightarrow> bool \<Rightarrow> virtual_contract \<Rightarrow> execution_plan \<Rightarrow> json" where
  "contract_view operator row created parent plan =
     JObj [(''created'', JBool created), (''operatorId'', JStr (op_id operator)), (''contractId'', JStr (ct_id row)),
       (''contractVersion'', JInt (int (ct_version row))), (''contractSha256'', JStr (ct_sha256 row)), (''sourceRevision'', JStr (ct_source_revision row)),
       (''sourceRef'', JStr (ct_source_ref row)), (''virtualContract'', contract_json parent),
       (''derived'', JObj [(''parameters'', JArr (map compiled_parameter_json (ep_parameters plan))), (''inputMetadata'', str_list (ep_input_metadata plan)),
          (''outputMetadata'', str_list (ep_output_metadata plan))])]"

definition create_virtual_contract :: "service_world \<Rightarrow> (nat \<Rightarrow> string) \<Rightarrow> (nat \<Rightarrow> int) \<Rightarrow> publish_service \<Rightarrow> contract_request \<Rightarrow> json result \<times> publish_service" where
  "create_virtual_contract w uuid now s sel =
     (case check_selection w s sel of
        Inl e \<Rightarrow> (Inl e, s)
      | Inr t \<Rightarrow>
          (case put_workspace (scan_hash w) (sw_digest (sw_scan w)) (sw_meanwhile w) (ps_sources s) t (cr_source_revision sel) of
             (Inl e, st) \<Rightarrow> (Inl e, s\<lparr>ps_sources := st\<rparr>)
           | (Inr source_ref, st) \<Rightarrow>
               let s1 = s\<lparr>ps_sources := st\<rparr> in
               (case immutable_contract w s1 sel source_ref of
                  Inl e \<Rightarrow> (Inl e, s1)
                | Inr (parent, plan) \<Rightarrow>
                    (case save_virtual_contract (scan_hash w) (ps_db s1) (uuid 0) (uuid 1) (now 0) (cr_workspace sel) parent of
                       (Inl e, db) \<Rightarrow> (Inl e, s1\<lparr>ps_db := db\<rparr>)
                     | (Inr (operator, row, created), db) \<Rightarrow> (Inr (contract_view operator row created parent plan), s1\<lparr>ps_db := db\<rparr>)))))"

definition variant_status_text :: "variant_status \<Rightarrow> string" where
  "variant_status_text x = (case x of COMPILED \<Rightarrow> ''COMPILED'' | PUBLISHED \<Rightarrow> ''PUBLISHED'' | VARIANT_FAILED \<Rightarrow> ''FAILED'')"

definition variant_view_fields :: "service_world \<Rightarrow> variant_row \<Rightarrow> (string, json) dict" where
  "variant_view_fields w r =
     [(''variantId'', JStr (va_id r)), (''backend'', JStr (va_backend r)), (''compilerVersion'', JStr (va_compiler_version r)),
      (''variantKey'', JStr (va_variant_key r)), (''status'', JStr (variant_status_text (va_status r))), (''publishedRef'', json_opt (va_published_ref r)),
      (''publishedMetadata'', case va_published_metadata r of None \<Rightarrow> JNull | Some j \<Rightarrow> sw_jsonb w j), (''lastError'', json_opt (va_last_error r)),
      (''backendContract'', sw_jsonb w (va_contract_json r))]"

definition service_get_operator :: "service_world \<Rightarrow> publish_service \<Rightarrow> string \<Rightarrow> json result" where
  "service_get_operator w s operator_id =
     (case publish_get_operator (ps_db s) operator_id of
        None \<Rightarrow> Inl (publish_error ''operator not found'')
      | Some operator \<Rightarrow>
          (case get_latest_contract (ps_db s) operator_id of
             None \<Rightarrow> Inl (publish_error ''operator has no contract versions'')
           | Some row \<Rightarrow>
               Inr (JObj [(''operatorId'', JStr (op_id operator)), (''workspace'', JStr (op_workspace operator)), (''name'', JStr (op_name operator)),
                 (''displayName'', JStr (op_display_name operator)), (''description'', JStr (op_description operator)),
                 (''currentContract'', JObj [(''contractId'', JStr (ct_id row)), (''version'', JInt (int (ct_version row))),
                    (''sourceRevision'', JStr (ct_source_revision row)), (''sourceRef'', JStr (ct_source_ref row)), (''contractSha256'', JStr (ct_sha256 row)),
                    (''virtualContract'', sw_jsonb w (ct_json row))]),
                 (''backendVariants'', JArr (map (\<lambda>v. JObj (variant_view_fields w v)) (list_variants (ps_db s) (ct_id row))))])))"

section \<open>Backends\<close>

record loaded =
  ld_row :: contract_row
  ld_parent :: virtual_contract
  ld_plan :: execution_plan
  ld_source :: source_tree

definition load_current_parent :: "service_world \<Rightarrow> publish_service \<Rightarrow> string \<Rightarrow> loaded result" where
  "load_current_parent w s operator_id =
     (case get_latest_contract (ps_db s) operator_id of
        None \<Rightarrow> Inl (publish_error ''operator or contract not found'')
      | Some row \<Rightarrow>
          result_bind (contract_of_json (sw_jsonb w (ct_json row))) (\<lambda>parent.
          if blank (so_source_ref (vc_source parent)) then Inl (publish_error ''virtual contract has no immutable source_ref'')
          else let source_ref = the (so_source_ref (vc_source parent)) in
            result_bind (source_resolve (ps_sources s) source_ref) (\<lambda>t.
            result_bind (scan_project (sw_scan w) (ps_source_root s @ [drop 6 source_ref]) t (so_python_path (vc_source parent))) (\<lambda>catalog.
            map_sum id (\<lambda>plan. \<lparr>ld_row = row, ld_parent = parent, ld_plan = plan, ld_source = t\<rparr>) (compile_virtual_contract (scan_hash w) parent catalog)))))"

datatype backend_contract = Runner runner_contract | Native native_contract

fun child_json :: "backend_contract \<Rightarrow> json" where
  "child_json (Runner c) = runner_contract_json c"
| "child_json (Native c) = native_contract_json c"

fun child_base :: "backend_contract \<Rightarrow> backend_base" where
  "child_base (Runner c) = rc_base c"
| "child_base (Native c) = nc_base c"

definition backend_contract_sha256 :: "backend_world \<Rightarrow> backend_contract \<Rightarrow> string" where
  "backend_contract_sha256 w c = bw_sha256 w (canonical_json (child_json c))"

definition compile_child :: "service_world \<Rightarrow> publish_service \<Rightarrow> loaded \<Rightarrow> string \<Rightarrow> json \<Rightarrow> backend_contract result" where
  "compile_child w s l backend options =
     (let b = sw_backend w; row = ld_row l in
      if backend = ''runner'' then
        let profile = (case option_value options ''profile'' of None \<Rightarrow> ps_default_profile s | Some v \<Rightarrow> py_str b v) in
        Inr (Runner (compile_runner_contract b (ct_id row) (ct_version row) (ld_parent l) (ld_plan l) (JObj [(''profile'', JStr profile)])))
      else if backend = ''nifi_native'' then
        map_sum id Native (compile_nifi_native_contract b (ct_id row) (ct_version row) (ld_parent l) (ld_plan l) (ld_source l) options)
      else Inl (publish_error (''unsupported backend: '' @ backend)))"

definition variant_args_of :: "service_world \<Rightarrow> contract_row \<Rightarrow> string \<Rightarrow> backend_contract \<Rightarrow> variant_args" where
  "variant_args_of w row backend c =
     \<lparr>ua_contract_id = ct_id row, ua_backend = backend, ua_compiler_version = bb_compiler_version (child_base c),
      ua_variant_key = bb_variant_key (child_base c), ua_options = bb_options (child_base c),
      ua_contract_sha256 = backend_contract_sha256 (sw_backend w) c, ua_contract = child_json c\<rparr>"

definition compile_backend_variant :: "service_world \<Rightarrow> string \<Rightarrow> int \<Rightarrow> publish_service \<Rightarrow> string \<Rightarrow> string \<Rightarrow> json \<Rightarrow>
    (variant_row \<times> backend_contract \<times> loaded) result \<times> publish_service" where
  "compile_backend_variant w uuid dbnow s operator_id backend options =
     (case result_bind (load_current_parent w s operator_id) (\<lambda>l. map_sum id (Pair l) (compile_child w s l backend options)) of
        Inl e \<Rightarrow> (Inl e, s)
      | Inr (l, child) \<Rightarrow>
          (case upsert_variant (ps_db s) uuid dbnow (variant_args_of w (ld_row l) backend child) of
             (Inl e, db) \<Rightarrow> (Inl e, s\<lparr>ps_db := db\<rparr>)
           | (Inr v, db) \<Rightarrow> (Inr (v, child, l), s\<lparr>ps_db := db\<rparr>)))"

definition compile_backend :: "service_world \<Rightarrow> (nat \<Rightarrow> string) \<Rightarrow> (nat \<Rightarrow> int) \<Rightarrow> publish_service \<Rightarrow> string \<Rightarrow> string \<Rightarrow> json \<Rightarrow> json result \<times> publish_service" where
  "compile_backend w uuid now s operator_id backend options =
     (case compile_backend_variant w (uuid 0) (now 0) s operator_id backend options of
        (Inl e, s') \<Rightarrow> (Inl e, s')
      | (Inr (v, child, l), s') \<Rightarrow>
          (Inr (JObj (variant_view_fields w v @ [(''backendContractSha256'', JStr (va_contract_sha256 v)),
             (''parentContractId'', JStr (bb_parent_contract_id (child_base child))),
             (''parentContractVersion'', JInt (int (bb_parent_contract_version (child_base child)))),
             (''parentContractSha256'', JStr (bb_parent_contract_sha256 (child_base child)))])), s'))"

section \<open>Publishing\<close>

definition text_field :: "backend_world \<Rightarrow> json \<Rightarrow> string \<Rightarrow> string" where
  "text_field w j k = (case map_of (json_fields j) k of None \<Rightarrow> ''None'' | Some v \<Rightarrow> py_str w v)"

definition json_field :: "json \<Rightarrow> string \<Rightarrow> json" where
  "json_field j k = (case map_of (json_fields j) k of None \<Rightarrow> JNull | Some v \<Rightarrow> v)"

text \<open>Lines 372 to 383, and the use of the image as a string.\<close>

definition ready_image_of :: "backend_world \<Rightarrow> json \<Rightarrow> string result" where
  "ready_image_of w runtime =
     (case runtime of
        JObj _ \<Rightarrow>
          if \<not> json_truthy (json_field runtime ''found'') then Inl (publish_error ''Build Service did not return a runtime environment'')
          else if json_field runtime ''status'' = JStr ''FAILED'' then
            Inl (publish_error (''RUNTIME_BUILD_FAILED env_key='' @ text_field w runtime ''envKey'' @ '': '' @ text_field w runtime ''error''))
          else if json_field runtime ''status'' \<noteq> JStr ''READY'' \<or> \<not> json_truthy (json_field runtime ''image'') then
            Inl (publish_error (''RUNTIME_NOT_READY env_key='' @ text_field w runtime ''envKey'' @ '' status='' @ text_field w runtime ''status''))
          else (case json_field runtime ''image'' of JStr i \<Rightarrow> Inr i | _ \<Rightarrow> Inl (type_error ''expected string or bytes-like object''))
      | _ \<Rightarrow> Inl (PyExn ''AttributeError'' ''get''))"

definition staging_tree :: "backend_world \<Rightarrow> runner_contract \<Rightarrow> execution_plan \<Rightarrow> source_tree \<Rightarrow> source_tree result" where
  "staging_tree w c plan source = map_sum id (\<lambda>t. write_runner_release_files w t c plan) (copytree source [''runtime''])"

definition runner_result :: "runner_contract \<Rightarrow> json \<Rightarrow> operator_release \<Rightarrow> json" where
  "runner_result c runtime rel =
     JObj [(''releaseId'', JStr (rel_id rel)), (''runtimeImage'', json_field runtime ''image''), (''environmentId'', json_field runtime ''environmentId''),
       (''envKey'', json_field runtime ''envKey''), (''runtimeEnvKey'', json_field runtime ''runtimeEnvKey''),
       (''resolutionKind'', json_field runtime ''resolutionKind''),
       (''processorDefinition'', JObj [(''processorType'', JStr ''ManagedPythonTransform''), (''inputAttributes'', str_list (rm_input_attributes (rc_manifest c))),
          (''outputAttributes'', str_list (rm_output_attributes (rc_manifest c))), (''parameters'', JArr (map runner_parameter_json (rc_parameters c)))])]"

definition publish_runner :: "service_world \<Rightarrow> catalog \<Rightarrow> runner_contract \<Rightarrow> execution_plan \<Rightarrow> source_tree \<Rightarrow> (json \<times> string) result \<times> catalog" where
  "publish_runner w cat c plan source =
     (case result_bind (read_requirements source) (\<lambda>requirements.
           result_bind (client_resolve w requirements) (\<lambda>runtime.
           result_bind (ready_image_of (sw_backend w) runtime) (\<lambda>i.
           map_sum id (\<lambda>t. (runtime, i, t)) (staging_tree (sw_backend w) c plan source)))) of
        Inl e \<Rightarrow> (Inl e, cat)
      | Inr (runtime, i, t) \<Rightarrow>
          (case publish (sw_publish w) cat t \<lparr>pa_runtime_image = i, pa_profile = rc_runtime_profile c, pa_python = ''3.12'', pa_allow_mutable_image = False\<rparr> of
             (Inl e, cat') \<Rightarrow> (Inl e, cat')
           | (Inr rel, cat') \<Rightarrow> (Inr (runner_result c runtime rel, ''runner-release:'' @ rel_id rel), cat')))"

definition native_result :: "native_contract \<Rightarrow> path \<Rightarrow> json" where
  "native_result c artifact =
     JObj [(''packageName'', JStr (nc_package_name c)), (''className'', JStr (nc_class_name c)), (''processorType'', JStr ''FlowFileTransform''),
       (''artifactFile'', JStr (''/'' @ as_posix artifact)), (''deploymentRequired'', JBool True),
       (''deploymentHint'', JStr ''Deploy the unpacked package to a configured NiFi Python extension source directory.'')]"

definition publish_native :: "service_world \<Rightarrow> native_store \<Rightarrow> native_contract \<Rightarrow> execution_plan \<Rightarrow> source_tree \<Rightarrow> (json \<times> string) result \<times> native_store" where
  "publish_native w st c plan source =
     (case write_native_package (sw_backend w) st c plan source of
        (Inl e, st') \<Rightarrow> (Inl e, st')
      | (Inr artifact, st') \<Rightarrow> (Inr (native_result c artifact, ''nifi-native-package:'' @ last artifact), st'))"

fun publish_child :: "service_world \<Rightarrow> publish_service \<Rightarrow> backend_contract \<Rightarrow> loaded \<Rightarrow> (json \<times> string) result \<times> publish_service" where
  "publish_child w s (Runner c) l = (case publish_runner w (ps_catalog s) c (ld_plan l) (ld_source l) of (r, cat) \<Rightarrow> (r, s\<lparr>ps_catalog := cat\<rparr>))"
| "publish_child w s (Native c) l = (case publish_native w (ps_native s) c (ld_plan l) (ld_source l) of (r, st) \<Rightarrow> (r, s\<lparr>ps_native := st\<rparr>))"

definition publish_backend :: "service_world \<Rightarrow> (nat \<Rightarrow> string) \<Rightarrow> (nat \<Rightarrow> int) \<Rightarrow> publish_service \<Rightarrow> string \<Rightarrow> string \<Rightarrow> json \<Rightarrow> json result \<times> publish_service" where
  "publish_backend w uuid now s operator_id backend options =
     (case compile_backend_variant w (uuid 0) (now 0) s operator_id backend options of
        (Inl e, s1) \<Rightarrow> (Inl e, s1)
      | (Inr (v, child, l), s1) \<Rightarrow>
          (case create_publish_job (ps_db s1) (uuid 1) (now 1) (va_id v) of
             (Inl e, db) \<Rightarrow> (Inl e, s1\<lparr>ps_db := db\<rparr>)
           | (Inr job, db) \<Rightarrow>
               (case publish_child w (s1\<lparr>ps_db := mark_job_running db (now 2) (pj_id job)\<rparr>) child l of
                  (Inl e, s3) \<Rightarrow> (Inl e, s3\<lparr>ps_db := mark_job_failed (ps_db s3) (now 3) (pj_id job) (va_id v) (exn_line e)\<rparr>)
                | (Inr (result, artifact_ref), s3) \<Rightarrow>
                    (Inr (JObj [(''jobId'', JStr (pj_id job)), (''status'', JStr ''READY''), (''backend'', JStr backend), (''artifactRef'', JStr artifact_ref),
                       (''result'', result)]),
                     s3\<lparr>ps_db := mark_job_ready (ps_db s3) (now 3) (pj_id job) (va_id v) artifact_ref result\<rparr>))))"

section \<open>Handlers\<close>

text \<open>\<open>PublishError\<close> and the classes that derive from \<open>ValueError\<close>.\<close>

definition bad_request_error :: "exn \<Rightarrow> bool" where
  "bad_request_error e \<longleftrightarrow> (case e of PyExn t _ \<Rightarrow> t \<in> {''PublishError'', ''ValueError'', ''ContractCompilationError'', ''SnapshotError'', ''UnicodeDecodeError'', ''JSONDecodeError''}
     | RunnerExn _ _ _ _ \<Rightarrow> False)"

definition publish_answer :: "nat \<Rightarrow> json result \<Rightarrow> http_answer" where
  "publish_answer code r = (case r of Inr j \<Rightarrow> Ok j | Inl e \<Rightarrow> if bad_request_error e then HttpFailure code (exn_str e) else Crash e)"

definition http_analyze :: "service_world \<Rightarrow> publish_service \<Rightarrow> string \<Rightarrow> string option \<Rightarrow> http_answer" where
  "http_analyze w s workspace python_root = publish_answer 400 (analyze w s workspace python_root)"

definition http_create_operator :: "service_world \<Rightarrow> (nat \<Rightarrow> string) \<Rightarrow> (nat \<Rightarrow> int) \<Rightarrow> publish_service \<Rightarrow> contract_request \<Rightarrow> http_answer \<times> publish_service" where
  "http_create_operator w uuid now s sel = map_prod (publish_answer 400) id (create_virtual_contract w uuid now s sel)"

definition http_get_operator :: "service_world \<Rightarrow> publish_service \<Rightarrow> string \<Rightarrow> http_answer" where
  "http_get_operator w s operator_id =
     (case service_get_operator w s operator_id of
        Inr j \<Rightarrow> Ok j
      | Inl e \<Rightarrow> if is_exn ''PublishError'' e then HttpFailure 404 (exn_str e) else Crash e)"

definition http_compile_backend :: "service_world \<Rightarrow> (nat \<Rightarrow> string) \<Rightarrow> (nat \<Rightarrow> int) \<Rightarrow> publish_service \<Rightarrow> string \<Rightarrow> string \<Rightarrow> json \<Rightarrow> http_answer \<times> publish_service" where
  "http_compile_backend w uuid now s operator_id backend options =
     map_prod (publish_answer 400) id (compile_backend w uuid now s operator_id backend options)"

definition http_publish_backend :: "service_world \<Rightarrow> (nat \<Rightarrow> string) \<Rightarrow> (nat \<Rightarrow> int) \<Rightarrow> publish_service \<Rightarrow> string \<Rightarrow> string \<Rightarrow> json \<Rightarrow> http_answer \<times> publish_service" where
  "http_publish_backend w uuid now s operator_id backend options =
     map_prod (publish_answer 409) id (publish_backend w uuid now s operator_id backend options)"

section \<open>Calls as runs of transactions\<close>

lemma upsert_variant_row:
  assumes "upsert_variant db u t a = (Inr v, db')"
  shows "v \<in> set (pd_variants db')" "va_contract_id v = ua_contract_id a" "va_backend v = ua_backend a" "va_variant_key v = ua_variant_key a"
    "va_contract_json v = ua_contract a" "va_contract_sha256 v = ua_contract_sha256 a"
    "pd_contracts db' = pd_contracts db" "pd_jobs db' = pd_jobs db" "pd_operators db' = pd_operators db"
proof -
  have "v \<in> set (pd_variants db') \<and> va_contract_id v = ua_contract_id a \<and> va_backend v = ua_backend a \<and> va_variant_key v = ua_variant_key a \<and>
    va_contract_json v = ua_contract a \<and> va_contract_sha256 v = ua_contract_sha256 a \<and> pd_contracts db' = pd_contracts db \<and> pd_jobs db' = pd_jobs db \<and> pd_operators db' = pd_operators db"
  proof (cases "fetchone (variant_match a) (pd_variants db)")
    case None
    then show ?thesis using assms by (auto simp: upsert_variant_def Let_def split: if_splits)
  next
    case (Some r)
    then show ?thesis using assms fetchone_SomeD [OF Some]
      by (auto simp: upsert_variant_def recompiled_def variant_match_def set_update_where)
  qed
  then show "v \<in> set (pd_variants db')" "va_contract_id v = ua_contract_id a" "va_backend v = ua_backend a" "va_variant_key v = ua_variant_key a"
    "va_contract_json v = ua_contract a" "va_contract_sha256 v = ua_contract_sha256 a"
    "pd_contracts db' = pd_contracts db" "pd_jobs db' = pd_jobs db" "pd_operators db' = pd_operators db" by blast+
qed

lemma upsert_variant_fails: "upsert_variant db u t a = (Inl e, db') \<Longrightarrow> db' = db"
  by (auto simp: upsert_variant_def Let_def split: option.splits if_splits)

lemma create_job_row:
  "create_publish_job db u t vid = (r, db') \<Longrightarrow>
     (case r of
        Inl e \<Rightarrow> db' = db
      | Inr job \<Rightarrow> u \<notin> pj_id ` set (pd_jobs db) \<and> pj_id job = u \<and> pj_variant_id job = vid \<and> db' = db\<lparr>pd_jobs := pd_jobs db @ [job]\<rparr>)"
  by (auto simp: create_publish_job_def Let_def split: if_splits)

lemma compile_variant_ok:
  assumes "compile_backend_variant w u t s op backend options = (Inr (v, child, l), s1)"
  obtains db where "load_current_parent w s op = Inr l" "compile_child w s l backend options = Inr child"
    "upsert_variant (ps_db s) u t (variant_args_of w (ld_row l) backend child) = (Inr v, db)" "s1 = s\<lparr>ps_db := db\<rparr>"
  using assms by (auto simp: compile_backend_variant_def result_bind_ok map_sum_Inr split: sum.splits prod.splits)

lemma compile_variant_fails: "compile_backend_variant w u t s op backend options = (Inl e, s1) \<Longrightarrow> s1 = s"
  using upsert_variant_fails by (fastforce simp: compile_backend_variant_def split: sum.splits prod.splits)

lemma load_latest: "load_current_parent w s op = Inr l \<Longrightarrow> get_latest_contract (ps_db s) op = Some (ld_row l)"
  by (auto simp: load_current_parent_def result_bind_ok map_sum_Inr Let_def split: option.splits if_splits)

lemma publish_child_db: "publish_child w s child l = (r, s') \<Longrightarrow> ps_db s' = ps_db s \<and> ps_sources s' = ps_sources s"
  by (cases child) (auto split: prod.splits)

text \<open>How a publication ends: refused before it has a job, failed with a job that says why, or done.\<close>

lemma publish_backend_cases:
  assumes "publish_backend w uuid now s op backend options = (r, s')"
  obtains (refused) e where "r = Inl e" "s' = s \<or> (\<exists>v child l. compile_backend_variant w (uuid 0) (now 0) s op backend options = (Inr (v, child, l), s'))"
  | (failed) e v child l s1 job db s3 where "r = Inl e" "compile_backend_variant w (uuid 0) (now 0) s op backend options = (Inr (v, child, l), s1)"
      "create_publish_job (ps_db s1) (uuid 1) (now 1) (va_id v) = (Inr job, db)"
      "publish_child w (s1\<lparr>ps_db := mark_job_running db (now 2) (uuid 1)\<rparr>) child l = (Inl e, s3)"
      "s' = s3\<lparr>ps_db := mark_job_failed (ps_db s3) (now 3) (uuid 1) (va_id v) (exn_line e)\<rparr>"
  | (finished) v child l s1 job db s3 result ref where "is_ok r" "compile_backend_variant w (uuid 0) (now 0) s op backend options = (Inr (v, child, l), s1)"
      "create_publish_job (ps_db s1) (uuid 1) (now 1) (va_id v) = (Inr job, db)"
      "publish_child w (s1\<lparr>ps_db := mark_job_running db (now 2) (uuid 1)\<rparr>) child l = (Inr (result, ref), s3)"
      "s' = s3\<lparr>ps_db := mark_job_ready (ps_db s3) (now 3) (uuid 1) (va_id v) ref result\<rparr>"
proof (cases "compile_backend_variant w (uuid 0) (now 0) s op backend options")
  case (Pair c s1)
  show thesis
  proof (cases c)
    case (Inl e)
    then show thesis using assms Pair refused compile_variant_fails [of w "uuid 0" "now 0" s op backend options] by (auto simp: publish_backend_def)
  next
    case (Inr x)
    obtain v child l where x: "x = (v, child, l)" by (cases x) auto
    note cv = Pair [unfolded Inr x]
    obtain jr db where j: "create_publish_job (ps_db s1) (uuid 1) (now 1) (va_id v) = (jr, db)" by fastforce
    show thesis
    proof (cases jr)
      case (Inl e)
      then have "s' = s1" "r = Inl e" using assms cv j create_job_row [OF j] by (auto simp: publish_backend_def)
      then show thesis using refused cv by blast
    next
      case (Inr job)
      have id: "pj_id job = uuid 1" using create_job_row [OF j] Inr by simp
      obtain pr s3 where p: "publish_child w (s1\<lparr>ps_db := mark_job_running db (now 2) (uuid 1)\<rparr>) child l = (pr, s3)" by fastforce
      show thesis
      proof (cases pr)
        case (Inl e)
        then show thesis using failed [OF _ cv j [unfolded Inr] p [unfolded Inl]] assms cv j p Inr id by (auto simp: publish_backend_def)
      next
        fix y assume pr: "pr = Inr y"
        obtain result ref where "y = (result, ref)" by fastforce
        then show thesis using finished [OF _ cv j [unfolded Inr], of result ref s3] assms cv j p Inr id pr by (auto simp: publish_backend_def)
      qed
    qed
  qed
qed

text \<open>A publication only runs transactions of the store, and never touches the source store.\<close>

lemma publish_backend_run:
  assumes "publish_backend w uuid now s op backend options = (r, s')"
  shows "(publish_step h)\<^sup>*\<^sup>* (ps_db s) (ps_db s') \<and> ps_sources s' = ps_sources s"
proof -
  have upsert: "publish_step h (ps_db s) (ps_db s1) \<and> ps_sources s1 = ps_sources s"
    if "compile_backend_variant w (uuid 0) (now 0) s op backend options = (Inr (v, child, l), s1)" for v child l s1
  proof -
    from that obtain db where "upsert_variant (ps_db s) (uuid 0) (now 0) (variant_args_of w (ld_row l) backend child) = (Inr v, db)" "s1 = s\<lparr>ps_db := db\<rparr>"
      by (rule compile_variant_ok)
    then show ?thesis using publish_step.upsert by auto
  qed
  have job: "publish_step h db0 db" if "create_publish_job db0 u t v = (x, db)" for db0 u t v x db using that publish_step.job by blast
  from assms show ?thesis
  proof (cases rule: publish_backend_cases)
    case refused
    then show ?thesis using upsert by auto
  next
    case (failed e v child l s1 job db s3)
    note u = upsert [OF failed(2)] and pc = publish_child_db [OF failed(4)]
    have "(publish_step h)\<^sup>*\<^sup>* (ps_db s) (mark_job_running db (now 2) (uuid 1))"
      using u job [OF failed(3)] publish_step.running [of h db "now 2" "uuid 1"] by (meson converse_rtranclp_into_rtranclp r_into_rtranclp)
    then show ?thesis using publish_step.failed failed(5) pc u by (simp add: rtranclp.rtrancl_into_rtrancl)
  next
    case (finished v child l s1 job db s3 result ref)
    note u = upsert [OF finished(2)] and pc = publish_child_db [OF finished(4)]
    have "(publish_step h)\<^sup>*\<^sup>* (ps_db s) (mark_job_running db (now 2) (uuid 1))"
      using u job [OF finished(3)] publish_step.running [of h db "now 2" "uuid 1"] by (meson converse_rtranclp_into_rtranclp r_into_rtranclp)
    then show ?thesis using publish_step.ready finished(5) pc u by (simp add: rtranclp.rtrancl_into_rtrancl)
  qed
qed

section \<open>What a publication records\<close>

lemma update_where_mem: "x \<in> set xs \<Longrightarrow> p x \<Longrightarrow> f x \<in> set (update_where p f xs)"
  by (auto simp: set_update_where)

lemma ready_rows:
  assumes "v \<in> set (pd_variants db)" "j \<in> set (pd_jobs db)" "pj_id j = i" "pj_variant_id j = va_id v"
  shows "\<exists>v' j'. v' \<in> set (pd_variants (mark_job_ready db t i (va_id v) ref result)) \<and> j' \<in> set (pd_jobs (mark_job_ready db t i (va_id v) ref result)) \<and>
    va_contract_id v' = va_contract_id v \<and> va_backend v' = va_backend v \<and> va_status v' = PUBLISHED \<and> va_published_ref v' = Some ref \<and>
    pj_id j' = i \<and> pj_variant_id j' = va_id v' \<and> pj_status j' = JOB_READY \<and> pj_artifact_ref j' = Some ref"
proof -
  let ?f = "\<lambda>v. v\<lparr>va_status := PUBLISHED, va_published_ref := Some ref, va_published_metadata := Some result, va_last_error := None, va_updated_at := t\<rparr>"
  let ?g = "\<lambda>j. j\<lparr>pj_status := JOB_READY, pj_artifact_ref := Some ref, pj_result_json := Some result, pj_error_message := None, pj_finished_at := Some t\<rparr>"
  have "?f v \<in> set (pd_variants (mark_job_ready db t i (va_id v) ref result))"
    using update_where_mem [OF assms(1), of "\<lambda>x. va_id x = va_id v" ?f] by (simp add: mark_job_ready_def)
  moreover have "?g j \<in> set (pd_jobs (mark_job_ready db t i (va_id v) ref result))"
    using update_where_mem [OF assms(2), of "\<lambda>x. pj_id x = i" ?g] assms(3) by (simp add: mark_job_ready_def)
  ultimately show ?thesis using assms(3,4) by (intro exI [of _ "?f v"] exI [of _ "?g j"]) simp
qed

lemma failed_rows:
  assumes "v \<in> set (pd_variants db)" "j \<in> set (pd_jobs db)" "pj_id j = i" "pj_variant_id j = va_id v"
  shows "\<exists>v' j'. v' \<in> set (pd_variants (mark_job_failed db t i (va_id v) msg)) \<and> j' \<in> set (pd_jobs (mark_job_failed db t i (va_id v) msg)) \<and>
    pj_id j' = i \<and> pj_variant_id j' = va_id v' \<and> pj_status j' = JOB_FAILED \<and> pj_error_message j' = Some (py_last 8192 msg) \<and>
    va_last_error v' = pj_error_message j'"
proof -
  let ?m = "py_last 8192 msg"
  let ?f = "\<lambda>v. v\<lparr>va_status := (if va_status v = PUBLISHED then PUBLISHED else VARIANT_FAILED), va_last_error := Some ?m, va_updated_at := t\<rparr>"
  let ?g = "\<lambda>j. j\<lparr>pj_status := JOB_FAILED, pj_error_message := Some ?m, pj_finished_at := Some t\<rparr>"
  have "?f v \<in> set (pd_variants (mark_job_failed db t i (va_id v) msg))"
    using update_where_mem [OF assms(1), of "\<lambda>x. va_id x = va_id v" ?f] by (simp add: mark_job_failed_def Let_def)
  moreover have "?g j \<in> set (pd_jobs (mark_job_failed db t i (va_id v) msg))"
    using update_where_mem [OF assms(2), of "\<lambda>x. pj_id x = i" ?g] assms(3) by (simp add: mark_job_failed_def Let_def)
  ultimately show ?thesis using assms(3,4) by (intro exI [of _ "?f v"] exI [of _ "?g j"]) simp
qed

lemma running_job:
  assumes "create_publish_job db0 u t vid = (Inr job, db)"
  shows "\<exists>j. j \<in> set (pd_jobs (mark_job_running db t' u)) \<and> pj_id j = u \<and> pj_variant_id j = vid"
    "pd_variants (mark_job_running db t' u) = pd_variants db0"
proof -
  have job: "pj_id job = u" "pj_variant_id job = vid" "db = db0\<lparr>pd_jobs := pd_jobs db0 @ [job]\<rparr>" using create_job_row [OF assms] by simp_all
  let ?g = "\<lambda>j. j\<lparr>pj_status := JOB_RUNNING, pj_started_at := Some t'\<rparr>"
  have "?g job \<in> set (pd_jobs (mark_job_running db t' u))"
    using update_where_mem [of job "pd_jobs db" "\<lambda>j. pj_id j = u" ?g] job by (simp add: mark_job_running_def)
  then show "\<exists>j. j \<in> set (pd_jobs (mark_job_running db t' u)) \<and> pj_id j = u \<and> pj_variant_id j = vid"
    using job by (intro exI [of _ "?g job"]) simp
  show "pd_variants (mark_job_running db t' u) = pd_variants db0" using job(3) by (simp add: mark_job_running_def)
qed

definition published_job :: "publish_db \<Rightarrow> string \<Rightarrow> string \<Rightarrow> string \<Rightarrow> bool" where
  "published_job db contract_id backend job_id \<longleftrightarrow>
     (\<exists>v j. v \<in> set (pd_variants db) \<and> j \<in> set (pd_jobs db) \<and> va_contract_id v = contract_id \<and> va_backend v = backend \<and> va_status v = PUBLISHED \<and>
        pj_id j = job_id \<and> pj_variant_id j = va_id v \<and> pj_status j = JOB_READY \<and> va_published_ref v = pj_artifact_ref j \<and> pj_artifact_ref j \<noteq> None)"

definition failed_job :: "publish_db \<Rightarrow> string \<Rightarrow> exn \<Rightarrow> bool" where
  "failed_job db job_id e \<longleftrightarrow>
     (\<exists>v j. v \<in> set (pd_variants db) \<and> j \<in> set (pd_jobs db) \<and> pj_id j = job_id \<and> pj_variant_id j = va_id v \<and> pj_status j = JOB_FAILED \<and>
        pj_error_message j = Some (py_last 8192 (exn_line e)) \<and> va_last_error v = pj_error_message j)"

lemma keeps_publication_trans: "keeps_publication u v \<Longrightarrow> keeps_publication v x \<Longrightarrow> keeps_publication u x"
  by (auto simp: keeps_publication_def)

lemma publish_run_keeps:
  assumes "(publish_step h)\<^sup>*\<^sup>* db db'" "publish_inv h db"
  shows "publish_inv h db' \<and> (\<forall>v\<in>set (pd_variants db). \<exists>v'\<in>set (pd_variants db'). keeps_publication v v')"
  using assms
proof (induction rule: rtranclp_induct)
  case base
  then show ?case using keeps_publication_refl by blast
next
  case (step y z)
  then show ?case using publish_step_inv [OF step(2)] keeps_publication_trans by (metis (no_types, lifting))
qed

lemma publish_backend_contracts:
  assumes "publish_backend w uuid now s op backend options = (r, s')"
  shows "pd_contracts (ps_db s') = pd_contracts (ps_db s)"
proof -
  have up: "pd_contracts (ps_db s1) = pd_contracts (ps_db s)"
    if "compile_backend_variant w (uuid 0) (now 0) s op backend options = (Inr (v, child, l), s1)" for v child l s1
    using upsert_variant_row(7) compile_variant_ok [OF that] by (metis publish_service.select_convs(5) publish_service.surjective publish_service.update_convs(5))
  have j: "pd_contracts db = pd_contracts db0" if "create_publish_job db0 u t v = (Inr job, db)" for db0 u t v job db
    using create_job_row [OF that] by simp
  from assms show ?thesis
  proof (cases rule: publish_backend_cases)
    case refused
    then show ?thesis using up by auto
  next
    case failed
    then show ?thesis using up j publish_child_db [OF failed(4)] by (simp add: mark_job_failed_def mark_job_running_def Let_def)
  next
    case finished
    then show ?thesis using up j publish_child_db [OF finished(4)] by (simp add: mark_job_ready_def mark_job_running_def)
  qed
qed

lemma publish_backend_outcome:
  assumes "publish_backend w uuid now s op backend options = (r, s')"
  shows "case r of
       Inr answer \<Rightarrow> (\<exists>row. get_latest_contract (ps_db s) op = Some row \<and> published_job (ps_db s') (ct_id row) backend (uuid 1))
     | Inl e \<Rightarrow> pd_jobs (ps_db s') = pd_jobs (ps_db s) \<and> ps_catalog s' = ps_catalog s \<and> ps_native s' = ps_native s \<or> failed_job (ps_db s') (uuid 1) e"
  using assms
proof (cases rule: publish_backend_cases)
  case (refused e)
  have "pd_jobs (ps_db s') = pd_jobs (ps_db s) \<and> ps_catalog s' = ps_catalog s \<and> ps_native s' = ps_native s"
    if cv: "compile_backend_variant w (uuid 0) (now 0) s op backend options = (Inr (v, child, l), s')" for v child l
    by (rule compile_variant_ok [OF cv]) (simp add: upsert_variant_row(8))
  then show ?thesis using refused by auto
next
  case (failed e v child l s1 job db s3)
  obtain db1 where u: "upsert_variant (ps_db s) (uuid 0) (now 0) (variant_args_of w (ld_row l) backend child) = (Inr v, db1)" "s1 = s\<lparr>ps_db := db1\<rparr>"
    by (rule compile_variant_ok [OF failed(2)])
  have v: "v \<in> set (pd_variants (ps_db s3))"
    using upsert_variant_row(1) [OF u(1)] running_job(2) [OF failed(3)] publish_child_db [OF failed(4)] u(2) by simp
  obtain j where "j \<in> set (pd_jobs (ps_db s3))" "pj_id j = uuid 1" "pj_variant_id j = va_id v"
    using running_job(1) [OF failed(3)] publish_child_db [OF failed(4)] by auto
  from failed_rows [OF v this, of "now 3" "exn_line e"] show ?thesis using failed(1,5) by (auto simp: failed_job_def)
next
  case (finished v child l s1 job db s3 result ref)
  obtain db1 where u: "upsert_variant (ps_db s) (uuid 0) (now 0) (variant_args_of w (ld_row l) backend child) = (Inr v, db1)" "s1 = s\<lparr>ps_db := db1\<rparr>"
    "load_current_parent w s op = Inr l" by (rule compile_variant_ok [OF finished(2)])
  have v: "v \<in> set (pd_variants (ps_db s3))" "va_contract_id v = ct_id (ld_row l)" "va_backend v = backend"
    using upsert_variant_row(1-3) [OF u(1)] running_job(2) [OF finished(3)] publish_child_db [OF finished(4)] u(2) by (simp_all add: variant_args_of_def)
  obtain j where "j \<in> set (pd_jobs (ps_db s3))" "pj_id j = uuid 1" "pj_variant_id j = va_id v"
    using running_job(1) [OF finished(3)] publish_child_db [OF finished(4)] by auto
  from ready_rows [OF v(1) this, of "now 3" ref result] have "published_job (ps_db s') (ct_id (ld_row l)) backend (uuid 1)"
    using finished(5) v(2,3) by (simp add: published_job_def) metis
  then show ?thesis using finished(1) load_latest [OF u(3)] by (auto simp: is_ok_iff)
qed

section \<open>Properties\<close>

text \<open>C10: A call of \<open>publish_backend\<close> tells the truth and leaves a record of it.  When it answers, the operator's latest contract has a PUBLISHED
  variant of that backend whose reference is the artifact of a READY job of the call.  When it raises, either nothing was published and no job was
  created, or the job of the call is FAILED with the error, which the variant also shows.  In both cases only store transactions ran, the contract
  versions stay, and what was PUBLISHED before still is.\<close>

theorem publish_records_outcome:
  assumes "reach (\<lambda>db. db = empty_publish_db) (publish_step h) (ps_db s)" "publish_backend w uuid now s op backend options = (r, s')"
  shows "(case r of
       Inr answer \<Rightarrow> (\<exists>row. get_latest_contract (ps_db s) op = Some row \<and> published_job (ps_db s') (ct_id row) backend (uuid 1))
     | Inl e \<Rightarrow> pd_jobs (ps_db s') = pd_jobs (ps_db s) \<and> ps_catalog s' = ps_catalog s \<and> ps_native s' = ps_native s \<or> failed_job (ps_db s') (uuid 1) e) \<and>
    reach (\<lambda>db. db = empty_publish_db) (publish_step h) (ps_db s') \<and> pd_contracts (ps_db s') = pd_contracts (ps_db s) \<and>
    (\<forall>v\<in>set (pd_variants (ps_db s)). va_status v = PUBLISHED \<longrightarrow> (\<exists>v'\<in>set (pd_variants (ps_db s')). va_id v' = va_id v \<and> va_status v' = PUBLISHED))"
proof -
  have inv: "publish_inv h (ps_db s)" by (rule publications.inv_reach [OF assms(1)])
  note run = publish_backend_run [OF assms(2), of h]
  have "\<exists>v'\<in>set (pd_variants (ps_db s')). va_id v' = va_id v \<and> va_status v' = PUBLISHED" if "v \<in> set (pd_variants (ps_db s))" "va_status v = PUBLISHED" for v
    using publish_run_keeps [OF conjunct1 [OF run] inv] that by (auto simp: keeps_publication_def)
  then show ?thesis using publish_backend_outcome [OF assms(2)] reach_steps [OF assms(1) conjunct1 [OF run]] publish_backend_contracts [OF assms(2)] by blast
qed

section \<open>Releases of the runner backend\<close>

text \<open>What a client gets for an answer of the build service's handlers.\<close>

definition wire_answer :: "http_answer \<Rightarrow> client_outcome" where
  "wire_answer a = (case a of
     Ok j \<Rightarrow> Answered (Inr j)
   | HttpFailure code detail \<Rightarrow> HttpStatus code (print_json (JObj [(''detail'', JStr detail)]))
   | Crash _ \<Rightarrow> HttpStatus 500 ''Internal Server Error'')"

lemma ready_answer:
  assumes "sw_build w reqs = wire_answer (fst (http_resolve h bw b reqs))" "client_resolve w reqs = Inr runtime" "ready_image_of v runtime = Inr i"
  obtains r b' where "build_resolve h bw b reqs = (Inr (Some r), b')" "ev_status (rs_env r) = READY" "ev_image_ref (rs_env r) = Some i"
proof -
  obtain row b' where br: "build_resolve h bw b reqs = (Inr row, b')" and rt: "runtime = serialize_environment row"
    using assms(1,2) by (auto simp: client_resolve_def http_resolve_def wire_answer_def split: prod.splits sum.splits if_splits)
  from assms(3) rt obtain r where r: "row = Some r"
    by (cases row) (simp_all add: ready_image_of_def serialize_environment_def json_field_def json_fields_def)
  have "status_text (ev_status (rs_env r)) = ''READY'' \<and> opt_json (ev_image_ref (rs_env r)) = JStr i"
    using assms(3) rt r
    by (auto simp: ready_image_of_def serialize_environment_def json_field_def json_fields_def Let_def split: if_splits json.splits)
  then have "ev_status (rs_env r) = READY" "ev_image_ref (rs_env r) = Some i"
    by (auto simp: status_text_def opt_json_def split: env_status.splits option.splits)
  with that br r show thesis by blast
qed

lemma publish_runner_ok:
  assumes "publish_runner w cat c plan source = (Inr (result, ref), cat')"
  obtains reqs runtime i t rel where "read_requirements source = Inr reqs" "client_resolve w reqs = Inr runtime"
    "ready_image_of (sw_backend w) runtime = Inr i" "staging_tree (sw_backend w) c plan source = Inr t"
    "publish (sw_publish w) cat t \<lparr>pa_runtime_image = i, pa_profile = rc_runtime_profile c, pa_python = ''3.12'', pa_allow_mutable_image = False\<rparr> = (Inr rel, cat')"
    "result = runner_result c runtime rel" "ref = ''runner-release:'' @ rel_id rel"
  using assms by (auto simp: publish_runner_def result_bind_ok map_sum_Inr split: sum.splits prod.splits)

lemma nonempty_strings_list: "list_all (\<lambda>s. s \<noteq> []) xs \<Longrightarrow> nonempty_strings (map JStr xs) = Some xs"
  by (induction xs) simp_all

lemma nonempty_strings_some: "nonempty_strings (map JStr xs) = Some ys \<Longrightarrow> ys = xs"
  by (induction xs arbitrary: ys) (auto split: if_splits)

text \<open>The specification that the publisher reads back from the staged \<open>operator.yaml\<close>.\<close>

lemma staged_spec:
  assumes "read_spec yaml t a = Inr s" "path_bytes t [''operator.yaml''] = Some text" "yaml text = Inr (runner_manifest_json m)"
  shows "rs_entrypoint s = rm_entrypoint m \<and> rs_inputs s = sorted_set (rm_input_attributes m) \<and> rs_outputs s = sorted_set (rm_output_attributes m) \<and>
    (pa_allow_mutable_image a \<or> matches_oci_digest (pa_runtime_image a))"
  using assms
  by (auto simp: read_spec_def runner_manifest_json_def Let_def result_bind_ok spec_entrypoint_def spec_attributes_def json_fields_def str_list_def
      split: if_splits option.splits dest!: nonempty_strings_some)

subsection \<open>The staged project\<close>

lemma copytree_posix:
  assumes "posix_tree t" "copytree t [d] = Inr u" "plain_name d"
  shows "posix_tree u" "fst ` set u \<subseteq> {p. take 1 p = [d]}" "path_bytes t p = Some b \<Longrightarrow> map_of u (d # p) = Some (SFile b)"
proof -
  note e = copytree_entries [OF assms(2)]
  have "distinct (map fst t)" "[] \<notin> fst ` set t" using assms(1) posix_entry(1) [OF assms(1)] by (simp add: posix_tree_def, fastforce)
  then have dist: "distinct (map fst u)" using e by (auto simp: distinct_map inj_on_def)
  have mem: "map_of u (d # p) = Some m" if "(p, n) \<in> set t" "copied_node n = Inr m" for p n m
    using that e dist by (auto simp: map_of_eq_Some_iff)
  have root: "map_of u [d] = Some SDir" using e dist by (simp add: map_of_eq_Some_iff)
  have "p \<noteq> [] \<and> list_all plain_name p \<and> (butlast p = [] \<or> map_of u (butlast p) = Some SDir)" if pn: "(p, n) \<in> set u" for p n
  proof (cases "p = [d]")
    case False
    then obtain q m where q: "p = d # q" "(q, m) \<in> set t" using pn e by auto
    note pe = posix_entry [OF assms(1) q(2)]
    have "butlast q = [] \<or> map_of u (d # butlast q) = Some SDir"
      using pe(3) mem [of "butlast q" SDir SDir] map_of_SomeD [of t "butlast q" SDir] by auto
    then show ?thesis using q(1) pe(1,2) assms(3) root by auto
  qed (use assms(3) in simp)
  then show "posix_tree u" using dist by (auto simp: posix_tree_def list_all_iff)
  show "fst ` set u \<subseteq> {p. take 1 p = [d]}" using e by auto
  assume "path_bytes t p = Some b"
  then obtain n where n: "map_of t p = Some n" "node_bytes n = Some b" by (auto simp: path_bytes_def bind_eq_Some_conv)
  then have "copied_node n = Inr (SFile b)" by (cases n) auto
  then show "map_of u (d # p) = Some (SFile b)" using mem [OF map_of_SomeD [OF n(1)]] by blast
qed

lemma posix_add_file:
  assumes "posix_tree t" "plain_name n" "map_of t [n] \<noteq> Some SDir"
  shows "posix_tree (AList.update [n] (SFile d) t)"
proof -
  have "distinct (map fst (AList.update [n] (SFile d) t))" using assms(1) by (simp add: posix_tree_def distinct_update)
  moreover have "p \<noteq> [] \<and> list_all plain_name p \<and> (butlast p = [] \<or> map_of (AList.update [n] (SFile d) t) (butlast p) = Some SDir)"
    if "(p, m) \<in> set (AList.update [n] (SFile d) t)" for p m
  proof (cases "p = [n]")
    case False
    have "map_of (AList.update [n] (SFile d) t) p = Some m" by (rule map_of_is_SomeI [OF calculation that])
    then have "(p, m) \<in> set t" using False by (auto simp: update_conv' dest: map_of_SomeD)
    from posix_entry [OF assms(1) this] show ?thesis using assms(3) by (auto simp: update_conv')
  qed (use assms(2) in simp)
  ultimately show ?thesis by (auto simp: posix_tree_def list_all_iff)
qed

lemma staging_facts:
  assumes "posix_tree source" "staging_tree w c plan source = Inr t"
  shows "posix_tree t" "map_of t [''operator.json''] = None" "map_of t [''__dsc_entry__.py''] = Some (SFile (generate_runner_adapter w plan))"
    "path_bytes t [''operator.yaml''] = Some (bw_yaml_dump w (runner_manifest_json (rc_manifest c)))"
    "path_bytes source p = Some b \<Longrightarrow> map_of t (''runtime'' # p) = Some (SFile b)"
proof -
  obtain u where u: "copytree source [''runtime''] = Inr u" and t: "t = write_runner_release_files w u c plan"
    using assms(2) by (auto simp: staging_tree_def map_sum_Inr)
  have plain: "plain_name ''runtime''" "plain_name ''operator-contract.yaml''" "plain_name ''__dsc_entry__.py''" "plain_name ''operator.yaml''"
    "plain_name ''publish-info.json''" by code_simp+
  note cp = copytree_posix [OF assms(1) u plain(1)]
  have out: "map_of u [n] = None" if "n \<noteq> ''runtime''" for n
  proof -
    have "[n] \<notin> fst ` set u" using cp(2) that by force
    then show ?thesis by (simp add: map_of_eq_None_iff)
  qed
  show "posix_tree t" unfolding t write_runner_release_files_def
    by (intro posix_add_file cp(1) plain) (simp_all add: update_conv' out)
  show "map_of t [''operator.json''] = None" "map_of t [''__dsc_entry__.py''] = Some (SFile (generate_runner_adapter w plan))"
    "path_bytes t [''operator.yaml''] = Some (bw_yaml_dump w (runner_manifest_json (rc_manifest c)))"
    by (simp_all add: t write_runner_release_files_def update_conv' out path_bytes_def)
  assume "path_bytes source p = Some b"
  from cp(3) [OF this] show "map_of t (''runtime'' # p) = Some (SFile b)" by (simp add: t write_runner_release_files_def update_conv')
qed

text \<open>C9: A release that the runner backend publishes runs the contract on an image that fits it.  Its entry point is the generated adapter, which is in
  the release with the plan of the contract, beside the files of the snapshot under \<open>runtime/\<close>; its profile and attributes are those of the compiled
  contract, and its image is pinned by digest, was inspected by the build service, and holds every package the snapshot's requirements lock to.  The
  publish service asks the build service in any state its builds reach; YAML reads back the manifest that was written.\<close>

theorem runner_release_runs_contract:
  assumes "publish_runner w cat c plan source = (Inr (result, ref), cat')" "cat' \<noteq> cat" "posix_tree source"
    and "c = compile_runner_contract (sw_backend w) contract_id version parent plan options"
    and "pw_yaml (sw_publish w) (bw_yaml_dump (sw_backend w) (runner_manifest_json (rc_manifest c))) = Inr (runner_manifest_json (rc_manifest c))"
    and "read_requirements source = Inr reqs" "sw_build w reqs = wire_answer (fst (http_resolve h bw b reqs))"
    and "reach init_build (build_step h bw) s" "bs_db s = sv_db b"
    and "lock_requirements bw reqs (set_python_version (sv_settings b)) (set_uv_python_platform (sv_settings b)) (set_uv_default_index (sv_settings b)) = Inr lock"
    and "parse_locked_packages (bw_canonicalize bw) lock = Inr pk" "collision_free h (spec_of (sv_settings b) lock # bs_requests s)"
  shows "\<exists>rel t. ref = ''runner-release:'' @ rel_id rel \<and> entrypoint rel = ''__dsc_entry__:process'' \<and> rel_profile rel = rc_runtime_profile c \<and>
    input_attributes rel = sorted_set (ep_input_metadata plan) \<and> output_attributes rel = sorted_set (ep_output_metadata plan) \<and>
    image_holds bw (env_image (rel_runtime rel)) pk \<and> matches_oci_digest (env_image (rel_runtime rel)) \<and>
    publish (sw_publish w) cat t \<lparr>pa_runtime_image = env_image (rel_runtime rel), pa_profile = rel_profile rel, pa_python = ''3.12'', pa_allow_mutable_image = False\<rparr> = (Inr rel, cat') \<and>
    map_of t [''__dsc_entry__.py''] = Some (SFile (generate_runner_adapter (sw_backend w) plan)) \<and>
    (\<forall>p d. path_bytes source p = Some d \<longrightarrow> map_of t (''runtime'' # p) = Some (SFile d))"
proof -
  obtain reqs' runtime i t rel where r: "read_requirements source = Inr reqs'" "client_resolve w reqs' = Inr runtime"
    "ready_image_of (sw_backend w) runtime = Inr i" and st: "staging_tree (sw_backend w) c plan source = Inr t"
    and pub: "publish (sw_publish w) cat t \<lparr>pa_runtime_image = i, pa_profile = rc_runtime_profile c, pa_python = ''3.12'', pa_allow_mutable_image = False\<rparr> = (Inr rel, cat')"
    and ref: "ref = ''runner-release:'' @ rel_id rel" by (rule publish_runner_ok [OF assms(1)])
  let ?a = "\<lparr>pa_runtime_image = i, pa_profile = rc_runtime_profile c, pa_python = ''3.12'', pa_allow_mutable_image = False\<rparr>"
  have same: "reqs' = reqs" using r(1) assms(6) by simp
  obtain row b' where row: "build_resolve h bw b reqs = (Inr (Some row), b')" "ev_status (rs_env row) = READY" "ev_image_ref (rs_env row) = Some i"
    by (rule ready_answer [OF assms(7) r(2) [unfolded same] r(3)])
  have holds: "image_holds bw i pk" using resolve_ready_sound [OF assms(8-12) row(1,2)] row(3) by auto
  note sf = staging_facts [OF assms(3) st]
  obtain s fs where s: "read_spec (pw_yaml (sw_publish w)) t ?a = Inr s" "iter_source_files (rglob t) = Inr fs" by (rule publish_ok [OF pub])
  obtain s' where s': "read_spec (pw_yaml (sw_publish w)) t ?a = Inr s'" "env_image (rel_runtime rel) = i" "rel_profile rel = rc_runtime_profile c"
    "entrypoint rel = rs_entrypoint s'" "input_attributes rel = rs_inputs s'" "output_attributes rel = rs_outputs s'"
    by (rule published_new [OF pub assms(2) s(2)]) simp
  note spec = staged_spec [OF s'(1) sf(4) assms(5)]
  have m: "rm_entrypoint (rc_manifest c) = ''__dsc_entry__:process''" "rm_input_attributes (rc_manifest c) = ep_input_metadata plan"
    "rm_output_attributes (rc_manifest c) = ep_output_metadata plan" by (simp_all add: assms(4) compile_runner_contract_def Let_def)
  show ?thesis
    by (rule exI [of _ rel], rule exI [of _ t]) (use ref s' spec m holds pub sf(3,5) in simp)
qed

section \<open>Saved contracts\<close>

lemma output_keys_same:
  assumes "same_json (output_json o1) (output_json o2)" "output_ok o1" "output_ok o2"
  shows "mset (map fst (out_metadata o1)) = mset (map fst (out_metadata o2))"
proof -
  note f = same_field [OF assms(1) [unfolded output_json_def], of "''metadata''"]
  have "same_json (JObj (map (\<lambda>(k, v). (k, output_value_json v)) (out_metadata o1))) (JObj (map (\<lambda>(k, v). (k, output_value_json v)) (out_metadata o2)))"
    using f by (simp add: same_json_def)
  moreover have d: "distinct (map fst (out_metadata o1))" "distinct (map fst (out_metadata o2))" using assms(2,3) by (simp_all add: output_ok_def dict_ok_def)
  ultimately have "fst ` set (out_metadata o1) = fst ` set (out_metadata o2)" using same_dict(1) by blast
  then show ?thesis using d set_eq_iff_mset_eq_distinct [of "map fst (out_metadata o1)" "map fst (out_metadata o2)"] by simp
qed

text \<open>Reading a compiled contract back from the database and compiling it again.\<close>

lemma stored_contract_compiles:
  assumes "contract_ok c" "same_json j (contract_json c)" "compile_virtual_contract h c catalog = Inr plan"
  shows "\<exists>c' plan'. contract_of_json j = Inr c' \<and> compile_virtual_contract h c' catalog = Inr plan' \<and> vc_metadata c' = vc_metadata c \<and> vc_source c' = vc_source c \<and>
    contract_sha256 h c' = contract_sha256 h c \<and> ep_contract_sha256 plan' = ep_contract_sha256 plan \<and> ep_target plan' = ep_target plan \<and>
    ep_input_metadata plan' = ep_input_metadata plan \<and> ep_output_metadata plan' = ep_output_metadata plan"
proof -
  let ?dict = "\<lambda>d. JObj (map (\<lambda>(k, b). (k, binding_json b)) d)"
  from contract_reads [OF assms(1,2)] obtain c' where c': "contract_of_json j = Inr c'" "contract_ok c'" "same_json (contract_json c') (contract_json c)"
    "vc_metadata c' = vc_metadata c" "vc_source c' = vc_source c" "vc_callable_id c' = vc_callable_id c"
    "same_json (?dict (vc_constructor_arguments c')) (?dict (vc_constructor_arguments c))" "same_json (?dict (vc_arguments c')) (?dict (vc_arguments c))"
    "same_json (output_json (vc_output c')) (output_json (vc_output c))" by blast
  have ok: "dict_ok binding_ok (vc_constructor_arguments c)" "dict_ok binding_ok (vc_arguments c)" "output_ok (vc_output c)"
    "dict_ok binding_ok (vc_constructor_arguments c')" "dict_ok binding_ok (vc_arguments c')" "output_ok (vc_output c')"
    using assms(1) c'(2) by (simp_all add: contract_ok_def)
  from compile_stable [OF assms(3) c'(5,6) same_bindings_dump [OF c'(7) ok(1,4)] same_bindings_dump [OF c'(8) ok(2,5)] output_keys_same [OF c'(9) ok(6,3)] c'(3)]
  obtain plan' where "compile_virtual_contract h c' catalog = Inr plan'" "ep_contract_sha256 plan' = ep_contract_sha256 plan" "ep_target plan' = ep_target plan"
    "ep_input_metadata plan' = ep_input_metadata plan" "ep_output_metadata plan' = ep_output_metadata plan" by blast
  moreover have "contract_sha256 h c' = contract_sha256 h c" using same_json_canonical [OF c'(3)] by (simp add: contract_sha256_def)
  ultimately show ?thesis using c' by blast
qed

lemma compile_facts:
  "compile_virtual_contract h c catalog = Inr plan \<Longrightarrow>
     ep_contract_sha256 plan = contract_sha256 h c \<and> so_python_path (vc_source c) = pc_python_path catalog \<and> so_source_revision (vc_source c) = pc_source_revision catalog"
  by (auto simp: compile_virtual_contract_def result_bind_ok select_callable_def split: if_splits)

lemma selection_source: "selection_to_virtual_contract sel ref = Inr c \<Longrightarrow> so_source_ref (vc_source c) = ref \<and> so_source_revision (vc_source c) = cr_source_revision sel"
  by (auto simp: selection_to_virtual_contract_def result_bind_ok make_source_def Let_def split: if_splits)

lemma put_workspace_ref: "put_workspace h dg mw st t r = (Inr ref, st') \<Longrightarrow> ref = ''local:'' @ r"
  by (auto simp: put_workspace_def Let_def split: option.splits sum.splits prod.splits if_splits)

text \<open>What a successful call of \<open>create_virtual_contract\<close> that adds a version did.\<close>

lemma create_contract_ok:
  assumes "create_virtual_contract w uuid now s sel = (Inr view, s1)" "row \<in> set (pd_contracts (ps_db s1))" "row \<notin> set (pd_contracts (ps_db s))"
  obtains t catalog parent plan where "source_resolve (ps_sources s1) (''local:'' @ cr_source_revision sel) = Inr t"
    "scan_project (sw_scan w) (ps_source_root s1 @ [cr_source_revision sel]) t (cr_python_root sel) = Inr catalog"
    "selection_to_virtual_contract sel (Some (''local:'' @ cr_source_revision sel)) = Inr parent"
    "compile_virtual_contract (scan_hash w) parent catalog = Inr plan" "ct_json row = contract_json parent" "ct_sha256 row = contract_sha256 (scan_hash w) parent"
    "ct_id row = uuid 1"
proof -
  from assms(1) obtain t0 ref st parent plan operator r created db where
    put: "put_workspace (scan_hash w) (sw_digest (sw_scan w)) (sw_meanwhile w) (ps_sources s) t0 (cr_source_revision sel) = (Inr ref, st)"
    and ic: "immutable_contract w (s\<lparr>ps_sources := st\<rparr>) sel ref = Inr (parent, plan)"
    and save: "save_virtual_contract (scan_hash w) (ps_db s) (uuid 0) (uuid 1) (now 0) (cr_workspace sel) parent = (Inr (operator, r, created), db)"
    and s1: "s1 = s\<lparr>ps_sources := st, ps_db := db\<rparr>"
    by (auto simp: create_virtual_contract_def Let_def split: sum.splits prod.splits)
  have ref: "ref = ''local:'' @ cr_source_revision sel" by (rule put_workspace_ref [OF put])
  have "row = r \<and> ct_json r = contract_json parent \<and> ct_sha256 r = contract_sha256 (scan_hash w) parent \<and> ct_id r = uuid 1"
    using save assms(2,3) s1 upsert_operator_ok(1)
    by (fastforce simp: save_virtual_contract_def Let_def split: sum.splits option.splits if_splits)
  moreover from ic obtain t catalog where "source_resolve st ref = Inr t" "scan_project (sw_scan w) (ps_source_root s @ [cr_source_revision sel]) t (cr_python_root sel) = Inr catalog"
    "selection_to_virtual_contract sel (Some ref) = Inr parent" "compile_virtual_contract (scan_hash w) parent catalog = Inr plan"
    by (auto simp: immutable_contract_def result_bind_ok map_sum_Inr)
  ultimately show thesis using that [of t catalog parent plan] s1 ref by simp
qed

lemma source_resolve_same:
  assumes "source_resolve st (''local:'' @ r) = Inr t" "r \<noteq> ''.''" "map_of (ss_revisions st') r = map_of (ss_revisions st) r"
  shows "source_resolve st' (''local:'' @ r) = Inr t"
  using assms by (auto simp: source_resolve_def Let_def split: if_splits option.splits)

text \<open>C11: A contract version that was saved stays usable.  In any later state of the service in which it is still the operator's latest version and the
  source store still has its snapshot, it is read back from the database with the same digest and metadata, compiles to a plan of that digest
  (whatever key order the database returns), and compiling it for the runner answers.\<close>

theorem saved_contract_compiles:
  assumes "create_virtual_contract w uuid now s sel = (Inr view, s1)" "row \<in> set (pd_contracts (ps_db s1))" "row \<notin> set (pd_contracts (ps_db s))"
    and "distinct (map fst (cr_constructor_bindings sel))" "distinct (map fst (cr_argument_bindings sel))" "distinct (map fst (out_metadata (cr_output sel)))"
    and "\<And>j. sort_keys (sw_jsonb w j) = sort_keys j" "\<And>x. scan_hash w x \<noteq> ''.''"
    and "get_latest_contract (ps_db s2) op = Some row" "ps_source_root s2 = ps_source_root s1"
    and "map_of (ss_revisions (ps_sources s2)) (cr_source_revision sel) = map_of (ss_revisions (ps_sources s1)) (cr_source_revision sel)"
    and "uuid2 0 \<notin> va_id ` set (pd_variants (ps_db s2))"
  shows "\<exists>l answer s3. load_current_parent w s2 op = Inr l \<and> ld_row l = row \<and> contract_sha256 (scan_hash w) (ld_parent l) = ct_sha256 row \<and>
    ep_contract_sha256 (ld_plan l) = ct_sha256 row \<and> so_source_revision (vc_source (ld_parent l)) = cr_source_revision sel \<and>
    compile_backend w uuid2 now2 s2 op ''runner'' options = (Inr answer, s3)"
proof -
  obtain t catalog parent plan where c: "source_resolve (ps_sources s1) (''local:'' @ cr_source_revision sel) = Inr t"
    "scan_project (sw_scan w) (ps_source_root s1 @ [cr_source_revision sel]) t (cr_python_root sel) = Inr catalog"
    "selection_to_virtual_contract sel (Some (''local:'' @ cr_source_revision sel)) = Inr parent"
    "compile_virtual_contract (scan_hash w) parent catalog = Inr plan" "ct_json row = contract_json parent" "ct_sha256 row = contract_sha256 (scan_hash w) parent"
    by (rule create_contract_ok [OF assms(1-3)])
  note scan = scan_project_ok [OF c(2)] and cf = compile_facts [OF c(4)] and src = selection_source [OF c(3)]
  obtain fs where "cr_source_revision sel = scan_hash w fs" using scan(3) cf src by (auto simp: source_revision_def map_sum_Inr scan_hash_def)
  then have res: "source_resolve (ps_sources s2) (''local:'' @ cr_source_revision sel) = Inr t" using source_resolve_same [OF c(1) _ assms(11)] assms(8) by simp
  have path: "so_python_path (vc_source parent) = cr_python_root sel" using cf scan(4) by simp
  have "contract_ok parent" by (rule selected_contract_ok [OF c(3) path assms(4-6)])
  moreover have "same_json (sw_jsonb w (ct_json row)) (contract_json parent)" using assms(7) c(5) by (simp add: same_json_def)
  ultimately obtain c' plan' where c': "contract_of_json (sw_jsonb w (ct_json row)) = Inr c'" "compile_virtual_contract (scan_hash w) c' catalog = Inr plan'"
    "vc_source c' = vc_source parent" "contract_sha256 (scan_hash w) c' = contract_sha256 (scan_hash w) parent" "ep_contract_sha256 plan' = ep_contract_sha256 plan"
    using stored_contract_compiles [OF _ _ c(4)] by blast
  let ?l = "\<lparr>ld_row = row, ld_parent = c', ld_plan = plan', ld_source = t\<rparr>"
  have load: "load_current_parent w s2 op = Inr ?l"
    using assms(9,10) c'(1,2,3) res c(2) src path by (simp add: load_current_parent_def blank_def Let_def)
  obtain child where "compile_child w s2 ?l ''runner'' options = Inr child" by (auto simp: compile_child_def Let_def)
  moreover obtain v db where "upsert_variant (ps_db s2) (uuid2 0) (now2 0) (variant_args_of w row ''runner'' child) = (Inr v, db)"
    using assms(12) by (cases "fetchone (variant_match (variant_args_of w row ''runner'' child)) (pd_variants (ps_db s2))") (auto simp: upsert_variant_def Let_def)
  ultimately have "\<exists>answer s3. compile_backend w uuid2 now2 s2 op ''runner'' options = (Inr answer, s3)"
    using load by (simp add: compile_backend_def compile_backend_variant_def)
  then show ?thesis using load c'(3-5) c(6) cf src by auto
qed

section \<open>Witnesses\<close>

definition demo_pin :: string where
  "demo_pin = ''r@sha256:'' @ replicate 64 (CHR ''0'')"

definition demo_pinned_world :: build_world where
  "demo_pinned_world = demo_build_world\<lparr>bw_buildx := (\<lambda>_ _ _. Inr (JObj [(''containerimage.digest'', JStr (drop 2 demo_pin))]))\<rparr>"

definition demo_manifest :: runner_manifest where
  "demo_manifest = \<lparr>rm_name = ''o'', rm_entrypoint = ''__dsc_entry__:process'', rm_input_attributes = [], rm_output_attributes = []\<rparr>"

definition demo_service_world :: service_world where
  "demo_service_world = \<lparr>sw_scan = demo_scan_world\<lparr>sw_sha256 := (\<lambda>_. ''h'')\<rparr>,
     sw_backend = \<lparr>bw_sha256 = (\<lambda>_. ''h''), bw_repr = (\<lambda>_. ''r''), bw_yaml_dump = (\<lambda>_. ''y''), bw_runner_template = ''x'', bw_native_template = ''x'', bw_mkdtemp = [''tmp'', ''n'']\<rparr>,
     sw_publish = \<lparr>pw_sha256 = (\<lambda>_. ''h''), pw_digest = (\<lambda>_. []), pw_yaml = (\<lambda>_. Inr (runner_manifest_json demo_manifest)), pw_pack = (\<lambda>_. ''gz'')\<rparr>,
     sw_jsonb = (\<lambda>j. j), sw_build = (\<lambda>reqs. wire_answer (fst (http_resolve (\<lambda>t. t) demo_pinned_world demo_build_service reqs))), sw_meanwhile = (\<lambda>st. st)\<rparr>"

definition demo_service :: publish_service where
  "demo_service = \<lparr>ps_workspace_root = [''ws''], ps_workspaces = [([''p''], SDir), ([''p'', ''m.py''], SFile ''x''), ([''p'', ''requirements.txt''], SFile ''a==1'')],
     ps_source_root = [''src''], ps_sources = \<lparr>ss_revisions = [], ss_max_source_bytes = 100\<rparr>, ps_db = empty_publish_db, ps_catalog = \<lparr>cat_root = ''/c'', cat_dirs = []\<rparr>,
     ps_native = \<lparr>ns_root = [''n''], ns_archives = [], ns_dirs = []\<rparr>, ps_default_profile = ''standard''\<rparr>"

definition demo_request :: contract_request where
  "demo_request = \<lparr>cr_workspace = ''p'', cr_source_revision = ''h'', cr_python_root = ''.'', cr_operator = \<lparr>om_name = ''o'', om_display_name = ''O'', om_description = []\<rparr>,
     cr_callable_id = ''m:C.run'', cr_constructor_bindings = [], cr_argument_bindings = [], cr_output = default_output\<rparr>"

definition demo_uuid :: "string \<Rightarrow> nat \<Rightarrow> string" where
  "demo_uuid s n = s @ replicate n (CHR ''u'')"

definition demo_created :: "json result \<times> publish_service" where
  "demo_created = create_virtual_contract demo_service_world (demo_uuid ''c'') int demo_service demo_request"

lemma demo_created_ok: "is_ok (fst demo_created) \<and> map ct_id (pd_contracts (ps_db (snd demo_created))) = [''cu''] \<and> pd_variants (ps_db (snd demo_created)) = [] \<and>
    pd_jobs (ps_db (snd demo_created)) = [] \<and> cat_dirs (ps_catalog (snd demo_created)) = []"
  by code_simp

definition demo_loaded :: "loaded result" where
  "demo_loaded = load_current_parent demo_service_world (snd demo_created) ''c''"

definition demo_source :: source_tree where
  "demo_source = [([''m.py''], SFile ''x''), ([''requirements.txt''], SFile ''a==1'')]"

lemma demo_loaded_ok: "map_sum id (\<lambda>l. (ld_source l, ep_input_metadata (ld_plan l), ep_output_metadata (ld_plan l), om_name (vc_metadata (ld_parent l)))) demo_loaded =
    Inr (demo_source, [], [], ''o'')"
  by code_simp

lemma demo_requirements: "read_requirements demo_source = Inr [''a==1'']"
  by code_simp

lemma demo_image: "result_bind (client_resolve demo_service_world [''a==1'']) (ready_image_of (sw_backend demo_service_world)) = Inr demo_pin" "matches_oci_digest demo_pin"
  by code_simp+

lemma iter_source_files_total: "list_all (\<lambda>(p, n). \<not> is_symlink n) es \<Longrightarrow> \<exists>fs. iter_source_files es = Inr fs"
proof (induction es rule: iter_source_files.induct)
  case (2 p n es)
  then show ?case by (cases n) auto
qed simp

lemma staging_no_links:
  assumes "staging_tree w c plan source = Inr t"
  shows "list_all (\<lambda>(p, n). \<not> is_symlink n) (rglob t)"
proof -
  obtain u where u: "copytree source [''runtime''] = Inr u" and t: "t = write_runner_release_files w u c plan"
    using assms by (auto simp: staging_tree_def map_sum_Inr)
  have cn: "copied_node n = Inr m \<Longrightarrow> \<not> is_symlink m" for n m by (cases n rule: copied_node.cases) auto
  have plain: "\<not> is_symlink (snd e)" if "e \<in> set u" for e using that copytree_entries [OF u] cn by auto
  have upd: "\<forall>e\<in>set (AList.update k (SFile d) al). \<not> is_symlink (snd e)" if "\<forall>e\<in>set al. \<not> is_symlink (snd e)" for k d al
    using that update_subset [of k "SFile d" al] by auto
  have "\<forall>e\<in>set t. \<not> is_symlink (snd e)" unfolding t write_runner_release_files_def by (intro upd ballI plain)
  then show ?thesis by (auto simp: list_all_iff)
qed

lemma publish_succeeds:
  assumes "read_spec (pw_yaml w) t a = Inr s" "iter_source_files (rglob t) = Inr fs" "int (length (source_artifact w a s fs)) \<le> MAX_ARTIFACT_BYTES" "cat_dirs c = []"
  shows "\<exists>rel c'. publish w c t a = (Inr rel, c') \<and> c' \<noteq> c"
proof -
  let ?rid = "source_id w a s fs" and ?art = "source_artifact w a s fs"
  let ?man = "release_manifest ?rid (pw_sha256 w ?art) (pw_sha256 w (pa_runtime_image a)) a (rs_entrypoint s) (rs_inputs s) (rs_outputs s)"
  let ?c = "run_steps (save_steps ?rid ?man ?art) c"
  have "publish w c t a = (catalog_get ?c ?rid, ?c)"
    unfolding publish_saves [OF assms(1-3)] by (simp add: catalog_save_def need_id Let_def assms(4))
  moreover have "\<exists>rel. catalog_get ?c ?rid = Inr rel" by (simp add: catalog_get_def save_steps_lookup release_of_manifest)
  moreover have "?c \<noteq> c"
  proof
    assume "?c = c"
    then have "map_of (cat_dirs ?c) ?rid = None" by (simp add: assms(4))
    then show False by (simp add: save_steps_lookup)
  qed
  ultimately show ?thesis by auto
qed

lemma demo_source_facts: "posix_tree demo_source" "list_all (\<lambda>(p, n). n \<noteq> SLink None) demo_source"
  by code_simp+

lemma demo_publish_runner:
  assumes "rc_manifest c = demo_manifest" "cat_dirs cat = []"
  shows "\<exists>result ref cat'. publish_runner demo_service_world cat c plan demo_source = (Inr (result, ref), cat') \<and> cat' \<noteq> cat"
proof -
  let ?w = demo_service_world
  obtain runtime where rt: "client_resolve ?w [''a==1''] = Inr runtime" "ready_image_of (sw_backend ?w) runtime = Inr demo_pin"
    using demo_image(1) by (auto simp: result_bind_ok)
  obtain u where u: "copytree demo_source [''runtime''] = Inr u" using copytree_total [OF demo_source_facts(2)] by blast
  define t where "t = write_runner_release_files (sw_backend ?w) u c plan"
  have t: "staging_tree (sw_backend ?w) c plan demo_source = Inr t" by (simp add: staging_tree_def u t_def)
  let ?a = "\<lparr>pa_runtime_image = demo_pin, pa_profile = rc_runtime_profile c, pa_python = ''3.12'', pa_allow_mutable_image = False\<rparr>"
  have ep: "matches_entrypoint ''__dsc_entry__:process''" by code_simp
  have yaml: "pw_yaml (sw_publish ?w) x = Inr (runner_manifest_json demo_manifest)" for x by (simp add: demo_service_world_def)
  have "path_bytes t [''operator.yaml''] \<noteq> None" using staging_facts(4) [OF demo_source_facts(1) t] by simp
  then obtain s where s: "read_spec (pw_yaml (sw_publish ?w)) t ?a = Inr s"
    using ep demo_image(2) yaml
    by (auto simp: read_spec_def runner_manifest_json_def demo_manifest_def spec_entrypoint_def spec_attributes_def json_fields_def str_list_def Let_def)
  obtain fs where fs: "iter_source_files (rglob t) = Inr fs" using iter_source_files_total [OF staging_no_links [OF t]] by blast
  have "source_artifact (sw_publish ?w) ?a s fs = ''gz''" by (simp add: source_artifact_def demo_service_world_def)
  then have "int (length (source_artifact (sw_publish ?w) ?a s fs)) \<le> MAX_ARTIFACT_BYTES" by (simp add: MAX_ARTIFACT_BYTES_def)
  from publish_succeeds [OF s fs this assms(2)] obtain rel cat' where "publish (sw_publish ?w) cat t ?a = (Inr rel, cat')" "cat' \<noteq> cat" by blast
  then show ?thesis using rt t demo_requirements by (simp add: publish_runner_def)
qed

lemma demo_child:
  assumes "demo_loaded = Inr l"
  shows "ld_source l = demo_source" "rc_manifest (compile_runner_contract b i n (ld_parent l) (ld_plan l) opts) = demo_manifest"
proof -
  have "(ld_source l, ep_input_metadata (ld_plan l), ep_output_metadata (ld_plan l), om_name (vc_metadata (ld_parent l))) = (demo_source, [], [], ''o'')"
    using demo_loaded_ok unfolding assms by (simp only: map_sum.simps sum.inject)
  then show "ld_source l = demo_source" "rc_manifest (compile_runner_contract b i n (ld_parent l) (ld_plan l) opts) = demo_manifest"
    by (simp_all add: compile_runner_contract_def demo_manifest_def Let_def)
qed

lemma create_contract_run:
  assumes "create_virtual_contract w uuid now s sel = (r, s')"
  shows "(publish_step (scan_hash w))\<^sup>*\<^sup>* (ps_db s) (ps_db s')"
  using assms publish_step.save by (fastforce simp: create_virtual_contract_def Let_def split: sum.splits prod.splits)

lemma demo_reach: "reach (\<lambda>db. db = empty_publish_db) (publish_step (scan_hash demo_service_world)) (ps_db (snd demo_created))"
proof -
  have "(publish_step (scan_hash demo_service_world))\<^sup>*\<^sup>* (ps_db demo_service) (ps_db (snd demo_created))"
    by (rule create_contract_run [of _ "demo_uuid ''c''" int _ demo_request "fst demo_created"]) (simp add: demo_created_def)
  then show ?thesis by (rule reach_steps [rotated]) (simp add: reach_init demo_service_def)
qed

lemma demo_loaded_l: obtains l where "demo_loaded = Inr l" "get_latest_contract (ps_db (snd demo_created)) ''c'' = Some (ld_row l)"
proof -
  obtain l where l: "demo_loaded = Inr l"
  proof (cases demo_loaded)
    case (Inl e)
    then show thesis using demo_loaded_ok unfolding Inl by simp
  qed (rule that)
  then show thesis using that load_latest by (simp add: demo_loaded_def)
qed

lemma demo_publish_backend:
  "\<exists>answer s'. publish_backend demo_service_world (demo_uuid ''p'') int (snd demo_created) ''c'' ''runner'' (JObj []) = (Inr answer, s')"
proof -
  let ?w = demo_service_world and ?s = "snd demo_created"
  obtain l where l: "demo_loaded = Inr l" by (rule demo_loaded_l)
  let ?c = "compile_runner_contract (sw_backend ?w) (ct_id (ld_row l)) (ct_version (ld_row l)) (ld_parent l) (ld_plan l) (JObj [(''profile'', JStr (ps_default_profile ?s))])"
  have load: "load_current_parent ?w ?s ''c'' = Inr l" using l by (simp add: demo_loaded_def)
  have child: "compile_child ?w ?s l ''runner'' (JObj []) = Inr (Runner ?c)" by (simp add: compile_child_def option_value_def json_fields_def Let_def)
  have empty: "pd_variants (ps_db ?s) = []" "pd_jobs (ps_db ?s) = []" "cat_dirs (ps_catalog ?s) = []" using demo_created_ok by simp_all
  obtain v db where up: "upsert_variant (ps_db ?s) (demo_uuid ''p'' 0) (int 0) (variant_args_of ?w (ld_row l) ''runner'' (Runner ?c)) = (Inr v, db)"
    using empty(1) by (simp add: upsert_variant_def fetchone_def Let_def)
  have "pd_jobs db = []" using upsert_variant_row(8) [OF up] empty(2) by simp
  then obtain job db2 where job: "create_publish_job db (demo_uuid ''p'' 1) (int 1) (va_id v) = (Inr job, db2)" by (simp add: create_publish_job_def Let_def)
  obtain result ref cat' where "publish_runner ?w (ps_catalog ?s) ?c (ld_plan l) (ld_source l) = (Inr (result, ref), cat')"
    using demo_publish_runner [OF demo_child(2) [OF l] empty(3), of _ _ _ _ "ld_plan l"] unfolding demo_child(1) [OF l] by blast
  then show ?thesis using load child up job by (simp add: publish_backend_def compile_backend_variant_def)
qed

theorem publish_records_outcome_witness:
  "\<exists>answer s' (row :: contract_row). publish_backend demo_service_world (demo_uuid ''p'') int (snd demo_created) ''c'' ''runner'' (JObj []) = (Inr answer, s') \<and>
     published_job (ps_db s') (ct_id row) ''runner'' (demo_uuid ''p'' 1)"
proof -
  obtain answer s' where p: "publish_backend demo_service_world (demo_uuid ''p'') int (snd demo_created) ''c'' ''runner'' (JObj []) = (Inr answer, s')"
    using demo_publish_backend by blast
  obtain row :: contract_row where "published_job (ps_db s') (ct_id row) ''runner'' (demo_uuid ''p'' 1)"
    using conjunct1 [OF publish_records_outcome [OF demo_reach p]] unfolding sum.case by (elim exE conjE) (rule that)
  with p show ?thesis by (intro exI conjI)
qed

lemma demo_pinned_lock:
  "lock_requirements demo_pinned_world [''a==1''] (set_python_version (sv_settings demo_build_service))
     (set_uv_python_platform (sv_settings demo_build_service)) (set_uv_default_index (sv_settings demo_build_service)) = Inr (''a==1'' @ [CHR 0x0A])"
  "parse_locked_packages (bw_canonicalize demo_pinned_world) (''a==1'' @ [CHR 0x0A]) = Inr [(''a'', ''1'')]"
  by code_simp+

theorem runner_release_runs_contract_witness:
  "\<exists>c plan result ref cat' (rel :: operator_release). publish_runner demo_service_world (ps_catalog demo_service) c plan demo_source = (Inr (result, ref), cat') \<and>
     ref = ''runner-release:'' @ rel_id rel \<and> entrypoint rel = ''__dsc_entry__:process'' \<and> image_holds demo_pinned_world (env_image (rel_runtime rel)) [(''a'', ''1'')]"
proof -
  let ?w = demo_service_world
  obtain l where l: "demo_loaded = Inr l" by (rule demo_loaded_l)
  let ?c = "compile_runner_contract (sw_backend ?w) [] 1 (ld_parent l) (ld_plan l) (JObj [])"
  note m = demo_child(2) [OF l, of "sw_backend ?w" "[]" 1 "JObj []"]
  have "cat_dirs (ps_catalog demo_service) = []" by (simp add: demo_service_def)
  from demo_publish_runner [OF m this] obtain result ref cat'
    where p: "publish_runner ?w (ps_catalog demo_service) ?c (ld_plan l) demo_source = (Inr (result, ref), cat')" "cat' \<noteq> ps_catalog demo_service" by blast
  have yaml: "pw_yaml (sw_publish ?w) (bw_yaml_dump (sw_backend ?w) (runner_manifest_json (rc_manifest ?c))) = Inr (runner_manifest_json (rc_manifest ?c))"
    unfolding m by (simp add: demo_service_world_def)
  have build: "sw_build ?w [''a==1''] = wire_answer (fst (http_resolve (\<lambda>t. t) demo_pinned_world demo_build_service [''a==1'']))" by (simp add: demo_service_world_def)
  obtain rel :: operator_release where "ref = ''runner-release:'' @ rel_id rel" "entrypoint rel = ''__dsc_entry__:process''" "image_holds demo_pinned_world (env_image (rel_runtime rel)) [(''a'', ''1'')]"
    using runner_release_runs_contract [OF p demo_source_facts(1) refl yaml demo_requirements build demo_build_reach demo_pinned_lock demo_collision_free]
    by (elim exE conjE) (rule that)
  with p(1) show ?thesis by (intro exI conjI)
qed

theorem saved_contract_compiles_witness:
  "\<exists>l answer s3. load_current_parent demo_service_world (snd demo_created) ''c'' = Inr l \<and> ep_contract_sha256 (ld_plan l) = ct_sha256 (ld_row l) \<and>
     compile_backend demo_service_world (demo_uuid ''p'') int (snd demo_created) ''c'' ''runner'' (JObj []) = (Inr answer, s3)"
proof -
  let ?w = demo_service_world and ?s = "snd demo_created"
  obtain view where create: "create_virtual_contract ?w (demo_uuid ''c'') int demo_service demo_request = (Inr view, ?s)"
    using demo_created_ok by (cases demo_created) (auto simp: demo_created_def is_ok_iff)
  obtain l where "demo_loaded = Inr l" and l: "get_latest_contract (ps_db ?s) ''c'' = Some (ld_row l)" by (rule demo_loaded_l)
  have row: "ld_row l \<in> set (pd_contracts (ps_db ?s))" "ld_row l \<notin> set (pd_contracts (ps_db demo_service))"
    using latest_Some [OF l [unfolded get_latest_contract_def]] by (auto simp: demo_service_def empty_publish_db_def)
  have dist: "distinct (map fst (cr_constructor_bindings demo_request))" "distinct (map fst (cr_argument_bindings demo_request))"
    "distinct (map fst (out_metadata (cr_output demo_request)))" by (simp_all add: demo_request_def default_output_def)
  have world: "sort_keys (sw_jsonb ?w j) = sort_keys j" "scan_hash ?w x \<noteq> ''.''" for j x by (simp_all add: demo_service_world_def scan_hash_def)
  have fresh: "demo_uuid ''p'' 0 \<notin> va_id ` set (pd_variants (ps_db ?s))" using demo_created_ok by simp
  from saved_contract_compiles [where w = ?w and s = demo_service and ?s1.0 = ?s and ?s2.0 = ?s and ?uuid2.0 = "demo_uuid ''p''" and ?now2.0 = int and options = "JObj []", OF create row dist world l refl refl fresh]
  show ?thesis by (metis (no_types, lifting))
qed

end
