(* ===== verification/Suggested_Contract.thy ===== *)
theory Suggested_Contract
  imports Publish_Service
begin

text \<open>
  From what Analyze answers to a contract: a user who takes, for every parameter of a supported callable, any of the suggested
  bindings gets a contract that compiles.  \<open>accept\<close> is the binding selection that a suggestion describes.
\<close>

definition accept :: "suggestion \<Rightarrow> binding_selection" where
  "accept s = \<lparr>bs_source = sg_source s, bs_codec = sg_codec s, bs_metadata_key = sg_metadata_key s, bs_parameter_key = sg_parameter_key s,
     bs_parameter_display_name = sg_parameter_display_name s, bs_parameter_description = [], bs_parameter_required = sg_parameter_required s,
     bs_parameter_has_default = (sg_parameter_default s \<noteq> None), bs_parameter_default = (case sg_parameter_default s of None \<Rightarrow> JNull | Some v \<Rightarrow> v),
     bs_constant = JNull\<rparr>"

definition accepted :: "(bool \<Rightarrow> nat \<Rightarrow> parameter_info \<Rightarrow> suggestion) \<Rightarrow> bool \<Rightarrow> parameter_info list \<Rightarrow> (string, binding_selection) dict" where
  "accepted pick constructor ps = map (\<lambda>(i, p). (pi_name p, accept (pick constructor i p))) (zip [0..<length ps] ps)"

definition suggested_request :: "project_catalog \<Rightarrow> string \<Rightarrow> operator_metadata \<Rightarrow> callable_info \<Rightarrow> (bool \<Rightarrow> nat \<Rightarrow> parameter_info \<Rightarrow> suggestion) \<Rightarrow> contract_request" where
  "suggested_request catalog workspace m c pick =
     \<lparr>cr_workspace = workspace, cr_source_revision = pc_source_revision catalog, cr_python_root = pc_python_path catalog, cr_operator = m,
      cr_callable_id = ca_id c, cr_constructor_bindings = accepted pick True (view_constructor c catalog),
      cr_argument_bindings = accepted pick False (ca_parameters c), cr_output = default_output\<rparr>"

definition plain_parameter :: "parameter_info \<Rightarrow> bool" where
  "plain_parameter p \<longleftrightarrow> pi_name p \<noteq> [] \<and> strip (pi_name p) = pi_name p"

lemma suggestion_facts:
  assumes "s \<in> set (parameter_suggestions p i constructor)"
  shows "sg_source s \<in> set (allowed_sources constructor)" "sg_source s = INPUT_METADATA \<Longrightarrow> \<not> blank (sg_metadata_key s)"
    "sg_source s = OPERATOR_PARAMETER \<Longrightarrow> sg_parameter_key s = Some (pi_name p)"
proof -
  have names: "\<not> blank (Some k)" if "map_of METADATA_NAMES n = Some k" for n k
  proof -
    have "list_all (\<lambda>(_, k). k \<noteq> []) METADATA_NAMES" by code_simp
    with map_of_SomeD [OF that] show ?thesis by (auto simp: list_all_iff blank_def)
  qed
  have "sg_source s \<in> set (allowed_sources constructor) \<and> (sg_source s = INPUT_METADATA \<longrightarrow> \<not> blank (sg_metadata_key s)) \<and>
    (sg_source s = OPERATOR_PARAMETER \<longrightarrow> sg_parameter_key s = Some (pi_name p))"
    using assms unfolding parameter_suggestions_def Let_def set_sort set_append Un_iff
  proof (elim disjE, goal_cases)
    case 1
    then show ?case by (simp add: allowed_sources_def split: if_split_asm)
  next
    case 2
    then obtain k where "map_of METADATA_NAMES (lower (pi_name p)) = Some k" "\<not> constructor"
      by (cases "map_of METADATA_NAMES (lower (pi_name p))"; cases constructor; simp)
    then show ?case using names 2 by (simp add: allowed_sources_def)
  next
    case 3
    then show ?case by (simp add: allowed_sources_def)
  qed
  then show "sg_source s \<in> set (allowed_sources constructor)" "sg_source s = INPUT_METADATA \<Longrightarrow> \<not> blank (sg_metadata_key s)"
    "sg_source s = OPERATOR_PARAMETER \<Longrightarrow> sg_parameter_key s = Some (pi_name p)" by simp_all
qed

definition keyed_binding :: "string \<times> argument_binding \<Rightarrow> bool" where
  "keyed_binding x \<longleftrightarrow> (ab_source (snd x) = OPERATOR_PARAMETER \<longrightarrow> (\<exists>s. ab_parameter (snd x) = Some s \<and> os_key s = fst x))"

lemma accept_binding:
  assumes "s \<in> set (parameter_suggestions p i constructor)" "plain_parameter p"
  shows "\<exists>b. selection_binding (accept s) = Inr b \<and> keyed_binding (pi_name p, b)"
  using suggestion_facts [OF assms(1)] assms(2)
  by (cases "sg_source s = OPERATOR_PARAMETER")
    (auto simp: selection_binding_def accept_def make_parameter_spec_def make_binding_def keyed_binding_def text_or_def plain_parameter_def Let_def split: list.splits)

lemma each_accepted:
  assumes "\<And>i p. pick constructor i p \<in> set (parameter_suggestions p i constructor)" "list_all plain_parameter ps"
  shows "\<exists>d. each_value selection_binding (accepted pick constructor ps) = Inr d \<and> map fst d = map pi_name ps \<and> list_all keyed_binding d"
proof -
  have "\<exists>d. each_value selection_binding (map (\<lambda>(i, p). (pi_name p, accept (pick constructor i p))) xs) = Inr d \<and> map fst d = map pi_name (map snd xs) \<and> list_all keyed_binding d"
    if "list_all plain_parameter (map snd xs)" for xs :: "(nat \<times> parameter_info) list"
    using that
  proof (induction xs)
    case (Cons x xs)
    obtain b where "selection_binding (accept (pick constructor (fst x) (snd x))) = Inr b" "keyed_binding (pi_name (snd x), b)"
      using accept_binding [OF assms(1), of "snd x" "fst x"] Cons.prems by auto
    with Cons show ?case by (auto simp: case_prod_beta)
  qed simp
  from this [of "zip [0..<length ps] ps"] assms(2) show ?thesis by (simp add: accepted_def)
qed

lemma parameter_map_known: "n \<in> pi_name ` set ps \<Longrightarrow> \<exists>p. parameter_map ps n = Some p"
  by (cases "parameter_map ps n") (force simp: parameter_map_def map_of_eq_None_iff)+

lemma accepted_valid: "map fst d = map pi_name ps \<Longrightarrow> validate_bindings ps d label = Inr ()"
proof -
  assume d: "map fst d = map pi_name ps"
  then have keys: "fst ` set d = pi_name ` set ps" by (metis list.set_map)
  have "filter (\<lambda>n. parameter_map ps n = None) (map fst d) = []" using parameter_map_known [of _ ps] d by (fastforce simp: filter_empty_conv)
  moreover have "filter (\<lambda>n. map_of d n = None) (map pi_name (filter pi_required ps)) = []"
    using keys by (auto simp: filter_empty_conv map_of_eq_None_iff)
  ultimately show ?thesis by (simp add: validate_bindings_def Let_def)
qed

lemma compile_keyed:
  assumes "list_all keyed_binding d" "distinct (map fst d)" "fst ` set d \<subseteq> pi_name ` set ps" "fst ` set d \<inter> fst ` set tab = {}"
  shows "\<exists>cs tab'. compile_bindings ps d tab = Inr (cs, tab') \<and> fst ` set tab' \<subseteq> fst ` set tab \<union> fst ` set d \<and> map fst cs = map fst d"
  using assms
proof (induction d arbitrary: tab)
  case (Cons x d)
  obtain n b where x: "x = (n, b)" by (cases x)
  obtain p where p: "parameter_map ps n = Some p" using parameter_map_known [of n ps] Cons.prems(3) x by auto
  have fresh: "map_of tab n = None" using Cons.prems(4) x by (auto simp: map_of_eq_None_iff)
  obtain c tab1 where c: "compile_binding p b tab = Inr (c, tab1)" "fst ` set tab1 \<subseteq> insert n (fst ` set tab)"
    using Cons.prems(1) x fresh by (cases "ab_source b = OPERATOR_PARAMETER") (auto simp: compile_binding_def keyed_binding_def Let_def dom_update)
  have "fst ` set d \<inter> fst ` set tab1 = {}" using Cons.prems(2,4) x c(2) by (fastforce simp: image_iff)
  then obtain cs tab' where "compile_bindings ps d tab1 = Inr (cs, tab')" "fst ` set tab' \<subseteq> fst ` set tab1 \<union> fst ` set d" "map fst cs = map fst d"
    using Cons.IH [of tab1] Cons.prems by auto
  then show ?case using x p c by auto
qed simp

lemma scanned_target:
  assumes "scan_project w base t python_path = Inr cat" "c \<in> set (all_callables cat)"
  shows "\<exists>target. make_target_payload c = Inr target"
proof -
  note ok = scan_project_ok [OF assms(1)]
  have "function_ok w c \<or> (\<exists>k. class_ok w k \<and> method_ok k c)"
    using assms(2) ok(1,2) by (fastforce simp: all_callables_def list_all_iff class_ok_def)
  then show ?thesis by (auto simp: make_target_payload_def function_ok_def method_ok_def class_ok_def blank_def Let_def)
qed

lemma suggested_constructor:
  assumes "callable_support_reasons c catalog = []" "vc_constructor_arguments contract = d" "map fst d = map pi_name (view_constructor c catalog)"
  shows "constructor_parameters contract catalog c = Inr (view_constructor c catalog)"
proof (cases "ca_kind c = INSTANCE_METHOD")
  case True
  then obtain target k where t: "ca_class_target c = Some target" "target \<noteq> []" and k: "class_by_target catalog target = Some k"
    using assms(1) by (auto simp: callable_support_reasons_def blank_def split: if_splits option.splits)
  have v: "view_constructor c catalog = cl_constructor k" using True t k by (simp add: view_constructor_def blank_def)
  have "text_or (ca_class_target c) [] = target" using t by (simp add: text_or_def split: list.splits)
  then show ?thesis using True k v accepted_valid [of d "cl_constructor k"] assms(2,3) by (simp add: constructor_parameters_def)
next
  case False
  then have "view_constructor c catalog = []" by (simp add: view_constructor_def)
  then show ?thesis using False assms(2,3) by (simp add: constructor_parameters_def)
qed


definition demo_suggest_world :: scan_world where
  "demo_suggest_world = demo_scan_world\<lparr>sw_parse := (\<lambda>_. Inr [FunctionDef \<lparr>fn_name = ''run'', fn_decorators = [],
     fn_arguments = \<lparr>ar_posonlyargs = [], ar_args = [\<lparr>pa_name = ''payload'', pa_annotation = None\<rparr>, \<lparr>pa_name = ''filename'', pa_annotation = None\<rparr>,
       \<lparr>pa_name = ''limit'', pa_annotation = Some ''int''\<rparr>], ar_defaults = [], ar_vararg = None, ar_kwonlyargs = [], ar_kwarg = None\<rparr>,
     fn_returns = None, fn_lineno = 2, fn_async = False\<rparr>])\<rparr>"

definition demo_suggest_catalog :: "project_catalog result" where
  "demo_suggest_catalog = scan_project demo_suggest_world [''w''] [([''m.py''], SFile ''x'')] ''.''"

definition pick_first :: "bool \<Rightarrow> nat \<Rightarrow> parameter_info \<Rightarrow> suggestion" where
  "pick_first b i p = hd (parameter_suggestions p i b)"

lemma pick_first_in: "pick_first b i p \<in> set (parameter_suggestions p i b)"
proof -
  have "parameter_suggestions p i b \<noteq> []" unfolding parameter_suggestions_def Let_def by (simp flip: length_0_conv)
  then show ?thesis by (simp add: pick_first_def)
qed

lemma demo_suggest: "(case demo_suggest_catalog of Inl _ \<Rightarrow> False | Inr cat \<Rightarrow> (case callable_by_id cat ''m:run'' of None \<Rightarrow> False | Some c \<Rightarrow>
    callable_support_reasons c cat = [] \<and> \<not> list_ex (\<lambda>x. cw_severity x = ''error'') (pc_warnings cat) \<and>
    list_all plain_parameter (view_constructor c cat @ ca_parameters c) \<and> distinct (map pi_name (view_constructor c cat @ ca_parameters c)) \<and>
    map pi_name (ca_parameters c) = [''payload'', ''filename'', ''limit'']))"
  by code_simp


end
