(* ===== verification/Sandbox_Backend.thy ===== *)
theory Sandbox_Backend
  imports Runner_Model
begin

text \<open>
  \<^verbatim>\<open>runner_engine/sandbox/backend.py\<close>: the protocol between the worker pool and the sandbox
  infrastructure, as a record of operations on a backend state.  \<open>renew\<close> is the one operation
  that assigns to the worker object and returns its new value.  The locale \<open>sandbox_backend\<close> is the
  contract that the pool relies on; the theories of the two backends interpret it.
\<close>

record 'b backend =
  be_create :: "'b \<Rightarrow> string \<Rightarrow> operator_release \<Rightarrow> security_policy \<Rightarrow> int \<Rightarrow> worker result \<times> 'b"
  be_renew :: "'b \<Rightarrow> worker \<Rightarrow> int \<Rightarrow> worker result \<times> 'b"
  be_install :: "'b \<Rightarrow> worker \<Rightarrow> operator_release \<Rightarrow> unit result \<times> 'b"
  be_run :: "'b \<Rightarrow> worker \<Rightarrow> operator_release \<Rightarrow> run_request \<Rightarrow> int \<Rightarrow> run_result result \<times> 'b"
  be_destroy :: "'b \<Rightarrow> worker \<Rightarrow> unit result \<times> 'b"
  be_cleanup :: "'b \<Rightarrow> nat result \<times> 'b"

text \<open>A worker as it leaves \<open>create\<close>: bound to its tenant, runtime and profile, healthy and empty.\<close>

definition fresh_worker :: "string \<Rightarrow> operator_release \<Rightarrow> worker \<Rightarrow> bool" where
  "fresh_worker tenant rel w \<longleftrightarrow>
     w_tenant_id w = tenant \<and> w_runtime_id w = env_id (rel_runtime rel) \<and> w_profile w = rel_profile rel \<and>
     installed_release_ids w = {} \<and> healthy w \<and> \<not> destroyed w"

locale sandbox_backend =
  fixes be :: "'b backend"
  assumes create_fresh: "be_create be b tenant rel pol ttl = (Inr w, b') \<Longrightarrow> fresh_worker tenant rel w"
    and renew_frame: "be_renew be b w ttl = (Inr w', b') \<Longrightarrow> \<exists>e. w' = w\<lparr>sandbox_expires_monotonic := e\<rparr>"

section \<open>What both backends exchange with the agent\<close>

definition bootstrap_payload :: "operator_release \<Rightarrow> bytes \<Rightarrow> json" where
  "bootstrap_payload rel artifact = JObj
     [(''release_id'', JStr (rel_id rel)),
      (''artifact_sha256'', JStr (artifact_sha256 rel)),
      (''artifact_b64'', JStr (b64encode artifact))]"

definition run_payload :: "operator_release \<Rightarrow> run_request \<Rightarrow> int \<Rightarrow> json" where
  "run_payload rel req timeout_ms = JObj
     [(''release_id'', JStr (rel_id rel)),
      (''content_b64'', JStr (b64encode (req_content req))),
      (''attributes'', str_obj (req_attributes req)),
      (''parameters'', str_obj (req_parameters req)),
      (''timeout_ms'', JInt timeout_ms),
      (''max_output_bytes'', JInt (8 * 1024 * 1024)),
      (''max_attributes'', JInt 128),
      (''max_attribute_bytes'', JInt (64 * 1024))]"

definition get_truthy :: "json \<Rightarrow> string \<Rightarrow> bool" where
  "get_truthy raw k = (case map_of (json_fields raw) k of None \<Rightarrow> False | Some v \<Rightarrow> json_truthy v)"

definition result_of_response :: "string \<Rightarrow> json \<Rightarrow> run_result result" where
  "result_of_response wid response =
     result_bind (get_str response ''status'' ''FAILED'') (\<lambda>status.
     result_bind (get_str response ''relationship'' ''failure'') (\<lambda>relationship.
     result_bind (get_str response ''content_b64'' []) (\<lambda>c64.
     result_bind (b64decode False c64) (\<lambda>content.
     result_bind (get_str_dict response ''attributes'') (\<lambda>attributes.
     result_bind (get_str response ''error_code'' []) (\<lambda>code.
     result_bind (get_str response ''error_message'' []) (\<lambda>message.
     result_bind (get_int response ''duration_ms'' 0) (\<lambda>duration.
       Inr \<lparr>res_status = status, res_relationship = relationship, res_content = content, res_attributes = attributes,
            res_retryable = get_truthy response ''retryable'', res_error_code = code, res_error_message = message,
            res_worker_id = wid, res_duration_ms = duration\<rparr>))))))))"

end
