(* ===== verification/Quota.thy ===== *)
theory Quota
  imports Prelude
begin

text \<open>
  \<^verbatim>\<open>runner_engine/quota.py\<close>: the bounded semaphore for concurrent creations and the live
  counters, one global and one per tenant.  The interface \<open>live_ledger\<close> states what the worker
  pool relies on; its interpretation \<open>ledger\<close> discharges it for this model.
\<close>

section \<open>State and operations\<close>

record quota =
  max_creating :: int
  max_live :: int
  max_live_per_tenant :: int
  creating_free :: int
  live :: int
  tenant_live :: "(string, int) dict"

definition quota_init :: "int \<Rightarrow> int \<Rightarrow> int \<Rightarrow> quota result" where
  "quota_init mc ml mt =
     (if min mc (min ml mt) \<le> 0 then Inl (PyExn ''ValueError'' ''quota values must be positive'')
      else Inr \<lparr>max_creating = mc, max_live = ml, max_live_per_tenant = mt,
                creating_free = mc, live = 0, tenant_live = []\<rparr>)"

text \<open>
  Entering \<open>creation_slot\<close> takes a permit; with none left the thread waits, which is
  \<^const>\<open>None\<close>.  Leaving it gives the permit back; a \<open>BoundedSemaphore\<close> raises when that would
  exceed its initial value.
\<close>

definition creation_slot_enter :: "quota \<Rightarrow> quota option" where
  "creation_slot_enter q =
     (if 0 < creating_free q then Some (q\<lparr>creating_free := creating_free q - 1\<rparr>) else None)"

definition creation_slot_exit :: "quota \<Rightarrow> unit result \<times> quota" where
  "creation_slot_exit q =
     (if max_creating q \<le> creating_free q
      then (Inl (PyExn ''ValueError'' ''Semaphore released too many times''), q)
      else (Inr (), q\<lparr>creating_free := creating_free q + 1\<rparr>))"

definition tenant_count :: "quota \<Rightarrow> string \<Rightarrow> int" where
  "tenant_count q t = (case map_of (tenant_live q) t of None \<Rightarrow> 0 | Some n \<Rightarrow> n)"

definition reserve_live :: "quota \<Rightarrow> string \<Rightarrow> unit result \<times> quota" where
  "reserve_live q t =
     (let n = tenant_count q t in
      if max_live q \<le> live q then
        (Inl (RunnerExn QuotaError ''GLOBAL_SANDBOX_QUOTA'' ''global live-sandbox quota reached'' True), q)
      else if max_live_per_tenant q \<le> n then
        (Inl (RunnerExn QuotaError ''TENANT_SANDBOX_QUOTA'' ''tenant live-sandbox quota reached'' True), q)
      else (Inr (), q\<lparr>live := live q + 1, tenant_live := AList.update t (n + 1) (tenant_live q)\<rparr>))"

definition release_live :: "quota \<Rightarrow> string \<Rightarrow> quota" where
  "release_live q t =
     (let n = tenant_count q t in
      if n \<le> 0 then q
      else q\<lparr>live := live q - 1,
             tenant_live := (if n = 1 then AList.delete t (tenant_live q)
                             else AList.update t (n - 1) (tenant_live q))\<rparr>)"

section \<open>Invariant\<close>

definition counts_ok :: "int \<Rightarrow> (string, int) dict \<Rightarrow> bool" where
  "counts_ok m d = list_all (\<lambda>(t, n). 0 < n \<and> n \<le> m) d"

lemma counts_ok_update: "counts_ok m d \<Longrightarrow> 0 < n \<Longrightarrow> n \<le> m \<Longrightarrow> counts_ok m (AList.update t n d)"
  by (induction d) (auto simp: counts_ok_def)

lemma counts_ok_delete: "counts_ok m d \<Longrightarrow> counts_ok m (AList.delete t d)"
  by (induction d) (auto simp: counts_ok_def)

lemma counts_okD: "counts_ok m d \<Longrightarrow> map_of d t = Some n \<Longrightarrow> 0 < n \<and> n \<le> m"
  by (auto simp: counts_ok_def list_all_iff dest!: map_of_SomeD)

definition quota_inv :: "quota \<Rightarrow> bool" where
  "quota_inv q \<longleftrightarrow>
     0 < max_creating q \<and> 0 < max_live q \<and> 0 < max_live_per_tenant q \<and>
     0 \<le> creating_free q \<and> creating_free q \<le> max_creating q \<and>
     distinct (map fst (tenant_live q)) \<and>
     counts_ok (max_live_per_tenant q) (tenant_live q) \<and>
     live q = sum_list (map snd (tenant_live q)) \<and> live q \<le> max_live q"

lemma quota_invD:
  assumes "quota_inv q"
  shows "distinct (map fst (tenant_live q))" "live q = sum_list (map snd (tenant_live q))"
    "live q \<le> max_live q" "0 < max_creating q" "0 \<le> creating_free q" "creating_free q \<le> max_creating q"
  using assms by (simp_all add: quota_inv_def)

lemma sum_values_update:
  fixes d :: "('k, int) dict"
  shows "sum_list (map snd (AList.update k v d)) =
    sum_list (map snd d) + v - (case map_of d k of None \<Rightarrow> 0 | Some x \<Rightarrow> x)"
  by (induction d) auto

lemma sum_values_delete:
  fixes d :: "('k, int) dict"
  assumes "distinct (map fst d)"
  shows "sum_list (map snd (AList.delete k d)) =
    sum_list (map snd d) - (case map_of d k of None \<Rightarrow> 0 | Some x \<Rightarrow> x)"
  using assms
proof (induction d)
  case (Cons p d)
  then show ?case
  proof (cases "fst p = k")
    case True
    with Cons.prems have "k \<notin> fst ` set d" by auto
    then have "AList.delete k d = d" "map_of d k = None"
      by (simp_all add: delete_id map_of_eq_None_iff)
    with True Cons show ?thesis by (cases p) auto
  next
    case False
    with Cons show ?thesis by (cases p) auto
  qed
qed simp

lemma tenant_count_bounds:
  assumes "quota_inv q"
  shows "0 \<le> tenant_count q t" "tenant_count q t \<le> max_live_per_tenant q"
proof -
  have "\<forall>n. map_of (tenant_live q) t = Some n \<longrightarrow> 0 < n \<and> n \<le> max_live_per_tenant q"
    using assms counts_okD by (auto simp: quota_inv_def)
  moreover have "0 < max_live_per_tenant q" using assms by (simp add: quota_inv_def)
  ultimately show "0 \<le> tenant_count q t" "tenant_count q t \<le> max_live_per_tenant q"
    by (auto simp: tenant_count_def split: option.splits)
qed

lemma quota_init_inv: "quota_init a b c = Inr q \<Longrightarrow> quota_inv q"
  by (auto simp: quota_init_def quota_inv_def counts_ok_def split: if_splits)

lemma reserve_live_inv:
  assumes inv: "quota_inv q" and ok: "reserve_live q t = (r, q')"
  shows "quota_inv q'"
proof -
  let ?n = "tenant_count q t"
  consider "q' = q" |
    "live q < max_live q" "?n < max_live_per_tenant q"
    "q' = q\<lparr>live := live q + 1, tenant_live := AList.update t (?n + 1) (tenant_live q)\<rparr>"
    using ok by (auto simp: reserve_live_def Let_def split: if_splits)
  then show ?thesis
  proof cases
    case 2
    then show ?thesis using inv tenant_count_bounds [OF inv, of t]
      by (simp add: quota_inv_def sum_values_update tenant_count_def [symmetric] distinct_update counts_ok_update)
  qed (simp add: inv)
qed

lemma release_live_inv:
  assumes inv: "quota_inv q"
  shows "quota_inv (release_live q t)"
proof (cases "tenant_count q t \<le> 0")
  case False
  let ?n = "tenant_count q t"
  let ?d = "if ?n = 1 then AList.delete t (tenant_live q) else AList.update t (?n - 1) (tenant_live q)"
  have q': "release_live q t = q\<lparr>live := live q - 1, tenant_live := ?d\<rparr>"
    using False by (simp add: release_live_def Let_def)
  have dist: "distinct (map fst (tenant_live q))" using inv by (rule quota_invD)
  have "sum_list (map snd ?d) = live q - 1"
    using inv dist by (auto simp: quota_inv_def sum_values_update sum_values_delete tenant_count_def [symmetric])
  moreover have "counts_ok (max_live_per_tenant q) ?d"
    using inv False tenant_count_bounds [OF inv, of t]
    by (auto simp: quota_inv_def counts_ok_delete intro: counts_ok_update)
  moreover have "distinct (map fst ?d)" using dist by (simp add: distinct_update distinct_delete)
  ultimately show ?thesis using inv by (simp add: quota_inv_def q')
qed (use inv in \<open>simp add: release_live_def Let_def\<close>)

lemma creation_slot_enter_inv: "quota_inv q \<Longrightarrow> creation_slot_enter q = Some q' \<Longrightarrow> quota_inv q'"
  by (auto simp: creation_slot_enter_def quota_inv_def split: if_splits)

lemma creation_slot_exit_inv: "quota_inv q \<Longrightarrow> creation_slot_exit q = (r, q') \<Longrightarrow> quota_inv q'"
  by (auto simp: creation_slot_exit_def quota_inv_def split: if_splits)

section \<open>The ledger interface\<close>

text \<open>
  What a client of the quota may rely on: a successful reservation adds one to the tenant's
  count and to nothing else, a failed one changes nothing and happens exactly at a limit, a
  release takes one away and never goes below zero, and the limits hold throughout.
\<close>

locale live_ledger =
  fixes reserve :: "'q \<Rightarrow> 't \<Rightarrow> unit result \<times> 'q"
    and release :: "'q \<Rightarrow> 't \<Rightarrow> 'q"
    and count :: "'q \<Rightarrow> 't \<Rightarrow> int"
    and total :: "'q \<Rightarrow> int"
    and limit :: "'q \<Rightarrow> int"
    and tenant_limit :: "'q \<Rightarrow> int"
    and inv :: "'q \<Rightarrow> bool"
  assumes inv_reserve: "inv q \<Longrightarrow> reserve q t = (r, q') \<Longrightarrow> inv q'"
    and inv_release: "inv q \<Longrightarrow> inv (release q t)"
    and reserve_ok: "reserve q t = (Inr u, q') \<Longrightarrow>
      count q' = (count q)(t := count q t + 1) \<and> total q' = total q + 1 \<and>
      limit q' = limit q \<and> tenant_limit q' = tenant_limit q"
    and reserve_fail: "reserve q t = (Inl e, q') \<Longrightarrow> q' = q"
    and reserve_fails_iff: "is_ok (fst (reserve q t)) \<longleftrightarrow> total q < limit q \<and> count q t < tenant_limit q"
    and release_pos: "0 < count q t \<Longrightarrow>
      count (release q t) = (count q)(t := count q t - 1) \<and> total (release q t) = total q - 1 \<and>
      limit (release q t) = limit q \<and> tenant_limit (release q t) = tenant_limit q"
    and release_none: "count q t \<le> 0 \<Longrightarrow> release q t = q"
    and inv_bounds: "inv q \<Longrightarrow> 0 \<le> count q t \<and> count q t \<le> tenant_limit q \<and> total q \<le> limit q"
begin

lemma reserve_release:
  assumes "inv q" "reserve q t = (Inr u, q')"
  shows "count (release q' t) = count q \<and> total (release q' t) = total q"
proof -
  have up: "count q' = (count q)(t := count q t + 1)" "total q' = total q + 1"
    using reserve_ok [OF assms(2)] by simp_all
  moreover have "0 \<le> count q t" using inv_bounds [OF assms(1)] by simp
  ultimately show ?thesis using release_pos [of q' t] by simp
qed

lemma limits_kept: "limit (release q t) = limit q" "tenant_limit (release q t) = tenant_limit q"
  using release_pos [of q t] release_none [of q t] by (cases "0 < count q t"; force)+

text \<open>A client that only reserves and releases, in any order, stays within the limits.\<close>

fun ledger_run :: "'q \<Rightarrow> (bool \<times> 't) list \<Rightarrow> 'q" where
  "ledger_run q [] = q"
| "ledger_run q ((b, t) # es) = ledger_run (if b then snd (reserve q t) else release q t) es"

lemma ledger_run_inv: "inv q \<Longrightarrow> inv (ledger_run q es)"
proof (induction q es rule: ledger_run.induct)
  case (2 q b t es)
  have "inv (snd (reserve q t))" using 2(2) by (metis inv_reserve prod.collapse)
  moreover have "inv (release q t)" using 2(2) by (rule inv_release)
  ultimately show ?case using 2(1) by simp
qed simp

end

interpretation ledger: live_ledger reserve_live release_live tenant_count live max_live max_live_per_tenant quota_inv
proof
  fix q q' :: quota and t :: string and r u e
  show "quota_inv q \<Longrightarrow> reserve_live q t = (r, q') \<Longrightarrow> quota_inv q'" by (rule reserve_live_inv)
  show "quota_inv q \<Longrightarrow> quota_inv (release_live q t)" by (rule release_live_inv)
  show "reserve_live q t = (Inr u, q') \<Longrightarrow>
      tenant_count q' = (tenant_count q)(t := tenant_count q t + 1) \<and> live q' = live q + 1 \<and>
      max_live q' = max_live q \<and> max_live_per_tenant q' = max_live_per_tenant q"
    by (auto simp: reserve_live_def Let_def tenant_count_def fun_eq_iff split: if_splits)
  show "reserve_live q t = (Inl e, q') \<Longrightarrow> q' = q"
    by (auto simp: reserve_live_def Let_def split: if_splits)
  show "is_ok (fst (reserve_live q t)) \<longleftrightarrow> live q < max_live q \<and> tenant_count q t < max_live_per_tenant q"
    by (auto simp: reserve_live_def Let_def)
  show "0 < tenant_count q t \<Longrightarrow>
      tenant_count (release_live q t) = (tenant_count q)(t := tenant_count q t - 1) \<and>
      live (release_live q t) = live q - 1 \<and> max_live (release_live q t) = max_live q \<and>
      max_live_per_tenant (release_live q t) = max_live_per_tenant q"
    by (auto simp: release_live_def Let_def fun_eq_iff) (auto simp: tenant_count_def split: if_splits)
  show "tenant_count q t \<le> 0 \<Longrightarrow> release_live q t = q" by (simp add: release_live_def Let_def)
  show "quota_inv q \<Longrightarrow> 0 \<le> tenant_count q t \<and> tenant_count q t \<le> max_live_per_tenant q \<and> live q \<le> max_live q"
    using tenant_count_bounds quota_invD(3) by blast
qed

section \<open>Properties\<close>

text \<open>Whatever sequence of reservations and releases the threads commit on a quota built by the
  constructor, the global and the per-tenant live counts stay between zero and their limits and the
  global count is the sum of the tenant counts.\<close>

theorem quota_limits_hold:
  assumes "quota_init mc ml mt = Inr q" and "q' = ledger.ledger_run q es"
  shows "0 \<le> tenant_count q' t \<and> tenant_count q' t \<le> max_live_per_tenant q' \<and>
    live q' \<le> max_live q' \<and> live q' = sum_list (map snd (tenant_live q'))"
proof -
  have "quota_inv q'" using quota_init_inv [OF assms(1)] assms(2) ledger.ledger_run_inv by simp
  then show ?thesis using tenant_count_bounds quota_invD(2,3) by blast
qed

theorem quota_limits_hold_witness:
  "\<exists>q. quota_init 2 1 1 = Inr q \<and>
     live (ledger.ledger_run q [(True, ''t''), (True, ''t''), (True, ''u''), (False, ''t''), (False, ''t'')]) \<le>
       max_live (ledger.ledger_run q [(True, ''t''), (True, ''t''), (True, ''u''), (False, ''t''), (False, ''t'')])"
proof -
  obtain q where q: "quota_init 2 1 1 = Inr q" by (simp add: quota_init_def)
  with quota_limits_hold [OF q refl] show ?thesis by blast
qed

text \<open>A reservation that is released again leaves every count as it was, and a reservation fails
  exactly when a limit is reached, with the retryable quota error of that limit and no change.\<close>

theorem reserve_live_exact:
  assumes "quota_inv q"
  shows "case reserve_live q t of
      (Inr _, q') \<Rightarrow> live q < max_live q \<and> tenant_count q t < max_live_per_tenant q \<and>
         tenant_count (release_live q' t) = tenant_count q \<and> live (release_live q' t) = live q
    | (Inl e, q') \<Rightarrow> q' = q \<and> exn_class e = QuotaError \<and> exn_retryable e \<and>
         exn_code e = (if max_live q \<le> live q then ''GLOBAL_SANDBOX_QUOTA'' else ''TENANT_SANDBOX_QUOTA'') \<and>
         (max_live q \<le> live q \<or> max_live_per_tenant q \<le> tenant_count q t)"
proof (cases "reserve_live q t")
  case (Pair r q')
  show ?thesis
  proof (cases r)
    case (Inr u)
    with Pair have ok: "reserve_live q t = (Inr u, q')" by simp
    then have "live q < max_live q \<and> tenant_count q t < max_live_per_tenant q"
      using ledger.reserve_fails_iff [of q t] by simp
    then show ?thesis using ok ledger.reserve_release [OF assms ok] by simp
  next
    case (Inl e)
    with Pair show ?thesis by (auto simp: reserve_live_def Let_def split: if_splits)
  qed
qed

theorem reserve_live_exact_witness:
  "\<exists>q. quota_init 1 1 1 = Inr q \<and> fst (reserve_live (snd (reserve_live q ''t'')) ''t'') \<noteq> Inr ()"
proof -
  obtain q where q: "quota_init 1 1 1 = Inr q" by (simp add: quota_init_def)
  let ?q1 = "snd (reserve_live q ''t'')"
  have "quota_inv ?q1" using reserve_live_inv [OF quota_init_inv [OF q] prod.collapse [symmetric]] .
  from reserve_live_exact [OF this, of "''t''"] q show ?thesis
    by (auto simp: quota_init_def reserve_live_def tenant_count_def)
qed

end
