(* ===== verification/Worker_Pool.thy ===== *)
theory Worker_Pool
  imports Sandbox_Backend Quota
begin

text \<open>
  \<^verbatim>\<open>runner_engine/pool.py\<close>: the warm sandbox pool.  Worker objects live in a heap, the idle
  table and the callers hold references to them.  Every reading of \<open>time.monotonic()\<close> takes the next
  value of a clock stream.  Each critical section is one definition; the methods compose them, and
  the step relation of the second half interleaves them.
\<close>

section \<open>State\<close>

type_synonym pool_key = "string \<times> string \<times> string"

record 'b pool =
  pool_backend :: 'b
  pool_quota :: quota
  idle_seconds :: int
  orphan_ttl_seconds :: int
  renew_before_seconds :: int
  max_installed_releases :: int
  idle :: "(pool_key, worker_ref list) dict"
  heap :: "worker list"
  clock :: "nat \<Rightarrow> rat"
  ticks :: nat

definition pool_init :: "'b \<Rightarrow> quota \<Rightarrow> int \<Rightarrow> int \<Rightarrow> int \<Rightarrow> int \<Rightarrow> (nat \<Rightarrow> rat) \<Rightarrow> 'b pool result" where
  "pool_init b q idle_s orphan_s renew_s max_inst clk =
     (if idle_s \<le> 0 then Inl (PyExn ''ValueError'' ''idle_seconds must be positive'')
      else if orphan_s \<le> idle_s + 60 then
        Inl (PyExn ''ValueError'' ''orphan_ttl_seconds must be comfortably larger than idle_seconds'')
      else if renew_s \<le> 0 \<or> orphan_s \<le> renew_s then
        Inl (PyExn ''ValueError'' ''renew_before_seconds must be between 0 and orphan_ttl_seconds'')
      else if max_inst \<le> 0 then Inl (PyExn ''ValueError'' ''max_installed_releases must be positive'')
      else Inr \<lparr>pool_backend = b, pool_quota = q, idle_seconds = idle_s, orphan_ttl_seconds = orphan_s,
                renew_before_seconds = renew_s, max_installed_releases = max_inst, idle = [], heap = [],
                clock = clk, ticks = 0\<rparr>)"

definition monotonic :: "'b pool \<Rightarrow> rat \<times> 'b pool" where
  "monotonic p = (clock p (ticks p), p\<lparr>ticks := ticks p + 1\<rparr>)"

definition set_worker :: "worker_ref \<Rightarrow> (worker \<Rightarrow> worker) \<Rightarrow> 'b pool \<Rightarrow> 'b pool" where
  "set_worker r f p = p\<lparr>heap := (heap p)[r := f (heap p ! r)]\<rparr>"

definition pool_key_of :: "string \<Rightarrow> operator_release \<Rightarrow> pool_key" where
  "pool_key_of tenant rel = (tenant, env_id (rel_runtime rel), rel_profile rel)"

section \<open>Critical sections\<close>

definition idle_expired :: "'b pool \<Rightarrow> worker_ref \<Rightarrow> bool \<times> 'b pool" where
  "idle_expired p r =
     (let w = heap p ! r in
      if destroyed w \<or> \<not> healthy w then (True, p)
      else let (now, p') = monotonic p in (of_int (idle_seconds p) < now - last_used_monotonic w, p'))"

text \<open>
  The loop of \<open>acquire\<close> pops from the end of the bucket; the argument is the bucket reversed.
  It returns the candidate, what is left of the reversed bucket and the stale workers.
\<close>

fun scan_bucket :: "'b pool \<Rightarrow> string \<Rightarrow> worker_ref list \<Rightarrow> worker_ref list \<Rightarrow>
    worker_ref option \<times> worker_ref list \<times> worker_ref list \<times> 'b pool" where
  "scan_bucket p rid [] stale = (None, [], stale, p)"
| "scan_bucket p rid (r # rs) stale =
     (let (expired, p1) = idle_expired p r; inst = installed_release_ids (heap p1 ! r) in
      if expired then scan_bucket p1 rid rs (stale @ [r])
      else if rid \<notin> inst \<and> max_installed_releases p1 \<le> int (card inst) then scan_bucket p1 rid rs (stale @ [r])
      else (Some r, rs, stale, p1))"

definition pick_idle :: "'b pool \<Rightarrow> pool_key \<Rightarrow> string \<Rightarrow> worker_ref option \<times> worker_ref list \<times> 'b pool" where
  "pick_idle p key rid =
     (let bucket = (case map_of (idle p) key of None \<Rightarrow> [] | Some rs \<Rightarrow> rs);
          (cand, rest, stale, p1) = scan_bucket p rid (rev bucket) [] in
      (cand, stale, p1\<lparr>idle := (if rest = [] then AList.delete key (idle p1)
                                else AList.update key (rev rest) (idle p1))\<rparr>))"

definition put_idle :: "'b pool \<Rightarrow> worker_ref \<Rightarrow> 'b pool" where
  "put_idle p r =
     (let w = heap p ! r; key = (w_tenant_id w, w_runtime_id w, w_profile w);
          bucket = (case map_of (idle p) key of None \<Rightarrow> [] | Some rs \<Rightarrow> rs) in
      p\<lparr>idle := AList.update key (bucket @ [r]) (idle p)\<rparr>)"

definition mark_destroyed :: "'b pool \<Rightarrow> worker_ref \<Rightarrow> bool \<times> 'b pool" where
  "mark_destroyed p r =
     (if destroyed (heap p ! r) then (False, p) else (True, set_worker r (\<lambda>w. w\<lparr>destroyed := True\<rparr>) p))"

definition finish_destroy :: "'b backend \<Rightarrow> 'b pool \<Rightarrow> worker_ref \<Rightarrow> unit result \<times> 'b pool" where
  "finish_destroy be p r =
     (let (res, b) = be_destroy be (pool_backend p) (heap p ! r) in
      (res, p\<lparr>pool_backend := b, pool_quota := release_live (pool_quota p) (w_tenant_id (heap p ! r))\<rparr>))"

section \<open>Methods\<close>

definition destroy :: "'b backend \<Rightarrow> 'b pool \<Rightarrow> worker_ref \<Rightarrow> unit result \<times> 'b pool" where
  "destroy be p r =
     (let (first, p1) = mark_destroyed p r in
      if first then finish_destroy be p1 r else (Inr (), p1))"

definition invalidate :: "'b backend \<Rightarrow> 'b pool \<Rightarrow> worker_ref \<Rightarrow> unit result \<times> 'b pool" where
  "invalidate be p r = destroy be (set_worker r (\<lambda>w. w\<lparr>healthy := False\<rparr>) p) r"

fun destroy_all :: "'b backend \<Rightarrow> 'b pool \<Rightarrow> worker_ref list \<Rightarrow> unit result \<times> 'b pool" where
  "destroy_all be p [] = (Inr (), p)"
| "destroy_all be p (r # rs) =
     (case destroy be p r of
        (Inl e, p1) \<Rightarrow> (Inl e, p1)
      | (Inr _, p1) \<Rightarrow> destroy_all be p1 rs)"

definition ensure_sandbox_ttl :: "'b backend \<Rightarrow> 'b pool \<Rightarrow> worker_ref \<Rightarrow> security_policy \<Rightarrow> unit result \<times> 'b pool" where
  "ensure_sandbox_ttl be p r pol =
     (case sandbox_expires_monotonic (heap p ! r) of
        None \<Rightarrow> (Inr (), p)
      | Some e \<Rightarrow>
          let (now, p1) = monotonic p;
              remaining = e - now;
              execution_headroom = of_int (max_timeout_ms pol) / 1000 + 120;
              renew_threshold = max (of_int (renew_before_seconds p1)) execution_headroom in
          if remaining \<le> renew_threshold then
            (case be_renew be (pool_backend p1) (heap p1 ! r) (orphan_ttl_seconds p1) of
               (Inl err, b) \<Rightarrow> (Inl err, p1\<lparr>pool_backend := b\<rparr>)
             | (Inr w, b) \<Rightarrow> (Inr (), set_worker r (\<lambda>_. w) (p1\<lparr>pool_backend := b\<rparr>)))
          else (Inr (), p1))"

text \<open>\<open>_ensure_release\<close> on a worker value: also used on a worker that no one else can see yet.\<close>

definition install_release :: "'b backend \<Rightarrow> 'b \<Rightarrow> worker \<Rightarrow> operator_release \<Rightarrow> worker result \<times> 'b" where
  "install_release be b w rel =
     (if rel_id rel \<in> installed_release_ids w then (Inr w, b)
      else
        (case be_install be b w rel of
           (Inl err, b') \<Rightarrow> (Inl err, b')
         | (Inr _, b') \<Rightarrow> (Inr (w\<lparr>installed_release_ids := insert (rel_id rel) (installed_release_ids w)\<rparr>), b')))"

definition ensure_release :: "'b backend \<Rightarrow> 'b pool \<Rightarrow> worker_ref \<Rightarrow> operator_release \<Rightarrow> unit result \<times> 'b pool" where
  "ensure_release be p r rel =
     (case install_release be (pool_backend p) (heap p ! r) rel of
        (Inl err, b) \<Rightarrow> (Inl err, p\<lparr>pool_backend := b\<rparr>)
      | (Inr w, b) \<Rightarrow> (Inr (), set_worker r (\<lambda>_. w) (p\<lparr>pool_backend := b\<rparr>)))"

text \<open>An idle worker is made ready for the release, or given up.\<close>

definition reuse_worker :: "'b backend \<Rightarrow> 'b pool \<Rightarrow> worker_ref \<Rightarrow> operator_release \<Rightarrow> security_policy \<Rightarrow> worker_ref result \<times> 'b pool" where
  "reuse_worker be p r rel pol =
     (let give_up = (\<lambda>e p'. case invalidate be p' r of (Inl e', p'') \<Rightarrow> (Inl e', p'') | (Inr _, p'') \<Rightarrow> (Inl e, p'')) in
      case ensure_sandbox_ttl be p r pol of
        (Inl e, p1) \<Rightarrow> give_up e p1
      | (Inr _, p1) \<Rightarrow>
          (case ensure_release be p1 r rel of
             (Inl e, p2) \<Rightarrow> give_up e p2
           | (Inr _, p2) \<Rightarrow>
               let (now, p3) = monotonic p2 in
               (Inr r, set_worker r (\<lambda>w. w\<lparr>last_used_monotonic := now\<rparr>) p3)))"

definition add_worker :: "worker \<Rightarrow> 'b pool \<Rightarrow> worker_ref \<times> 'b pool" where
  "add_worker w p = (length (heap p), p\<lparr>heap := heap p @ [w]\<rparr>)"

definition leave_slot :: "'b pool \<Rightarrow> 'b pool" where
  "leave_slot p = p\<lparr>pool_quota := snd (creation_slot_exit (pool_quota p))\<rparr>"

definition unreserve :: "'b pool \<Rightarrow> string \<Rightarrow> 'b pool" where
  "unreserve p tenant = p\<lparr>pool_quota := release_live (pool_quota p) tenant\<rparr>"

text \<open>
  Creation of a worker under a live reservation and a creation permit.  With no permit free the
  call waits for another thread: \<^const>\<open>None\<close>.  A worker whose release does not install is destroyed
  directly, whatever the outcome, and the reservation is given back.  The worker object enters the
  heap when \<open>acquire\<close> returns it: until then the creating call is the only one to see it.
\<close>

definition create_worker :: "'b backend \<Rightarrow> 'b pool \<Rightarrow> string \<Rightarrow> operator_release \<Rightarrow> security_policy \<Rightarrow> (worker_ref result \<times> 'b pool) option" where
  "create_worker be p tenant rel pol =
     (case creation_slot_enter (pool_quota p) of
        None \<Rightarrow> None
      | Some q \<Rightarrow>
          Some (case be_create be (pool_backend p) tenant rel pol (orphan_ttl_seconds p) of
            (Inl e, b) \<Rightarrow> (Inl e, unreserve (leave_slot (p\<lparr>pool_quota := q, pool_backend := b\<rparr>)) tenant)
          | (Inr w, b) \<Rightarrow>
              (case install_release be b w rel of
                 (Inl e, b1) \<Rightarrow>
                   let (_, b2) = be_destroy be b1 w in
                   (Inl e, unreserve (leave_slot (p\<lparr>pool_quota := q, pool_backend := b2\<rparr>)) tenant)
               | (Inr w', b1) \<Rightarrow>
                   let (r, p1) = add_worker w' (leave_slot (p\<lparr>pool_quota := q, pool_backend := b1\<rparr>)) in
                   (Inr r, p1))))"

definition acquire :: "'b backend \<Rightarrow> 'b pool \<Rightarrow> string \<Rightarrow> operator_release \<Rightarrow> security_policy \<Rightarrow> (worker_ref result \<times> 'b pool) option" where
  "acquire be p tenant rel pol =
     (let (cand, stale, p1) = pick_idle p (pool_key_of tenant rel) (rel_id rel) in
      case destroy_all be p1 stale of
        (Inl e, p2) \<Rightarrow> Some (Inl e, p2)
      | (Inr _, p2) \<Rightarrow>
          (case cand of
             Some r \<Rightarrow> Some (reuse_worker be p2 r rel pol)
           | None \<Rightarrow>
               (case reserve_live (pool_quota p2) tenant of
                  (Inl e, q) \<Rightarrow> Some (Inl e, p2\<lparr>pool_quota := q\<rparr>)
                | (Inr _, q) \<Rightarrow> create_worker be (p2\<lparr>pool_quota := q\<rparr>) tenant rel pol)))"

definition pool_release :: "'b backend \<Rightarrow> 'b pool \<Rightarrow> worker_ref \<Rightarrow> security_policy \<Rightarrow> unit result \<times> 'b pool" where
  "pool_release be p r pol =
     (let p1 = set_worker r (\<lambda>w. w\<lparr>w_runs := w_runs w + 1\<rparr>) p;
          (now, p2) = monotonic p1;
          p3 = set_worker r (\<lambda>w. w\<lparr>last_used_monotonic := now\<rparr>) p2;
          w = heap p3 ! r in
      if destroyed w \<or> \<not> healthy w \<or> \<not> reuse_sandbox pol then destroy be p3 r
      else (Inr (), put_idle p3 r))"

fun split_bucket :: "'b pool \<Rightarrow> worker_ref list \<Rightarrow> worker_ref list \<times> worker_ref list \<times> 'b pool" where
  "split_bucket p [] = ([], [], p)"
| "split_bucket p (r # rs) =
     (let (expired, p1) = idle_expired p r; (kept, stale, p2) = split_bucket p1 rs in
      if expired then (kept, r # stale, p2) else (r # kept, stale, p2))"

fun split_idle :: "'b pool \<Rightarrow> (pool_key \<times> worker_ref list) list \<Rightarrow> worker_ref list \<times> 'b pool" where
  "split_idle p [] = ([], p)"
| "split_idle p ((key, bucket) # items) =
     (let (kept, stale, p1) = split_bucket p bucket;
          p2 = p1\<lparr>idle := (if kept \<noteq> [] then AList.update key kept (idle p1) else AList.delete key (idle p1))\<rparr>;
          (stale', p3) = split_idle p2 items in
      (stale @ stale', p3))"

definition reap :: "'b backend \<Rightarrow> 'b pool \<Rightarrow> nat result \<times> 'b pool" where
  "reap be p =
     (let (stale, p1) = split_idle p (idle p) in
      case destroy_all be p1 stale of
        (Inl e, p2) \<Rightarrow> (Inl e, p2)
      | (Inr _, p2) \<Rightarrow> (Inr (length stale), p2))"

definition reset_after_restart :: "'b backend \<Rightarrow> 'b pool \<Rightarrow> nat result \<times> 'b pool" where
  "reset_after_restart be p =
     (let (res, b) = be_cleanup be (pool_backend p) in (res, p\<lparr>idle := [], pool_backend := b\<rparr>))"

section \<open>Interleaving\<close>

text \<open>
  Threads interleave at the critical sections.  Between reserving a live slot and owning a worker a
  thread holds a reservation; between marking a worker destroyed and giving its slot back a thread
  holds a pending destruction.  \<open>world\<close> makes both visible, together with the history of
  destructions that went to the backend.  \<open>frame\<close> is any step that leaves the quota, the tenants
  and the destroyed flags alone: picking and putting idle workers, renewing, installing, reading the
  clock.
\<close>

record 'b world =
  pool_of :: "'b pool"
  reserved :: "string list"
  pending :: "worker_ref list"
  retired :: "worker_ref list"

definition ledger_part :: "'b pool \<Rightarrow> quota \<times> (string \<times> bool) list" where
  "ledger_part p = (pool_quota p, map (\<lambda>w. (w_tenant_id w, destroyed w)) (heap p))"

inductive pool_step :: "'b backend \<Rightarrow> 'b world \<Rightarrow> 'b world \<Rightarrow> bool" for be :: "'b backend" where
  frame: "ledger_part p' = ledger_part (pool_of s) \<Longrightarrow> pool_step be s (s\<lparr>pool_of := p'\<rparr>)"
| reserve: "reserve_live (pool_quota (pool_of s)) t = (Inr u, q) \<Longrightarrow>
    pool_step be s (s\<lparr>pool_of := (pool_of s)\<lparr>pool_quota := q\<rparr>, reserved := t # reserved s\<rparr>)"
| unreserve: "t \<in> set (reserved s) \<Longrightarrow>
    pool_step be s (s\<lparr>pool_of := unreserve (pool_of s) t, reserved := remove1 t (reserved s)\<rparr>)"
| adopt: "w_tenant_id w \<in> set (reserved s) \<Longrightarrow> \<not> destroyed w \<Longrightarrow>
    pool_step be s (s\<lparr>pool_of := snd (add_worker w (pool_of s)), reserved := remove1 (w_tenant_id w) (reserved s)\<rparr>)"
| mark: "r < length (heap (pool_of s)) \<Longrightarrow> mark_destroyed (pool_of s) r = (True, p') \<Longrightarrow>
    pool_step be s (s\<lparr>pool_of := p', pending := r # pending s\<rparr>)"
| retire: "r \<in> set (pending s) \<Longrightarrow>
    pool_step be s (s\<lparr>pool_of := snd (finish_destroy be (pool_of s) r),
                      pending := remove1 r (pending s), retired := r # retired s\<rparr>)"
| enter_slot: "creation_slot_enter (pool_quota (pool_of s)) = Some q \<Longrightarrow>
    pool_step be s (s\<lparr>pool_of := (pool_of s)\<lparr>pool_quota := q\<rparr>\<rparr>)"
| exit_slot: "pool_step be s (s\<lparr>pool_of := leave_slot (pool_of s)\<rparr>)"

subsection \<open>Accounting\<close>

definition live_workers :: "worker list \<Rightarrow> string \<Rightarrow> nat" where
  "live_workers h t = length (filter (\<lambda>w. w_tenant_id w = t \<and> \<not> destroyed w) h)"

definition pending_of :: "'b world \<Rightarrow> string \<Rightarrow> nat" where
  "pending_of s t = length (filter (\<lambda>r. w_tenant_id (heap (pool_of s) ! r) = t) (pending s))"

definition world_inv :: "'b world \<Rightarrow> bool" where
  "world_inv s \<longleftrightarrow>
     quota_inv (pool_quota (pool_of s)) \<and>
     (\<forall>t. tenant_count (pool_quota (pool_of s)) t =
        int (live_workers (heap (pool_of s)) t + count_list (reserved s) t + pending_of s t)) \<and>
     distinct (pending s @ retired s) \<and>
     (\<forall>r\<in>set (pending s @ retired s). r < length (heap (pool_of s)) \<and> destroyed (heap (pool_of s) ! r))"

lemma world_invI:
  assumes "quota_inv (pool_quota (pool_of s))"
    "\<And>t. tenant_count (pool_quota (pool_of s)) t =
        int (live_workers (heap (pool_of s)) t + count_list (reserved s) t + pending_of s t)"
    "distinct (pending s @ retired s)"
    "\<And>r. r \<in> set (pending s) \<union> set (retired s) \<Longrightarrow> r < length (heap (pool_of s)) \<and> destroyed (heap (pool_of s) ! r)"
  shows "world_inv s"
  using assms by (simp add: world_inv_def)

lemma world_invD:
  assumes "world_inv s"
  shows "quota_inv (pool_quota (pool_of s))"
    "\<And>t. tenant_count (pool_quota (pool_of s)) t =
        int (live_workers (heap (pool_of s)) t + count_list (reserved s) t + pending_of s t)"
    "distinct (pending s @ retired s)"
    "\<And>r. r \<in> set (pending s) \<union> set (retired s) \<Longrightarrow> r < length (heap (pool_of s)) \<and> destroyed (heap (pool_of s) ! r)"
  using assms by (auto simp: world_inv_def)

lemma live_workers_map: "live_workers h t = length (filter (\<lambda>(t', d). t' = t \<and> \<not> d) (map (\<lambda>w. (w_tenant_id w, destroyed w)) h))"
  by (induction h) (auto simp: live_workers_def)

lemma live_workers_append: "live_workers (h @ [w]) t = live_workers h t + (if w_tenant_id w = t \<and> \<not> destroyed w then 1 else 0)"
  by (simp add: live_workers_def)

lemma live_workers_destroy:
  assumes "r < length h" "\<not> destroyed (h ! r)"
  shows "live_workers h t = live_workers (h[r := (h ! r)\<lparr>destroyed := True\<rparr>]) t + (if w_tenant_id (h ! r) = t then 1 else 0)"
  using assms
proof (induction h arbitrary: r)
  case (Cons w h)
  then show ?case by (cases r) (auto simp: live_workers_def)
qed simp

lemma count_remove1: "t \<in> set xs \<Longrightarrow> count_list xs t' = count_list (remove1 t xs) t' + (if t = t' then 1 else 0)"
  by (induction xs) auto

lemma account_pay: "T = int (l + c + p) \<Longrightarrow> c = c' + d \<Longrightarrow> T - int d = int (l + c' + p)"
  by simp

lemma account_move: "T = int (l + c + p) \<Longrightarrow> c = c' + d \<Longrightarrow> T = int ((l + d) + c' + p)"
  by simp

lemma filter_remove1_length:
  "r \<in> set xs \<Longrightarrow> length (filter P xs) = length (filter P (remove1 r xs)) + (if P r then 1 else 0)"
  by (induction xs) auto

lemma ledger_part_eqD:
  assumes "ledger_part p' = ledger_part p"
  shows "pool_quota p' = pool_quota p" "live_workers (heap p') t = live_workers (heap p) t"
    "length (heap p') = length (heap p)"
    "r < length (heap p) \<Longrightarrow> w_tenant_id (heap p' ! r) = w_tenant_id (heap p ! r) \<and> destroyed (heap p' ! r) = destroyed (heap p ! r)"
proof -
  from assms have q: "pool_quota p' = pool_quota p"
    and m: "map (\<lambda>w. (w_tenant_id w, destroyed w)) (heap p') = map (\<lambda>w. (w_tenant_id w, destroyed w)) (heap p)"
    by (simp_all add: ledger_part_def)
  show "pool_quota p' = pool_quota p" by (rule q)
  show "live_workers (heap p') t = live_workers (heap p) t" by (simp add: live_workers_map m)
  show len: "length (heap p') = length (heap p)" using m by (metis length_map)
  show "r < length (heap p) \<Longrightarrow> w_tenant_id (heap p' ! r) = w_tenant_id (heap p ! r) \<and> destroyed (heap p' ! r) = destroyed (heap p ! r)"
    using arg_cong [OF m, of "\<lambda>xs. xs ! r"] len by simp
qed

subsection \<open>Every step keeps the accounts\<close>

lemma pending_of_cong:
  assumes "pending s' = pending s" "\<And>r. r \<in> set (pending s) \<Longrightarrow> w_tenant_id (heap (pool_of s') ! r) = w_tenant_id (heap (pool_of s) ! r)"
  shows "pending_of s' t = pending_of s t"
  unfolding pending_of_def assms(1) by (rule arg_cong [where f = length], rule filter_cong) (simp_all add: assms(2))

lemma frame_inv:
  assumes inv: "world_inv s" and same: "ledger_part p' = ledger_part (pool_of s)"
  shows "world_inv (s\<lparr>pool_of := p'\<rparr>)" (is "world_inv ?s")
proof (rule world_invI)
  note eq = ledger_part_eqD [OF same]
  have "pending_of ?s t = pending_of s t" for t
    by (rule pending_of_cong) (use eq(4) world_invD(4) [OF inv] in auto)
  then show "tenant_count (pool_quota (pool_of ?s)) t =
      int (live_workers (heap (pool_of ?s)) t + count_list (reserved ?s) t + pending_of ?s t)" for t
    using world_invD(2) [OF inv, of t] eq by simp
  show "r \<in> set (pending ?s) \<union> set (retired ?s) \<Longrightarrow> r < length (heap (pool_of ?s)) \<and> destroyed (heap (pool_of ?s) ! r)" for r
    using world_invD(4) [OF inv, of r] eq(3) eq(4) [of r] by simp
qed (use world_invD(1,3) [OF inv] ledger_part_eqD(1) [OF same] in simp_all)

lemma reserve_inv:
  assumes inv: "world_inv s" and ok: "reserve_live (pool_quota (pool_of s)) t = (Inr u, q)"
  shows "world_inv (s\<lparr>pool_of := (pool_of s)\<lparr>pool_quota := q\<rparr>, reserved := t # reserved s\<rparr>)" (is "world_inv ?s")
proof (rule world_invI)
  show "quota_inv (pool_quota (pool_of ?s))" using ledger.inv_reserve [OF world_invD(1) [OF inv] ok] by simp
  have "pending_of ?s t' = pending_of s t'" for t' by (rule pending_of_cong) simp_all
  then show "tenant_count (pool_quota (pool_of ?s)) t' =
      int (live_workers (heap (pool_of ?s)) t' + count_list (reserved ?s) t' + pending_of ?s t')" for t'
    using world_invD(2) [OF inv] ledger.reserve_ok [OF ok] by simp
qed (use world_invD(3,4) [OF inv] in simp_all)

lemma unreserve_inv:
  assumes inv: "world_inv s" and held: "t \<in> set (reserved s)"
  shows "world_inv (s\<lparr>pool_of := unreserve (pool_of s) t, reserved := remove1 t (reserved s)\<rparr>)" (is "world_inv ?s")
proof (rule world_invI)
  let ?q = "pool_quota (pool_of s)"
  show "quota_inv (pool_quota (pool_of ?s))"
    using ledger.inv_release [OF world_invD(1) [OF inv]] by (simp add: unreserve_def)
  have "pending_of ?s t' = pending_of s t'" for t' by (rule pending_of_cong) (simp_all add: unreserve_def)
  moreover have "0 < tenant_count ?q t"
    using account_pay [OF world_invD(2) [OF inv, of t] count_remove1 [OF held, of t]] by simp
  then have "tenant_count (release_live ?q t) = (tenant_count ?q)(t := tenant_count ?q t - 1)"
    using ledger.release_pos by blast
  ultimately show "tenant_count (pool_quota (pool_of ?s)) t' =
      int (live_workers (heap (pool_of ?s)) t' + count_list (reserved ?s) t' + pending_of ?s t')" for t'
    using account_pay [OF world_invD(2) [OF inv, of t'] count_remove1 [OF held, of t']]
    by (cases "t = t'") (simp_all add: unreserve_def)
qed (use world_invD(3,4) [OF inv] in \<open>simp_all add: unreserve_def\<close>)

lemma adopt_inv:
  assumes inv: "world_inv s" and held: "w_tenant_id w \<in> set (reserved s)" and w: "\<not> destroyed w"
  shows "world_inv (s\<lparr>pool_of := snd (add_worker w (pool_of s)), reserved := remove1 (w_tenant_id w) (reserved s)\<rparr>)"
    (is "world_inv ?s")
proof (rule world_invI)
  have old: "heap (pool_of ?s) ! r = heap (pool_of s) ! r" if "r \<in> set (pending s) \<union> set (retired s)" for r
    using world_invD(4) [OF inv that] by (simp add: add_worker_def nth_append)
  have "pending_of ?s t' = pending_of s t'" for t' by (rule pending_of_cong) (use old in auto)
  then show "tenant_count (pool_quota (pool_of ?s)) t' =
      int (live_workers (heap (pool_of ?s)) t' + count_list (reserved ?s) t' + pending_of ?s t')" for t'
    using account_move [OF world_invD(2) [OF inv, of t'] count_remove1 [OF held, of t']] w
    by (simp add: add_worker_def live_workers_append)
  show "r \<in> set (pending ?s) \<union> set (retired ?s) \<Longrightarrow> r < length (heap (pool_of ?s)) \<and> destroyed (heap (pool_of ?s) ! r)" for r
    using world_invD(4) [OF inv, of r] old [of r] by (simp add: add_worker_def)
qed (use world_invD(1,3) [OF inv] in \<open>simp_all add: add_worker_def\<close>)

lemma mark_inv:
  assumes inv: "world_inv s" and r: "r < length (heap (pool_of s))" and m: "mark_destroyed (pool_of s) r = (True, p')"
  shows "world_inv (s\<lparr>pool_of := p', pending := r # pending s\<rparr>)" (is "world_inv ?s")
proof (rule world_invI)
  let ?h = "heap (pool_of s)"
  have live: "\<not> destroyed (?h ! r)" and p': "p' = (pool_of s)\<lparr>heap := ?h[r := (?h ! r)\<lparr>destroyed := True\<rparr>]\<rparr>"
    using m by (auto simp: mark_destroyed_def set_worker_def split: if_splits)
  have fresh: "r \<notin> set (pending s) \<union> set (retired s)" using live world_invD(4) [OF inv] by blast
  have tenant: "w_tenant_id (heap p' ! r') = w_tenant_id (?h ! r')" for r'
    using r by (cases "r' = r") (simp_all add: p')
  then have "pending_of ?s t = pending_of s t + (if w_tenant_id (?h ! r) = t then 1 else 0)" for t
    by (simp add: pending_of_def)
  then show "tenant_count (pool_quota (pool_of ?s)) t =
      int (live_workers (heap (pool_of ?s)) t + count_list (reserved ?s) t + pending_of ?s t)" for t
    using world_invD(2) [OF inv, of t] live_workers_destroy [OF r live, of t] by (simp add: p')
  show "x \<in> set (pending ?s) \<union> set (retired ?s) \<Longrightarrow> x < length (heap (pool_of ?s)) \<and> destroyed (heap (pool_of ?s) ! x)" for x
    using world_invD(4) [OF inv, of x] r by (cases "x = r") (auto simp: p')
  show "distinct (pending ?s @ retired ?s)" using world_invD(3) [OF inv] fresh by auto
  show "quota_inv (pool_quota (pool_of ?s))" using world_invD(1) [OF inv] by (simp add: p')
qed

lemma retire_inv:
  assumes inv: "world_inv s" and held: "r \<in> set (pending s)"
  shows "world_inv (s\<lparr>pool_of := snd (finish_destroy be (pool_of s) r),
    pending := remove1 r (pending s), retired := r # retired s\<rparr>)" (is "world_inv ?s")
proof (rule world_invI)
  let ?q = "pool_quota (pool_of s)" and ?t = "w_tenant_id (heap (pool_of s) ! r)"
  have p: "pool_quota (pool_of ?s) = release_live ?q ?t" "heap (pool_of ?s) = heap (pool_of s)"
    by (simp_all add: finish_destroy_def split: prod.splits)
  then show "quota_inv (pool_quota (pool_of ?s))" using ledger.inv_release [OF world_invD(1) [OF inv]] by simp
  have pend: "pending_of s t = pending_of ?s t + (if ?t = t then 1 else 0)" for t
    using filter_remove1_length [OF held, of "\<lambda>r. w_tenant_id (heap (pool_of s) ! r) = t"] p(2) by (simp add: pending_of_def)
  then have "0 < tenant_count ?q ?t" using world_invD(2) [OF inv, of ?t] by simp
  then have "tenant_count (release_live ?q ?t) = (tenant_count ?q)(?t := tenant_count ?q ?t - 1)"
    using ledger.release_pos by blast
  then show "tenant_count (pool_quota (pool_of ?s)) t =
      int (live_workers (heap (pool_of ?s)) t + count_list (reserved ?s) t + pending_of ?s t)" for t
    using world_invD(2) [OF inv, of t] pend [of t] p by auto
  show "x \<in> set (pending ?s) \<union> set (retired ?s) \<Longrightarrow> x < length (heap (pool_of ?s)) \<and> destroyed (heap (pool_of ?s) ! x)" for x
    using world_invD(4) [OF inv, of x] held p(2) set_remove1_subset [of r "pending s"] by auto
  show "distinct (pending ?s @ retired ?s)" using world_invD(3) [OF inv] held
    by (auto dest: notin_set_remove1 in_set_remove1)
qed

lemma slot_inv:
  assumes inv: "world_inv s" and q: "quota_inv q" "tenant_count q = tenant_count (pool_quota (pool_of s))"
  shows "world_inv (s\<lparr>pool_of := (pool_of s)\<lparr>pool_quota := q\<rparr>\<rparr>)" (is "world_inv ?s")
proof (rule world_invI)
  have "pending_of ?s t = pending_of s t" for t by (rule pending_of_cong) simp_all
  then show "tenant_count (pool_quota (pool_of ?s)) t =
      int (live_workers (heap (pool_of ?s)) t + count_list (reserved ?s) t + pending_of ?s t)" for t
    using world_invD(2) [OF inv] q(2) by simp
qed (use world_invD(3,4) [OF inv] q in simp_all)

lemma slot_counts:
  "creation_slot_enter q = Some q' \<Longrightarrow> tenant_count q' = tenant_count q"
  "tenant_count (snd (creation_slot_exit q)) = tenant_count q"
  by (auto simp: creation_slot_enter_def creation_slot_exit_def tenant_count_def fun_eq_iff split: if_splits)

lemma pool_step_inv: "pool_step be s s' \<Longrightarrow> world_inv s \<Longrightarrow> world_inv s'"
proof (induction rule: pool_step.induct)
  case (enter_slot s q)
  then show ?case using slot_inv creation_slot_enter_inv world_invD(1) slot_counts(1) by metis
next
  case (exit_slot s)
  then show ?case unfolding leave_slot_def
    by (intro slot_inv) (auto simp: slot_counts intro: creation_slot_exit_inv [OF world_invD(1) prod.collapse [symmetric]])
qed (auto intro: frame_inv reserve_inv unreserve_inv adopt_inv mark_inv retire_inv)

section \<open>The idle table\<close>

definition worker_key :: "worker \<Rightarrow> pool_key" where
  "worker_key w = (w_tenant_id w, w_runtime_id w, w_profile w)"

definition idle_ok :: "'b pool \<Rightarrow> bool" where
  "idle_ok p \<longleftrightarrow> distinct (map fst (idle p)) \<and>
     (\<forall>k rs. map_of (idle p) k = Some rs \<longrightarrow> rs \<noteq> [] \<and> distinct rs \<and>
        (\<forall>r\<in>set rs. r < length (heap p) \<and> worker_key (heap p ! r) = k))"

lemma idle_okD:
  assumes "idle_ok p" "map_of (idle p) k = Some rs"
  shows "rs \<noteq> []" "distinct rs" "\<And>r. r \<in> set rs \<Longrightarrow> r < length (heap p) \<and> worker_key (heap p ! r) = k"
  using assms unfolding idle_ok_def by blast+

lemma idle_okI:
  assumes "distinct (map fst (idle p))" "\<And>k rs. map_of (idle p) k = Some rs \<Longrightarrow> rs \<noteq> [] \<and> distinct rs"
    "\<And>k rs r. map_of (idle p) k = Some rs \<Longrightarrow> r \<in> set rs \<Longrightarrow> r < length (heap p) \<and> worker_key (heap p ! r) = k"
  shows "idle_ok p"
  using assms unfolding idle_ok_def by blast

definition idle_refs :: "'b pool \<Rightarrow> worker_ref set" where
  "idle_refs p = {r. \<exists>k rs. map_of (idle p) k = Some rs \<and> r \<in> set rs}"

lemma idle_refsI: "map_of (idle p) k = Some rs \<Longrightarrow> r \<in> set rs \<Longrightarrow> r \<in> idle_refs p"
  unfolding idle_refs_def by blast

text \<open>What a method may change of the pool when it works on the workers in \<open>R\<close> only.\<close>

definition touches :: "worker_ref set \<Rightarrow> 'b pool \<Rightarrow> 'b pool \<Rightarrow> bool" where
  "touches R p p' \<longleftrightarrow> idle p' = idle p \<and> map worker_key (heap p') = map worker_key (heap p) \<and>
     (\<forall>r. r \<notin> R \<longrightarrow> heap p' ! r = heap p ! r)"

lemma touches_refl [simp]: "touches R p p"
  by (simp add: touches_def)

lemma touches_trans: "touches R p p1 \<Longrightarrow> touches R' p1 p2 \<Longrightarrow> touches (R \<union> R') p p2"
  by (simp add: touches_def)

lemma touches_mono: "touches R p p' \<Longrightarrow> R \<subseteq> S \<Longrightarrow> touches S p p'"
  by (auto simp: touches_def)

lemma touches_length: "touches R p p' \<Longrightarrow> length (heap p') = length (heap p)"
  unfolding touches_def by (metis length_map)

lemma touches_key: "touches R p p' \<Longrightarrow> r < length (heap p) \<Longrightarrow> worker_key (heap p' ! r) = worker_key (heap p ! r)"
  using touches_length [of R p p'] unfolding touches_def by (metis nth_map)

lemma touches_idle_ok: "touches R p p' \<Longrightarrow> idle_ok p \<Longrightarrow> idle_ok p'"
  using touches_key [of R p p'] touches_length [of R p p'] unfolding idle_ok_def touches_def by auto

lemma touches_idle_refs: "touches R p p' \<Longrightarrow> idle_refs p' = idle_refs p"
  by (simp add: touches_def idle_refs_def)

lemma touches_set_worker:
  assumes "\<And>w. w = heap p ! r \<Longrightarrow> worker_key (f w) = worker_key w"
  shows "touches {r} p (set_worker r f p)"
proof -
  have "map worker_key ((heap p)[r := f (heap p ! r)]) = map worker_key (heap p)"
    using assms by (cases "r < length (heap p)") (simp_all add: map_update list_update_same_conv list_update_beyond)
  then show ?thesis by (simp add: touches_def set_worker_def)
qed

lemma touches_update [simp]:
  "touches R p (p\<lparr>pool_backend := b\<rparr>)" "touches R p (p\<lparr>pool_quota := q\<rparr>)" "touches R p (p\<lparr>ticks := n\<rparr>)"
  "touches R p (p\<lparr>pool_backend := b, pool_quota := q\<rparr>)"
  by (simp_all add: touches_def)

subsection \<open>Destroying\<close>

lemma destroy_facts:
  assumes "destroy be p r = (res, p')"
  shows "touches {r} p p'" "r < length (heap p) \<Longrightarrow> destroyed (heap p' ! r)"
proof -
  have mark: "touches {r} p (set_worker r (\<lambda>w. w\<lparr>destroyed := True\<rparr>) p)"
    by (rule touches_set_worker) (simp add: worker_key_def)
  show "touches {r} p p'" using assms mark
    by (auto simp: destroy_def mark_destroyed_def finish_destroy_def touches_def split: if_splits prod.splits)
  show "r < length (heap p) \<Longrightarrow> destroyed (heap p' ! r)" using assms
    by (auto simp: destroy_def mark_destroyed_def finish_destroy_def set_worker_def split: if_splits prod.splits)
qed

text \<open>\<open>pool_run be s p\<close>: the steps of one method, run without interference, lead from \<open>s\<close> to the
  pool \<open>p\<close> with every reservation and destruction it started also ended.\<close>

definition pool_run :: "'b backend \<Rightarrow> 'b world \<Rightarrow> 'b pool \<Rightarrow> bool" where
  "pool_run be s p \<longleftrightarrow> (\<exists>ret. (pool_step be)\<^sup>*\<^sup>* s (s\<lparr>pool_of := p, retired := ret @ retired s\<rparr>))"

lemma pool_runI: "(pool_step be)\<^sup>*\<^sup>* s (s\<lparr>pool_of := p, retired := ret @ retired s\<rparr>) \<Longrightarrow> pool_run be s p"
  unfolding pool_run_def by blast

lemma run_same: "pool_of s = p \<Longrightarrow> pool_run be s p"
  by (rule pool_runI [where ret = "[]"]) auto

lemma run_frame: "ledger_part p = ledger_part (pool_of s) \<Longrightarrow> pool_run be s p"
  by (rule pool_runI [where ret = "[]"]) (simp add: r_into_rtranclp pool_step.frame)

lemma run_trans:
  assumes "pool_run be s p1" "\<And>s'. pool_of s' = p1 \<Longrightarrow> pool_run be s' p2"
  shows "pool_run be s p2"
proof -
  obtain ret where a: "(pool_step be)\<^sup>*\<^sup>* s (s\<lparr>pool_of := p1, retired := ret @ retired s\<rparr>)"
    using assms(1) unfolding pool_run_def by blast
  obtain ret' where "(pool_step be)\<^sup>*\<^sup>* (s\<lparr>pool_of := p1, retired := ret @ retired s\<rparr>)
      (s\<lparr>pool_of := p2, retired := (ret' @ ret) @ retired s\<rparr>)"
    using assms(2) [of "s\<lparr>pool_of := p1, retired := ret @ retired s\<rparr>"] unfolding pool_run_def by auto
  with a show ?thesis by (intro pool_runI) (rule rtranclp_trans)
qed

lemma run_destroy:
  assumes "destroy be (pool_of s) r = (res, p')" "r < length (heap (pool_of s))"
  shows "pool_run be s p'"
proof (cases "destroyed (heap (pool_of s) ! r)")
  case True
  then have "p' = pool_of s" using assms(1) by (simp add: destroy_def mark_destroyed_def)
  then show ?thesis by (simp add: run_same)
next
  case False
  let ?p1 = "set_worker r (\<lambda>w. w\<lparr>destroyed := True\<rparr>) (pool_of s)"
  let ?s1 = "s\<lparr>pool_of := ?p1, pending := r # pending s\<rparr>"
  have "pool_step be s ?s1" using False assms(2) by (intro pool_step.mark) (simp_all add: mark_destroyed_def)
  moreover have "pool_step be ?s1 (?s1\<lparr>pool_of := snd (finish_destroy be (pool_of ?s1) r),
      pending := remove1 r (pending ?s1), retired := r # retired ?s1\<rparr>)"
    by (rule pool_step.retire) simp
  moreover have "p' = snd (finish_destroy be ?p1 r)" using False assms(1) by (simp add: destroy_def mark_destroyed_def)
  ultimately show ?thesis by (intro pool_runI [where ret = "[r]"]) simp
qed

lemma destroy_all_touches: "destroy_all be p rs = (res, p') \<Longrightarrow> touches (set rs) p p'"
proof (induction rs arbitrary: p)
  case (Cons r rs)
  obtain res1 p1 where d: "destroy be p r = (res1, p1)" by fastforce
  note t = destroy_facts(1) [OF d]
  show ?case
  proof (cases res1)
    case (Inl e)
    then show ?thesis using Cons.prems d touches_mono [OF t] by simp
  next
    case (Inr u)
    then have "touches (set rs) p1 p'" using Cons.prems d Cons.IH by simp
    from touches_trans [OF t this] show ?thesis by simp
  qed
qed simp

lemma destroy_all_destroyed:
  "destroy_all be p rs = (Inr u, p') \<Longrightarrow> r \<in> set rs \<Longrightarrow> r < length (heap p) \<Longrightarrow> destroyed (heap p' ! r)"
proof (induction rs arbitrary: p)
  case (Cons r1 rs)
  obtain u1 p1 where d: "destroy be p r1 = (Inr u1, p1)" "destroy_all be p1 rs = (Inr u, p')"
    using Cons.prems(1) by (auto split: prod.splits sum.splits)
  note df = destroy_facts [OF d(1)]
  show ?case
  proof (cases "r \<in> set rs")
    case True
    then show ?thesis using Cons.IH [OF d(2)] Cons.prems(3) touches_length [OF df(1)] by simp
  next
    case False
    then have "heap p' ! r = heap p1 ! r" using destroy_all_touches [OF d(2)] by (simp add: touches_def)
    then show ?thesis using False Cons.prems(2,3) df(2) by simp
  qed
qed simp

lemma run_destroy_all:
  "destroy_all be (pool_of s) rs = (res, p') \<Longrightarrow> \<forall>r\<in>set rs. r < length (heap (pool_of s)) \<Longrightarrow> pool_run be s p'"
proof (induction rs arbitrary: s)
  case (Cons r rs)
  obtain res1 p1 where d: "destroy be (pool_of s) r = (res1, p1)" by fastforce
  have run: "pool_run be s p1" using run_destroy [OF d] Cons.prems(2) by simp
  show ?case
  proof (cases res1)
    case (Inl e)
    then show ?thesis using Cons.prems(1) d run by simp
  next
    case (Inr u)
    then have "destroy_all be p1 rs = (res, p')" using Cons.prems(1) d by simp
    moreover have "\<forall>r\<in>set rs. r < length (heap p1)"
      using Cons.prems(2) touches_length [OF destroy_facts(1) [OF d]] by simp
    ultimately show ?thesis using Cons.IH by (intro run_trans [OF run]) auto
  qed
qed (simp add: run_same)

subsection \<open>Picking an idle worker\<close>

lemma idle_expired_ticks: "\<exists>n. snd (idle_expired p r) = p\<lparr>ticks := n\<rparr>"
proof -
  have "\<exists>n. p = p\<lparr>ticks := n\<rparr>" by (rule exI [of _ "ticks p"]) simp
  then show ?thesis by (auto simp: idle_expired_def monotonic_def Let_def)
qed

lemma idle_expired_False:
  "idle_expired p r = (False, p') \<Longrightarrow> healthy (heap p ! r) \<and> \<not> destroyed (heap p ! r)"
  by (auto simp: idle_expired_def Let_def split: if_splits)

definition fits :: "'b pool \<Rightarrow> string \<Rightarrow> worker \<Rightarrow> bool" where
  "fits p rid w \<longleftrightarrow> healthy w \<and> \<not> destroyed w \<and>
     (rid \<in> installed_release_ids w \<or> int (card (installed_release_ids w)) < max_installed_releases p)"

definition scan_split :: "'b pool \<Rightarrow> string \<Rightarrow> worker_ref option \<Rightarrow> worker_ref list \<Rightarrow> worker_ref list \<Rightarrow> worker_ref list \<Rightarrow> bool" where
  "scan_split p rid cand rest xs bs \<longleftrightarrow>
     (case cand of None \<Rightarrow> bs = xs \<and> rest = [] | Some r \<Rightarrow> bs = xs @ r # rest \<and> fits p rid (heap p ! r))"

lemma scan_bucket_facts:
  "scan_bucket p rid bs stale = (cand, rest, stale', p') \<Longrightarrow>
    (\<exists>n. p' = p\<lparr>ticks := n\<rparr>) \<and> (\<exists>xs. stale' = stale @ xs \<and> scan_split p rid cand rest xs bs)"
proof (induction bs arbitrary: p stale)
  case Nil
  have "\<exists>n. p = p\<lparr>ticks := n\<rparr>" by (rule exI [of _ "ticks p"]) simp
  with Nil show ?case by (auto simp: scan_split_def)
next
  case (Cons r rs)
  obtain ex p1 where ie: "idle_expired p r = (ex, p1)" by fastforce
  obtain n where p1: "p1 = p\<lparr>ticks := n\<rparr>" using idle_expired_ticks [of p r] ie by auto
  define skip where "skip \<longleftrightarrow> ex \<or> rid \<notin> installed_release_ids (heap p ! r) \<and>
    max_installed_releases p \<le> int (card (installed_release_ids (heap p ! r)))"
  have go: "scan_bucket p rid (r # rs) stale =
      (if skip then scan_bucket p1 rid rs (stale @ [r]) else (Some r, rs, stale, p1))"
    using ie p1 by (auto simp: skip_def Let_def)
  show ?case
  proof (cases skip)
    case True
    then have "scan_bucket p1 rid rs (stale @ [r]) = (cand, rest, stale', p')"
      using trans [OF go [symmetric] Cons.prems] by simp
    from Cons.IH [OF this] obtain m xs where "p' = p1\<lparr>ticks := m\<rparr>" "stale' = stale @ (r # xs)"
        "scan_split p1 rid cand rest xs rs" by auto
    moreover from this(3) have "scan_split p rid cand rest (r # xs) (r # rs)"
      by (auto simp: scan_split_def fits_def p1 split: option.splits)
    ultimately show ?thesis using p1 by auto
  next
    case False
    then have "fits p rid (heap p ! r)" using ie idle_expired_False [of p r p1] by (auto simp: skip_def fits_def)
    moreover have "(Some r, rs, stale, p1) = (cand, rest, stale', p')"
      using trans [OF go [symmetric] Cons.prems] False by simp
    ultimately show ?thesis using p1 by (auto simp: scan_split_def)
  qed
qed

lemma pick_idle_facts:
  assumes ok: "idle_ok p" and pick: "pick_idle p key rid = (cand, stale, p')"
  shows "heap p' = heap p" "pool_quota p' = pool_quota p" "idle_ok p'"
    "\<forall>r\<in>set stale. r < length (heap p) \<and> worker_key (heap p ! r) = key \<and> r \<notin> idle_refs p'"
    "cand = Some r \<Longrightarrow> r < length (heap p) \<and> worker_key (heap p ! r) = key \<and> r \<notin> idle_refs p' \<and> r \<notin> set stale \<and>
       fits p rid (heap p ! r)"
    "idle_refs p' \<subseteq> idle_refs p"
proof -
  define bucket where "bucket = (case map_of (idle p) key of None \<Rightarrow> [] | Some rs \<Rightarrow> rs)"
  obtain rest p1 where scan: "scan_bucket p rid (rev bucket) [] = (cand, rest, stale, p1)"
    and p': "p' = p1\<lparr>idle := (if rest = [] then AList.delete key (idle p1) else AList.update key (rev rest) (idle p1))\<rparr>"
    using pick by (auto simp: pick_idle_def bucket_def Let_def split: prod.splits)
  obtain n where p1: "p1 = p\<lparr>ticks := n\<rparr>" using scan_bucket_facts [OF scan] by blast
  have split: "rev bucket = stale @ (case cand of None \<Rightarrow> [] | Some r \<Rightarrow> [r]) @ rest"
    and cand: "\<And>r. cand = Some r \<Longrightarrow> fits p rid (heap p ! r)"
    using scan_bucket_facts [OF scan] by (auto simp: scan_split_def split: option.splits)
  have dist: "distinct bucket" and bucket: "\<And>r. r \<in> set bucket \<Longrightarrow> r < length (heap p) \<and> worker_key (heap p ! r) = key"
    using idle_okD [OF ok, of key] by (cases "map_of (idle p) key"; simp add: bucket_def)+
  have "distinct (rev bucket)" using dist by simp
  then have d: "distinct (stale @ (case cand of None \<Rightarrow> [] | Some r \<Rightarrow> [r]) @ rest)" unfolding split .
  have sets: "set bucket = set stale \<union> set (case cand of None \<Rightarrow> [] | Some r \<Rightarrow> [r]) \<union> set rest"
    using arg_cong [OF split, of set] by auto
  show heap: "heap p' = heap p" and "pool_quota p' = pool_quota p" by (simp_all add: p' p1)
  have look: "map_of (idle p') k = (if k = key then (if rest = [] then None else Some (rev rest)) else map_of (idle p) k)" for k
    by (simp add: p' p1)
  have keys: "distinct (map fst (idle p'))"
    using ok by (simp add: p' p1 idle_ok_def distinct_update distinct_delete)
  show "idle_ok p'"
  proof (rule idle_okI [OF keys])
    fix k rs assume "map_of (idle p') k = Some rs"
    then show "rs \<noteq> [] \<and> distinct rs" using idle_okD [OF ok, of k rs] d by (auto simp: look split: if_splits)
  next
    fix k rs r assume k: "map_of (idle p') k = Some rs" "r \<in> set rs"
    show "r < length (heap p') \<and> worker_key (heap p' ! r) = k"
    proof (cases "k = key")
      case True
      then have "rs = rev rest" using k(1) look [of key] by (simp split: if_splits)
      then have "r \<in> set bucket" using k(2) unfolding sets by simp
      from bucket [OF this] show ?thesis using True heap by simp
    next
      case False
      then show ?thesis using k idle_okD(3) [OF ok, of k rs r] by (simp add: look heap)
    qed
  qed
  have out: "r \<notin> idle_refs p'" if "r \<in> set bucket" "r \<notin> set rest" for r
  proof
    assume "r \<in> idle_refs p'"
    then obtain k rs where k: "map_of (idle p') k = Some rs" "r \<in> set rs" by (auto simp: idle_refs_def)
    show False
    proof (cases "k = key")
      case True
      then have "rs = rev rest" using k(1) look [of key] by (simp split: if_splits)
      then show False using k(2) that(2) by simp
    next
      case False
      then show False using k idle_okD(3) [OF ok, of k rs r] bucket [OF that(1)] by (simp add: look)
    qed
  qed
  show "\<forall>r\<in>set stale. r < length (heap p) \<and> worker_key (heap p ! r) = key \<and> r \<notin> idle_refs p'"
    using bucket out sets d by auto
  show "cand = Some r \<Longrightarrow> r < length (heap p) \<and> worker_key (heap p ! r) = key \<and> r \<notin> idle_refs p' \<and> r \<notin> set stale \<and>
      fits p rid (heap p ! r)"
    using bucket [of r] out [of r] sets d cand [of r] by auto
  have "set rest \<subseteq> set bucket" using sets by blast
  then show "idle_refs p' \<subseteq> idle_refs p"
    using look by (auto simp: idle_refs_def bucket_def split: if_splits option.splits)
qed

subsection \<open>Reusing and creating under the backend contract\<close>

definition ready :: "worker \<Rightarrow> bool" where
  "ready w \<longleftrightarrow> healthy w \<and> \<not> destroyed w"

text \<open>Preparing a worker for a run changes that worker only, and not its identity or its state.\<close>

definition prepares :: "worker_ref \<Rightarrow> 'b pool \<Rightarrow> 'b pool \<Rightarrow> bool" where
  "prepares r p p' \<longleftrightarrow> idle p' = idle p \<and> pool_quota p' = pool_quota p \<and>
     (\<exists>w. heap p' = (heap p)[r := w] \<and> worker_key w = worker_key (heap p ! r) \<and>
        destroyed w = destroyed (heap p ! r) \<and> healthy w = healthy (heap p ! r) \<and>
        installed_release_ids (heap p ! r) \<subseteq> installed_release_ids w)"

lemma preparesI:
  "idle p' = idle p \<Longrightarrow> pool_quota p' = pool_quota p \<Longrightarrow> heap p' = (heap p)[r := w] \<Longrightarrow>
   worker_key w = worker_key (heap p ! r) \<Longrightarrow> destroyed w = destroyed (heap p ! r) \<Longrightarrow>
   healthy w = healthy (heap p ! r) \<Longrightarrow> installed_release_ids (heap p ! r) \<subseteq> installed_release_ids w \<Longrightarrow> prepares r p p'"
  unfolding prepares_def by blast

lemma prepares_same: "idle p' = idle p \<Longrightarrow> pool_quota p' = pool_quota p \<Longrightarrow> heap p' = heap p \<Longrightarrow> prepares r p p'"
  by (rule preparesI [where w = "heap p ! r"]) simp_all

lemma prepares_trans:
  assumes "prepares r p p1" "prepares r p1 p2"
  shows "prepares r p p2"
proof -
  obtain w where w: "heap p1 = (heap p)[r := w]" "worker_key w = worker_key (heap p ! r)" "destroyed w = destroyed (heap p ! r)"
      "healthy w = healthy (heap p ! r)" "installed_release_ids (heap p ! r) \<subseteq> installed_release_ids w"
      "idle p1 = idle p" "pool_quota p1 = pool_quota p"
    using assms(1) unfolding prepares_def by blast
  obtain v where v: "heap p2 = (heap p1)[r := v]" "worker_key v = worker_key (heap p1 ! r)" "destroyed v = destroyed (heap p1 ! r)"
      "healthy v = healthy (heap p1 ! r)" "installed_release_ids (heap p1 ! r) \<subseteq> installed_release_ids v"
      "idle p2 = idle p1" "pool_quota p2 = pool_quota p1"
    using assms(2) unfolding prepares_def by blast
  show ?thesis
  proof (cases "r < length (heap p)")
    case True
    then have "heap p1 ! r = w" by (simp add: w(1))
    then show ?thesis using w v by (intro preparesI [where w = v]) auto
  next
    case False
    then show ?thesis using w v by (intro prepares_same) (simp_all add: list_update_beyond)
  qed
qed

lemma prepares_facts:
  assumes "prepares r p p'"
  shows "touches {r} p p'" "ledger_part p' = ledger_part p" "r < length (heap p) \<Longrightarrow> ready (heap p ! r) \<Longrightarrow> ready (heap p' ! r)"
    "r < length (heap p) \<Longrightarrow> installed_release_ids (heap p ! r) \<subseteq> installed_release_ids (heap p' ! r)"
proof -
  obtain w where w: "heap p' = (heap p)[r := w]" "worker_key w = worker_key (heap p ! r)" "destroyed w = destroyed (heap p ! r)"
      "healthy w = healthy (heap p ! r)" "installed_release_ids (heap p ! r) \<subseteq> installed_release_ids w"
      "idle p' = idle p" "pool_quota p' = pool_quota p"
    using assms unfolding prepares_def by blast
  have "w_tenant_id w = w_tenant_id (heap p ! r)" using w(2) by (simp add: worker_key_def)
  then show "ledger_part p' = ledger_part p" using w
    by (cases "r < length (heap p)") (simp_all add: ledger_part_def map_update list_update_same_conv list_update_beyond)
  show "touches {r} p p'" using w
    by (cases "r < length (heap p)") (simp_all add: touches_def map_update list_update_same_conv list_update_beyond)
  show "r < length (heap p) \<Longrightarrow> ready (heap p ! r) \<Longrightarrow> ready (heap p' ! r)"
    "r < length (heap p) \<Longrightarrow> installed_release_ids (heap p ! r) \<subseteq> installed_release_ids (heap p' ! r)"
    using w by (simp_all add: ready_def)
qed

lemma prepares_ensure_release:
  assumes "ensure_release be p r rel = (res, p')"
  shows "prepares r p p'" "res = Inr u \<Longrightarrow> r < length (heap p) \<Longrightarrow> rel_id rel \<in> installed_release_ids (heap p' ! r)"
proof -
  show "prepares r p p'"
  proof (cases res)
    case (Inl e)
    then show ?thesis using assms
      by (intro prepares_same) (auto simp: ensure_release_def split: prod.splits sum.splits)
  next
    case (Inr u)
    then obtain w b where w: "install_release be (pool_backend p) (heap p ! r) rel = (Inr w, b)"
      and p': "p' = set_worker r (\<lambda>_. w) (p\<lparr>pool_backend := b\<rparr>)"
      using assms by (auto simp: ensure_release_def split: prod.splits sum.splits)
    then show ?thesis
      by (intro preparesI [where w = w])
        (auto simp: set_worker_def install_release_def worker_key_def split: if_splits prod.splits sum.splits)
  qed
  show "res = Inr u \<Longrightarrow> r < length (heap p) \<Longrightarrow> rel_id rel \<in> installed_release_ids (heap p' ! r)"
    using assms by (auto simp: ensure_release_def install_release_def set_worker_def split: if_splits prod.splits sum.splits)
qed

context sandbox_backend
begin

lemma prepares_ensure_sandbox_ttl:
  assumes "ensure_sandbox_ttl be p r pol = (res, p')"
  shows "prepares r p p'"
proof (cases "sandbox_expires_monotonic (heap p ! r)")
  case None
  then show ?thesis using assms by (intro prepares_same) (simp_all add: ensure_sandbox_ttl_def)
next
  case (Some e)
  obtain res1 b where rn: "be_renew be (pool_backend p) (heap p ! r) (orphan_ttl_seconds p) = (res1, b)" by fastforce
  have same: "idle p' = idle p" "pool_quota p' = pool_quota p"
    and "heap p' = heap p \<or> (\<exists>w. res1 = Inr w \<and> heap p' = (heap p)[r := w])"
    using assms Some rn
    by (auto simp: ensure_sandbox_ttl_def monotonic_def Let_def set_worker_def split: if_splits sum.splits)
  then consider "heap p' = heap p" | w where "res1 = Inr w" "heap p' = (heap p)[r := w]" by blast
  then show ?thesis
  proof cases
    case 1
    then show ?thesis using same by (intro prepares_same)
  next
    case 2
    then obtain x where "w = (heap p ! r)\<lparr>sandbox_expires_monotonic := x\<rparr>" using renew_frame rn by blast
    then show ?thesis using same 2(2) by (intro preparesI [where w = w]) (simp_all add: worker_key_def)
  qed
qed

lemma reuse_worker_facts:
  assumes "reuse_worker be p r rel pol = (Inr r', p')"
  shows "r' = r" "prepares r p p'" "r < length (heap p) \<Longrightarrow> rel_id rel \<in> installed_release_ids (heap p' ! r)"
proof -
  obtain u1 p1 u2 p2 where t: "ensure_sandbox_ttl be p r pol = (Inr u1, p1)" and e: "ensure_release be p1 r rel = (Inr u2, p2)"
    and last: "r' = r" "p' = set_worker r (\<lambda>w. w\<lparr>last_used_monotonic := fst (monotonic p2)\<rparr>) (snd (monotonic p2))"
    using assms by (auto simp: reuse_worker_def Let_def split: prod.splits sum.splits)
  show "r' = r" by (rule last)
  have used: "prepares r p2 p'"
    by (rule preparesI [where w = "(heap p2 ! r)\<lparr>last_used_monotonic := fst (monotonic p2)\<rparr>"])
      (simp_all add: last set_worker_def monotonic_def worker_key_def)
  have "prepares r p p2" using prepares_ensure_sandbox_ttl [OF t] prepares_ensure_release(1) [OF e] by (rule prepares_trans)
  then show "prepares r p p'" using used by (rule prepares_trans)
  assume r: "r < length (heap p)"
  then have "r < length (heap p1)" "r < length (heap p2)"
    using touches_length [OF prepares_facts(1)] prepares_ensure_sandbox_ttl [OF t] prepares_ensure_release(1) [OF e] by metis+
  then show "rel_id rel \<in> installed_release_ids (heap p' ! r)"
    using prepares_ensure_release(2) [OF e] prepares_facts(4) [OF used] by auto
qed

end

lemma create_worker_never_waits:
  "0 < creating_free (pool_quota p) \<Longrightarrow> create_worker be p t rel pol \<noteq> None"
  by (simp add: create_worker_def creation_slot_enter_def)

lemma run_invalidate:
  assumes "invalidate be (pool_of s) r = (res, p')" "r < length (heap (pool_of s))"
  shows "pool_run be s p'"
proof -
  let ?p1 = "set_worker r (\<lambda>w. w\<lparr>healthy := False\<rparr>) (pool_of s)"
  have "ledger_part ?p1 = ledger_part (pool_of s)" using assms(2)
    by (simp add: ledger_part_def set_worker_def map_update list_update_same_conv)
  then have "pool_run be s ?p1" by (rule run_frame)
  moreover have "pool_run be s' p'" if "pool_of s' = ?p1" for s'
    using that assms by (intro run_destroy [where r = r and res = res]) (simp_all add: invalidate_def set_worker_def)
  ultimately show ?thesis by (rule run_trans)
qed

lemma invalidate_touches:
  assumes "invalidate be p r = (res, p')"
  shows "touches {r} p p'"
proof -
  have "touches {r} p (set_worker r (\<lambda>w. w\<lparr>healthy := False\<rparr>) p)"
    by (rule touches_set_worker) (simp add: worker_key_def)
  moreover have "touches {r} (set_worker r (\<lambda>w. w\<lparr>healthy := False\<rparr>) p) p'"
    using assms by (intro destroy_facts(1)) (simp add: invalidate_def)
  ultimately show ?thesis using touches_trans by fastforce
qed

context sandbox_backend
begin

lemma reuse_worker_run:
  assumes reuse: "reuse_worker be p r rel pol = (res, p')" and r: "r < length (heap p)" and s: "pool_of s = p"
  shows "pool_run be s p'" "touches {r} p p'"
proof -
  obtain res1 p1 where t: "ensure_sandbox_ttl be p r pol = (res1, p1)" by fastforce
  obtain res2 p2 where e: "ensure_release be p1 r rel = (res2, p2)" by fastforce
  note pt = prepares_ensure_sandbox_ttl [OF t] and pe = prepares_ensure_release(1) [OF e]
  have prep: "(\<exists>p0 x. prepares r p p0 \<and> invalidate be p0 r = (x, p')) \<or> prepares r p p'"
  proof (cases res)
    case (Inl err)
    then have "(\<exists>x. invalidate be p1 r = (x, p')) \<or> (\<exists>x. invalidate be p2 r = (x, p'))"
      using reuse t e by (auto simp: reuse_worker_def Let_def monotonic_def split: prod.splits sum.splits)
    then show ?thesis using pt prepares_trans [OF pt pe] by blast
  next
    case (Inr r')
    then show ?thesis using reuse reuse_worker_facts(2) by blast
  qed
  have run: "pool_run be s p0" if "prepares r p p0" for p0
    using prepares_facts(2) [OF that] s by (simp add: run_frame)
  show "pool_run be s p'"
    using prep run run_trans [OF run] run_invalidate prepares_facts(1) touches_length r by (metis (lifting))
  show "touches {r} p p'"
    using prep prepares_facts(1) invalidate_touches touches_trans by (metis (lifting) Un_absorb)
qed

lemma create_worker_facts:
  assumes "create_worker be p t rel pol = Some (Inr r, p')"
  shows "r = length (heap p)" "idle p' = idle p"
    "\<exists>w. heap p' = heap p @ [w] \<and> worker_key w = pool_key_of t rel \<and> ready w \<and> rel_id rel \<in> installed_release_ids w"
proof -
  obtain q w b w' b1 where "creation_slot_enter (pool_quota p) = Some q"
    and c: "be_create be (pool_backend p) t rel pol (orphan_ttl_seconds p) = (Inr w, b)"
    and i: "install_release be b w rel = (Inr w', b1)"
    and p': "(r, p') = add_worker w' (leave_slot (p\<lparr>pool_quota := q, pool_backend := b1\<rparr>))"
    using assms by (auto simp: create_worker_def Let_def split: option.splits prod.splits sum.splits)
  from create_fresh [OF c] have "worker_key w = pool_key_of t rel" "ready w"
    by (auto simp: fresh_worker_def worker_key_def pool_key_of_def ready_def)
  then have "worker_key w' = pool_key_of t rel \<and> ready w' \<and> rel_id rel \<in> installed_release_ids w'"
    using i by (auto simp: install_release_def worker_key_def ready_def split: if_splits prod.splits sum.splits)
  then show "r = length (heap p)" "idle p' = idle p"
    "\<exists>w. heap p' = heap p @ [w] \<and> worker_key w = pool_key_of t rel \<and> ready w \<and> rel_id rel \<in> installed_release_ids w"
    using p' by (auto simp: add_worker_def leave_slot_def)
qed

end

lemma idle_ok_append:
  assumes ok: "idle_ok p" and p': "idle p' = idle p" "heap p' = heap p @ [w]"
  shows "idle_ok p'"
proof (rule idle_okI)
  show "distinct (map fst (idle p'))" using ok by (simp add: idle_ok_def p')
next
  fix k rs assume "map_of (idle p') k = Some rs"
  then show "rs \<noteq> [] \<and> distinct rs" using idle_okD [OF ok, of k rs] p' by simp
next
  fix k rs r assume "map_of (idle p') k = Some rs" "r \<in> set rs"
  then show "r < length (heap p') \<and> worker_key (heap p' ! r) = k"
    using idle_okD(3) [OF ok, of k rs r] p' by (simp add: nth_append)
qed

lemma idle_refs_length:
  assumes "idle_ok p" "r \<in> idle_refs p"
  shows "r < length (heap p)"
proof -
  obtain k rs where "map_of (idle p) k = Some rs" "r \<in> set rs" using assms(2) unfolding idle_refs_def by blast
  with idle_okD(3) [OF assms(1)] show ?thesis by blast
qed

context sandbox_backend
begin

lemma create_worker_run:
  assumes reserve: "reserve_live (pool_quota (pool_of s)) t = (Inr u, q)"
    and create: "create_worker be ((pool_of s)\<lparr>pool_quota := q\<rparr>) t rel pol = Some (res, p')"
  shows "pool_run be s p'"
proof -
  let ?p = "pool_of s"
  let ?s1 = "s\<lparr>pool_of := ?p\<lparr>pool_quota := q\<rparr>, reserved := t # reserved s\<rparr>"
  obtain q1 where slot: "creation_slot_enter q = Some q1" using create by (auto simp: create_worker_def split: option.splits)
  have 1: "pool_step be s ?s1" by (rule pool_step.reserve [OF reserve])
  have 2: "pool_step be ?s1 (?s1\<lparr>pool_of := ?p\<lparr>pool_quota := q1\<rparr>\<rparr>)"
    using pool_step.enter_slot [of ?s1 q1 be] slot by simp
  have 3: "pool_step be (?s1\<lparr>pool_of := ?p\<lparr>pool_quota := q1\<rparr>\<rparr>) (?s1\<lparr>pool_of := ?p\<lparr>pool_quota := q1, pool_backend := b\<rparr>\<rparr>)" for b
    using pool_step.frame [of "?p\<lparr>pool_quota := q1, pool_backend := b\<rparr>" "?s1\<lparr>pool_of := ?p\<lparr>pool_quota := q1\<rparr>\<rparr>" be]
    by (simp add: ledger_part_def)
  let ?p4 = "\<lambda>b. leave_slot (?p\<lparr>pool_quota := q1, pool_backend := b\<rparr>)"
  let ?s4 = "\<lambda>b. ?s1\<lparr>pool_of := ?p4 b\<rparr>"
  have "pool_step be (?s1\<lparr>pool_of := ?p\<lparr>pool_quota := q1, pool_backend := b\<rparr>\<rparr>) (?s4 b)" for b
    using pool_step.exit_slot [of be "?s1\<lparr>pool_of := ?p\<lparr>pool_quota := q1, pool_backend := b\<rparr>\<rparr>"] by simp
  with 1 2 3 have to4: "(pool_step be)\<^sup>*\<^sup>* s (?s4 b)" for b
    by (meson converse_rtranclp_into_rtranclp rtranclp.rtrancl_refl)
  have fail: "pool_run be s (unreserve (?p4 b) t)" for b
  proof (rule pool_runI [where ret = "[]"])
    have "pool_step be (?s4 b) ((?s4 b)\<lparr>pool_of := unreserve (pool_of (?s4 b)) t, reserved := remove1 t (reserved (?s4 b))\<rparr>)"
      by (rule pool_step.unreserve) simp
    with to4 [of b] show "(pool_step be)\<^sup>*\<^sup>* s (s\<lparr>pool_of := unreserve (?p4 b) t, retired := [] @ retired s\<rparr>)" by simp
  qed
  have adopted: "pool_run be s (snd (add_worker w (?p4 b)))" if "w_tenant_id w = t" "\<not> destroyed w" for w b
  proof (rule pool_runI [where ret = "[]"])
    have "pool_step be (?s4 b) ((?s4 b)\<lparr>pool_of := snd (add_worker w (pool_of (?s4 b))),
        reserved := remove1 (w_tenant_id w) (reserved (?s4 b))\<rparr>)"
      by (rule pool_step.adopt) (simp_all add: that)
    with to4 [of b] show "(pool_step be)\<^sup>*\<^sup>* s (s\<lparr>pool_of := snd (add_worker w (?p4 b)), retired := [] @ retired s\<rparr>)"
      by (simp add: that)
  qed
  have fresh: "w_tenant_id w' = t \<and> \<not> destroyed w'"
    if "be_create be b0 t rel pol ttl = (Inr w, b)" "install_release be b w rel = (Inr w', b1)" for b0 ttl w b w' b1
    using create_fresh [OF that(1)] that(2)
    by (auto simp: fresh_worker_def install_release_def split: if_splits prod.splits sum.splits)
  show ?thesis using create slot fail adopted fresh
    by (auto simp: create_worker_def Let_def split: prod.splits sum.splits) (metis snd_conv)
qed


text \<open>The state of the pool when \<open>acquire\<close> turns to its candidate or to the quota.\<close>

lemma acquire_cases:
  assumes ok: "idle_ok p" and acq: "acquire be p t rel pol = Some (res, p')"
  obtains (stale_failed) e p2 where "res = Inl e" "p' = p2" "idle_ok p2" "\<And>s. pool_of s = p \<Longrightarrow> pool_run be s p2"
  | (reuse) r p2 where "reuse_worker be p2 r rel pol = (res, p')" "idle_ok p2" "r < length (heap p2)" "r \<notin> idle_refs p2"
      "worker_key (heap p2 ! r) = pool_key_of t rel" "ready (heap p2 ! r)" "\<And>s. pool_of s = p \<Longrightarrow> pool_run be s p2"
  | (full) e p2 where "reserve_live (pool_quota p2) t = (Inl e, pool_quota p2)" "res = Inl e" "p' = p2" "idle_ok p2"
      "\<And>s. pool_of s = p \<Longrightarrow> pool_run be s p2"
  | (create) u q p2 where "reserve_live (pool_quota p2) t = (Inr u, q)" "idle_ok p2"
      "create_worker be (p2\<lparr>pool_quota := q\<rparr>) t rel pol = Some (res, p')" "\<And>s. pool_of s = p \<Longrightarrow> pool_run be s p2"
proof -
  obtain cand stale p1 where pick: "pick_idle p (pool_key_of t rel) (rel_id rel) = (cand, stale, p1)" by (metis prod_cases3)
  obtain res2 p2 where d: "destroy_all be p1 stale = (res2, p2)" by fastforce
  note pf = pick_idle_facts [OF ok pick]
  have t12: "touches (set stale) p1 p2" using d by (rule destroy_all_touches)
  have ok2: "idle_ok p2" using touches_idle_ok [OF t12 pf(3)] .
  have run: "pool_run be s p2" if "pool_of s = p" for s
  proof (rule run_trans [of be s p1])
    show "pool_run be s p1" using pf(1,2) that by (intro run_frame) (simp add: ledger_part_def)
    show "pool_run be s' p2" if "pool_of s' = p1" for s'
      using run_destroy_all [of be s' stale res2 p2] d pf(1,4) that by simp
  qed
  show thesis
  proof (cases res2)
    case (Inl e)
    then show thesis using acq pick d ok2 run by (intro stale_failed [of e p2]) (simp_all add: acquire_def)
  next
    case (Inr u2)
    show thesis
    proof (cases cand)
      case (Some r)
      have r: "r < length (heap p2)" "r \<notin> idle_refs p2" "worker_key (heap p2 ! r) = pool_key_of t rel"
        using pf(5) [OF Some] touches_length [OF t12] touches_idle_refs [OF t12] touches_key [OF t12, of r] pf(1) by simp_all
      have "heap p2 ! r = heap p ! r" using t12 pf(1,5) Some by (simp add: touches_def)
      then have "ready (heap p2 ! r)" using pf(5) [OF Some] by (simp add: fits_def ready_def)
      moreover have "reuse_worker be p2 r rel pol = (res, p')" using acq pick d Inr Some by (simp add: acquire_def)
      ultimately show thesis using reuse r ok2 run by blast
    next
      case None
      obtain rl q where res: "reserve_live (pool_quota p2) t = (rl, q)" by fastforce
      show thesis
      proof (cases rl)
        case (Inl e)
        then have "q = pool_quota p2" using res ledger.reserve_fail by blast
        then show thesis using acq pick d Inr None res Inl ok2 run by (intro full [of p2 e]) (simp_all add: acquire_def)
      next
        case rl: (Inr u)
        then show thesis using acq pick d Inr None res ok2 run by (intro create [of p2 u q]) (simp_all add: acquire_def)
      qed
    qed
  qed
qed

lemma acquire_run:
  assumes "idle_ok p" "acquire be p t rel pol = Some (res, p')" "pool_of s = p"
  shows "pool_run be s p'"
  using assms(1,2)
proof (cases rule: acquire_cases)
  case (reuse r p2)
  show ?thesis
    by (rule run_trans [OF reuse(7) [OF assms(3)]]) (rule reuse_worker_run(1) [OF reuse(1,3)])
next
  case (create u q p2)
  show ?thesis
  proof (rule run_trans [OF create(4) [OF assms(3)]])
    fix s' :: "'b world" assume "pool_of s' = p2"
    then show "pool_run be s' p'" using create_worker_run [of s'] create(1,3) by simp
  qed
qed (use assms(3) in blast)+

lemma acquire_idle_ok:
  assumes "idle_ok p" "acquire be p t rel pol = Some (res, p')"
  shows "idle_ok p'"
  using assms
proof (cases rule: acquire_cases)
  case (reuse r p2)
  then show ?thesis using touches_idle_ok reuse_worker_run(2) [of p2 r rel pol res p' "\<lparr>pool_of = p2, reserved = [], pending = [], retired = []\<rparr>"]
    by auto
next
  case (create u q p2)
  show ?thesis
  proof (cases res)
    case (Inr r)
    then show ?thesis using create create_worker_facts [of "p2\<lparr>pool_quota := q\<rparr>" t rel pol r p'] idle_ok_append [of "p2\<lparr>pool_quota := q\<rparr>" p']
      by (auto simp: idle_ok_def)
  next
    case (Inl e)
    then have "idle p' = idle p2" "heap p' = heap p2" using create(3)
      by (auto simp: create_worker_def Let_def leave_slot_def unreserve_def add_worker_def split: option.splits prod.splits sum.splits)
    then show ?thesis using create(2) by (simp add: idle_ok_def)
  qed
qed blast+

lemma acquire_facts:
  assumes ok: "idle_ok p" and acq: "acquire be p t rel pol = Some (Inr r, p')"
  shows "r < length (heap p')" "worker_key (heap p' ! r) = pool_key_of t rel" "ready (heap p' ! r)"
    "rel_id rel \<in> installed_release_ids (heap p' ! r)" "r \<notin> idle_refs p'"
proof -
  have "r < length (heap p') \<and> worker_key (heap p' ! r) = pool_key_of t rel \<and> ready (heap p' ! r) \<and>
      rel_id rel \<in> installed_release_ids (heap p' ! r) \<and> r \<notin> idle_refs p'"
    using assms
  proof (cases rule: acquire_cases)
    case (reuse r2 p2)
    note rf = reuse_worker_facts [OF reuse(1)]
    note pr = prepares_facts [OF rf(2)]
    show ?thesis using reuse rf(1,3) pr(3) touches_length [OF pr(1)] touches_key [OF pr(1)] touches_idle_refs [OF pr(1)] by simp
  next
    case (create u q p2)
    from create_worker_facts [OF create(3)] obtain w where w: "r = length (heap p2)" "idle p' = idle p2" "heap p' = heap p2 @ [w]"
        "worker_key w = pool_key_of t rel" "ready w" "rel_id rel \<in> installed_release_ids w" by auto
    have "r \<notin> idle_refs p2" using idle_refs_length [OF create(2)] w(1) by blast
    then show ?thesis using w by (simp add: idle_refs_def)
  qed auto
  then show "r < length (heap p')" "worker_key (heap p' ! r) = pool_key_of t rel" "ready (heap p' ! r)"
    "rel_id rel \<in> installed_release_ids (heap p' ! r)" "r \<notin> idle_refs p'" by blast+
qed

end

subsection \<open>Returning and reaping\<close>

lemma put_idle_ok:
  assumes ok: "idle_ok p" and r: "r < length (heap p)" "r \<notin> idle_refs p"
  shows "idle_ok (put_idle p r)" "idle_refs (put_idle p r) = insert r (idle_refs p)"
proof -
  define key where "key = worker_key (heap p ! r)"
  define bucket where "bucket = (case map_of (idle p) key of None \<Rightarrow> [] | Some rs \<Rightarrow> rs)"
  have p': "put_idle p r = p\<lparr>idle := AList.update key (bucket @ [r]) (idle p)\<rparr>"
    by (simp add: put_idle_def Let_def key_def bucket_def worker_key_def)
  have look: "map_of (idle (put_idle p r)) k = (if k = key then Some (bucket @ [r]) else map_of (idle p) k)" for k
    by (simp add: p')
  have bucket: "distinct bucket \<and> (\<forall>x\<in>set bucket. x < length (heap p) \<and> worker_key (heap p ! x) = key \<and> x \<in> idle_refs p)"
  proof (cases "map_of (idle p) key")
    case (Some rs)
    then have "set rs \<subseteq> idle_refs p" unfolding idle_refs_def by blast
    then show ?thesis using Some idle_okD [OF ok Some] by (auto simp: bucket_def)
  qed (simp add: bucket_def)
  show "idle_ok (put_idle p r)"
  proof (rule idle_okI)
    show "distinct (map fst (idle (put_idle p r)))" using ok by (simp add: p' distinct_update idle_ok_def)
  next
    fix k rs assume "map_of (idle (put_idle p r)) k = Some rs"
    then show "rs \<noteq> [] \<and> distinct rs"
      using idle_okD [OF ok, of k rs] bucket r(2) unfolding look by (cases "k = key") auto
  next
    fix k rs x assume "map_of (idle (put_idle p r)) k = Some rs" "x \<in> set rs"
    then show "x < length (heap (put_idle p r)) \<and> worker_key (heap (put_idle p r) ! x) = k"
      using idle_okD(3) [OF ok, of k rs x] bucket r(1) unfolding look
      by (cases "k = key") (auto simp: p' key_def)
  qed
  show "idle_refs (put_idle p r) = insert r (idle_refs p)"
  proof (intro subset_antisym subsetI)
    fix x assume "x \<in> idle_refs (put_idle p r)"
    then obtain k rs where "map_of (idle (put_idle p r)) k = Some rs" "x \<in> set rs" unfolding idle_refs_def by blast
    then show "x \<in> insert r (idle_refs p)" using bucket unfolding look
      by (cases "k = key") (auto intro: idle_refsI)
  next
    fix x assume "x \<in> insert r (idle_refs p)"
    then consider "x = r" | k rs where "map_of (idle p) k = Some rs" "x \<in> set rs" unfolding idle_refs_def by blast
    then show "x \<in> idle_refs (put_idle p r)"
    proof cases
      case 1
      then show ?thesis using idle_refsI [of "put_idle p r" key "bucket @ [r]"] by (simp add: look)
    next
      case (2 k rs)
      then have "\<exists>rs'. map_of (idle (put_idle p r)) k = Some rs' \<and> x \<in> set rs'"
        unfolding look by (cases "k = key") (auto simp: bucket_def)
      then show ?thesis unfolding idle_refs_def by blast
    qed
  qed
qed

lemma pool_release_cases:
  assumes "pool_release be p r pol = (res, p')"
  obtains (put) p3 where "prepares r p p3" "res = Inr ()" "p' = put_idle p3 r" "ready (heap p3 ! r)" "reuse_sandbox pol"
  | (gone) p3 where "prepares r p p3" "destroy be p3 r = (res, p')"
proof -
  define p1 where "p1 = set_worker r (\<lambda>w. w\<lparr>w_runs := w_runs w + 1\<rparr>) p"
  define p3 where "p3 = set_worker r (\<lambda>w. w\<lparr>last_used_monotonic := fst (monotonic p1)\<rparr>) (snd (monotonic p1))"
  have "prepares r p p1"
    by (rule preparesI [where w = "(heap p ! r)\<lparr>w_runs := w_runs (heap p ! r) + 1\<rparr>"])
      (simp_all add: p1_def set_worker_def worker_key_def)
  moreover have "prepares r p1 p3"
    by (rule preparesI [where w = "(heap p1 ! r)\<lparr>last_used_monotonic := fst (monotonic p1)\<rparr>"])
      (simp_all add: p3_def set_worker_def monotonic_def worker_key_def)
  ultimately have prep: "prepares r p p3" by (rule prepares_trans)
  have "pool_release be p r pol =
      (if destroyed (heap p3 ! r) \<or> \<not> healthy (heap p3 ! r) \<or> \<not> reuse_sandbox pol then destroy be p3 r
       else (Inr (), put_idle p3 r))"
    by (simp add: pool_release_def p1_def p3_def Let_def monotonic_def)
  with assms prep put gone show thesis by (auto simp: ready_def split: if_splits)
qed

lemma pool_release_idle_ok:
  assumes ok: "idle_ok p" and r: "r < length (heap p)" "r \<notin> idle_refs p" and rel: "pool_release be p r pol = (res, p')"
  shows "idle_ok p'"
  using rel
proof (cases rule: pool_release_cases)
  case (put p3)
  note t = prepares_facts(1) [OF put(1)]
  show ?thesis unfolding put(3)
    using put_idle_ok(1) [OF touches_idle_ok [OF t ok]] r touches_length [OF t] touches_idle_refs [OF t] by simp
next
  case (gone p3)
  then show ?thesis using touches_idle_ok ok prepares_facts(1) destroy_facts(1) by blast
qed

lemma run_pool_release:
  assumes "pool_release be (pool_of s) r pol = (res, p')" "r < length (heap (pool_of s))"
  shows "pool_run be s p'"
  using assms(1)
proof (cases rule: pool_release_cases)
  case (put p3)
  then show ?thesis using prepares_facts(2) [OF put(1)]
    by (intro run_frame) (simp add: put_idle_def Let_def ledger_part_def)
next
  case (gone p3)
  show ?thesis
  proof (rule run_trans [OF run_frame [OF prepares_facts(2) [OF gone(1)]]])
    fix s' :: "'a world" assume "pool_of s' = p3"
    then show "pool_run be s' p'"
      using gone(2) assms(2) touches_length [OF prepares_facts(1) [OF gone(1)]] by (intro run_destroy) auto
  qed
qed

lemma split_bucket_facts:
  "split_bucket p rs = (kept, stale, p') \<Longrightarrow>
    (\<exists>n. p' = p\<lparr>ticks := n\<rparr>) \<and> set rs = set kept \<union> set stale \<and> (distinct rs \<longrightarrow> distinct kept) \<and>
    (\<forall>r\<in>set kept. ready (heap p ! r))"
proof (induction rs arbitrary: p kept stale p')
  case Nil
  have "\<exists>n. p = p\<lparr>ticks := n\<rparr>" by (rule exI [of _ "ticks p"]) simp
  with Nil show ?case by auto
next
  case (Cons r rs)
  obtain ex p1 where ie: "idle_expired p r = (ex, p1)" by fastforce
  obtain n where p1: "p1 = p\<lparr>ticks := n\<rparr>" using idle_expired_ticks [of p r] ie by auto
  obtain k st p2 where sb: "split_bucket p1 rs = (k, st, p2)" by (metis prod_cases3)
  have ih: "\<exists>m. p2 = p1\<lparr>ticks := m\<rparr>" "set rs = set k \<union> set st" "distinct rs \<Longrightarrow> distinct k" "\<forall>r\<in>set k. ready (heap p1 ! r)"
    using Cons.IH [OF sb] by auto
  have res: "kept = (if ex then k else r # k)" "stale = (if ex then r # st else st)" "p' = p2"
    using Cons.prems ie sb by (auto split: if_splits)
  have "\<not> ex \<Longrightarrow> ready (heap p ! r)" using ie idle_expired_False [of p r p1] by (cases ex) (auto simp: ready_def)
  then show ?case using ih res p1 by auto
qed

lemma split_bucket_disjoint:
  "split_bucket p rs = (kept, stale, p') \<Longrightarrow> distinct rs \<Longrightarrow> set kept \<inter> set stale = {}"
proof (induction rs arbitrary: p kept stale p')
  case (Cons r rs)
  obtain ex p1 where ie: "idle_expired p r = (ex, p1)" by fastforce
  obtain k st p2 where sb: "split_bucket p1 rs = (k, st, p2)" by (metis prod_cases3)
  have "set k \<inter> set st = {}" using Cons.IH [OF sb] Cons.prems(2) by simp
  moreover have "set rs = set k \<union> set st" using split_bucket_facts [OF sb] by blast
  then have "r \<notin> set k \<union> set st" using Cons.prems(2) by simp
  ultimately show ?case using Cons.prems ie sb by (auto split: if_splits)
qed simp

text \<open>Replacing one bucket by a part of it takes the other part out of the table.\<close>

lemma idle_refs_replace:
  assumes ok: "idle_ok p" and bk: "map_of (idle p) key = Some bucket"
    and parts: "set bucket = set kept \<union> set st" "set kept \<inter> set st = {}"
    and look: "\<And>k. map_of (idle p2) k = (if k = key then (if kept = [] then None else Some kept) else map_of (idle p) k)"
  shows "idle_refs p2 = idle_refs p - set st"
proof (intro subset_antisym subsetI)
  fix r assume "r \<in> idle_refs p2"
  then obtain k rs where k: "map_of (idle p2) k = Some rs" "r \<in> set rs" unfolding idle_refs_def by blast
  show "r \<in> idle_refs p - set st"
  proof (cases "k = key")
    case True
    then have "r \<in> set kept" using k look [of key] by (auto split: if_splits)
    then show ?thesis using parts idle_refsI [OF bk, of r] by auto
  next
    case False
    then have kp: "map_of (idle p) k = Some rs" using k(1) look by simp
    have "r \<notin> set bucket" using idle_okD(3) [OF ok bk, of r] idle_okD(3) [OF ok kp k(2)] False by blast
    then show ?thesis using parts idle_refsI [OF kp k(2)] by blast
  qed
next
  fix r assume r: "r \<in> idle_refs p - set st"
  then obtain k rs where k: "map_of (idle p) k = Some rs" "r \<in> set rs" unfolding idle_refs_def by blast
  show "r \<in> idle_refs p2"
  proof (cases "k = key")
    case True
    then have "r \<in> set kept" using k bk parts r by auto
    then show ?thesis using look [of key] by (intro idle_refsI [of p2 key kept]) auto
  next
    case False
    then show ?thesis using k look by (intro idle_refsI [of p2 k rs]) simp_all
  qed
qed

lemma split_idle_facts:
  assumes "split_idle p items = (stale, p')" "idle_ok p" "distinct (map fst items)"
    "\<And>k b. (k, b) \<in> set items \<Longrightarrow> map_of (idle p) k = Some b"
  shows "heap p' = heap p \<and> pool_quota p' = pool_quota p \<and> pool_backend p' = pool_backend p \<and> idle_ok p' \<and>
    set stale \<subseteq> idle_refs p \<and> idle_refs p' = idle_refs p - set stale"
  using assms
proof (induction items arbitrary: p stale p')
  case (Cons kb items)
  obtain key bucket where kb: "kb = (key, bucket)" by fastforce
  obtain kept st p1 where sb: "split_bucket p bucket = (kept, st, p1)" by (metis prod_cases3)
  define p2 where "p2 = p1\<lparr>idle := (if kept \<noteq> [] then AList.update key kept (idle p1) else AList.delete key (idle p1))\<rparr>"
  obtain st' p3 where si: "split_idle p2 items = (st', p3)" by fastforce
  have out: "stale = st @ st'" "p' = p3" using Cons.prems(1) kb sb si by (auto simp: p2_def Let_def)
  obtain n where p1: "p1 = p\<lparr>ticks := n\<rparr>" and parts: "set bucket = set kept \<union> set st" "distinct bucket \<longrightarrow> distinct kept"
    using split_bucket_facts [OF sb] by auto
  have bk: "map_of (idle p) key = Some bucket" using Cons.prems(4) kb by simp
  note bok = idle_okD [OF Cons.prems(2) bk]
  have disj: "set kept \<inter> set st = {}" using split_bucket_disjoint [OF sb bok(2)] .
  have same: "heap p2 = heap p" "pool_quota p2 = pool_quota p" "pool_backend p2 = pool_backend p" by (simp_all add: p2_def p1)
  have look: "map_of (idle p2) k = (if k = key then (if kept = [] then None else Some kept) else map_of (idle p) k)" for k
    by (simp add: p2_def p1)
  have ok2: "idle_ok p2"
  proof (rule idle_okI)
    show "distinct (map fst (idle p2))" using Cons.prems(2) by (simp add: p2_def p1 idle_ok_def distinct_update distinct_delete)
  next
    fix k rs assume "map_of (idle p2) k = Some rs"
    then show "rs \<noteq> [] \<and> distinct rs"
      using idle_okD [OF Cons.prems(2), of k rs] parts bok unfolding look by (auto split: if_splits)
  next
    fix k rs r assume "map_of (idle p2) k = Some rs" "r \<in> set rs"
    then show "r < length (heap p2) \<and> worker_key (heap p2 ! r) = k"
      using idle_okD(3) [OF Cons.prems(2), of k rs r] parts bok(3) [of r] unfolding look same
      by (cases "k = key") (auto split: if_splits)
  qed
  have refs: "idle_refs p2 = idle_refs p - set st"
    using idle_refs_replace [OF Cons.prems(2) bk parts(1) disj look] .
  have items: "(k, b) \<in> set items \<Longrightarrow> map_of (idle p2) k = Some b" for k b
  proof -
    assume kb': "(k, b) \<in> set items"
    then have "k \<in> fst ` set items" by (rule image_eqI [rotated]) simp
    then have "k \<noteq> key" using Cons.prems(3) kb by auto
    then show ?thesis using Cons.prems(4) [of k b] kb' by (simp add: look)
  qed
  have st: "set st \<subseteq> idle_refs p" using parts(1) idle_refsI [OF bk] by blast
  have "distinct (map fst items)" using Cons.prems(3) by simp
  from Cons.IH [OF si ok2 this items]
  have "heap p3 = heap p" "pool_quota p3 = pool_quota p" "pool_backend p3 = pool_backend p" "idle_ok p3"
    "set st' \<subseteq> idle_refs p2" "idle_refs p3 = idle_refs p2 - set st'" using same by simp_all
  then show ?case using refs st out by auto
qed simp

lemma idle_items: "idle_ok p \<Longrightarrow> (k, b) \<in> set (idle p) \<Longrightarrow> map_of (idle p) k = Some b"
  by (simp add: idle_ok_def)

lemma reap_facts:
  assumes ok: "idle_ok p" and reap: "reap be p = (res, p')"
  obtains stale where "set stale \<subseteq> idle_refs p" "idle_ok p'" "idle_refs p' = idle_refs p - set stale"
    "\<And>s. pool_of s = p \<Longrightarrow> pool_run be s p'"
    "\<And>n. res = Inr n \<Longrightarrow> n = length stale \<and> (\<forall>r\<in>set stale. destroyed (heap p' ! r))"
    "touches (set stale) (p\<lparr>idle := idle p'\<rparr>) p'"
proof -
  obtain stale p1 where si: "split_idle p (idle p) = (stale, p1)" by fastforce
  obtain res2 p2 where d: "destroy_all be p1 stale = (res2, p2)" by fastforce
  have dist: "distinct (map fst (idle p))" using ok by (simp add: idle_ok_def)
  from split_idle_facts [OF si ok dist idle_items [OF ok]]
  have f: "heap p1 = heap p" "pool_quota p1 = pool_quota p" "idle_ok p1" "set stale \<subseteq> idle_refs p"
      "idle_refs p1 = idle_refs p - set stale" by simp_all
  have p': "p' = p2" "\<And>n. res = Inr n \<Longrightarrow> res2 = Inr () \<and> n = length stale"
    using reap si d by (auto simp: reap_def split: sum.splits)
  have valid: "\<forall>r\<in>set stale. r < length (heap p1)" using idle_refs_length [OF ok] f(1,4) by auto
  note t = destroy_all_touches [OF d]
  show thesis
  proof (rule that [of stale])
    show "idle_ok p'" unfolding p' using touches_idle_ok [OF t f(3)] .
    show "idle_refs p' = idle_refs p - set stale" unfolding p' touches_idle_refs [OF t] by (rule f(5))
    show "pool_run be s p'" if "pool_of s = p" for s
    proof (rule run_trans [of be s p1])
      show "pool_run be s p1" using f(1,2) that by (intro run_frame) (simp add: ledger_part_def)
      fix s' :: "'a world" assume "pool_of s' = p1"
      then show "pool_run be s' p'" using run_destroy_all [of be s' stale res2 p2] d valid p' by simp
    qed
    show "n = length stale \<and> (\<forall>r\<in>set stale. destroyed (heap p' ! r))" if "res = Inr n" for n
      using p'(2) [OF that] destroy_all_destroyed [of be p1 stale "()" p2] d valid p'(1) by auto
    show "touches (set stale) (p\<lparr>idle := idle p'\<rparr>) p'" using t f(1) by (simp add: touches_def p'(1))
  qed (rule f(4))
qed

section \<open>Calls in sequence\<close>

text \<open>
  The invariant between calls: the idle table is well formed, for every tenant the quota counts
  exactly the workers that are not destroyed, and all creation permits are free.  \<open>pool_call\<close> is any method call by a caller that owns
  the worker it returns; \<open>invalidate\<close> may hit any worker, as a cancellation does.
\<close>

definition pool_inv :: "'b pool \<Rightarrow> bool" where
  "pool_inv p \<longleftrightarrow> idle_ok p \<and> quota_inv (pool_quota p) \<and>
     (\<forall>t. tenant_count (pool_quota p) t = int (live_workers (heap p) t)) \<and>
     creating_free (pool_quota p) = max_creating (pool_quota p)"

inductive pool_call :: "'b backend \<Rightarrow> 'b pool \<Rightarrow> 'b pool \<Rightarrow> bool" for be :: "'b backend" where
  call_acquire: "acquire be p t rel pol = Some (res, p') \<Longrightarrow> pool_call be p p'"
| call_release: "r < length (heap p) \<Longrightarrow> r \<notin> idle_refs p \<Longrightarrow> pool_release be p r pol = (res, p') \<Longrightarrow> pool_call be p p'"
| call_invalidate: "r < length (heap p) \<Longrightarrow> invalidate be p r = (res, p') \<Longrightarrow> pool_call be p p'"
| call_reap: "reap be p = (res, p') \<Longrightarrow> pool_call be p p'"
| call_reset: "reset_after_restart be p = (res, p') \<Longrightarrow> pool_call be p p'"

text \<open>Creation permits: every call gives back the permit it takes.\<close>

definition slots :: "'b pool \<Rightarrow> int \<times> int" where
  "slots p = (creating_free (pool_quota p), max_creating (pool_quota p))"

lemma release_live_slots [simp]:
  "creating_free (release_live q t) = creating_free q" "max_creating (release_live q t) = max_creating q"
  by (simp_all add: release_live_def Let_def)

lemma reserve_live_slots:
  "reserve_live q t = (x, q') \<Longrightarrow> creating_free q' = creating_free q \<and> max_creating q' = max_creating q"
  by (auto simp: reserve_live_def Let_def split: if_splits)

lemma destroy_slots: "destroy be p r = (res, p') \<Longrightarrow> slots p' = slots p"
  by (auto simp: destroy_def mark_destroyed_def finish_destroy_def slots_def set_worker_def split: if_splits prod.splits)

lemma invalidate_slots: "invalidate be p r = (res, p') \<Longrightarrow> slots p' = slots p"
  using destroy_slots [of be "set_worker r (\<lambda>w. w\<lparr>healthy := False\<rparr>) p" r]
  by (auto simp: invalidate_def slots_def set_worker_def)

lemma destroy_all_slots: "destroy_all be p rs = (res, p') \<Longrightarrow> slots p' = slots p"
  by (induction rs arbitrary: p) (auto dest: destroy_slots split: prod.splits sum.splits)

lemma pick_idle_quota:
  assumes "pick_idle p key rid = (cand, stale, p')"
  shows "pool_quota p' = pool_quota p"
proof -
  define bucket where "bucket = (case map_of (idle p) key of None \<Rightarrow> [] | Some rs \<Rightarrow> rs)"
  obtain c rest st p1 where scan: "scan_bucket p rid (rev bucket) [] = (c, rest, st, p1)" by (metis prod_cases4)
  have "pool_quota p1 = pool_quota p" using scan_bucket_facts [OF scan] by auto
  then show ?thesis using assms scan by (auto simp: pick_idle_def bucket_def [symmetric])
qed

lemma split_idle_quota: "split_idle p items = (stale, p') \<Longrightarrow> pool_quota p' = pool_quota p"
proof (induction items arbitrary: p stale)
  case (Cons kb items)
  obtain key bucket where kb: "kb = (key, bucket)" by fastforce
  obtain kept st p1 where sb: "split_bucket p bucket = (kept, st, p1)" by (metis prod_cases3)
  have "pool_quota p1 = pool_quota p" using split_bucket_facts [OF sb] by auto
  then show ?case using Cons.prems Cons.IH kb sb by (auto simp: Let_def split: prod.splits if_splits)
qed simp

lemma create_worker_slots:
  "create_worker be p t rel pol = Some (res, p') \<Longrightarrow> creating_free (pool_quota p) \<le> max_creating (pool_quota p) \<Longrightarrow> slots p' = slots p"
  by (auto simp: create_worker_def slots_def leave_slot_def unreserve_def add_worker_def creation_slot_enter_def
      creation_slot_exit_def Let_def split: option.splits if_splits prod.splits sum.splits)

definition quiet :: "worker_ref list \<Rightarrow> 'b pool \<Rightarrow> 'b world" where
  "quiet ret p = \<lparr>pool_of = p, reserved = [], pending = [], retired = ret\<rparr>"

lemma quiet_inv: "world_inv (quiet [] p) \<longleftrightarrow> quota_inv (pool_quota p) \<and> (\<forall>t. tenant_count (pool_quota p) t = int (live_workers (heap p) t))"
  by (simp add: world_inv_def quiet_def pending_of_def)

lemma pool_run_accounts:
  assumes inv: "pool_inv p" and run: "\<And>s. pool_of s = p \<Longrightarrow> pool_run be s p'"
  shows "quota_inv (pool_quota p')" "tenant_count (pool_quota p') t = int (live_workers (heap p') t)"
proof -
  have start: "world_inv (quiet [] p)" using inv by (simp add: quiet_inv pool_inv_def)
  obtain ret where "(pool_step be)\<^sup>*\<^sup>* (quiet [] p) ((quiet [] p)\<lparr>pool_of := p', retired := ret @ retired (quiet [] p)\<rparr>)"
    using run [of "quiet [] p"] unfolding pool_run_def by (auto simp: quiet_def)
  then have "(pool_step be)\<^sup>*\<^sup>* (quiet [] p) (quiet ret p')" by (simp add: quiet_def)
  then have "world_inv (quiet ret p')" using start
    by (rule rtranclp_induct) (auto intro: pool_step_inv)
  then show "quota_inv (pool_quota p')" "tenant_count (pool_quota p') t = int (live_workers (heap p') t)"
    by (simp_all add: world_inv_def quiet_def pending_of_def)
qed

context sandbox_backend
begin

lemma pool_call_run: "pool_call be p p' \<Longrightarrow> idle_ok p \<Longrightarrow> idle_ok p' \<and> (\<forall>s. pool_of s = p \<longrightarrow> pool_run be s p')"
proof (induction rule: pool_call.induct)
  case (call_acquire p t rel pol res p')
  then show ?case using acquire_idle_ok acquire_run by blast
next
  case (call_release r p pol res p')
  then show ?case using pool_release_idle_ok run_pool_release by metis
next
  case (call_invalidate r p res p')
  then show ?case using touches_idle_ok [OF invalidate_touches] run_invalidate by metis
next
  case (call_reap p res p')
  show ?case using reap_facts [OF call_reap(2,1)] by metis
next
  case (call_reset p res p')
  then obtain b where p': "p' = p\<lparr>idle := [], pool_backend := b\<rparr>" by (auto simp: reset_after_restart_def split: prod.splits)
  then have "ledger_part p' = ledger_part p" by (simp add: ledger_part_def)
  then show ?case using run_frame by (auto simp: idle_ok_def p')
qed

lemma reuse_worker_slots: "reuse_worker be p r rel pol = (res, p') \<Longrightarrow> slots p' = slots p"
proof -
  assume reuse: "reuse_worker be p r rel pol = (res, p')"
  obtain res1 p1 where t: "ensure_sandbox_ttl be p r pol = (res1, p1)" by fastforce
  obtain res2 p2 where e: "ensure_release be p1 r rel = (res2, p2)" by fastforce
  have "slots p1 = slots p" using prepares_ensure_sandbox_ttl [OF t] by (simp add: prepares_def slots_def)
  moreover have "slots p2 = slots p1" using prepares_ensure_release(1) [OF e] by (simp add: prepares_def slots_def)
  moreover have "slots p3 = slots p1" if "invalidate be p1 r = (x, p3)" for x p3 using that by (rule invalidate_slots)
  moreover have "slots p3 = slots p2" if "invalidate be p2 r = (x, p3)" for x p3 using that by (rule invalidate_slots)
  ultimately show ?thesis using reuse t e
    by (cases res1; cases res2) (auto simp: reuse_worker_def Let_def monotonic_def slots_def set_worker_def split: prod.splits sum.splits)
qed

lemma pool_call_slots: "pool_call be p p' \<Longrightarrow> quota_inv (pool_quota p) \<Longrightarrow> slots p' = slots p"
proof (induction rule: pool_call.induct)
  case (call_acquire p t rel pol res p')
  obtain cand stale p1 where pick: "pick_idle p (pool_key_of t rel) (rel_id rel) = (cand, stale, p1)" by (metis prod_cases3)
  obtain res2 p2 where d: "destroy_all be p1 stale = (res2, p2)" by fastforce
  have "pool_quota p1 = pool_quota p" using pick by (rule pick_idle_quota)
  then have s2: "slots p2 = slots p" using destroy_all_slots [OF d] by (simp add: slots_def)
  have create: "slots p3 = slots p2" if "reserve_live (pool_quota p2) t = (Inr u, q)"
      "create_worker be (p2\<lparr>pool_quota := q\<rparr>) t rel pol = Some (x, p3)" for u q x p3
    using create_worker_slots [OF that(2)] reserve_live_slots [OF that(1)] s2 quota_invD(6) [OF call_acquire(2)] by (simp add: slots_def)
  show ?case
  proof (cases res2; cases cand)
    fix u r assume "res2 = Inr u" "cand = Some r"
    then have "reuse_worker be p2 r rel pol = (res, p')" using call_acquire(1) pick d by (simp add: acquire_def)
    then show ?thesis using reuse_worker_slots s2 by simp
  next
    fix u assume "res2 = Inr u" "cand = None"
    then show ?thesis using call_acquire(1) pick d create s2 reserve_live_slots
      by (auto simp: acquire_def slots_def split: prod.splits sum.splits)
  qed (use call_acquire(1) pick d s2 in \<open>auto simp: acquire_def\<close>)
next
  case (call_release r p pol res p')
  show ?case using call_release(3)
  proof (cases rule: pool_release_cases)
    case (put p3)
    then show ?thesis by (simp add: prepares_def slots_def put_idle_def Let_def)
  next
    case (gone p3)
    then show ?thesis using destroy_slots [OF gone(2)] by (simp add: prepares_def slots_def)
  qed
next
  case (call_invalidate r p res p')
  then show ?case using invalidate_slots by blast
next
  case (call_reap p res p')
  obtain stale p1 where si: "split_idle p (idle p) = (stale, p1)" by fastforce
  have "pool_quota p1 = pool_quota p" using si by (rule split_idle_quota)
  then show ?case using call_reap(1) si destroy_all_slots [of be p1 stale]
    by (auto simp: reap_def slots_def split: prod.splits sum.splits)
next
  case (call_reset p res p')
  then show ?case by (auto simp: reset_after_restart_def slots_def split: prod.splits)
qed

lemma pool_call_inv: "pool_call be p p' \<Longrightarrow> pool_inv p \<Longrightarrow> pool_inv p'"
  using pool_call_run [of p p'] pool_run_accounts [of p be p'] pool_call_slots [of p p']
  by (auto simp: pool_inv_def slots_def)

end

section \<open>Machines\<close>

definition fresh_pool :: "'b pool \<Rightarrow> bool" where
  "fresh_pool p \<longleftrightarrow> (\<exists>mc ml mt q b i ttl rn m clk. quota_init mc ml mt = Inr q \<and> pool_init b q i ttl rn m clk = Inr p)"

lemma fresh_pool_facts:
  assumes "fresh_pool p"
  shows "quota_inv (pool_quota p)" "heap p = []" "idle p = []" "tenant_count (pool_quota p) t = 0"
    "creating_free (pool_quota p) = max_creating (pool_quota p)"
proof -
  obtain mc ml mt q b i ttl rn m clk where q: "quota_init mc ml mt = Inr q" and p: "pool_init b q i ttl rn m clk = Inr p"
    using assms unfolding fresh_pool_def by blast
  have "pool_quota p = q" "heap p = []" "idle p = []" using p by (auto simp: pool_init_def split: if_splits)
  moreover have "tenant_live q = []" "creating_free q = max_creating q" using q by (auto simp: quota_init_def split: if_splits)
  ultimately show "quota_inv (pool_quota p)" "heap p = []" "idle p = []" "tenant_count (pool_quota p) t = 0"
    "creating_free (pool_quota p) = max_creating (pool_quota p)"
    using quota_init_inv [OF q] by (simp_all add: tenant_count_def)
qed

lemma fresh_pool_inv: "fresh_pool p \<Longrightarrow> pool_inv p"
  by (simp add: pool_inv_def fresh_pool_facts idle_ok_def live_workers_def)

interpretation threads: invariant_machine "\<lambda>s. \<exists>p. fresh_pool p \<and> s = quiet [] p" "pool_step be" world_inv for be
proof
  show "world_inv s" if "\<exists>p. fresh_pool p \<and> s = quiet [] p" for s :: "'a world"
    using that quiet_inv fresh_pool_inv by (auto simp: pool_inv_def)
qed (rule pool_step_inv)

sublocale sandbox_backend \<subseteq> calls: invariant_machine fresh_pool "pool_call be" pool_inv
  by unfold_locales (auto intro: fresh_pool_inv pool_call_inv)

context sandbox_backend
begin

lemma pool_reach_inv: "reach fresh_pool (pool_call be) p \<Longrightarrow> pool_inv p"
  by (rule calls.inv_reach)

lemma acquire_waits_for_permit:
  assumes "pool_inv p"
  shows "acquire be p t rel pol \<noteq> None"
proof -
  obtain cand stale p1 where pick: "pick_idle p (pool_key_of t rel) (rel_id rel) = (cand, stale, p1)" by (metis prod_cases3)
  obtain res2 p2 where d: "destroy_all be p1 stale = (res2, p2)" by fastforce
  have "slots p2 = slots p" using destroy_all_slots [OF d] pick_idle_quota [OF pick] by (simp add: slots_def)
  then have "0 < creating_free (pool_quota p2)" using assms by (auto simp: pool_inv_def slots_def dest: quota_invD(4))
  then have "create_worker be (p2\<lparr>pool_quota := q\<rparr>) t rel pol \<noteq> None" if "reserve_live (pool_quota p2) t = (x, q)" for x q
    using create_worker_never_waits [of "p2\<lparr>pool_quota := q\<rparr>"] reserve_live_slots [OF that] by simp
  then show ?thesis using pick d by (auto simp: acquire_def split: sum.splits prod.splits option.splits)
qed

end

section \<open>Properties\<close>

text \<open>A backend that never fails, one that cannot delete, and a pool for the witnesses.\<close>

definition sample_backend :: "nat backend" where
  "sample_backend = \<lparr>
     be_create = \<lambda>b t rel pol ttl. (Inr \<lparr>w_id = replicate b (CHR ''w''), w_endpoint = ''e'', w_token = ''k'', w_tenant_id = t,
       w_runtime_id = env_id (rel_runtime rel), w_profile = rel_profile rel, w_backend_group = ''g'',
       created_monotonic = 0, last_used_monotonic = 0, installed_release_ids = {},
       sandbox_expires_monotonic = Some (of_int ttl), w_runs = 0, healthy = True, destroyed = False, endpoint_headers = []\<rparr>, b + 1),
     be_renew = \<lambda>b w ttl. (Inr (w\<lparr>sandbox_expires_monotonic := Some (of_int ttl)\<rparr>), b),
     be_install = \<lambda>b w rel. (Inr (), b),
     be_run = \<lambda>b w rel req t. (Inl (PyExn ''RuntimeError'' ''no agent''), b),
     be_destroy = \<lambda>b w. (Inr (), b),
     be_cleanup = \<lambda>b. (Inr 0, b)\<rparr>"

definition stuck_backend :: "nat backend" where
  "stuck_backend = sample_backend\<lparr>be_destroy := \<lambda>b w. (Inl (RunnerExn SandboxError ''OPENSANDBOX_HTTP'' ''500'' True), b)\<rparr>"

lemma sample_backend_contract: "sandbox_backend sample_backend"
  by unfold_locales (auto simp: sample_backend_def fresh_worker_def)

definition sample_rel :: operator_release where
  "sample_rel = \<lparr>rel_id = ''r'', artifact_path = ''a'', artifact_sha256 = ''d'',
     rel_runtime = \<lparr>env_id = ''env'', env_image = ''img'', env_python = ''3.12''\<rparr>, entrypoint = ''m:f'',
     rel_profile = ''standard'', input_attributes = [], output_attributes = []\<rparr>"

definition sample_policy :: security_policy where
  "sample_policy = \<lparr>pol_name = ''standard'', sandbox_cluster = ''c'', cpu = ''1'', memory = ''1'', max_timeout_ms = 60000,
     network_allow = [], reuse_sandbox = True\<rparr>"

definition sample_pool :: "nat pool" where
  "sample_pool = \<lparr>pool_backend = 0, pool_quota = \<lparr>max_creating = 1, max_live = 2, max_live_per_tenant = 2,
       creating_free = 1, live = 0, tenant_live = []\<rparr>,
     idle_seconds = 600, orphan_ttl_seconds = 3600, renew_before_seconds = 900, max_installed_releases = 256,
     idle = [], heap = [], clock = (\<lambda>n. of_nat n), ticks = 0\<rparr>"

lemma sample_pool_fresh: "fresh_pool sample_pool"
proof -
  have "quota_init 1 2 2 = Inr (pool_quota sample_pool)" by (simp add: quota_init_def sample_pool_def)
  moreover have "pool_init 0 (pool_quota sample_pool) 600 3600 900 256 (\<lambda>n. of_nat n) = Inr sample_pool"
    by (simp add: pool_init_def sample_pool_def)
  ultimately show ?thesis unfolding fresh_pool_def by blast
qed

lemma sample_reach: "reach fresh_pool (pool_call be) sample_pool"
  by (rule reach_init, rule sample_pool_fresh)

text \<open>C5: However the threads interleave their critical sections, for every tenant the live count is the
  number of workers not yet destroyed plus the reservations in flight plus the destructions in flight,
  the limits hold, and no worker goes to the backend for destruction twice.\<close>

theorem pool_interleaving_accounts:
  assumes "reach (\<lambda>s. \<exists>p. fresh_pool p \<and> s = quiet [] p) (pool_step be) s"
  shows "tenant_count (pool_quota (pool_of s)) t =
      int (live_workers (heap (pool_of s)) t + count_list (reserved s) t + pending_of s t) \<and>
    tenant_count (pool_quota (pool_of s)) t \<le> max_live_per_tenant (pool_quota (pool_of s)) \<and>
    live (pool_quota (pool_of s)) \<le> max_live (pool_quota (pool_of s)) \<and> distinct (pending s @ retired s)"
proof -
  have inv: "world_inv s" using assms by (rule threads.inv_reach)
  show ?thesis using world_invD [OF inv] tenant_count_bounds(2) quota_invD(3) by blast
qed

theorem pool_interleaving_accounts_witness:
  "tenant_count (pool_quota (unreserve (sample_pool\<lparr>pool_quota := snd (reserve_live (pool_quota sample_pool) ''t'')\<rparr>) ''t'')) ''t'' = 0"
proof -
  let ?s0 = "quiet [] sample_pool"
  let ?q = "snd (reserve_live (pool_quota sample_pool) ''t'')"
  let ?s1 = "?s0\<lparr>pool_of := (pool_of ?s0)\<lparr>pool_quota := ?q\<rparr>, reserved := ''t'' # reserved ?s0\<rparr>"
  let ?s2 = "?s1\<lparr>pool_of := unreserve (pool_of ?s1) ''t'', reserved := remove1 ''t'' (reserved ?s1)\<rparr>"
  have "pool_step sample_backend ?s0 ?s1"
    by (rule pool_step.reserve) (simp add: quiet_def sample_pool_def reserve_live_def tenant_count_def)
  moreover have "pool_step sample_backend ?s1 ?s2" by (rule pool_step.unreserve) simp
  moreover have "reach (\<lambda>s. \<exists>p. fresh_pool p \<and> s = quiet [] p) (pool_step sample_backend) ?s0"
    using sample_pool_fresh by (intro reach_init) blast
  ultimately have "reach (\<lambda>s. \<exists>p. fresh_pool p \<and> s = quiet [] p) (pool_step sample_backend) ?s2" by (blast intro: reach_step)
  from pool_interleaving_accounts [OF this, of "''t''"] show ?thesis
    by (simp add: quiet_def sample_pool_def live_workers_def pending_of_def unreserve_def)
qed

text \<open>C32: In every pool reached by method calls on a backend that keeps its contract, \<open>acquire\<close> returns a
  worker of the requested tenant, runtime and profile with the release installed, healthy, not
  destroyed and owned by the caller alone: it is not in the idle table.\<close>

theorem acquire_matches:
  assumes "sandbox_backend be" "reach fresh_pool (pool_call be) p" "acquire be p tenant rel pol = Some (Inr r, p')"
  shows "r < length (heap p') \<and> w_tenant_id (heap p' ! r) = tenant \<and>
    w_runtime_id (heap p' ! r) = env_id (rel_runtime rel) \<and> w_profile (heap p' ! r) = rel_profile rel \<and>
    rel_id rel \<in> installed_release_ids (heap p' ! r) \<and> healthy (heap p' ! r) \<and> \<not> destroyed (heap p' ! r) \<and>
    r \<notin> idle_refs p'"
proof -
  have "idle_ok p" using sandbox_backend.pool_reach_inv [OF assms(1,2)] by (simp add: pool_inv_def)
  from sandbox_backend.acquire_facts [OF assms(1) this assms(3)] show ?thesis
    by (simp add: worker_key_def pool_key_of_def ready_def)
qed

lemma sample_acquire:
  "acquire sample_backend sample_pool ''t'' sample_rel sample_policy =
     Some (Inr 0, snd (the (acquire sample_backend sample_pool ''t'' sample_rel sample_policy)))"
  by (simp add: acquire_def pick_idle_def sample_pool_def reserve_live_def tenant_count_def create_worker_def
      creation_slot_enter_def sample_backend_def install_release_def add_worker_def leave_slot_def)

theorem acquire_matches_witness:
  "w_tenant_id (heap (snd (the (acquire sample_backend sample_pool ''t'' sample_rel sample_policy))) ! 0) = ''t''"
  using acquire_matches [OF sample_backend_contract sample_reach sample_acquire] by simp

text \<open>Between method calls the quota is exact: for every tenant it counts precisely the workers not
  destroyed, failures of the backend included, every creation permit is free, and \<open>acquire\<close> never
  waits for a permit.\<close>

theorem pool_calls_account:
  assumes "sandbox_backend be" "reach fresh_pool (pool_call be) p"
  shows "tenant_count (pool_quota p) t = int (live_workers (heap p) t) \<and> live (pool_quota p) \<le> max_live (pool_quota p) \<and>
    creating_free (pool_quota p) = max_creating (pool_quota p) \<and> acquire be p t rel pol \<noteq> None"
  using sandbox_backend.pool_reach_inv [OF assms] sandbox_backend.acquire_waits_for_permit [OF assms(1)]
  by (auto simp: pool_inv_def quota_invD(3))

theorem pool_calls_account_witness:
  "tenant_count (pool_quota (snd (the (acquire sample_backend sample_pool ''t'' sample_rel sample_policy)))) ''t'' =
     int (live_workers (heap (snd (the (acquire sample_backend sample_pool ''t'' sample_rel sample_policy)))) ''t'')"
  using pool_calls_account [OF sample_backend_contract reach_step, OF sample_reach call_acquire [OF sample_acquire]]
  by blast

text \<open>When \<open>reap\<close> succeeds, exactly the workers it took out of the idle table are destroyed, their
  number is returned, and no other worker is touched.\<close>

theorem reap_destroys_stale:
  assumes ok: "idle_ok p" and reap: "reap be p = (Inr n, p')"
  shows "\<exists>stale. length stale = n \<and> set stale = idle_refs p - idle_refs p' \<and>
    (\<forall>r\<in>set stale. destroyed (heap p' ! r)) \<and> (\<forall>r. r \<notin> set stale \<longrightarrow> heap p' ! r = heap p ! r) \<and>
    idle_refs p' \<subseteq> idle_refs p"
proof -
  obtain stale where s: "set stale \<subseteq> idle_refs p" "idle_refs p' = idle_refs p - set stale"
      "n = length stale \<and> (\<forall>r\<in>set stale. destroyed (heap p' ! r))" "touches (set stale) (p\<lparr>idle := idle p'\<rparr>) p'"
    using reap_facts [OF ok reap] by (metis (no_types, lifting))
  then have "heap p' ! r = heap p ! r" if "r \<notin> set stale" for r using that by (simp add: touches_def)
  then show ?thesis using s by (intro exI [of _ stale]) auto
qed

text \<open>Two idle workers past their idle time, for the witnesses.\<close>

definition sample_worker :: worker where
  "sample_worker = \<lparr>w_id = ''w'', w_endpoint = ''e'', w_token = ''k'', w_tenant_id = ''t'', w_runtime_id = ''env'',
     w_profile = ''standard'', w_backend_group = ''g'', created_monotonic = 0, last_used_monotonic = 0,
     installed_release_ids = {''r''}, sandbox_expires_monotonic = None, w_runs = 1, healthy = True, destroyed = False,
     endpoint_headers = []\<rparr>"

definition stale_pool :: "nat pool" where
  "stale_pool = sample_pool\<lparr>heap := [sample_worker, sample_worker], idle := [((''t'', ''env'', ''standard''), [0, 1])],
     clock := \<lambda>_. 1000, pool_quota := (pool_quota sample_pool)\<lparr>live := 2, tenant_live := [(''t'', 2)]\<rparr>\<rparr>"

lemma stale_pool_ok: "idle_ok stale_pool"
  by (rule idle_okI)
    (auto simp: stale_pool_def sample_pool_def worker_key_def sample_worker_def nth_Cons' split: if_splits)

lemmas reap_eval = reap_def stale_pool_def sample_pool_def sample_worker_def idle_expired_def monotonic_def
  destroy_def mark_destroyed_def set_worker_def finish_destroy_def sample_backend_def stuck_backend_def
  release_live_def tenant_count_def Let_def

theorem reap_destroys_stale_witness:
  "\<exists>p'. reap sample_backend stale_pool = (Inr 2, p') \<and> idle_refs p' \<subseteq> idle_refs stale_pool"
proof -
  have "fst (reap sample_backend stale_pool) = Inr 2" by (simp add: reap_eval)
  then have r: "reap sample_backend stale_pool = (Inr 2, snd (reap sample_backend stale_pool))" by (metis prod.collapse)
  from reap_destroys_stale [OF stale_pool_ok r] show ?thesis using r by blast
qed

text \<open>One failing deletion aborts \<open>reap\<close> and strands the rest: when the backend fails on the first
  stale worker, every later one has left the idle table, is not destroyed, and keeps its quota slot,
  and no later call of \<open>reap\<close> can see it.\<close>

theorem reap_failure_strands:
  assumes ok: "idle_ok p" and stale: "split_idle p (idle p) = (r # rs, p1)" and fail: "destroy be p1 r = (Inl e, p2)"
  shows "reap be p = (Inl e, p2) \<and> (\<forall>r'\<in>set rs. r' \<notin> idle_refs p2 \<and> (r' \<noteq> r \<longrightarrow> heap p2 ! r' = heap p ! r'))"
proof -
  have dist: "distinct (map fst (idle p))" using ok by (simp add: idle_ok_def)
  from split_idle_facts [OF stale ok dist idle_items [OF ok]]
  have f: "heap p1 = heap p" "idle_refs p1 = idle_refs p - set (r # rs)" by simp_all
  note t = destroy_facts(1) [OF fail]
  have "reap be p = (Inl e, p2)" using stale fail by (simp add: reap_def)
  moreover have "r' \<notin> idle_refs p2" if "r' \<in> set rs" for r' using touches_idle_refs [OF t] f(2) that by simp
  moreover have "heap p2 ! r' = heap p ! r'" if "r' \<noteq> r" for r' using t f(1) that by (simp add: touches_def)
  ultimately show ?thesis by blast
qed

theorem reap_failure_strands_witness:
  "\<not> destroyed (heap (snd (reap stuck_backend stale_pool)) ! 1) \<and> 1 \<notin> idle_refs (snd (reap stuck_backend stale_pool)) \<and>
   tenant_count (pool_quota (snd (reap stuck_backend stale_pool))) ''t'' = 1"
proof -
  let ?p1 = "snd (split_idle stale_pool (idle stale_pool))"
  have s: "split_idle stale_pool (idle stale_pool) = (0 # [1], ?p1)" by (simp add: reap_eval)
  obtain e p2 where d: "destroy stuck_backend ?p1 0 = (Inl e, p2)" by (simp add: reap_eval)
  note strand = reap_failure_strands [OF stale_pool_ok s d]
  have "snd (reap stuck_backend stale_pool) = p2" using strand by simp
  moreover have "tenant_count (pool_quota p2) ''t'' = 1" using d by (auto simp: reap_eval)
  ultimately show ?thesis using strand by (simp add: stale_pool_def sample_worker_def)
qed

end
