(* ===== verification/Runner_Service.thy ===== *)
theory Runner_Service
  imports Catalog_Store Worker_Pool "HOL-Library.Multiset"
begin

text \<open>
  \<^verbatim>\<open>runner_engine/service.py\<close>: invocation, idempotency, leases and cancellation on top of the
  catalog, the database and the pool.  The digest \<open>hashlib.sha256(..).hexdigest()\<close> is the parameter
  \<open>h\<close>.  Wall clock, database clock and \<open>uuid4\<close> are streams; every transaction draws the next index.
  \<open>invoke\<close> is the composition of its phases: admission, claim, execution, and the handlers of the
  \<open>try\<close> statement.
\<close>

section \<open>State and limits\<close>

definition MAX_INLINE_BYTES :: int where
  "MAX_INLINE_BYTES = 8 * 1024 * 1024"

definition MAX_ATTRIBUTES :: int where
  "MAX_ATTRIBUTES = 128"

definition MAX_ATTRIBUTE_BYTES :: int where
  "MAX_ATTRIBUTE_BYTES = 64 * 1024"

definition runner_error :: "string \<Rightarrow> string \<Rightarrow> bool \<Rightarrow> exn" where
  "runner_error code msg retry = RunnerExn RunnerError code msg retry"

record 'b service =
  svc_catalog :: catalog
  svc_db :: runner_db
  svc_pool :: "'b pool"
  svc_policies :: "(string, security_policy) dict"
  lease_ttl_ms :: int
  idempotency_retention_ms :: int
  run_retention_ms :: int
  active :: "(string, active_run) dict"
  reaper_started :: bool
  stopping :: bool
  wall :: "nat \<Rightarrow> int"
  db_wall :: "nat \<Rightarrow> int"
  uuids :: "nat \<Rightarrow> string"
  draws :: nat

definition now_of :: "'b service \<Rightarrow> int" where
  "now_of s = wall s (draws s)"

definition dbnow_of :: "'b service \<Rightarrow> int" where
  "dbnow_of s = db_wall s (draws s)"

definition draw :: "'b service \<Rightarrow> 'b service" where
  "draw s = s\<lparr>draws := draws s + 1\<rparr>"

definition put_db :: "runner_db \<Rightarrow> 'b service \<Rightarrow> 'b service" where
  "put_db db s = (draw s)\<lparr>svc_db := db\<rparr>"

definition put_pool :: "'b pool \<Rightarrow> 'b service \<Rightarrow> 'b service" where
  "put_pool p s = s\<lparr>svc_pool := p\<rparr>"

section \<open>Attributes and fingerprint\<close>

definition filter_attributes :: "(string, string) dict \<Rightarrow> string list \<Rightarrow> (string, string) dict" where
  "filter_attributes values allowed =
     (if allowed = [] then [] else filter (\<lambda>(k, v). k \<in> set allowed) values)"

definition attribute_bytes :: "(string, string) dict \<Rightarrow> int" where
  "attribute_bytes values = (\<Sum>(k, v)\<leftarrow>values. int (length k) + int (length v))"

definition validate_attributes :: "(string, string) dict \<Rightarrow> unit result" where
  "validate_attributes values =
     (if MAX_ATTRIBUTES < int (length values) then
        Inl (runner_error ''TOO_MANY_ATTRIBUTES'' ''attribute count exceeds limit'' False)
      else if MAX_ATTRIBUTE_BYTES < attribute_bytes values then
        Inl (runner_error ''ATTRIBUTES_TOO_LARGE'' ''attributes exceed byte limit'' False)
      else Inr ())"

definition request_identity :: "(bytes \<Rightarrow> string) \<Rightarrow> run_request \<Rightarrow> json" where
  "request_identity h req = JObj
     [(''schema'', JInt 1),
      (''release_id'', JStr (req_release_id req)),
      (''content_sha256'', JStr (h (req_content req))),
      (''attributes'', str_obj (sort_key fst (req_attributes req))),
      (''parameters'', str_obj (sort_key fst (req_parameters req))),
      (''timeout_ms'', JInt (req_timeout_ms req))]"

definition request_fingerprint :: "(bytes \<Rightarrow> string) \<Rightarrow> run_request \<Rightarrow> string" where
  "request_fingerprint h req = h (canonical_json (request_identity h req))"

section \<open>Life cycle and leases\<close>

definition startup :: "'b backend \<Rightarrow> 'b service \<Rightarrow> nat result \<times> 'b service" where
  "startup be s =
     (case reset_after_restart be (svc_pool s) of
        (Inl e, p) \<Rightarrow> (Inl e, put_pool p s)
      | (Inr cleaned, p) \<Rightarrow>
          let s0 = put_pool p s;
              s1 = put_db (snd (reset_running (svc_db s0) (dbnow_of s0))) s0;
              s2 = put_db (snd (purge_expired_leases (svc_db s1) (dbnow_of s1))) s1;
              s3 = put_db (snd (purge_expired_idempotency (svc_db s2) (dbnow_of s2))) s2 in
          (Inr cleaned, s3))"

definition start_background :: "'b service \<Rightarrow> int \<Rightarrow> unit result \<times> 'b service" where
  "start_background s interval =
     (if interval \<le> 0 then (Inl (PyExn ''ValueError'' ''interval_seconds must be positive''), s)
      else (Inr (), s\<lparr>reaper_started := True\<rparr>))"

text \<open>One round of the background loop; an exception is logged and ends the round.\<close>

definition maintain :: "'b backend \<Rightarrow> 'b service \<Rightarrow> 'b service" where
  "maintain be s =
     (if \<not> reaper_started s \<or> stopping s then s
      else
        (case reap be (svc_pool s) of
           (Inl e, p) \<Rightarrow> put_pool p s
         | (Inr n, p) \<Rightarrow>
             let s0 = put_pool p s;
                 s1 = put_db (snd (purge_expired_leases (svc_db s0) (dbnow_of s0))) s0;
                 s2 = put_db (snd (purge_expired_idempotency (svc_db s1) (dbnow_of s1))) s1 in
             put_db (snd (purge_old_runs (svc_db s2) (now_of s2) (dbnow_of s2) (run_retention_ms s2))) s2))"

definition shutdown :: "'b service \<Rightarrow> 'b service" where
  "shutdown s = s\<lparr>stopping := True\<rparr>"

definition acquire_lease :: "'b service \<Rightarrow> string \<Rightarrow> string \<Rightarrow> string \<Rightarrow> string \<Rightarrow> lease result \<times> 'b service" where
  "acquire_lease s tenant project processor release =
     (case catalog_get (svc_catalog s) release of
        Inl e \<Rightarrow> (Inl e, s)
      | Inr rel \<Rightarrow>
          if map_of (svc_policies s) (rel_profile rel) = None then
            (Inl (runner_error ''UNKNOWN_SECURITY_POLICY'' (''release uses unknown profile '' @ rel_profile rel) False), s)
          else
            let (res, db) = Runner_State.create_lease (svc_db s) (uuids s (draws s)) (now_of s) (dbnow_of s)
                              tenant project processor release (lease_ttl_ms s) in
            (res, put_db db s))"

definition get_lease :: "'b service \<Rightarrow> string \<Rightarrow> string \<Rightarrow> lease result \<times> 'b service" where
  "get_lease s tenant lid = (require_lease (svc_db s) (now_of s) lid tenant None, draw s)"

definition service_renew_lease :: "'b service \<Rightarrow> string \<Rightarrow> string \<Rightarrow> lease result \<times> 'b service" where
  "service_renew_lease s tenant lid =
     (let (res, db) = Runner_State.renew_lease (svc_db s) (now_of s) (now_of (draw s)) (dbnow_of (draw s)) lid tenant (lease_ttl_ms s) in
      (res, put_db db (draw s)))"

definition release_lease :: "'b service \<Rightarrow> string \<Rightarrow> string \<Rightarrow> unit result \<times> 'b service" where
  "release_lease s tenant lid =
     (let (res, db) = Runner_State.delete_lease (svc_db s) lid tenant in (res, put_db db s))"

section \<open>Invocation\<close>

record admitted =
  adm_lease :: lease
  adm_release :: operator_release
  adm_policy :: security_policy
  adm_request :: run_request
  adm_fingerprint :: string

definition safe_request :: "run_request \<Rightarrow> operator_release \<Rightarrow> security_policy \<Rightarrow> run_request" where
  "safe_request req rel pol =
     req\<lparr>req_attributes := filter_attributes (req_attributes req) (input_attributes rel),
         req_timeout_ms := min (max 1 (req_timeout_ms req)) (max_timeout_ms pol)\<rparr>"

text \<open>Everything before the claim: limits, lease, release, policy, attributes, fingerprint and the first
  look at the active table.\<close>

definition admit :: "(bytes \<Rightarrow> string) \<Rightarrow> 'b service \<Rightarrow> run_request \<Rightarrow> admitted result" where
  "admit h s req =
     (if MAX_INLINE_BYTES < int (length (req_content req)) then
        Inl (runner_error ''INLINE_CONTENT_TOO_LARGE'' ''inline content exceeds 8 MiB'' False)
      else if req_idempotency_key req = [] then
        Inl (runner_error ''IDEMPOTENCY_REQUIRED'' ''idempotency_key is required'' False)
      else
        result_bind (require_lease (svc_db s) (now_of s) (req_lease_id req) (req_tenant_id req) (Some (req_release_id req))) (\<lambda>lease.
        result_bind (catalog_get (svc_catalog s) (req_release_id req)) (\<lambda>rel.
        case map_of (svc_policies s) (rel_profile rel) of
          None \<Rightarrow> Inl (runner_error ''UNKNOWN_SECURITY_POLICY'' (''unknown profile '' @ rel_profile rel) False)
        | Some pol \<Rightarrow>
            let safe = safe_request req rel pol in
            result_bind (validate_attributes (req_attributes safe)) (\<lambda>_.
            result_bind (validate_attributes (req_parameters req)) (\<lambda>_.
            if map_of (active s) (req_invocation_id req) \<noteq> None then
              Inl (runner_error ''INVOCATION_ID_IN_USE'' ''invocation id is already active'' False)
            else Inr \<lparr>adm_lease = lease, adm_release = rel, adm_policy = pol, adm_request = safe,
                      adm_fingerprint = request_fingerprint h safe\<rparr>)))))"

definition claim_args :: "run_request \<Rightarrow> admitted \<Rightarrow> run_args" where
  "claim_args req a =
     \<lparr>arg_key = req_idempotency_key req, arg_tenant_id = req_tenant_id req,
      arg_project_id = lease_project_id (adm_lease a), arg_processor_id = lease_processor_id (adm_lease a),
      arg_lease_id = req_lease_id req, arg_release_id = req_release_id req,
      arg_invocation_id = req_invocation_id req, arg_fingerprint = adm_fingerprint a\<rparr>"

definition reusable_codes :: "string list" where
  "reusable_codes = [''TIMEOUT'', ''USER_EXCEPTION'', ''USER_PROCESS_EXITED'', ''OUTPUT_LIMIT'',
     ''INVALID_CHILD_RESPONSE'', ''OPERATOR_REPORTED_FAILURE'']"

text \<open>The output limits of lines 216 to 231.\<close>

definition safe_result :: "operator_release \<Rightarrow> run_result \<Rightarrow> run_result result" where
  "safe_result rel res =
     (let attrs = filter_attributes (res_attributes res) (output_attributes rel) in
      result_bind (validate_attributes attrs) (\<lambda>_.
      if MAX_INLINE_BYTES < int (length (res_content res)) then
        Inl (runner_error ''OUTPUT_TOO_LARGE'' ''operator output exceeds 8 MiB'' False)
      else Inr (res\<lparr>res_attributes := attrs\<rparr>)))"

definition give_back :: "'b backend \<Rightarrow> 'b pool \<Rightarrow> worker_ref \<Rightarrow> run_result \<Rightarrow> security_policy \<Rightarrow> 'b pool" where
  "give_back be p r res pol =
     snd (if res_status res = ''SUCCEEDED'' \<or> res_error_code res \<in> set reusable_codes
          then pool_release be p r pol else invalidate be p r)"

record attempt =
  att_outcome :: "run_result result"
  att_worker :: "worker_ref option"
  att_finished :: bool

text \<open>
  The body of the \<open>try\<close> statement, lines 200 to 261: entering the active table, the call of the
  backend, and what follows it.  An \<open>attempt\<close> is how the body ends, with the worker variable and the
  flag \<open>run_finished\<close> at that point.
\<close>

definition register_active :: "'b service \<Rightarrow> run_request \<Rightarrow> worker_ref \<Rightarrow> 'b service" where
  "register_active s req r =
     s\<lparr>active := AList.update (req_invocation_id req)
         \<lparr>act_tenant_id = req_tenant_id req, act_lease_id = req_lease_id req,
          act_release_id = req_release_id req, act_worker = r\<rparr> (active s)\<rparr>"

definition call_backend :: "'b backend \<Rightarrow> 'b service \<Rightarrow> admitted \<Rightarrow> worker_ref \<Rightarrow> run_result result \<times> 'b service" where
  "call_backend be s a r =
     (let p = svc_pool s;
          (res, b) = be_run be (pool_backend p) (heap p ! r) (adm_release a) (adm_request a) (req_timeout_ms (adm_request a)) in
      (res, put_pool (p\<lparr>pool_backend := b\<rparr>) s))"

definition persist :: "'b backend \<Rightarrow> 'b service \<Rightarrow> run_request \<Rightarrow> admitted \<Rightarrow> string \<Rightarrow> worker_ref \<Rightarrow> run_result result \<Rightarrow> attempt \<times> 'b service" where
  "persist be s req a run_id r res =
     (case result_bind res (safe_result (adm_release a)) of
        Inl e \<Rightarrow> (\<lparr>att_outcome = Inl e, att_worker = Some r, att_finished = False\<rparr>, s)
      | Inr result \<Rightarrow>
          (case finish_run (svc_db s) (now_of s) (dbnow_of s) run_id (req_idempotency_key req) (req_tenant_id req)
                  (req_release_id req) result (idempotency_retention_ms s) of
             (Inl e, db) \<Rightarrow> (\<lparr>att_outcome = Inl e, att_worker = Some r, att_finished = False\<rparr>, put_db db s)
           | (Inr _, db) \<Rightarrow>
               (\<lparr>att_outcome = Inr result, att_worker = None, att_finished = True\<rparr>,
                put_pool (give_back be (svc_pool s) r result (adm_policy a)) (put_db db s))))"

definition run_on_worker :: "'b backend \<Rightarrow> 'b service \<Rightarrow> run_request \<Rightarrow> admitted \<Rightarrow> string \<Rightarrow> worker_ref \<Rightarrow> attempt \<times> 'b service" where
  "run_on_worker be s req a run_id r =
     (let (res, s1) = call_backend be (register_active s req r) a r in persist be s1 req a run_id r res)"

definition attempt_run :: "'b backend \<Rightarrow> 'b service \<Rightarrow> run_request \<Rightarrow> admitted \<Rightarrow> string \<Rightarrow> (attempt \<times> 'b service) option" where
  "attempt_run be s req a run_id =
     (case acquire be (svc_pool s) (req_tenant_id req) (adm_release a) (adm_policy a) of
        None \<Rightarrow> None
      | Some (Inl e, p) \<Rightarrow> Some (\<lparr>att_outcome = Inl e, att_worker = None, att_finished = False\<rparr>, put_pool p s)
      | Some (Inr r, p) \<Rightarrow>
          let s1 = put_pool p s in
          Some (if map_of (active s1) (req_invocation_id req) \<noteq> None then
              (case invalidate be p r of
                 (Inl e, p') \<Rightarrow> (\<lparr>att_outcome = Inl e, att_worker = Some r, att_finished = False\<rparr>, put_pool p' s1)
               | (Inr _, p') \<Rightarrow>
                   (\<lparr>att_outcome = Inl (runner_error ''INVOCATION_ID_IN_USE'' ''invocation id became active concurrently'' False),
                     att_worker = None, att_finished = False\<rparr>, put_pool p' s1))
            else run_on_worker be s1 req a run_id r))"

text \<open>The \<open>except\<close> and \<open>finally\<close> clauses, lines 263 to 302.\<close>

definition infrastructure_error :: "exn \<Rightarrow> exn" where
  "infrastructure_error e =
     (if is_runner_error e then e else runner_error ''RUNNER_INFRASTRUCTURE_ERROR'' (exn_str e) True)"

definition settle :: "'b backend \<Rightarrow> run_request \<Rightarrow> string \<Rightarrow> attempt \<Rightarrow> 'b service \<Rightarrow> run_result result \<times> 'b service" where
  "settle be req run_id att s =
     (let leave = (\<lambda>s'. s'\<lparr>active := AList.delete (req_invocation_id req) (active s')\<rparr>) in
      case att_outcome att of
        Inr result \<Rightarrow> (Inr result, leave s)
      | Inl e \<Rightarrow>
          let s1 = (case att_worker att of
                      None \<Rightarrow> s
                    | Some r \<Rightarrow> put_pool (snd (invalidate be (svc_pool s) r)) s);
              s2 = (if att_finished att then s1
                    else put_db (abandon_run (svc_db s1) (dbnow_of s1) run_id (req_idempotency_key req) (req_tenant_id req)
                                   (req_release_id req) (exn_code (infrastructure_error e)) (exn_str e)) s1) in
          (Inl (infrastructure_error e), leave s2))"

definition execute :: "'b backend \<Rightarrow> 'b service \<Rightarrow> run_request \<Rightarrow> admitted \<Rightarrow> string \<Rightarrow> (run_result result \<times> 'b service) option" where
  "execute be s req a run_id =
     map_option (\<lambda>(att, s'). settle be req run_id att s') (attempt_run be s req a run_id)"

definition invoke :: "(bytes \<Rightarrow> string) \<Rightarrow> 'b backend \<Rightarrow> 'b service \<Rightarrow> run_request \<Rightarrow> (run_result result \<times> 'b service) option" where
  "invoke h be s req =
     (case admit h s req of
        Inl e \<Rightarrow> Some (Inl e, draw s)
      | Inr a \<Rightarrow>
          let s1 = draw s;
              (claim, db) = begin_run (svc_db s1) (uuids s1 (draws s1)) (now_of s1) (dbnow_of s1) (claim_args req a);
              s2 = put_db db s1 in
          case claim of
            Inl e \<Rightarrow> Some (Inl e, s2)
          | Inr c \<Rightarrow>
              (case cached_result c of
                 Some res \<Rightarrow> Some (Inr res, s2)
               | None \<Rightarrow>
                   (case claim_run_id c of
                      None \<Rightarrow> Some (Inl (runner_error ''RUN_STATE_INVALID'' ''new execution did not receive a run id'' True), s2)
                    | Some run_id \<Rightarrow> execute be s2 req a run_id)))"

definition cancel :: "'b backend \<Rightarrow> 'b service \<Rightarrow> string \<Rightarrow> string \<Rightarrow> string \<Rightarrow> bool result \<times> 'b service" where
  "cancel be s tenant lid invocation =
     (case require_lease (svc_db s) (now_of s) lid tenant None of
        Inl e \<Rightarrow> (Inl e, draw s)
      | Inr _ \<Rightarrow>
          (case map_of (active s) invocation of
             None \<Rightarrow> (Inr False, draw s)
           | Some act \<Rightarrow>
               if act_tenant_id act \<noteq> tenant \<or> act_lease_id act \<noteq> lid then
                 (Inl (runner_error ''CANCEL_FORBIDDEN'' ''invocation does not belong to this tenant/lease'' False), draw s)
               else
                 let s1 = (draw s)\<lparr>active := AList.delete invocation (active s)\<rparr> in
                 (case invalidate be (svc_pool s1) (act_worker act) of
                    (Inl e, p) \<Rightarrow> (Inl e, put_pool p s1)
                  | (Inr _, p) \<Rightarrow> (Inr True, put_pool p s1))))"

section \<open>Attributes\<close>

lemma filter_attributes_keys:
  "fst ` set (filter_attributes d allowed) \<subseteq> set allowed" "set (filter_attributes d allowed) \<subseteq> set d"
  by (auto simp: filter_attributes_def)

lemma validate_attributes_ok:
  "validate_attributes d = Inr u \<longleftrightarrow> int (length d) \<le> MAX_ATTRIBUTES \<and> attribute_bytes d \<le> MAX_ATTRIBUTE_BYTES"
  by (auto simp: validate_attributes_def)

text \<open>What the service guarantees of a result that an operator produced.\<close>

definition within_limits :: "operator_release \<Rightarrow> run_result \<Rightarrow> bool" where
  "within_limits rel res \<longleftrightarrow>
     fst ` set (res_attributes res) \<subseteq> set (output_attributes rel) \<and>
     int (length (res_attributes res)) \<le> MAX_ATTRIBUTES \<and> attribute_bytes (res_attributes res) \<le> MAX_ATTRIBUTE_BYTES \<and>
     int (length (res_content res)) \<le> MAX_INLINE_BYTES"

lemma safe_result_within_limits: "safe_result rel res = Inr res' \<Longrightarrow> within_limits rel res'"
  using filter_attributes_keys(1) [of "res_attributes res" "output_attributes rel"]
  by (simp add: safe_result_def Let_def result_bind_ok validate_attributes_ok split: if_splits)
    (clarsimp simp: within_limits_def)

section \<open>Frame lemmas of the phases\<close>

lemma put_simps [simp]:
  "svc_db (put_db db s) = db" "svc_pool (put_db db s) = svc_pool s" "active (put_db db s) = active s"
  "svc_pool (put_pool p s) = p" "svc_db (put_pool p s) = svc_db s" "active (put_pool p s) = active s"
  "svc_db (draw s) = svc_db s" "svc_pool (draw s) = svc_pool s" "active (draw s) = active s"
  "svc_catalog (draw s) = svc_catalog s" "svc_catalog (put_db db s) = svc_catalog s" "svc_catalog (put_pool p s) = svc_catalog s"
  by (simp_all add: put_db_def put_pool_def draw_def)

definition req_key :: "run_request \<Rightarrow> string \<times> string \<times> string" where
  "req_key req = (req_tenant_id req, req_release_id req, req_idempotency_key req)"

lemma args_key_claim [simp]: "args_key (claim_args req a) = req_key req" "arg_fingerprint (claim_args req a) = adm_fingerprint a"
  by (simp_all add: claim_args_def args_key_def req_key_def)

lemma begin_run_args_match:
  assumes "begin_run db uuid now dbnow a = (Inr claim, db1)" "claim_run_id claim = Some rid"
  shows "args_match db1 rid (args_key a)"
proof -
  have fresh: "uuid \<notin> r_run_id ` set (db_runs db)" using begin_run_fresh [OF assms] .
  moreover have "rid = uuid \<and> db_runs db1 = db_runs db @ [new_run_row dbnow uuid a]" using assms
    by (auto simp: begin_run_def Let_def claim_run_def split: option.splits sum.splits if_splits)
  ultimately show ?thesis by (auto simp: args_match_def args_key_def image_iff)
qed

text \<open>The state that \<open>execute\<close> starts from: the tables and the pool are in order and the run is claimed.\<close>

definition claimed_for :: "'b service \<Rightarrow> run_request \<Rightarrow> string \<Rightarrow> string \<Rightarrow> bool" where
  "claimed_for s req fp run_id \<longleftrightarrow>
     db_inv (svc_db s) \<and> idem_view (svc_db s) (req_key req) = Some (InFlight fp run_id) \<and>
     args_match (svc_db s) run_id (req_key req)"

lemma pool_inv_backend [simp]: "pool_inv (p\<lparr>pool_backend := b\<rparr>) = pool_inv p"
  by (simp add: pool_inv_def idle_ok_def)

definition stored_slot :: "'b service \<Rightarrow> string \<Rightarrow> run_result \<Rightarrow> slot" where
  "stored_slot s fp res = Finished fp (Inr res) (\<not> res_retryable res)
     (if res_retryable res then now_of s else now_of s + idempotency_retention_ms s * 1000)"

lemma persist_cases:
  assumes claimed: "claimed_for s req fp run_id" and run: "persist be s req a run_id r res = (att, s')"
  obtains (failed) e where "att = \<lparr>att_outcome = Inl e, att_worker = Some r, att_finished = False\<rparr>" "s' = s"
  | (finished) result where "att = \<lparr>att_outcome = Inr result, att_worker = None, att_finished = True\<rparr>"
      "within_limits (adm_release a) result" "db_inv (svc_db s')" "active s' = active s"
      "idem_view (svc_db s') = (idem_view (svc_db s))(req_key req \<mapsto> stored_slot s fp result)"
      "svc_pool s' = give_back be (svc_pool s) r result (adm_policy a)"
proof (cases "result_bind res (safe_result (adm_release a))")
  case (Inl e)
  then show thesis using run by (intro failed [of e]) (auto simp: persist_def)
next
  case (Inr result)
  have inv: "db_inv (svc_db s)"
    and slot: "idem_view (svc_db s) (req_tenant_id req, req_release_id req, req_idempotency_key req) = Some (InFlight fp run_id)"
    using claimed by (simp_all add: claimed_for_def req_key_def)
  have lim: "within_limits (adm_release a) result" using Inr safe_result_within_limits by (auto simp: result_bind_ok)
  define db where "db = snd (finish_run (svc_db s) (now_of s) (dbnow_of s) run_id (req_idempotency_key req) (req_tenant_id req)
                (req_release_id req) result (idempotency_retention_ms s))"
  note fin = finish_run_claimed [OF inv slot, of "now_of s" "dbnow_of s" result "idempotency_retention_ms s"]
  have f: "finish_run (svc_db s) (now_of s) (dbnow_of s) run_id (req_idempotency_key req) (req_tenant_id req)
                (req_release_id req) result (idempotency_retention_ms s) = (Inr (), db)"
    using fin(1) unfolding db_def by (metis prod.collapse)
  have "db_inv db" unfolding db_def by (rule finish_run_inv [OF inv])
  moreover have "att = \<lparr>att_outcome = Inr result, att_worker = None, att_finished = True\<rparr>"
    "s' = put_pool (give_back be (svc_pool s) r result (adm_policy a)) (put_db db s)"
    using run Inr f by (simp_all add: persist_def)
  moreover have "idem_view db = (idem_view (svc_db s))(req_key req \<mapsto> stored_slot s fp result)"
    using fin(2) by (simp add: db_def stored_slot_def req_key_def)
  ultimately show thesis using lim by (intro finished [of result]) simp_all
qed

lemma settle_active: "active (snd (settle be req run_id att s)) = AList.delete (req_invocation_id req) (active s)"
  by (simp add: settle_def Let_def split: sum.splits option.splits)

lemma settle_failed:
  assumes claimed: "claimed_for s req fp run_id" and att: "att_outcome att = Inl e" "att_finished att = False"
    and st: "settle be req run_id att s = (out, s')"
  shows "out = Inl (infrastructure_error e)" "db_inv (svc_db s')"
    "idem_view (svc_db s') = (idem_view (svc_db s))(req_key req := None)"
    "svc_pool s' = (case att_worker att of None \<Rightarrow> svc_pool s | Some r \<Rightarrow> snd (invalidate be (svc_pool s) r))"
proof -
  have claim: "db_inv (svc_db s)" "args_match (svc_db s) run_id (req_tenant_id req, req_release_id req, req_idempotency_key req)"
      "idem_view (svc_db s) (req_tenant_id req, req_release_id req, req_idempotency_key req) = Some (InFlight fp run_id)"
    using claimed by (simp_all add: claimed_for_def req_key_def)
  obtain n c m where db: "svc_db s' = abandon_run (svc_db s) n run_id (req_idempotency_key req) (req_tenant_id req) (req_release_id req) c m"
    using st att by (auto simp: settle_def Let_def split: option.splits)
  show "out = Inl (infrastructure_error e)" using st att by (auto simp: settle_def Let_def)
  show "db_inv (svc_db s')" unfolding db using claim(1,2) by (rule abandon_run_inv)
  show "idem_view (svc_db s') = (idem_view (svc_db s))(req_key req := None)"
    unfolding db abandon_run_view [OF claim(1)] using claim(3) by (simp add: spec_abandon_def req_key_def)
  show "svc_pool s' = (case att_worker att of None \<Rightarrow> svc_pool s | Some r \<Rightarrow> snd (invalidate be (svc_pool s) r))"
    using st att by (auto simp: settle_def Let_def split: option.splits)
qed

lemma settle_done:
  "att_outcome att = Inr res \<Longrightarrow> settle be req run_id att s = (out, s') \<Longrightarrow>
    out = Inr res \<and> svc_db s' = svc_db s \<and> svc_pool s' = svc_pool s"
  by (auto simp: settle_def Let_def)

context sandbox_backend
begin

lemma invalidate_inv:
  assumes "pool_inv p" "r < length (heap p)"
  shows "pool_inv (snd (invalidate be p r))" "length (heap (snd (invalidate be p r))) = length (heap p)"
  using pool_call_inv [OF call_invalidate [OF assms(2) prod.collapse [symmetric]] assms(1)]
    touches_length [OF invalidate_touches [OF prod.collapse [symmetric]]] by simp_all

lemma give_back_inv:
  assumes "pool_inv p" "r < length (heap p)" "r \<notin> idle_refs p"
  shows "pool_inv (give_back be p r res pol)"
  using pool_call_inv [OF call_release [OF assms(2,3) prod.collapse [symmetric]] assms(1)] invalidate_inv(1) [OF assms(1,2)]
  by (simp add: give_back_def)

text \<open>How the body of the \<open>try\<close> statement can end, and in what state.\<close>

lemma run_on_worker_cases:
  assumes claimed: "claimed_for s req fp run_id" and pool: "pool_inv (svc_pool s)"
    and r: "r < length (heap (svc_pool s))" "r \<notin> idle_refs (svc_pool s)" and run: "run_on_worker be s req a run_id r = (att, s')"
  obtains (failed) e where "att = \<lparr>att_outcome = Inl e, att_worker = Some r, att_finished = False\<rparr>"
      "svc_db s' = svc_db s" "pool_inv (svc_pool s')" "r < length (heap (svc_pool s'))"
  | (finished) res where "att = \<lparr>att_outcome = Inr res, att_worker = None, att_finished = True\<rparr>"
      "within_limits (adm_release a) res" "db_inv (svc_db s')" "pool_inv (svc_pool s')"
      "idem_view (svc_db s') = (idem_view (svc_db s))(req_key req \<mapsto> stored_slot s fp res)"
proof -
  define s0 where "s0 = register_active s req r"
  have s0: "svc_pool s0 = svc_pool s" "svc_db s0 = svc_db s" by (simp_all add: s0_def register_active_def)
  obtain res b where "be_run be (pool_backend (svc_pool s)) (heap (svc_pool s) ! r) (adm_release a) (adm_request a)
      (req_timeout_ms (adm_request a)) = (res, b)" by fastforce
  then have c: "call_backend be s0 a r = (res, put_pool ((svc_pool s)\<lparr>pool_backend := b\<rparr>) s0)"
    by (simp add: call_backend_def s0)
  define s2 where "s2 = put_pool ((svc_pool s)\<lparr>pool_backend := b\<rparr>) s0"
  have s2: "svc_db s2 = svc_db s" "svc_pool s2 = (svc_pool s)\<lparr>pool_backend := b\<rparr>" "stored_slot s2 = stored_slot s"
    by (simp_all add: s2_def s0) (simp add: s0_def register_active_def put_pool_def stored_slot_def now_of_def fun_eq_iff)
  have per: "persist be s2 req a run_id r res = (att, s')" using run c by (simp add: run_on_worker_def s2_def s0_def)
  have "claimed_for s2 req fp run_id" using claimed s2(1) by (simp add: claimed_for_def)
  then show thesis using per
  proof (cases rule: persist_cases)
    case (failed e)
    then show thesis using s2 pool r(1) that(1) by simp
  next
    case (finished result)
    have "pool_inv (svc_pool s')"
      using give_back_inv [of "(svc_pool s)\<lparr>pool_backend := b\<rparr>" r result] pool r finished(6) s2(2) by (simp add: idle_refs_def)
    then show thesis using finished s2 that(2) by simp
  qed
qed

lemma attempt_run_cases:
  assumes claimed: "claimed_for s req fp run_id" and pool: "pool_inv (svc_pool s)" and at: "attempt_run be s req a run_id = Some (att, s')"
  obtains (failed) e where "att_outcome att = Inl e" "att_finished att = False" "svc_db s' = svc_db s" "pool_inv (svc_pool s')"
      "\<And>r. att_worker att = Some r \<Longrightarrow> r < length (heap (svc_pool s'))"
  | (finished) res where "att_outcome att = Inr res" "within_limits (adm_release a) res" "db_inv (svc_db s')"
      "pool_inv (svc_pool s')" "idem_view (svc_db s') = (idem_view (svc_db s))(req_key req \<mapsto> stored_slot s fp res)"
proof -
  obtain x p where acq: "acquire be (svc_pool s) (req_tenant_id req) (adm_release a) (adm_policy a) = Some (x, p)"
    using at by (auto simp: attempt_run_def split: option.splits)
  have p: "pool_inv p" using pool_call_inv [OF call_acquire [OF acq] pool] .
  show thesis
  proof (cases x)
    case (Inl e)
    then have "att = \<lparr>att_outcome = Inl e, att_worker = None, att_finished = False\<rparr>" "s' = put_pool p s"
      using at acq by (simp_all add: attempt_run_def)
    then show thesis using failed [of e] p by simp
  next
    case (Inr r)
    have "idle_ok (svc_pool s)" using pool by (simp add: pool_inv_def)
    note af = acquire_facts [OF this acq [unfolded Inr]]
    show thesis
    proof (cases "map_of (active s) (req_invocation_id req) = None")
      case False
      obtain y p' where iv: "invalidate be p r = (y, p')" by fastforce
      have "pool_inv p'" "r < length (heap p')" using invalidate_inv [OF p af(1)] iv af(1) by simp_all
      moreover have "\<exists>e w. att = \<lparr>att_outcome = Inl e, att_worker = w, att_finished = False\<rparr> \<and> (w = None \<or> w = Some r) \<and> svc_db s' = svc_db s \<and> svc_pool s' = p'"
        using at acq Inr False iv by (cases y) (auto simp: attempt_run_def Let_def)
      ultimately show thesis using failed by auto
    next
      case True
      then have run: "run_on_worker be (put_pool p s) req a run_id r = (att, s')"
        using at acq Inr by (simp add: attempt_run_def Let_def)
      have claimed': "claimed_for (put_pool p s) req fp run_id" using claimed by (simp add: claimed_for_def)
      have same: "stored_slot (put_pool p s) = stored_slot s" by (simp add: stored_slot_def put_pool_def now_of_def fun_eq_iff)
      show thesis
        by (rule run_on_worker_cases [OF claimed' _ _ _ run])
          (use p af(1,5) failed finished same in simp_all)
    qed
  qed
qed

lemma execute_facts:
  assumes claimed: "claimed_for s req fp run_id" and pool: "pool_inv (svc_pool s)" and ex: "execute be s req a run_id = Some (out, s')"
  shows "db_inv (svc_db s') \<and> pool_inv (svc_pool s') \<and>
    (case out of
       Inl e \<Rightarrow> is_runner_error e \<and> idem_view (svc_db s') = (idem_view (svc_db s))(req_key req := None)
     | Inr res \<Rightarrow> within_limits (adm_release a) res \<and>
         idem_view (svc_db s') = (idem_view (svc_db s))(req_key req \<mapsto> stored_slot s fp res))"
proof -
  obtain att s1 where at: "attempt_run be s req a run_id = Some (att, s1)" and st: "settle be req run_id att s1 = (out, s')"
    using ex by (auto simp: execute_def)
  show ?thesis using claimed pool at
  proof (cases rule: attempt_run_cases)
    case (failed e)
    have "claimed_for s1 req fp run_id" using claimed failed(3) by (simp add: claimed_for_def)
    note sf = settle_failed [OF this failed(1,2) st]
    have "pool_inv (svc_pool s')" using sf(4) failed(4,5) invalidate_inv(1) by (simp split: option.splits)
    then show ?thesis using sf(1-3) failed(3) by (simp add: infrastructure_error_def runner_error_def)
  next
    case (finished res)
    then show ?thesis using settle_done [OF finished(1) st] by simp
  qed
qed

end

section \<open>Invocation as a whole\<close>

context sandbox_backend
begin

lemma execute_total:
  assumes "pool_inv (svc_pool s)"
  shows "execute be s req a run_id \<noteq> None"
  using acquire_waits_for_permit [OF assms]
  by (auto simp: execute_def attempt_run_def Let_def split: option.splits sum.splits)

lemma invoke_facts:
  assumes db: "db_inv (svc_db s)" and pool: "pool_inv (svc_pool s)"
  shows "\<exists>out s'. invoke h be s req = Some (out, s') \<and> db_inv (svc_db s') \<and> pool_inv (svc_pool s') \<and>
    (case out of
       Inl e \<Rightarrow> idem_view (svc_db s') = idem_view (svc_db s) \<or>
                 idem_view (svc_db s') = (idem_view (svc_db s))(req_key req := None)
     | Inr res \<Rightarrow> \<exists>a e. admit h s req = Inr a \<and>
         (svc_pool s' = svc_pool s \<and> idem_view (svc_db s') = idem_view (svc_db s) \<and>
            idem_view (svc_db s) (req_key req) = Some (Finished (adm_fingerprint a) (Inr res) True e) \<or>
          within_limits (adm_release a) res \<and>
            idem_view (svc_db s') = (idem_view (svc_db s))(req_key req \<mapsto> Finished (adm_fingerprint a) (Inr res) (\<not> res_retryable res) e)))"
proof (cases "admit h s req")
  case (Inl e)
  then show ?thesis using db pool by (simp add: invoke_def)
next
  case (Inr a)
  define s1 where "s1 = draw s"
  obtain claim db1 where br: "begin_run (svc_db s1) (uuids s1 (draws s1)) (now_of s1) (dbnow_of s1) (claim_args req a) = (claim, db1)"
    by fastforce
  have db1: "db_inv db1" using begin_run_inv [of "svc_db s1"] br db by (metis put_simps(7) s1_def snd_conv)
  show ?thesis
  proof (cases claim)
    case (Inl e)
    then have "db1 = svc_db s" using begin_run_error br by (auto simp: s1_def)
    then show ?thesis using Inr br Inl db pool by (simp add: invoke_def s1_def [symmetric]) (simp add: s1_def)
  next
    case claim: (Inr c)
    show ?thesis
    proof (cases "cached_result c")
      case (Some res)
      have "idem_view db1 = idem_view (svc_db s)"
          "\<exists>e. idem_view (svc_db s) (req_key req) = Some (Finished (adm_fingerprint a) (Inr res) True e)"
        using begin_run_replays [OF br [unfolded claim] Some] by (auto simp: s1_def)
      then show ?thesis using Inr br claim Some db1 pool by (simp add: invoke_def s1_def [symmetric]) (auto simp: s1_def)
    next
      case None
      then obtain rid where rid: "claim_run_id c = Some rid" using begin_run_claim_kinds br claim by blast
      note bc = begin_run_claims [OF _ br [unfolded claim] rid]
      have slot: "idem_view db1 = (idem_view (svc_db s))(req_key req \<mapsto> InFlight (adm_fingerprint a) rid)"
        using bc(3) db by (simp add: s1_def)
      have cf: "claimed_for (put_db db1 s1) req (adm_fingerprint a) rid"
        using db1 slot begin_run_args_match [OF br [unfolded claim] rid] by (simp add: claimed_for_def)
      have p1: "pool_inv (svc_pool (put_db db1 s1))" using pool by (simp add: s1_def)
      obtain out s' where ex: "execute be (put_db db1 s1) req a rid = Some (out, s')" using execute_total [OF p1] by fastforce
      note ef = execute_facts [OF cf p1 ex, unfolded put_simps(1)]
      have inv: "invoke h be s req = Some (out, s')"
        using Inr br claim None rid ex by (simp add: invoke_def s1_def [symmetric])
      show ?thesis using inv ef slot Inr by (cases out) (auto simp: stored_slot_def)
    qed
  qed
qed

end

section \<open>All calls in sequence\<close>

text \<open>The entries of the active table name existing workers; the heap only grows.\<close>

definition active_ok :: "'b service \<Rightarrow> bool" where
  "active_ok s \<longleftrightarrow> (\<forall>k act. map_of (active s) k = Some act \<longrightarrow> act_worker act < length (heap (svc_pool s)))"

definition service_inv :: "'b service \<Rightarrow> bool" where
  "service_inv s \<longleftrightarrow> db_inv (svc_db s) \<and> pool_inv (svc_pool s) \<and> active_ok s"

lemma settle_lookup:
  "settle be req run_id att s = (out, s') \<Longrightarrow>
   map_of (active s') k = (if k = req_invocation_id req then None else map_of (active s) k)"
  using settle_active [of be req run_id att s] by simp

lemma persist_active: "persist be s req a run_id r res = (att, s') \<Longrightarrow> active s' = active s"
  by (auto simp: persist_def split: sum.splits prod.splits)

lemma attempt_active:
  assumes "attempt_run be s req a run_id = Some (att, s')" "k \<noteq> req_invocation_id req"
  shows "map_of (active s') k = map_of (active s) k"
proof -
  have "map_of (active s2) k = map_of (active s1) k"
    if "run_on_worker be s1 req a run_id r = (att', s2)" for s1 s2 :: "'a service" and r att'
    using that assms(2) persist_active
    by (fastforce simp: run_on_worker_def call_backend_def register_active_def Let_def split: prod.splits)
  then show ?thesis using assms(1)
    by (auto simp: attempt_run_def Let_def split: option.splits sum.splits prod.splits if_splits)
qed

lemma execute_active:
  assumes "execute be s req a run_id = Some (out, s')"
  shows "map_of (active s') k = (if k = req_invocation_id req then None else map_of (active s) k)"
proof -
  obtain att s1 where "attempt_run be s req a run_id = Some (att, s1)" "settle be req run_id att s1 = (out, s')"
    using assms by (auto simp: execute_def)
  then show ?thesis using settle_lookup attempt_active by fastforce
qed

lemma pool_step_heap: "pool_step be s s' \<Longrightarrow> length (heap (pool_of s)) \<le> length (heap (pool_of s'))"
proof (induction rule: pool_step.induct)
  case (frame p' s)
  then show ?case using ledger_part_eqD(3) [OF frame] by simp
qed (auto simp: unreserve_def add_worker_def mark_destroyed_def set_worker_def finish_destroy_def leave_slot_def
    split: if_splits prod.splits)

lemma pool_run_heap:
  assumes "\<And>s. pool_of s = p \<Longrightarrow> pool_run be s p'"
  shows "length (heap p) \<le> length (heap p')"
proof -
  obtain ret where "(pool_step be)\<^sup>*\<^sup>* (quiet [] p) ((quiet [] p)\<lparr>pool_of := p', retired := ret @ retired (quiet [] p)\<rparr>)"
    using assms [of "quiet [] p"] unfolding pool_run_def by (auto simp: quiet_def)
  then have "length (heap (pool_of (quiet [] p))) \<le> length (heap (pool_of ((quiet [] p)\<lparr>pool_of := p', retired := ret @ retired (quiet [] p)\<rparr>)))"
    by (induction rule: rtranclp_induct) (auto intro: order_trans pool_step_heap)
  then show ?thesis by (simp add: quiet_def)
qed

lemma give_back_heap: "length (heap (give_back be p r res pol)) = length (heap p)"
proof -
  obtain x p' where rel: "pool_release be p r pol = (x, p')" by fastforce
  have "length (heap p') = length (heap p)" using rel
  proof (cases rule: pool_release_cases)
    case (put p3)
    then show ?thesis using touches_length [OF prepares_facts(1) [OF put(1)]] by (simp add: put_idle_def Let_def)
  next
    case (gone p3)
    then show ?thesis using touches_length [OF prepares_facts(1) [OF gone(1)]] touches_length [OF destroy_facts(1) [OF gone(2)]] by simp
  qed
  moreover obtain y q where iv: "invalidate be p r = (y, q)" by fastforce
  ultimately show ?thesis using rel touches_length [OF invalidate_touches [OF iv]] by (simp add: give_back_def)
qed

lemma run_on_worker_heap:
  assumes "run_on_worker be s req a run_id r = (att, s')"
  shows "length (heap (svc_pool s')) = length (heap (svc_pool s))"
  using assms
  by (auto simp: give_back_heap run_on_worker_def call_backend_def register_active_def persist_def Let_def split: prod.splits sum.splits)

context sandbox_backend
begin

lemma pool_call_heap: "pool_call be p p' \<Longrightarrow> idle_ok p \<Longrightarrow> length (heap p) \<le> length (heap p')"
  using pool_call_run pool_run_heap by blast

lemma execute_heap:
  assumes pool: "pool_inv (svc_pool s)" and ex: "execute be s req a run_id = Some (out, s')"
  shows "length (heap (svc_pool s)) \<le> length (heap (svc_pool s'))"
proof -
  obtain att s1 where at: "attempt_run be s req a run_id = Some (att, s1)" and st: "settle be req run_id att s1 = (out, s')"
    using ex by (auto simp: execute_def)
  obtain x p where acq: "acquire be (svc_pool s) (req_tenant_id req) (adm_release a) (adm_policy a) = Some (x, p)"
    using at by (auto simp: attempt_run_def split: option.splits)
  have inv: "length (heap (snd (invalidate be q r))) = length (heap q)" for q r
    using touches_length [OF invalidate_touches [OF prod.collapse [symmetric]]] .
  have "length (heap (svc_pool s)) \<le> length (heap p)" using pool_call_heap [OF call_acquire [OF acq]] pool by (simp add: pool_inv_def)
  also have "length (heap p) = length (heap (svc_pool s1))"
    using at acq run_on_worker_heap [of be "put_pool p s" req a run_id] inv
    by (auto simp: attempt_run_def Let_def split: sum.splits prod.splits if_splits) (metis snd_conv)+
  also have "\<dots> = length (heap (svc_pool s'))"
    using st inv by (auto simp: settle_def Let_def split: sum.splits option.splits if_splits)
  finally show ?thesis .
qed

lemma invoke_keeps_inv:
  assumes inv: "service_inv s" and iv: "invoke h be s req = Some (out, s')"
  shows "service_inv s'"
proof -
  have parts: "db_inv (svc_db s)" "pool_inv (svc_pool s)" "active_ok s" using inv by (simp_all add: service_inv_def)
  obtain out' s'' where "invoke h be s req = Some (out', s'')" "db_inv (svc_db s'')" "pool_inv (svc_pool s'')"
    using invoke_facts [OF parts(1,2), of h req] by blast
  then have good: "db_inv (svc_db s')" "pool_inv (svc_pool s')" using iv by auto
  have "active s' = active s \<and> svc_pool s' = svc_pool s \<or>
      (\<exists>db a rid. execute be (put_db db (draw s)) req a rid = Some (out, s'))"
    using iv by (auto simp: invoke_def Let_def split: sum.splits prod.splits option.splits)
  then have "active_ok s'"
  proof (elim disjE exE conjE)
    fix db a rid assume ex: "execute be (put_db db (draw s)) req a rid = Some (out, s')"
    have len: "length (heap (svc_pool s)) \<le> length (heap (svc_pool s'))" using execute_heap [OF _ ex] parts(2) by simp
    show ?thesis unfolding active_ok_def
    proof (intro allI impI)
      fix k act assume "map_of (active s') k = Some act"
      then have "map_of (active s) k = Some act" using execute_active [OF ex, of k] by (simp split: if_splits)
      then have "act_worker act < length (heap (svc_pool s))" using parts(3) by (simp add: active_ok_def)
      then show "act_worker act < length (heap (svc_pool s'))" using len by simp
    qed
  qed (use parts(3) in \<open>simp add: active_ok_def\<close>)
  with good show ?thesis by (simp add: service_inv_def)
qed

end

inductive service_call :: "(bytes \<Rightarrow> string) \<Rightarrow> 'b backend \<Rightarrow> 'b service \<Rightarrow> 'b service \<Rightarrow> bool"
  for h :: "bytes \<Rightarrow> string" and be :: "'b backend" where
  call_startup: "service_call h be s (snd (startup be s))"
| call_start_background: "service_call h be s (snd (start_background s n))"
| call_maintain: "service_call h be s (maintain be s)"
| call_shutdown: "service_call h be s (shutdown s)"
| call_acquire_lease: "service_call h be s (snd (acquire_lease s t p pr rel))"
| call_get_lease: "service_call h be s (snd (get_lease s t lid))"
| call_renew_lease: "service_call h be s (snd (service_renew_lease s t lid))"
| call_release_lease: "service_call h be s (snd (release_lease s t lid))"
| call_invoke: "invoke h be s req = Some (out, s') \<Longrightarrow> service_call h be s s'"
| call_cancel: "service_call h be s (snd (cancel be s t lid i))"

definition fresh_service :: "'b service \<Rightarrow> bool" where
  "fresh_service s \<longleftrightarrow> svc_db s = empty_db \<and> fresh_pool (svc_pool s) \<and> active s = []"

lemma service_invI:
  assumes "service_inv s" "db_inv (svc_db s')" "pool_inv (svc_pool s')" "length (heap (svc_pool s)) \<le> length (heap (svc_pool s'))"
    "\<And>k act. map_of (active s') k = Some act \<Longrightarrow> map_of (active s) k = Some act"
  shows "service_inv s'"
proof -
  have "act_worker act < length (heap (svc_pool s'))" if "map_of (active s') k = Some act" for k act
  proof -
    have "act_worker act < length (heap (svc_pool s))" using assms(1) assms(5) [OF that] by (simp add: service_inv_def active_ok_def)
    then show ?thesis using assms(4) by simp
  qed
  then show ?thesis using assms(2,3) by (simp add: service_inv_def active_ok_def)
qed

lemma service_inv_db: "service_inv s \<Longrightarrow> db_inv db \<Longrightarrow> service_inv (put_db db s)"
  by (simp add: service_inv_def active_ok_def)

lemma service_inv_draw: "service_inv s \<Longrightarrow> service_inv (draw s)"
  by (simp add: service_inv_def active_ok_def)

lemma service_inv_parts: "service_inv s \<Longrightarrow> db_inv (svc_db s)" "service_inv s \<Longrightarrow> pool_inv (svc_pool s)"
  by (simp_all add: service_inv_def)

lemmas service_db_steps = service_inv_db service_inv_draw db_op_invs service_inv_parts

context sandbox_backend
begin

lemma service_inv_pool:
  assumes "service_inv s" "pool_call be (svc_pool s) p"
  shows "service_inv (put_pool p s)"
proof -
  have inv: "pool_inv (svc_pool s)" using assms(1) by (rule service_inv_parts)
  have "pool_inv p" using pool_call_inv [OF assms(2) inv] .
  moreover have "length (heap (svc_pool s)) \<le> length (heap p)" using pool_call_heap [OF assms(2)] inv by (simp add: pool_inv_def)
  ultimately show ?thesis using assms(1) by (intro service_invI [OF assms(1)]) (simp_all add: service_inv_def)
qed

lemma startup_inv: "service_inv s \<Longrightarrow> service_inv (snd (startup be s))"
proof -
  assume inv: "service_inv s"
  obtain res p where r: "reset_after_restart be (svc_pool s) = (res, p)" by fastforce
  have s0: "service_inv (put_pool p s)" using service_inv_pool [OF inv call_reset [OF r]] .
  show ?thesis
  proof (cases res)
    case (Inl e)
    then show ?thesis using r s0 by (simp add: startup_def)
  next
    case (Inr n)
    then show ?thesis using r s0 inv unfolding startup_def Let_def by (simp, intro service_db_steps) simp_all
  qed
qed

lemma maintain_inv: "service_inv s \<Longrightarrow> service_inv (maintain be s)"
proof -
  assume inv: "service_inv s"
  obtain res p where r: "reap be (svc_pool s) = (res, p)" by fastforce
  have s0: "service_inv (put_pool p s)" using service_inv_pool [OF inv call_reap [OF r]] .
  show ?thesis
  proof (cases res)
    case (Inl e)
    then show ?thesis using r s0 inv by (simp add: maintain_def)
  next
    case (Inr n)
    then show ?thesis using r s0 inv unfolding maintain_def Let_def by (simp, intro impI service_db_steps) simp_all
  qed
qed

lemma cancel_inv: "service_inv s \<Longrightarrow> service_inv (snd (cancel be s t lid i))"
proof -
  assume inv: "service_inv s"
  have "service_inv (put_pool p ((draw s)\<lparr>active := AList.delete i (active s)\<rparr>))"
    if act: "map_of (active s) i = Some act" and iv: "invalidate be (svc_pool s) (act_worker act) = (x, p)" for act x p
  proof -
    have r: "act_worker act < length (heap (svc_pool s))" using inv act by (simp add: service_inv_def active_ok_def)
    let ?s1 = "(draw s)\<lparr>active := AList.delete i (active s)\<rparr>"
    have "service_inv ?s1" using inv by (intro service_invI [OF inv]) (simp_all add: service_inv_def split: if_splits)
    then show ?thesis by (rule service_inv_pool) (use call_invalidate [OF r iv] in simp)
  qed
  then show ?thesis using service_inv_draw [OF inv]
    by (auto simp: cancel_def Let_def split: sum.splits option.splits prod.splits)
qed

lemma service_call_inv: "service_call h be s s' \<Longrightarrow> service_inv s \<Longrightarrow> service_inv s'"
proof (induction rule: service_call.induct)
  case (call_acquire_lease s t p pr rel)
  then show ?case by (auto simp: acquire_lease_def split: sum.splits prod.splits)
      (metis create_lease_inv service_inv_db service_inv_parts(1) snd_conv)
next
  case (call_renew_lease s t lid)
  then show ?case by (auto simp: service_renew_lease_def split: prod.splits)
      (metis renew_lease_inv service_inv_db service_inv_draw service_inv_parts(1) snd_conv)
next
  case (call_release_lease s t lid)
  then show ?case by (auto simp: release_lease_def split: prod.splits)
      (metis delete_lease_inv service_inv_db service_inv_parts(1) snd_conv)
next
  case (call_start_background s n)
  then show ?case by (simp add: start_background_def service_inv_def active_ok_def)
next
  case (call_shutdown s)
  then show ?case by (simp add: shutdown_def service_inv_def active_ok_def)
next
  case (call_get_lease s t lid)
  then show ?case by (simp add: get_lease_def service_inv_draw)
qed (simp_all add: startup_inv maintain_inv cancel_inv invoke_keeps_inv)

end

lemma fresh_service_inv: "fresh_service s \<Longrightarrow> service_inv s"
  by (simp add: fresh_service_def service_inv_def active_ok_def db_inv_empty fresh_pool_inv)

sublocale sandbox_backend \<subseteq> serving: invariant_machine fresh_service "service_call h be" service_inv for h
  by unfold_locales (rule fresh_service_inv, assumption, rule service_call_inv)

context sandbox_backend
begin

lemma service_reach_inv: "reach fresh_service (service_call h be) s \<Longrightarrow> service_inv s"
  by (rule serving.inv_reach)

end

section \<open>Identity of requests\<close>

lemma sort_key_set_eq:
  fixes d e :: "(string, string) dict"
  assumes "distinct (map fst d)" "distinct (map fst e)" "set d = set e"
  shows "sort_key fst d = sort_key fst e"
proof -
  have "mset d = mset e" using assms by (simp add: set_eq_iff_mset_eq_distinct distinct_map)
  moreover have "inj_on fst (set d)" using assms(1) by (simp add: distinct_map)
  moreover have "sorted (map fst (sort_key fst e))" by simp
  ultimately show ?thesis using sort_key_inj_key_eq [of d "sort_key fst e" fst] by simp
qed

definition same_identity :: "run_request \<Rightarrow> run_request \<Rightarrow> bool" where
  "same_identity r q \<longleftrightarrow> req_release_id r = req_release_id q \<and> req_content r = req_content q \<and>
     set (req_attributes r) = set (req_attributes q) \<and> set (req_parameters r) = set (req_parameters q) \<and>
     req_timeout_ms r = req_timeout_ms q"

lemma sort_keys_identity:
  assumes "sort_keys (request_identity h r) = sort_keys (request_identity h q)"
  shows "req_release_id r = req_release_id q" "h (req_content r) = h (req_content q)" "req_timeout_ms r = req_timeout_ms q"
    "set (req_attributes r) = set (req_attributes q)" "set (req_parameters r) = set (req_parameters q)"
proof -
  let ?d = "\<lambda>x. [(''schema'', JInt 1), (''release_id'', JStr (req_release_id x)), (''content_sha256'', JStr (h (req_content x))),
      (''attributes'', str_obj (sort_key fst (req_attributes x))), (''parameters'', str_obj (sort_key fst (req_parameters x))),
      (''timeout_ms'', JInt (req_timeout_ms x))]"
  let ?f = "\<lambda>(k, v). (k :: string, sort_keys v)"
  have "sort_key fst (map ?f (?d r)) = sort_key fst (map ?f (?d q))"
    using assms by (simp only: request_identity_def sort_keys.simps json.inject case_prod_beta')
  then have "set (sort_key fst (map ?f (?d r))) = set (sort_key fst (map ?f (?d q)))" by simp
  then have "set (map ?f (?d r)) = set (map ?f (?d q))" unfolding set_sort .
  then have "map_of (map ?f (?d r)) = map_of (map ?f (?d q))" by (rule same_entries_map_of) simp_all
  then have eq: "map_of (map ?f (?d r)) k = map_of (map ?f (?d q)) k" for k by simp
  show "req_release_id r = req_release_id q" using eq [of "''release_id''"] by simp
  show "h (req_content r) = h (req_content q)" using eq [of "''content_sha256''"] by simp
  show "req_timeout_ms r = req_timeout_ms q" using eq [of "''timeout_ms''"] by simp
  have "sort_keys (str_obj (sort_key fst (req_attributes r))) = sort_keys (str_obj (sort_key fst (req_attributes q)))"
    using eq [of "''attributes''"] by simp
  from sort_keys_str_obj [OF this] show "set (req_attributes r) = set (req_attributes q)" by simp
  have "sort_keys (str_obj (sort_key fst (req_parameters r))) = sort_keys (str_obj (sort_key fst (req_parameters q)))"
    using eq [of "''parameters''"] by simp
  from sort_keys_str_obj [OF this] show "set (req_parameters r) = set (req_parameters q)" by simp
qed

section \<open>Properties\<close>

text \<open>A service with one release, one policy and one lease, for the witnesses.\<close>

definition sample_service :: "nat service" where
  "sample_service = \<lparr>svc_catalog = snd (catalog_save \<lparr>cat_root = ''/c'', cat_dirs = []\<rparr> sample_manifest ''xyz''),
     svc_db = empty_db, svc_pool = sample_pool, svc_policies = [(''standard'', sample_policy)],
     lease_ttl_ms = 900000, idempotency_retention_ms = 1000, run_retention_ms = 5000, active = [],
     reaper_started = False, stopping = False, wall = (\<lambda>n. int n), db_wall = (\<lambda>n. int n),
     uuids = (\<lambda>n. replicate n CHR ''u''), draws = 0\<rparr>"

definition sample_request :: run_request where
  "sample_request = \<lparr>req_tenant_id = ''t'', req_lease_id = [], req_release_id = ''r1'', req_invocation_id = ''i'',
     req_idempotency_key = ''k'', req_content = ''in'', req_attributes = [(''a'', ''b'')], req_parameters = [],
     req_timeout_ms = 100\<rparr>"

definition leased_service :: "nat service" where
  "leased_service = snd (acquire_lease sample_service ''t'' ''p'' ''q'' ''r1'')"

lemma sample_service_fresh: "fresh_service sample_service"
  by (simp add: fresh_service_def sample_service_def sample_pool_fresh)

lemma sample_service_reach: "reach fresh_service (service_call h be) sample_service"
  by (rule reach_init, rule sample_service_fresh)

lemma leased_service_reach: "reach fresh_service (service_call h be) leased_service"
  unfolding leased_service_def by (rule reach_step, rule sample_service_reach, rule call_acquire_lease)

text \<open>The same service with a lease row and a cached result for the sample request.\<close>

definition sample_safe :: run_request where
  "sample_safe = safe_request sample_request sample_release sample_policy"

definition cached_service :: "nat service" where
  "cached_service = sample_service\<lparr>svc_db := \<lparr>
     leases = [\<lparr>l_id = [], l_tenant_id = ''t'', l_project_id = ''p'', l_processor_id = ''q'', l_release_id = ''r1'',
                l_expires_at = 100, l_created_at = 0, l_updated_at = 0\<rparr>],
     db_runs = [],
     idempotency_keys = [\<lparr>i_tenant_id = ''t'', i_release_id = ''r1'', i_idempotency_key = ''k'',
        i_request_fingerprint = request_fingerprint rev sample_safe, i_state = KEY_DONE, i_current_run_id = ''x'',
        i_lease_id = [], i_invocation_id = ''i'', i_replayable = True, i_result_json = Some (result_to_dict sample_result),
        i_expires_at = Some 50, i_replay_count = 0, i_last_replayed_at = None, i_created_at = 0, i_updated_at = 0\<rparr>]\<rparr>\<rparr>"

lemma sample_get: "catalog_get (svc_catalog sample_service) ''r1'' = Inr sample_release"
  by code_simp

lemma cached_db_inv: "db_inv (svc_db cached_service)"
  by (auto simp: db_inv_def cached_service_def stored_result_def sample_result_def)

lemma cached_admit:
  "admit rev cached_service sample_request =
     Inr \<lparr>adm_lease = lease_of_row (hd (leases (svc_db cached_service))), adm_release = sample_release,
          adm_policy = sample_policy, adm_request = sample_safe, adm_fingerprint = request_fingerprint rev sample_safe\<rparr>"
proof -
  have cat: "catalog_get (svc_catalog cached_service) ''r1'' = Inr sample_release" using sample_get by (simp add: cached_service_def)
  have lease: "require_lease (svc_db cached_service) (now_of cached_service) [] ''t'' (Some ''r1'') =
      Inr (lease_of_row (hd (leases (svc_db cached_service))))"
    by (simp add: require_lease_def fetchone_def cached_service_def now_of_def sample_service_def)
  have rest: "svc_policies cached_service = [(''standard'', sample_policy)]" "active cached_service = []"
    by (simp_all add: cached_service_def sample_service_def)
  have "req_attributes sample_safe = []" by (simp add: sample_safe_def safe_request_def filter_attributes_def sample_release_def)
  moreover have prof: "rel_profile sample_release = ''standard''" by (simp add: sample_release_def)
  moreover have "req_content sample_request = ''in''" "req_idempotency_key sample_request = ''k''" "req_lease_id sample_request = []"
      "req_tenant_id sample_request = ''t''" "req_release_id sample_request = ''r1''" "req_parameters sample_request = []"
    by (simp_all add: sample_request_def)
  ultimately show ?thesis unfolding admit_def
    by (simp add: cat lease rest sample_safe_def [symmetric] Let_def validate_attributes_def attribute_bytes_def
        MAX_INLINE_BYTES_def MAX_ATTRIBUTES_def MAX_ATTRIBUTE_BYTES_def)
qed



text \<open>Every state the service reaches by its calls, in any order, keeps the table invariant, has a
  quota that counts exactly the workers not destroyed, and an active table that names existing
  workers.\<close>

theorem service_reachable_inv:
  assumes "sandbox_backend be" "reach fresh_service (service_call h be) s"
  shows "db_inv (svc_db s) \<and> (\<forall>t. tenant_count (pool_quota (svc_pool s)) t = int (live_workers (heap (svc_pool s)) t)) \<and>
    idle_ok (svc_pool s) \<and> active_ok s"
  using sandbox_backend.service_reach_inv [OF assms] by (simp add: service_inv_def pool_inv_def)

theorem service_reachable_inv_witness: "db_inv (svc_db leased_service) \<and> idle_ok (svc_pool leased_service)"
  using service_reachable_inv [OF sample_backend_contract leased_service_reach] by blast

text \<open>A request whose result is cached and not expired is answered from the cache: the stored result
  comes back, the pool and the backend are not touched and no run is recorded.\<close>

theorem invoke_replays:
  assumes "db_inv (svc_db s)" "admit h s req = Inr a"
    and "idem_view (svc_db s) (req_key req) = Some (Finished (adm_fingerprint a) (Inr res) True e)"
    and "now_of (draw s) < e"
  shows "\<exists>s'. invoke h be s req = Some (Inr res, s') \<and> svc_pool s' = svc_pool s \<and> db_runs (svc_db s') = db_runs (svc_db s) \<and>
    active s' = active s"
proof -
  have slot: "idem_view (svc_db s) (args_key (claim_args req a)) = Some (Finished (arg_fingerprint (claim_args req a)) (Inr res) True e)"
    using assms(3) by simp
  note c = begin_run_cached [OF assms(1) slot assms(4), of "uuids (draw s) (draws (draw s))" "dbnow_of (draw s)"]
  obtain db where db: "begin_run (svc_db s) (uuids (draw s) (draws (draw s))) (now_of (draw s)) (dbnow_of (draw s)) (claim_args req a) =
      (Inr \<lparr>claim_run_id = None, cached_result = Some res\<rparr>, db)" using c(1) by (metis prod.collapse)
  then have "db_runs db = db_runs (svc_db s)" using c(2) by simp
  then show ?thesis using assms(2) db by (simp add: invoke_def)
qed

theorem invoke_replays_witness:
  "\<exists>s'. invoke rev sample_backend cached_service sample_request = Some (Inr sample_result, s')"
proof -
  have "idem_view (svc_db cached_service) (req_key sample_request) =
      Some (Finished (request_fingerprint rev sample_safe) (Inr sample_result) True 50)"
    by (simp add: idem_view_def cached_service_def req_key_def sample_request_def key_of_def fetchone_def slot_of_def)
  moreover have "now_of (draw cached_service) < 50" by (simp add: now_of_def draw_def cached_service_def sample_service_def)
  ultimately show ?thesis using invoke_replays [OF cached_db_inv cached_admit, of sample_result 50 sample_backend] by auto
qed



text \<open>C34: Two admitted requests have the same fingerprint exactly when they ask for the same thing, content,
  attributes, parameters, release and timeout, as long as the digest does not collide on the texts
  and contents at hand.\<close>

theorem fingerprint_identifies:
  assumes nocoll: "inj_on h {canonical_json (request_identity h r), canonical_json (request_identity h q), req_content r, req_content q}"
    and dict: "distinct (map fst (req_attributes r))" "distinct (map fst (req_attributes q))"
      "distinct (map fst (req_parameters r))" "distinct (map fst (req_parameters q))"
  shows "request_fingerprint h r = request_fingerprint h q \<longleftrightarrow> same_identity r q"
proof
  assume "request_fingerprint h r = request_fingerprint h q"
  then have "h (canonical_json (request_identity h r)) = h (canonical_json (request_identity h q))"
    by (simp only: request_fingerprint_def)
  then have "canonical_json (request_identity h r) = canonical_json (request_identity h q)"
    by (rule inj_onD [OF nocoll]) blast+
  then have "sort_keys (request_identity h r) = sort_keys (request_identity h q)" by (simp add: canonical_json_inj)
  note eq = sort_keys_identity [OF this]
  have "req_content r = req_content q" by (rule inj_onD [OF nocoll eq(2)]) blast+
  with eq show "same_identity r q" by (simp add: same_identity_def)
next
  assume "same_identity r q"
  then have same: "req_release_id r = req_release_id q" "req_content r = req_content q" "req_timeout_ms r = req_timeout_ms q"
      "set (req_attributes r) = set (req_attributes q)" "set (req_parameters r) = set (req_parameters q)"
    by (simp_all add: same_identity_def)
  have "sort_key fst (req_attributes r) = sort_key fst (req_attributes q)"
    "sort_key fst (req_parameters r) = sort_key fst (req_parameters q)"
    using sort_key_set_eq [OF dict(1,2) same(4)] sort_key_set_eq [OF dict(3,4) same(5)] by simp_all
  then have "request_identity h r = request_identity h q" by (simp only: request_identity_def same(1-3))
  then show "request_fingerprint h r = request_fingerprint h q" by (simp add: request_fingerprint_def)
qed

theorem fingerprint_identifies_witness:
  "request_fingerprint rev sample_request \<noteq> request_fingerprint rev (sample_request\<lparr>req_content := ''other''\<rparr>)"
proof -
  have "request_fingerprint rev sample_request = request_fingerprint rev (sample_request\<lparr>req_content := ''other''\<rparr>) \<longleftrightarrow>
      same_identity sample_request (sample_request\<lparr>req_content := ''other''\<rparr>)"
    by (rule fingerprint_identifies, rule inj_on_rev) (simp_all add: sample_request_def)
  then show ?thesis by (simp add: same_identity_def sample_request_def)
qed

text \<open>Only the owner cancels: a cancellation changes the pool or the active table only when the
  invocation is active for the caller's own tenant and lease, and the lease is live.\<close>

theorem cancel_authorized:
  assumes "cancel be s tenant lid i = (res, s')" "svc_pool s' \<noteq> svc_pool s \<or> active s' \<noteq> active s \<or> res = Inr True"
  shows "\<exists>act l. map_of (active s) i = Some act \<and> act_tenant_id act = tenant \<and> act_lease_id act = lid \<and>
    require_lease (svc_db s) (now_of s) lid tenant None = Inr l \<and> map_of (active s') i = None"
  using assms by (auto simp: cancel_def Let_def split: sum.splits option.splits if_splits prod.splits)

theorem cancel_authorized_witness:
  "\<exists>s'. cancel sample_backend (cached_service\<lparr>svc_pool := stale_pool, active := [(''i'', \<lparr>act_tenant_id = ''t'', act_lease_id = [],
      act_release_id = ''r1'', act_worker = 0\<rparr>)]\<rparr>) ''t'' [] ''i'' = (Inr True, s') \<and> map_of (active s') ''i'' = None"
    (is "\<exists>s'. cancel sample_backend ?s _ _ _ = _ \<and> _")
proof -
  have "fst (cancel sample_backend ?s ''t'' [] ''i'') = Inr True"
    by (simp add: cancel_def require_lease_def fetchone_def cached_service_def now_of_def sample_service_def draw_def
        invalidate_def destroy_def mark_destroyed_def finish_destroy_def set_worker_def stale_pool_def sample_pool_def sample_backend_def Let_def sample_worker_def)
  then obtain s' where c: "cancel sample_backend ?s ''t'' [] ''i'' = (Inr True, s')" by (metis prod.collapse)
  from cancel_authorized [OF c] show ?thesis using c by auto
qed

text \<open>C40: Leaving the active table is not tied to having entered it: an execution that finds its
  invocation id taken by another one fails, and its cleanup removes the other one's entry, so that the
  other invocation, still running, can no longer be cancelled.\<close>

theorem execute_drops_foreign_entry:
  assumes "map_of (active s) (req_invocation_id req) = Some other" "execute be s req a run_id = Some (out, s')"
    and "require_lease (svc_db s') (now_of s') (act_lease_id other) (act_tenant_id other) None = Inr l"
  shows "(\<exists>e. out = Inl e) \<and> map_of (active s') (req_invocation_id req) = None \<and>
    fst (cancel be s' (act_tenant_id other) (act_lease_id other) (req_invocation_id req)) = Inr False"
proof -
  obtain att s1 where at: "attempt_run be s req a run_id = Some (att, s1)" and st: "settle be req run_id att s1 = (out, s')"
    using assms(2) by (auto simp: execute_def)
  have "\<exists>e. att_outcome att = Inl e"
    using at assms(1) by (auto simp: attempt_run_def Let_def split: option.splits sum.splits prod.splits if_splits)
  then have "\<exists>e. out = Inl e" using st by (auto simp: settle_def Let_def)
  moreover have "map_of (active s') (req_invocation_id req) = None" using execute_active [OF assms(2)] by simp
  ultimately show ?thesis using assms(3) by (simp add: cancel_def)
qed

text \<open>An execution writes no lease and reads the clocks at most twice.\<close>

lemma execute_frame:
  assumes "execute be s req a run_id = Some (out, s')"
  shows "leases (svc_db s') = leases (svc_db s) \<and> wall s' = wall s \<and> draws s' \<le> draws s + 2"
proof -
  have fin: "leases (snd (finish_run db n d rid k t rel res ret)) = leases db" for db n d rid k t rel res ret
    by (simp add: finish_run_def Let_def)
  have run: "leases (svc_db s2) = leases (svc_db s1) \<and> wall s2 = wall s1 \<and> draws s2 \<le> draws s1 + 1"
    if "run_on_worker be s1 req a run_id r = (att, s2)" for s1 s2 :: "'a service" and r att
    using that fin
    by (auto simp: run_on_worker_def call_backend_def register_active_def persist_def put_db_def put_pool_def draw_def Let_def
        split: prod.splits sum.splits) (metis snd_conv)+
  obtain att s1 where at: "attempt_run be s req a run_id = Some (att, s1)" and st: "settle be req run_id att s1 = (out, s')"
    using assms by (auto simp: execute_def)
  have "leases (svc_db s1) = leases (svc_db s) \<and> wall s1 = wall s \<and> draws s1 \<le> draws s + 1"
    using at run
    by (auto simp: attempt_run_def put_pool_def Let_def split: option.splits sum.splits prod.splits if_splits) force+
  moreover have "leases (svc_db s') = leases (svc_db s1) \<and> wall s' = wall s1 \<and> draws s' \<le> draws s1 + 1"
    using st by (auto simp: settle_def put_db_def put_pool_def draw_def abandon_run_def Let_def split: sum.splits option.splits)
  ultimately show ?thesis by auto
qed

definition foreign_service :: "nat service" where
  "foreign_service = cached_service\<lparr>active := [(''i'', \<lparr>act_tenant_id = ''t'', act_lease_id = [], act_release_id = ''r1'', act_worker = 0\<rparr>)]\<rparr>"

definition sample_admitted :: admitted where
  "sample_admitted = \<lparr>adm_lease = \<lparr>lease_id = [], lease_tenant_id = ''t'', lease_project_id = ''p'', lease_processor_id = ''q'',
       lease_release_id = ''r1'', lease_expires_at_ms = 0\<rparr>,
     adm_release = sample_release, adm_policy = sample_policy, adm_request = sample_safe, adm_fingerprint = ''f''\<rparr>"

theorem execute_drops_foreign_entry_witness:
  "\<exists>out s'. execute sample_backend foreign_service sample_request sample_admitted ''u'' = Some (out, s') \<and>
     map_of (active foreign_service) ''i'' \<noteq> None \<and> map_of (active s') ''i'' = None"
proof -
  have pool: "svc_pool foreign_service = sample_pool" "active foreign_service = [(''i'', \<lparr>act_tenant_id = ''t'', act_lease_id = [], act_release_id = ''r1'', act_worker = 0\<rparr>)]"
    by (simp_all add: foreign_service_def cached_service_def sample_service_def)
  have inv: "pool_inv (svc_pool foreign_service)" using fresh_pool_inv sample_pool_fresh by (simp add: pool)
  obtain out s' where ex: "execute sample_backend foreign_service sample_request sample_admitted ''u'' = Some (out, s')"
    using sandbox_backend.execute_total [OF sample_backend_contract inv] by fastforce
  have same: "leases (svc_db s') = leases (svc_db foreign_service)" "wall s' = wall foreign_service" "draws s' \<le> draws foreign_service + 2"
    using execute_frame [OF ex] by simp_all
  have "now_of s' \<le> 2" using same(2,3) by (simp add: now_of_def foreign_service_def cached_service_def sample_service_def)
  then have "\<exists>l. require_lease (svc_db s') (now_of s') [] ''t'' None = Inr l"
    by (simp add: require_lease_def same(1) foreign_service_def cached_service_def fetchone_def)
  then show ?thesis using execute_drops_foreign_entry [OF _ ex] pool(2) ex by (auto simp: sample_request_def)
qed

end
