(* ===== verification/Runner_Gateway.thy ===== *)
theory Runner_Gateway
  imports Runner_Service "HOL-Library.Sublist"
begin

text \<open>
  \<^verbatim>\<open>runner_engine/gateway.py\<close>: the RPC handlers in front of the service.  An RPC ends with a reply,
  with a status set by \<open>context.abort\<close> (which raises, so that nothing after it runs), or with an
  exception that no handler catches.  The access control list maps an identity to its tenants and
  their projects; the authentication context is the dictionary of the TLS peer's properties.
\<close>

section \<open>Access control\<close>

type_synonym access = "(string, (string, string list) dict) dict"

type_synonym auth_context = "(string, string list) dict"

definition allow :: "access \<Rightarrow> string \<Rightarrow> string \<Rightarrow> string option \<Rightarrow> bool" where
  "allow acl identity tenant project =
     (let tenant_map = (case map_of acl identity of None \<Rightarrow> [] | Some m \<Rightarrow> m) in
      case map_of tenant_map tenant of
        None \<Rightarrow> False
      | Some projects \<Rightarrow>
          (case project of None \<Rightarrow> True | Some p \<Rightarrow> ''*'' \<in> set projects \<or> p \<in> set projects))"

fun first_value :: "auth_context \<Rightarrow> string list \<Rightarrow> string option" where
  "first_value auth [] = None"
| "first_value auth (k # ks) =
     (case map_of auth k of Some (v # _) \<Rightarrow> Some v | _ \<Rightarrow> first_value auth ks)"

definition peer_identity :: "auth_context \<Rightarrow> string result" where
  "peer_identity auth =
     (case first_value auth [''x509_subject_alternative_name'', ''x509_common_name''] of
        Some v \<Rightarrow> Inr v
      | None \<Rightarrow> Inl (runner_error ''UNAUTHENTICATED'' ''mTLS peer identity is missing'' False))"

section \<open>Outcomes\<close>

datatype status_code = UNAUTHENTICATED | PERMISSION_DENIED | NOT_FOUND | UNAVAILABLE | FAILED_PRECONDITION

datatype response =
    HealthResponse bool string
  | LeaseResponse string int
  | InvokeResponse run_result
  | CancelResponse bool
  | ReleaseLeaseResponse bool

datatype outcome = Reply response | Aborted status_code string | Raised exn

definition status_of :: "exn \<Rightarrow> status_code" where
  "status_of e =
     (if exn_code e = ''UNAUTHENTICATED'' then UNAUTHENTICATED
      else if suffix ''FORBIDDEN'' (exn_code e) \<or> exn_code e = ''CANCEL_FORBIDDEN'' then PERMISSION_DENIED
      else if exn_code e \<in> {''RELEASE_NOT_FOUND'', ''LEASE_UNKNOWN''} then NOT_FOUND
      else if exn_retryable e then UNAVAILABLE
      else FAILED_PRECONDITION)"

text \<open>\<open>except RunnerError as exc: self._abort_runner_error(context, exc)\<close>; other exceptions pass.\<close>

definition abort_runner_error :: "exn \<Rightarrow> outcome" where
  "abort_runner_error e =
     (if is_runner_error e then Aborted (status_of e) (exn_code e @ '':'' @ exn_str e) else Raised e)"

definition respond :: "('a \<Rightarrow> response) \<Rightarrow> 'a result \<Rightarrow> outcome" where
  "respond f r = (case r of Inl e \<Rightarrow> abort_runner_error e | Inr x \<Rightarrow> Reply (f x))"

definition authorize :: "access \<Rightarrow> auth_context \<Rightarrow> string \<Rightarrow> string option \<Rightarrow> outcome option" where
  "authorize acl auth tenant project =
     (case peer_identity auth of
        Inl e \<Rightarrow> Some (Raised e)
      | Inr identity \<Rightarrow>
          if allow acl identity tenant project then None
          else Some (Aborted PERMISSION_DENIED ''identity is not allowed for tenant/project''))"

definition authorize_lease :: "access \<Rightarrow> auth_context \<Rightarrow> 'b service \<Rightarrow> string \<Rightarrow> string \<Rightarrow> outcome option \<times> 'b service" where
  "authorize_lease acl auth s tenant lid =
     (case peer_identity auth of
        Inl e \<Rightarrow> (Some (Raised e), s)
      | Inr identity \<Rightarrow>
          (case get_lease s tenant lid of
             (Inl e, s1) \<Rightarrow> (Some (abort_runner_error e), s1)
           | (Inr lease, s1) \<Rightarrow>
               if allow acl identity tenant (Some (lease_project_id lease)) then (None, s1)
               else (Some (Aborted PERMISSION_DENIED ''identity is not allowed for lease project''), s1)))"

section \<open>Handlers\<close>

datatype rpc =
    Health
  | AcquireLease string string string string
  | RenewLease string string
  | Invoke run_request
  | Cancel string string string
  | ReleaseLease string string

definition with_lease :: "access \<Rightarrow> auth_context \<Rightarrow> 'b service \<Rightarrow> string \<Rightarrow> string \<Rightarrow>
    ('b service \<Rightarrow> (outcome \<times> 'b service) option) \<Rightarrow> (outcome \<times> 'b service) option" where
  "with_lease acl auth s tenant lid k =
     (case authorize_lease acl auth s tenant lid of
        (Some denied, s1) \<Rightarrow> Some (denied, s1)
      | (None, s1) \<Rightarrow> k s1)"

definition wire_request :: "run_request \<Rightarrow> run_request" where
  "wire_request req = req\<lparr>req_timeout_ms := (if req_timeout_ms req = 0 then 30000 else req_timeout_ms req)\<rparr>"

fun handle :: "(bytes \<Rightarrow> string) \<Rightarrow> 'b backend \<Rightarrow> access \<Rightarrow> auth_context \<Rightarrow> 'b service \<Rightarrow> rpc \<Rightarrow> (outcome \<times> 'b service) option" where
  "handle h be acl auth s Health =
     (case peer_identity auth of
        Inl e \<Rightarrow> Some (Raised e, s)
      | Inr _ \<Rightarrow> Some (Reply (HealthResponse True ''3.3.0''), s))"
| "handle h be acl auth s (AcquireLease tenant project processor release) =
     (case authorize acl auth tenant (Some project) of
        Some denied \<Rightarrow> Some (denied, s)
      | None \<Rightarrow>
          let (res, s1) = acquire_lease s tenant project processor release in
          Some (respond (\<lambda>l. LeaseResponse (lease_id l) (lease_expires_at_ms l)) res, s1))"
| "handle h be acl auth s (RenewLease tenant lid) =
     with_lease acl auth s tenant lid (\<lambda>s1.
       let (res, s2) = service_renew_lease s1 tenant lid in
       Some (respond (\<lambda>l. LeaseResponse (lease_id l) (lease_expires_at_ms l)) res, s2))"
| "handle h be acl auth s (Invoke req) =
     with_lease acl auth s (req_tenant_id req) (req_lease_id req) (\<lambda>s1.
       map_option (\<lambda>(res, s2). (respond InvokeResponse res, s2)) (invoke h be s1 (wire_request req)))"
| "handle h be acl auth s (Cancel tenant lid invocation) =
     with_lease acl auth s tenant lid (\<lambda>s1.
       let (res, s2) = cancel be s1 tenant lid invocation in Some (respond CancelResponse res, s2))"
| "handle h be acl auth s (ReleaseLease tenant lid) =
     with_lease acl auth s tenant lid (\<lambda>s1.
       let (res, s2) = release_lease s1 tenant lid in Some (respond (\<lambda>_. ReleaseLeaseResponse True) res, s2))"

section \<open>Which calls a peer may make\<close>

fun lease_call :: "rpc \<Rightarrow> (string \<times> string) option" where
  "lease_call Health = None"
| "lease_call (AcquireLease t p q r) = None"
| "lease_call (RenewLease t l) = Some (t, l)"
| "lease_call (Invoke req) = Some (req_tenant_id req, req_lease_id req)"
| "lease_call (Cancel t l i) = Some (t, l)"
| "lease_call (ReleaseLease t l) = Some (t, l)"

text \<open>The contract: an identity listed for the tenant and the project that the call concerns, where the
  project of a lease is the one recorded in its row, and the lease is the tenant's and has not expired.\<close>

definition permitted :: "access \<Rightarrow> auth_context \<Rightarrow> 'b service \<Rightarrow> rpc \<Rightarrow> bool" where
  "permitted acl auth s c \<longleftrightarrow> (\<exists>identity. peer_identity auth = Inr identity \<and>
     (case lease_call c of
        Some (t, l) \<Rightarrow> \<exists>row \<in> set (leases (svc_db s)). l_id row = l \<and> l_tenant_id row = t \<and> now_of s < l_expires_at row \<and>
          allow acl identity t (Some (l_project_id row))
      | None \<Rightarrow> (case c of AcquireLease t p q r \<Rightarrow> allow acl identity t (Some p) | _ \<Rightarrow> True)))"

lemma require_lease_row:
  "require_lease db now l t rel = Inr lease \<Longrightarrow>
     \<exists>row \<in> set (leases db). l_id row = l \<and> l_tenant_id row = t \<and> now < l_expires_at row \<and> lease = lease_of_row row"
  by (auto simp: require_lease_def fetchone_def find_Some_iff split: option.splits if_splits)

lemma authorize_lease_cases:
  assumes "authorize_lease acl auth s t l = (d, s1)"
  obtains (unauthenticated) e where "peer_identity auth = Inl e" "d = Some (Raised e)" "s1 = s"
  | (refused) e identity where "peer_identity auth = Inr identity" "require_lease (svc_db s) (now_of s) l t None = Inl e"
      "d = Some (abort_runner_error e)" "s1 = draw s"
  | (forbidden) identity where "peer_identity auth = Inr identity"
      "d = Some (Aborted PERMISSION_DENIED ''identity is not allowed for lease project'')" "s1 = draw s"
  | (granted) identity lease where "peer_identity auth = Inr identity" "require_lease (svc_db s) (now_of s) l t None = Inr lease"
      "allow acl identity t (Some (lease_project_id lease))" "d = None" "s1 = draw s"
  using assms by (auto simp: authorize_lease_def get_lease_def split: sum.splits if_splits)

lemma abort_runner_error_kind [simp]:
  "abort_runner_error e \<noteq> Reply r" "respond f (Inl e) = abort_runner_error e" "respond f (Inr x) = Reply (f x)"
  by (simp_all add: abort_runner_error_def respond_def)

lemma handle_lease_call:
  assumes "lease_call c = Some (t, l)"
  obtains k where "\<And>s. handle h be acl auth s c = with_lease acl auth s t l k"
  using assms by (cases c) auto

lemma denied_call:
  assumes run: "handle h be acl auth s c = Some (out, s')" and "\<not> permitted acl auth s c"
  shows "(s' = s \<or> s' = draw s) \<and> (\<nexists>r. out = Reply r)"
proof (cases "lease_call c")
  case None
  then show ?thesis using assms
    by (cases c) (auto simp: permitted_def authorize_def split: sum.splits if_splits option.splits prod.splits)
next
  case (Some tl)
  then obtain t l where tl: "lease_call c = Some (t, l)" by (cases tl) auto
  obtain k where "with_lease acl auth s t l k = Some (out, s')"
    using handle_lease_call [OF tl] run by metis
  moreover obtain d s1 where au: "authorize_lease acl auth s t l = (d, s1)" by (cases "authorize_lease acl auth s t l")
  moreover from au have "\<exists>denied. d = Some denied \<and> (\<forall>r. denied \<noteq> Reply r) \<and> (s1 = s \<or> s1 = draw s)"
  proof (cases rule: authorize_lease_cases)
    case (granted identity lease)
    then have "permitted acl auth s c"
      using require_lease_row [OF granted(2)] tl by (auto simp: permitted_def lease_of_row_def)
    with assms(2) show ?thesis by simp
  qed simp_all
  ultimately show ?thesis by (auto simp: with_lease_def)
qed

lemma infrastructure_error_runner [simp]: "is_runner_error (infrastructure_error e)"
  by (simp add: infrastructure_error_def runner_error_def)

section \<open>Properties\<close>

text \<open>C8: Access control.  A call that answers, or changes the database, the pool or the active table,
  comes from an identified peer whose identity is listed for the tenant and the project: the project of
  the request for a new lease, and for every other call the project of an unexpired lease of that tenant.\<close>

theorem gateway_access:
  assumes "handle h be acl auth s c = Some (out, s')"
    and "out = Reply r \<or> svc_db s' \<noteq> svc_db s \<or> svc_pool s' \<noteq> svc_pool s \<or> active s' \<noteq> active s"
  shows "permitted acl auth s c"
proof (rule ccontr)
  assume "\<not> permitted acl auth s c"
  from denied_call [OF assms(1) this] show False using assms(2) by auto
qed

theorem gateway_access_witness:
  "permitted [(''id'', [(''t'', [''*''])])] [(''x509_common_name'', [''id''])] cached_service (ReleaseLease ''t'' [])"
    (is "permitted ?acl ?auth _ ?c")
proof -
  have lease: "require_lease (svc_db cached_service) (now_of cached_service) [] ''t'' None =
      Inr (lease_of_row (hd (leases (svc_db cached_service))))"
    by (simp add: require_lease_def fetchone_def cached_service_def now_of_def sample_service_def)
  have au: "authorize_lease ?acl ?auth cached_service ''t'' [] = (None, draw cached_service)"
    by (simp add: authorize_lease_def peer_identity_def get_lease_def lease allow_def)
  have del: "fst (release_lease (draw cached_service) ''t'' []) = Inr ()"
    by (simp add: release_lease_def delete_lease_def fetchone_def cached_service_def split: prod.splits)
  then have "handle rev sample_backend ?acl ?auth cached_service ?c =
      Some (Reply (ReleaseLeaseResponse True), snd (release_lease (draw cached_service) ''t'' []))"
    by (cases "release_lease (draw cached_service) ''t'' []") (simp add: with_lease_def au)
  from gateway_access [OF this disjI1 [OF refl]] show ?thesis .
qed

lemma abort_raises: "abort_runner_error x = Raised e \<Longrightarrow> \<not> is_runner_error e" "respond f r = Raised e \<Longrightarrow> \<not> is_runner_error e"
  by (auto simp: abort_runner_error_def respond_def split: if_splits sum.splits)

lemma with_lease_raises:
  assumes "peer_identity auth = Inr i" "with_lease acl auth s t l k = Some (Raised e, s')"
    and "\<And>s1. k s1 = Some (Raised e, s') \<Longrightarrow> \<not> is_runner_error e"
  shows "\<not> is_runner_error e"
proof -
  obtain d s1 where au: "authorize_lease acl auth s t l = (d, s1)" by (cases "authorize_lease acl auth s t l")
  then show ?thesis
  proof (cases rule: authorize_lease_cases)
    case refused
    then show ?thesis using assms(2) au abort_raises(1) by (auto simp: with_lease_def)
  next
    case granted
    then show ?thesis using assms(2,3) au by (simp add: with_lease_def)
  qed (use assms(1,2) au in \<open>simp_all add: with_lease_def\<close>)
qed

lemma identified_raises:
  assumes i: "peer_identity auth = Inr i" and run: "handle h be acl auth s c = Some (Raised e, s')"
  shows "\<not> is_runner_error e"
proof (cases c)
  case Health
  then show ?thesis using assms by simp
next
  case (AcquireLease t p q r)
  then show ?thesis using assms abort_raises(2)
    by (cases "acquire_lease s t p q r") (auto simp: authorize_def split: if_splits)
next
  case (RenewLease t l)
  show ?thesis by (rule with_lease_raises [OF i run [unfolded RenewLease handle.simps]])
    (auto simp: Let_def split: prod.splits dest: abort_raises(2))
next
  case (Invoke req)
  show ?thesis by (rule with_lease_raises [OF i run [unfolded Invoke handle.simps]])
    (auto dest: abort_raises(2))
next
  case (Cancel t l n)
  show ?thesis by (rule with_lease_raises [OF i run [unfolded Cancel handle.simps]])
    (auto simp: Let_def split: prod.splits dest: abort_raises(2))
next
  case (ReleaseLease t l)
  show ?thesis by (rule with_lease_raises [OF i run [unfolded ReleaseLease handle.simps]])
    (auto simp: Let_def split: prod.splits dest: abort_raises(2))
qed

text \<open>Errors.  A call that raises out of its handler with an error of the runner's own classes is
  exactly a call of a peer without identity; it changes nothing.  All other errors of these classes
  become a status.  The status table has an entry for a missing identity, and no call reaches it.\<close>

theorem gateway_unidentified:
  assumes "is_runner_error e"
  shows "(handle h be acl auth s c = Some (Raised e, s') \<longleftrightarrow> peer_identity auth = Inl e \<and> s' = s) \<and>
    (peer_identity auth = Inl e \<longrightarrow> status_of e = UNAUTHENTICATED)"
proof (cases "peer_identity auth")
  case (Inl e')
  moreover have "handle h be acl auth s c = Some (Raised e', s)" using Inl
    by (cases c) (simp_all add: with_lease_def authorize_def authorize_lease_def)
  moreover have "status_of e' = UNAUTHENTICATED" using Inl
    by (auto simp: peer_identity_def status_of_def runner_error_def split: option.splits)
  ultimately show ?thesis by auto
next
  case (Inr i)
  have "handle h be acl auth s c \<noteq> Some (Raised e, s')"
    using identified_raises [OF Inr, of h be acl s c e s'] assms by blast
  then show ?thesis using Inr by simp
qed

theorem gateway_unidentified_witness:
  "handle rev sample_backend [] [] cached_service Health =
     Some (Raised (runner_error ''UNAUTHENTICATED'' ''mTLS peer identity is missing'' False), cached_service)"
  using gateway_unidentified [of "runner_error ''UNAUTHENTICATED'' ''mTLS peer identity is missing'' False"
      rev sample_backend "[]" "[]" cached_service Health cached_service]
  by (simp add: peer_identity_def runner_error_def)

end
