(* ===== verification/Py_Int.thy ===== *)
theory Py_Int
  imports Json_Canonical Py_Text
begin

text \<open>
  Python's \<open>int(text)\<close>, as far as the text is ASCII: white space around it, a sign, and decimal digits in which a single underscore
  may stand between two digits.  It reads back what \<open>str\<close> prints.  The environment of a process is a function.
\<close>

definition digit_value :: "char \<Rightarrow> int" where
  "digit_value c = int (of_char c) - 48"

fun digits_int :: "int \<Rightarrow> string \<Rightarrow> int option" where
  "digits_int acc [] = Some acc"
| "digits_int acc (c # cs) =
     (if is_digit c then digits_int (acc * 10 + digit_value c) cs
      else if c = CHR ''_'' \<and> cs \<noteq> [] \<and> is_digit (hd cs) then digits_int acc cs
      else None)"

definition py_int :: "string \<Rightarrow> int result" where
  "py_int s =
     (let t = strip s; neg = take 1 t = ''-''; body = (if neg \<or> take 1 t = ''+'' then tl t else t) in
      case (if body \<noteq> [] \<and> is_digit (hd body) then digits_int 0 body else None) of
        None \<Rightarrow> Inl (PyExn ''ValueError'' (''invalid literal for int() with base 10: '' @ s))
      | Some n \<Rightarrow> Inr (if neg then - n else n))"

lemma digits_int_fold: "\<forall>c\<in>set s. is_digit c \<Longrightarrow> digits_int acc s = Some (foldl (\<lambda>a c. a * 10 + digit_value c) acc s)"
  by (induction s arbitrary: acc) auto

lemma digit_char_value: "n < 10 \<Longrightarrow> digit_value (digit_char n) = int n"
  by (simp add: digit_value_def digit_char_def)

lemma nat_text_fold: "foldl (\<lambda>a c. a * 10 + digit_value c) 0 (nat_text n) = int n"
proof (induction n rule: nat_text.induct)
  case (1 n)
  have "int n = int (n div 10) * 10 + int (n mod 10)" by presburger
  then show ?case using 1 by (cases "n < 10") (simp_all add: nat_text.simps [of n] digit_char_value)
qed

lemma digit_not_space: "is_digit c \<Longrightarrow> \<not> is_space c"
  by (auto simp: is_digit_def is_space_def Let_def)

lemma strip_plain: "\<forall>c\<in>set s. \<not> is_space c \<Longrightarrow> strip s = s"
proof -
  have d: "\<forall>c\<in>set t. \<not> is_space c \<Longrightarrow> dropWhile is_space t = t" for t by (cases t) auto
  show "\<forall>c\<in>set s. \<not> is_space c \<Longrightarrow> strip s = s" by (simp add: strip_def d)
qed

lemma py_int_text [simp]: "py_int (int_text i) = Inr i"
proof -
  have digits: "\<forall>c\<in>set (nat_text n). is_digit c" for n using nat_text_digits by blast
  have sgn: "\<not> is_space (CHR ''-'')" "\<not> is_digit (CHR ''-'')" "\<not> is_digit (CHR ''+'')" by code_simp+
  have plain: "strip (int_text i) = int_text i"
    using digits digit_not_space sgn(1) by (intro strip_plain) (auto simp: int_text_def)
  have start: "is_digit (hd (nat_text n))" for n using digits by (metis hd_in_set nat_text_nonempty)
  have first: "take 1 (nat_text n) = [hd (nat_text n)]" for n by (cases "nat_text n") auto
  have val: "digits_int 0 (nat_text n) = Some (int n)" for n using digits by (simp add: digits_int_fold nat_text_fold)
  have no_sign: "take 1 (nat_text n) \<noteq> ''-''" "take 1 (nat_text n) \<noteq> ''+''" for n using start [of n] sgn unfolding first by auto
  show ?thesis
  proof (cases "i < 0")
    case True
    then have "int_text i = CHR ''-'' # nat_text (nat (- i))" by (simp add: int_text_def)
    then show ?thesis using plain start val True by (simp add: py_int_def)
  next
    case False
    then have "int_text i = nat_text (nat i)" by (simp add: int_text_def)
    then show ?thesis using plain start val no_sign [of "nat i"] False by (simp add: py_int_def Let_def)
  qed
qed

section \<open>Settings from the environment\<close>

type_synonym env_texts = "string \<Rightarrow> string option"

definition env_or :: "env_texts \<Rightarrow> string \<Rightarrow> string \<Rightarrow> string" where
  "env_or env name dflt = (case env name of None \<Rightarrow> dflt | Some v \<Rightarrow> v)"

definition env_int :: "env_texts \<Rightarrow> string \<Rightarrow> int \<Rightarrow> int result" where
  "env_int env name dflt = py_int (env_or env name (int_text dflt))"

lemma env_int_default [simp]: "env name = None \<Longrightarrow> env_int env name n = Inr n"
  by (simp add: env_int_def env_or_def)

text \<open>An option of the command line whose default is an environment variable.\<close>

definition argument :: "env_texts \<Rightarrow> env_texts \<Rightarrow> string \<Rightarrow> string \<Rightarrow> string \<Rightarrow> string" where
  "argument args env option name dflt = (case args option of None \<Rightarrow> env_or env name dflt | Some v \<Rightarrow> v)"

end
