(* ===== verification/State_Migration.thy ===== *)
theory State_Migration
  imports Runner_State Py_Int
begin

text \<open>
  Opening the database, \<^verbatim>\<open>RunnerDB._init_schema\<close> and \<^verbatim>\<open>_migrate_legacy_runs\<close> of \<^verbatim>\<open>runner_engine/state.py\<close>: the tables are created
  where they are missing, and a table of runs from before the split, which was history and replay cache in one, becomes the
  history table.  The statements of a call are one transaction.  The casts of PostgreSQL and the text of a JSON array or object
  are parameters.  A legacy row has the columns that the migration reads and those that it keeps; its timestamps are not null.
\<close>

section \<open>Schemas\<close>

record pg_world =
  pg_text :: "json \<Rightarrow> string"
  pg_boolean :: "string \<Rightarrow> bool option"
  pg_bigint :: "string \<Rightarrow> int option"

record legacy_run =
  lg_tenant_id :: string
  lg_release_id :: string
  lg_idempotency_key :: string
  lg_lease_id :: string
  lg_invocation_id :: string
  lg_request_fingerprint :: string
  lg_state :: string
  lg_result_json :: "json option"
  lg_created_at :: int
  lg_updated_at :: int

datatype runs_table = NoRuns | LegacyRuns "legacy_run list" | SplitRuns "run_row list"

record runner_schema =
  sc_leases :: "lease_row list option"
  sc_runs :: runs_table
  sc_keys :: "idem_row list option"

definition db_error :: "string \<Rightarrow> string \<Rightarrow> exn" where
  "db_error kind msg = PyExn kind msg"

section \<open>Migration\<close>

text \<open>\<open>result_json->>'key'\<close>.\<close>

definition json_arrow :: "pg_world \<Rightarrow> json option \<Rightarrow> string \<Rightarrow> string option" where
  "json_arrow w j k =
     (case j of
        Some (JObj kvs) \<Rightarrow>
          (case map_of kvs k of
             None \<Rightarrow> None
           | Some JNull \<Rightarrow> None
           | Some (JStr s) \<Rightarrow> Some s
           | Some (JBool b) \<Rightarrow> Some (if b then ''true'' else ''false'')
           | Some (JInt i) \<Rightarrow> Some (int_text i)
           | Some v \<Rightarrow> Some (pg_text w v))
      | _ \<Rightarrow> None)"

definition cast :: "(string \<Rightarrow> 'a option) \<Rightarrow> string option \<Rightarrow> 'a option result" where
  "cast f t =
     (case t of
        None \<Rightarrow> Inr None
      | Some s \<Rightarrow> (case f s of None \<Rightarrow> Inl (db_error ''InvalidTextRepresentation'' s) | Some v \<Rightarrow> Inr (Some v)))"

text \<open>The loop over the rows without an identifier: each gets one by its key.\<close>

definition legacy_key :: "legacy_run \<Rightarrow> string \<times> string \<times> string" where
  "legacy_key r = (lg_tenant_id r, lg_release_id r, lg_idempotency_key r)"

fun assign_run_ids :: "(nat \<Rightarrow> string) \<Rightarrow> nat \<Rightarrow> (string \<times> string \<times> string) list \<Rightarrow> (string option \<times> legacy_run) list \<Rightarrow> (string option \<times> legacy_run) list" where
  "assign_run_ids uuid n [] rows = rows"
| "assign_run_ids uuid n (k # ks) rows =
     assign_run_ids uuid (Suc n) ks (update_where (\<lambda>r. legacy_key (snd r) = k) (\<lambda>r. (Some (uuid n), snd r)) rows)"

fun run_state_of :: "string \<Rightarrow> run_state result" where
  "run_state_of s =
     (if s = ''RUNNING'' then Inr RUNNING else if s = ''DONE'' then Inr DONE else if s = ''ABANDONED'' then Inr ABANDONED
      else Inl (db_error ''CheckViolation'' ''runs_state_check''))"

fun each :: "('a \<Rightarrow> 'b result) \<Rightarrow> 'a list \<Rightarrow> 'b list result" where
  "each f [] = Inr []"
| "each f (x # xs) = result_bind (f x) (\<lambda>y. map_sum id (Cons y) (each f xs))"

text \<open>The columns of the final \<open>UPDATE\<close>, for a row whose added columns are null.\<close>

definition migrated_row :: "pg_world \<Rightarrow> string \<Rightarrow> run_state \<Rightarrow> legacy_run \<Rightarrow> run_row result" where
  "migrated_row w run_id st r =
     (let text = json_arrow w (lg_result_json r) in
      result_bind (cast (pg_boolean w) (text ''retryable'')) (\<lambda>retryable.
      result_bind (cast (pg_bigint w) (text ''duration_ms'')) (\<lambda>duration.
      Inr \<lparr>r_run_id = run_id, r_tenant_id = lg_tenant_id r, r_project_id = None, r_processor_id = None, r_release_id = lg_release_id r,
           r_lease_id = lg_lease_id r, r_invocation_id = lg_invocation_id r, r_idempotency_key = lg_idempotency_key r,
           r_request_fingerprint = lg_request_fingerprint r, r_state = st,
           r_outcome_class =
             (if st = DONE \<and> text ''status'' = Some ''SUCCEEDED'' then Some ''SUCCESS''
              else if st = DONE \<and> retryable = Some True then Some ''RETRYABLE_FAILURE''
              else if st = DONE then Some ''USER_FAILURE'' else None),
           r_status = text ''status'', r_relationship = text ''relationship'', r_retryable = retryable, r_error_code = text ''error_code'',
           r_error_message = text ''error_message'', r_worker_id = text ''worker_id'', r_duration_ms = duration, r_replayable = False,
           r_idempotency_expires_at = None, r_started_at = lg_created_at r,
           r_completed_at = (if st = DONE then Some (lg_updated_at r) else None), r_created_at = lg_created_at r, r_updated_at = lg_updated_at r\<rparr>)))"

definition with_run_id :: "string option \<times> legacy_run \<Rightarrow> (string \<times> legacy_run) result" where
  "with_run_id x = (case fst x of None \<Rightarrow> Inl (db_error ''NotNullViolation'' ''run_id'') | Some i \<Rightarrow> Inr (i, snd x))"

definition migrate_legacy_runs :: "pg_world \<Rightarrow> (nat \<Rightarrow> string) \<Rightarrow> legacy_run list \<Rightarrow> run_row list result" where
  "migrate_legacy_runs w uuid rows =
     (let numbered = assign_run_ids uuid 0 (map legacy_key rows) (map (Pair None) rows) in
      result_bind (each with_run_id numbered) (\<lambda>ided.
      if \<not> distinct (map fst ided) then Inl (db_error ''UniqueViolation'' ''runs_pkey'')
      else
        result_bind (each (\<lambda>x. map_sum id (Pair x) (run_state_of (lg_state (snd x)))) ided) (\<lambda>checked.
        each (\<lambda>((i, r), st). migrated_row w i st r) checked)))"

definition init_schema :: "pg_world \<Rightarrow> (nat \<Rightarrow> string) \<Rightarrow> runner_schema \<Rightarrow> unit result \<times> runner_schema" where
  "init_schema w uuid sc =
     (case (case sc_runs sc of NoRuns \<Rightarrow> Inr [] | LegacyRuns rows \<Rightarrow> migrate_legacy_runs w uuid rows | SplitRuns rs \<Rightarrow> Inr rs) of
        Inl e \<Rightarrow> (Inl e, sc)
      | Inr rs \<Rightarrow>
          (Inr (), \<lparr>sc_leases = Some (case sc_leases sc of None \<Rightarrow> [] | Some t \<Rightarrow> t), sc_runs = SplitRuns rs,
             sc_keys = Some (case sc_keys sc of None \<Rightarrow> [] | Some t \<Rightarrow> t)\<rparr>))"

text \<open>The tables that the methods of \<open>RunnerDB\<close> work on.\<close>

definition tables_of :: "runner_schema \<Rightarrow> runner_db" where
  "tables_of sc = \<lparr>leases = (case sc_leases sc of None \<Rightarrow> [] | Some t \<Rightarrow> t), db_runs = (case sc_runs sc of SplitRuns rs \<Rightarrow> rs | _ \<Rightarrow> []),
     idempotency_keys = (case sc_keys sc of None \<Rightarrow> [] | Some t \<Rightarrow> t)\<rparr>"

definition open_runner_db :: "pg_world \<Rightarrow> (nat \<Rightarrow> string) \<Rightarrow> string \<Rightarrow> runner_schema \<Rightarrow> runner_db result \<times> runner_schema" where
  "open_runner_db w uuid dsn sc =
     (if dsn = [] then (Inl (PyExn ''ValueError'' ''PostgreSQL DSN is required''), sc)
      else case init_schema w uuid sc of (Inl e, sc') \<Rightarrow> (Inl e, sc') | (Inr _, sc') \<Rightarrow> (Inr (tables_of sc'), sc'))"

section \<open>The migration keeps the history\<close>

text \<open>What the code before the split stored: a result exactly for the runs that are done.\<close>

definition legacy_ok :: "legacy_run \<Rightarrow> bool" where
  "legacy_ok r \<longleftrightarrow> lg_state r = ''RUNNING'' \<and> lg_result_json r = None \<or>
     lg_state r = ''DONE'' \<and> (\<exists>res. lg_result_json r = Some (result_to_dict res))"

text \<open>How a row of the history tells the same run.\<close>

definition same_run :: "legacy_run \<Rightarrow> run_row \<Rightarrow> bool" where
  "same_run l r \<longleftrightarrow>
     (r_tenant_id r, r_release_id r, r_idempotency_key r) = legacy_key l \<and> r_lease_id r = lg_lease_id l \<and> r_invocation_id r = lg_invocation_id l \<and>
     r_request_fingerprint r = lg_request_fingerprint l \<and> r_started_at r = lg_created_at l \<and> r_created_at r = lg_created_at l \<and>
     (if lg_state l = ''DONE'' then r_state r = DONE \<and> r_completed_at r = Some (lg_updated_at l) \<and>
        (\<forall>res. lg_result_json l = Some (result_to_dict res) \<longrightarrow>
          r_outcome_class r = Some (outcome_class res) \<and> r_status r = Some (res_status res) \<and> r_relationship r = Some (res_relationship res) \<and>
          r_retryable r = Some (res_retryable res) \<and> r_error_code r = Some (res_error_code res) \<and> r_error_message r = Some (res_error_message res) \<and>
          r_worker_id r = Some (res_worker_id res) \<and> r_duration_ms r = Some (res_duration_ms res))
      else r_state r = RUNNING)"

text \<open>The casts read back what a stored result prints as.\<close>

definition casts_ok :: "pg_world \<Rightarrow> bool" where
  "casts_ok w \<longleftrightarrow> pg_boolean w ''true'' = Some True \<and> pg_boolean w ''false'' = Some False \<and> (\<forall>i. \<bar>i\<bar> < 2 ^ 63 \<longrightarrow> pg_bigint w (int_text i) = Some i)"

definition short_result :: "legacy_run \<Rightarrow> bool" where
  "short_result r \<longleftrightarrow> (\<forall>res. lg_result_json r = Some (result_to_dict res) \<longrightarrow> \<bar>res_duration_ms res\<bar> < 2 ^ 63)"

lemma arrow_result [simp]:
  "json_arrow w (Some (result_to_dict res)) ''status'' = Some (res_status res)"
  "json_arrow w (Some (result_to_dict res)) ''relationship'' = Some (res_relationship res)"
  "json_arrow w (Some (result_to_dict res)) ''retryable'' = Some (if res_retryable res then ''true'' else ''false'')"
  "json_arrow w (Some (result_to_dict res)) ''error_code'' = Some (res_error_code res)"
  "json_arrow w (Some (result_to_dict res)) ''error_message'' = Some (res_error_message res)"
  "json_arrow w (Some (result_to_dict res)) ''worker_id'' = Some (res_worker_id res)"
  "json_arrow w (Some (result_to_dict res)) ''duration_ms'' = Some (int_text (res_duration_ms res))"
  by (simp_all add: json_arrow_def result_to_dict_def)

lemma arrow_none [simp]: "json_arrow w None k = None"
  by (simp add: json_arrow_def)

lemma result_to_dict_inj: "result_to_dict a = result_to_dict b \<longleftrightarrow> a = b"
  by (metis result_from_to_dict sum.inject(2))

fun numbered :: "(nat \<Rightarrow> string) \<Rightarrow> nat \<Rightarrow> legacy_run list \<Rightarrow> (string \<times> legacy_run) list" where
  "numbered uuid n [] = []"
| "numbered uuid n (r # rs) = (uuid n, r) # numbered uuid (Suc n) rs"

lemma numbered_facts: "map snd (numbered uuid n rs) = rs" "map fst (numbered uuid n rs) = map uuid [n..<n + length rs]"
  by (induction rs arbitrary: n) (simp_all add: upt_rec)

lemma assign_numbered:
  assumes "distinct (map legacy_key rs)" "\<forall>x\<in>set pre. legacy_key (snd x) \<notin> legacy_key ` set rs"
  shows "assign_run_ids uuid n (map legacy_key rs) (pre @ map (Pair None) rs) = pre @ map (\<lambda>(i, r). (Some i, r)) (numbered uuid n rs)"
  using assms
proof (induction rs arbitrary: pre n)
  case (Cons r rs)
  have tail: "update_where (\<lambda>x. legacy_key (snd x) = legacy_key r) f (map (Pair None) rs) = map (Pair None) rs" for f
    using Cons.prems(1) by (intro update_where_none) (auto, metis image_eqI)
  have head: "update_where (\<lambda>x. legacy_key (snd x) = legacy_key r) f pre = pre" for f using Cons.prems(2) by (intro update_where_none) auto
  have split: "update_where p f (xs @ y # ys) = update_where p f xs @ (if p y then f y else y) # update_where p f ys" for p f xs y ys
    by (simp add: update_where_def)
  show ?case using Cons.IH [of "pre @ [(Some (uuid n), r)]" "Suc n"] Cons.prems by (simp add: split head tail)
qed simp

lemma each_map: "(\<And>x. x \<in> set xs \<Longrightarrow> f x = Inr (g x)) \<Longrightarrow> each f xs = Inr (map g xs)"
  by (induction xs) auto

lemma each_map_arg: "each f (map g xs) = each (\<lambda>x. f (g x)) xs"
  by (induction xs) auto

lemma each_list_all2:
  assumes "\<And>x. x \<in> set xs \<Longrightarrow> \<exists>y. f x = Inr y \<and> p x y"
  shows "\<exists>ys. each f xs = Inr ys \<and> list_all2 p xs ys"
  using assms
proof (induction xs)
  case (Cons x xs)
  from Cons.prems [of x] obtain y where "f x = Inr y" "p x y" by auto
  moreover from Cons obtain ys where "each f xs = Inr ys" "list_all2 p xs ys" by auto
  ultimately show ?case by auto
qed simp

lemma migrated_row_same:
  assumes "casts_ok w" "legacy_ok l" "short_result l"
  shows "\<exists>st r. run_state_of (lg_state l) = Inr st \<and> migrated_row w i st l = Inr r \<and> r_run_id r = i \<and> same_run l r"
  using assms(2) unfolding legacy_ok_def
proof (elim disjE conjE exE)
  assume "lg_state l = ''RUNNING''" "lg_result_json l = None"
  then show ?thesis by (simp add: migrated_row_def cast_def same_run_def legacy_key_def)
next
  fix res assume l: "lg_state l = ''DONE''" "lg_result_json l = Some (result_to_dict res)"
  then have "\<bar>res_duration_ms res\<bar> < 2 ^ 63" using assms(3) by (simp add: short_result_def result_to_dict_inj)
  then show ?thesis using l assms(1)
    by (simp add: migrated_row_def cast_def same_run_def legacy_key_def casts_ok_def outcome_class_def result_to_dict_inj)
qed

lemma migration_runs:
  assumes "casts_ok w" "\<forall>l\<in>set rows. legacy_ok l \<and> short_result l" "distinct (map legacy_key rows)" "inj uuid"
  shows "\<exists>rs. migrate_legacy_runs w uuid rows = Inr rs \<and> list_all2 same_run rows rs \<and> map r_run_id rs = map uuid [0..<length rows]"
proof -
  let ?ns = "numbered uuid 0 rows"
  have ids: "each with_run_id (assign_run_ids uuid 0 (map legacy_key rows) (map (Pair None) rows)) = Inr ?ns"
    using assign_numbered [OF assms(3), of "[]"] by (simp add: each_map_arg with_run_id_def case_prod_beta each_map [where g = id])
  have mem: "snd x \<in> set rows" if "x \<in> set ?ns" for x using that numbered_facts(1) [of uuid 0 rows] by (metis image_eqI list.set_map)
  have dist: "distinct (map fst ?ns)" using assms(4) by (simp add: numbered_facts distinct_map inj_on_def)
  have "\<exists>st r. run_state_of (lg_state (snd x)) = Inr st \<and> migrated_row w (fst x) st (snd x) = Inr r \<and> r_run_id r = fst x \<and> same_run (snd x) r"
    if "x \<in> set ?ns" for x using migrated_row_same [OF assms(1)] assms(2) mem [OF that] by blast
  then obtain st where st: "\<forall>x\<in>set ?ns. run_state_of (lg_state (snd x)) = Inr (st x) \<and> (\<exists>r. migrated_row w (fst x) (st x) (snd x) = Inr r \<and> r_run_id r = fst x \<and> same_run (snd x) r)"
    by metis
  have checked: "each (\<lambda>x. map_sum id (Pair x) (run_state_of (lg_state (snd x)))) ?ns = Inr (map (\<lambda>x. (x, st x)) ?ns)"
    using st by (intro each_map) (simp del: run_state_of.simps)
  obtain rs where rs: "each (\<lambda>x. migrated_row w (fst x) (st x) (snd x)) ?ns = Inr rs" "list_all2 (\<lambda>x r. r_run_id r = fst x \<and> same_run (snd x) r) ?ns rs"
    using each_list_all2 [of ?ns "\<lambda>x. migrated_row w (fst x) (st x) (snd x)" "\<lambda>x r. r_run_id r = fst x \<and> same_run (snd x) r"] st by blast
  have "list_all2 same_run (map snd ?ns) rs" using rs(2) by (simp add: list_all2_map1) (auto elim: list_all2_mono)
  moreover have "map fst ?ns = map r_run_id rs" using rs(2) by (induction rule: list_all2_induct) auto
  moreover have "migrate_legacy_runs w uuid rows = Inr rs"
    using ids dist checked rs(1) by (simp add: migrate_legacy_runs_def each_map_arg case_prod_beta Let_def)
  ultimately show ?thesis by (simp add: numbered_facts)
qed

lemma reset_after_migration:
  assumes "distinct (map l_id (leases db))" "distinct (map r_run_id (db_runs db))" "idempotency_keys db = []"
    and "\<forall>r\<in>set (db_runs db). r_state r \<noteq> RUNNING \<longrightarrow> r_completed_at r \<noteq> None"
  shows "db_inv (snd (reset_running db dbnow))"
proof (rule db_invI)
  show "distinct (map r_run_id (db_runs (snd (reset_running db dbnow))))"
    using assms(2) by (simp add: reset_running_def map_update_where_key abandon_row_def)
qed (use assms in \<open>auto simp: reset_running_def set_update_where delete_where_def abandon_row_def\<close>)

lemma migration_facts:
  assumes "sc_runs sc = LegacyRuns rows" "sc_keys sc = None" "dsn \<noteq> []" "casts_ok w" "\<forall>l\<in>set rows. legacy_ok l \<and> short_result l"
    and "distinct (map legacy_key rows)" "inj uuid" "\<forall>t. sc_leases sc = Some t \<longrightarrow> distinct (map l_id t)"
  shows "\<exists>db sc'. open_runner_db w uuid dsn sc = (Inr db, sc') \<and> list_all2 same_run rows (db_runs db) \<and> distinct (map r_run_id (db_runs db)) \<and>
    (\<forall>key. idem_view db key = None) \<and> open_runner_db w uuid2 dsn sc' = (Inr db, sc') \<and>
    (\<forall>db'. db_step\<^sup>*\<^sup>* (snd (reset_running db dbnow)) db' \<longrightarrow> db_inv db')"
proof -
  obtain rs where rs: "migrate_legacy_runs w uuid rows = Inr rs" "list_all2 same_run rows rs" "map r_run_id rs = map uuid [0..<length rows]"
    using migration_runs [OF assms(4-7)] by blast
  let ?ls = "case sc_leases sc of None \<Rightarrow> [] | Some t \<Rightarrow> t"
  let ?db = "\<lparr>leases = ?ls, db_runs = rs, idempotency_keys = []\<rparr>" and ?sc = "\<lparr>sc_leases = Some ?ls, sc_runs = SplitRuns rs, sc_keys = Some []\<rparr>"
  have first: "open_runner_db w uuid dsn sc = (Inr ?db, ?sc)" using assms(1-3) rs(1) by (simp add: open_runner_db_def init_schema_def tables_of_def)
  have again: "open_runner_db w uuid2 dsn ?sc = (Inr ?db, ?sc)" using assms(3) by (simp add: open_runner_db_def init_schema_def tables_of_def)
  have dist: "distinct (map r_run_id rs)" using assms(7) rs(3) by (simp add: distinct_map inj_on_def)
  have "\<exists>l\<in>set rows. same_run l r" if "r \<in> set rs" for r using rs(2) that by (metis in_set_conv_nth list_all2_conv_all_nth nth_mem)
  then have ended: "\<forall>r\<in>set rs. r_state r \<noteq> RUNNING \<longrightarrow> r_completed_at r \<noteq> None" by (fastforce simp: same_run_def split: if_splits)
  have inv: "db_inv (snd (reset_running ?db dbnow))"
    using dist ended assms(8) by (intro reset_after_migration) (auto split: option.splits)
  have "db_inv db'" if "db_step\<^sup>*\<^sup>* (snd (reset_running ?db dbnow)) db'" for db'
    using that inv by (induction rule: rtranclp_induct) (auto intro: db_step_inv)
  moreover have "idem_view ?db key = None" for key by (simp add: idem_view_def fetchone_def)
  ultimately show ?thesis using first again rs(2) dist by auto
qed

lemma migrated_reset_inv:
  assumes "sc_runs sc = LegacyRuns rows" "sc_keys sc = None" "dsn \<noteq> []" "casts_ok w" "\<forall>l\<in>set rows. legacy_ok l \<and> short_result l"
    and "distinct (map legacy_key rows)" "inj uuid" "\<forall>t. sc_leases sc = Some t \<longrightarrow> distinct (map l_id t)" "open_runner_db w uuid dsn sc = (Inr db, sc')"
  shows "db_inv (snd (reset_running db dbnow))"
  using migration_facts [OF assms(1-8), of "\<lambda>_. []" dbnow] assms(9) by auto

text \<open>C7: Opening a database from before the split keeps the history and makes it safe to run on.  Every legacy run becomes one run, in the same
  order and under an identifier of its own; a run that was done keeps its times and the fields of its stored result, and its outcome class is the
  one that \<open>finish_run\<close> would have recorded.  Nothing is replayed from the old table, a second start changes nothing, and once the runs that were
  cut short are ended the invariant of the tables holds, after any number of operations.  The keys were a primary key.\<close>

theorem migration_keeps_history:
  assumes "sc_runs sc = LegacyRuns rows" "sc_keys sc = None" "dsn \<noteq> []" "casts_ok w" "\<forall>l\<in>set rows. legacy_ok l \<and> short_result l"
    and "distinct (map legacy_key rows)" "inj uuid" "\<forall>t. sc_leases sc = Some t \<longrightarrow> distinct (map l_id t)"
  shows "\<exists>db sc'. open_runner_db w uuid dsn sc = (Inr db, sc') \<and> list_all2 same_run rows (db_runs db) \<and> distinct (map r_run_id (db_runs db)) \<and>
    (\<forall>key. idem_view db key = None) \<and> open_runner_db w uuid2 dsn sc' = (Inr db, sc') \<and>
    (\<forall>db'. db_step\<^sup>*\<^sup>* (snd (reset_running db dbnow)) db' \<longrightarrow> db_inv db')"
  by (rule migration_facts [OF assms])

definition demo_pg :: pg_world where
  "demo_pg = \<lparr>pg_text = print_json, pg_boolean = (\<lambda>s. if s = ''true'' then Some True else if s = ''false'' then Some False else None),
     pg_bigint = (\<lambda>s. case py_int s of Inr i \<Rightarrow> if \<bar>i\<bar> < 2 ^ 63 then Some i else None | Inl _ \<Rightarrow> None)\<rparr>"

definition demo_legacy :: "legacy_run list" where
  "demo_legacy =
     [\<lparr>lg_tenant_id = ''t'', lg_release_id = ''r'', lg_idempotency_key = ''a'', lg_lease_id = ''l'', lg_invocation_id = ''i'', lg_request_fingerprint = ''f'',
       lg_state = ''RUNNING'', lg_result_json = None, lg_created_at = 1, lg_updated_at = 1\<rparr>,
      \<lparr>lg_tenant_id = ''t'', lg_release_id = ''r'', lg_idempotency_key = ''b'', lg_lease_id = ''l'', lg_invocation_id = ''j'', lg_request_fingerprint = ''g'',
       lg_state = ''DONE'', lg_result_json = Some (result_to_dict \<lparr>res_status = ''FAILED'', res_relationship = ''retry'', res_content = [], res_attributes = [],
         res_retryable = True, res_error_code = ''E'', res_error_message = [], res_worker_id = ''w'', res_duration_ms = 12\<rparr>), lg_created_at = 2, lg_updated_at = 5\<rparr>]"

definition demo_schema :: runner_schema where
  "demo_schema = \<lparr>sc_leases = None, sc_runs = LegacyRuns demo_legacy, sc_keys = None\<rparr>"

lemma demo_legacy_ok: "casts_ok demo_pg" "\<forall>l\<in>set demo_legacy. legacy_ok l \<and> short_result l" "distinct (map legacy_key demo_legacy)"
proof -
  show "casts_ok demo_pg" by (simp add: casts_ok_def demo_pg_def)
  show "\<forall>l\<in>set demo_legacy. legacy_ok l \<and> short_result l" by (auto simp: demo_legacy_def legacy_ok_def short_result_def result_to_dict_inj)
  show "distinct (map legacy_key demo_legacy)" by (simp add: demo_legacy_def legacy_key_def)
qed

theorem migration_keeps_history_witness:
  "\<exists>db sc'. open_runner_db demo_pg (\<lambda>n. replicate n (CHR ''u'')) ''dsn'' demo_schema = (Inr db, sc') \<and> list_all2 same_run demo_legacy (db_runs db) \<and>
     db_inv (snd (reset_running db 9))"
proof -
  have uuid: "inj (\<lambda>n. replicate n (CHR ''u''))" by (rule injI) simp
  have sc: "sc_runs demo_schema = LegacyRuns demo_legacy" "sc_keys demo_schema = None" "''dsn'' \<noteq> []"
    "\<forall>t. sc_leases demo_schema = Some t \<longrightarrow> distinct (map l_id t)" by (simp_all add: demo_schema_def)
  from migration_keeps_history [OF sc(1-3) demo_legacy_ok uuid sc(4), of "\<lambda>_. []" 9] show ?thesis by blast
qed

end
