(* ===== verification/Runner_Startup.thy ===== *)
theory Runner_Startup
  imports Runner_Gateway State_Migration
begin

text \<open>
  \<^verbatim>\<open>runner_engine/policy.py\<close>, \<^verbatim>\<open>AccessControl.from_json\<close> and \<^verbatim>\<open>main\<close> of \<^verbatim>\<open>runner_engine/app.py\<close> up to the start of the server: from the
  command line, the environment and the configuration files to a running service.  The environment is a function; the options
  given on the command line are another.  A file of JSON numbers that are integers, the text that \<open>str\<close> gives for a value that is no
  string, the constructor of the backend, the catalog directory and the clocks are parameters.
\<close>

section \<open>Policies and access\<close>

definition json_int :: "json \<Rightarrow> int result" where
  "json_int v =
     (case v of
        JInt i \<Rightarrow> Inr i
      | JBool b \<Rightarrow> Inr (if b then 1 else 0)
      | JStr s \<Rightarrow> py_int s
      | _ \<Rightarrow> Inl (type_error ''int() argument must be a string, a bytes-like object or a real number''))"

definition json_tuple :: "json \<Rightarrow> string list result" where
  "json_tuple v =
     (case v of
        JArr js \<Rightarrow> str_items js
      | JStr s \<Rightarrow> Inr (utf8_chars s)
      | JObj kvs \<Rightarrow> Inr (map fst kvs)
      | _ \<Rightarrow> Inl (type_error ''object is not iterable''))"

definition json_get :: "(string, json) dict \<Rightarrow> string \<Rightarrow> json \<Rightarrow> json" where
  "json_get kvs k dflt = (case map_of kvs k of None \<Rightarrow> dflt | Some v \<Rightarrow> v)"

definition json_as_str :: "(json \<Rightarrow> string) \<Rightarrow> json \<Rightarrow> string" where
  "json_as_str repr v = (case v of JStr s \<Rightarrow> s | _ \<Rightarrow> repr v)"

definition policy_of_json :: "(json \<Rightarrow> string) \<Rightarrow> string \<Rightarrow> json \<Rightarrow> security_policy result" where
  "policy_of_json repr name item =
     (case item of
        JObj kvs \<Rightarrow>
          result_bind (need_str item ''sandbox_cluster'') (\<lambda>cluster.
          result_bind (json_int (json_get kvs ''max_timeout_ms'' (JInt 60000))) (\<lambda>timeout.
          result_bind (json_tuple (json_get kvs ''network_allow'' (JArr []))) (\<lambda>network.
          Inr \<lparr>pol_name = name, sandbox_cluster = cluster, cpu = json_as_str repr (json_get kvs ''cpu'' (JStr ''1'')),
               memory = json_as_str repr (json_get kvs ''memory'' (JStr ''512Mi'')), max_timeout_ms = timeout, network_allow = network,
               reuse_sandbox = json_truthy (json_get kvs ''reuse_sandbox'' (JBool True))\<rparr>)))
      | _ \<Rightarrow> Inl (type_error ''indices must be integers''))"

fun each_entry :: "(string \<Rightarrow> 'a \<Rightarrow> 'b result) \<Rightarrow> (string, 'a) dict \<Rightarrow> (string, 'b) dict result" where
  "each_entry f [] = Inr []"
| "each_entry f ((k, v) # kvs) = result_bind (f k v) (\<lambda>x. map_sum id (Cons (k, x)) (each_entry f kvs))"

definition load_policies :: "(json \<Rightarrow> string) \<Rightarrow> json \<Rightarrow> (string, security_policy) dict result" where
  "load_policies repr raw = (case raw of JObj kvs \<Rightarrow> each_entry (policy_of_json repr) kvs | _ \<Rightarrow> Inl (PyExn ''AttributeError'' ''items''))"

text \<open>The access list has the shape that \<open>allow\<close> reads.\<close>

definition access_of_json :: "json \<Rightarrow> access result" where
  "access_of_json raw =
     (case raw of
        JObj kvs \<Rightarrow>
          (case json_get kvs ''identities'' (JObj []) of
             JObj ids \<Rightarrow>
               each_entry (\<lambda>_ tenants. case tenants of
                 JObj ts \<Rightarrow> each_entry (\<lambda>_ projects. case projects of JArr ps \<Rightarrow> str_items ps | _ \<Rightarrow> Inl (type_error ''projects'')) ts
               | _ \<Rightarrow> Inl (type_error ''tenants'')) ids
           | _ \<Rightarrow> Inl (type_error ''identities''))
      | _ \<Rightarrow> Inl (PyExn ''AttributeError'' ''get''))"

section \<open>Settings\<close>

fun require :: "(string \<times> string) list \<Rightarrow> unit result" where
  "require [] = Inr ()"
| "require ((name, v) # rest) = (if v = [] then Inl (PyExn ''SystemExit'' (''--'' @ name @ '' is required'')) else require rest)"

record 'b runner_host =
  rh_json :: "string \<Rightarrow> json result"
  rh_repr :: "json \<Rightarrow> string"
  rh_backend :: "json \<Rightarrow> string \<Rightarrow> 'b"
  rh_catalog :: "string \<Rightarrow> catalog"
  rh_pg :: pg_world
  rh_run_ids :: "nat \<Rightarrow> string"
  rh_clock :: "nat \<Rightarrow> rat"
  rh_wall :: "nat \<Rightarrow> int"
  rh_db_wall :: "nat \<Rightarrow> int"
  rh_uuids :: "nat \<Rightarrow> string"

definition required_arguments :: "env_texts \<Rightarrow> env_texts \<Rightarrow> (string \<times> string) list" where
  "required_arguments args env =
     [(''db-url'', argument args env ''db-url'' ''RUNNER_DB_URL'' []), (''owner-id'', argument args env ''owner-id'' ''RUNNER_OWNER_ID'' []),
      (''tls-cert'', argument args env ''tls-cert'' ''RUNNER_TLS_CERT'' []), (''tls-key'', argument args env ''tls-key'' ''RUNNER_TLS_KEY'' []),
      (''client-ca'', argument args env ''client-ca'' ''RUNNER_CLIENT_CA'' [])]"

text \<open>Lines 32 to 59: everything before the database is opened.\<close>

definition make_pool :: "'b runner_host \<Rightarrow> env_texts \<Rightarrow> env_texts \<Rightarrow> ((string, security_policy) dict \<times> 'b pool) result" where
  "make_pool host args env =
     result_bind (require (required_arguments args env)) (\<lambda>_.
     result_bind (rh_json host (argument args env ''clusters'' ''RUNNER_CLUSTERS'' ''./config/opensandbox.json'')) (\<lambda>clusters.
     result_bind (rh_json host (argument args env ''policies'' ''RUNNER_POLICIES'' ''./config/policies.json'')) (\<lambda>raw.
     result_bind (load_policies (rh_repr host) raw) (\<lambda>policies.
     result_bind (env_int env ''RUNNER_MAX_CREATING'' 8) (\<lambda>creating.
     result_bind (env_int env ''RUNNER_MAX_LIVE'' 64) (\<lambda>live.
     result_bind (env_int env ''RUNNER_MAX_LIVE_PER_TENANT'' 16) (\<lambda>tenant.
     result_bind (quota_init creating live tenant) (\<lambda>quota.
     result_bind (env_int env ''RUNNER_WORKER_IDLE_SECONDS'' 600) (\<lambda>idle.
     result_bind (env_int env ''RUNNER_SANDBOX_ORPHAN_TTL_SECONDS'' 3600) (\<lambda>orphan.
     result_bind (env_int env ''RUNNER_SANDBOX_RENEW_BEFORE_SECONDS'' 900) (\<lambda>renew.
     result_bind (env_int env ''RUNNER_MAX_RELEASES_PER_SANDBOX'' 256) (\<lambda>releases.
     map_sum id (Pair policies)
       (pool_init (rh_backend host clusters (argument args env ''owner-id'' ''RUNNER_OWNER_ID'' [])) quota idle orphan renew releases (rh_clock host))))))))))))))"

definition make_service :: "'b runner_host \<Rightarrow> env_texts \<Rightarrow> env_texts \<Rightarrow> runner_schema \<Rightarrow> 'b service result \<times> runner_schema" where
  "make_service host args env sc =
     (case make_pool host args env of
        Inl e \<Rightarrow> (Inl e, sc)
      | Inr (policies, pool) \<Rightarrow>
          (case open_runner_db (rh_pg host) (rh_run_ids host) (argument args env ''db-url'' ''RUNNER_DB_URL'' []) sc of
             (Inl e, sc') \<Rightarrow> (Inl e, sc')
           | (Inr db, sc') \<Rightarrow>
               (result_bind (env_int env ''RUNNER_LEASE_TTL_MS'' (15 * 60 * 1000)) (\<lambda>lease_ttl.
                result_bind (env_int env ''RUNNER_IDEMPOTENCY_RETENTION_MS'' (7 * 24 * 60 * 60 * 1000)) (\<lambda>keys.
                result_bind (env_int env ''RUNNER_RUN_RETENTION_MS'' (90 * 24 * 60 * 60 * 1000)) (\<lambda>runs.
                Inr \<lparr>svc_catalog = rh_catalog host (argument args env ''catalog'' ''RUNNER_CATALOG'' ''./catalog''), svc_db = db, svc_pool = pool,
                     svc_policies = policies, lease_ttl_ms = lease_ttl, idempotency_retention_ms = keys, run_retention_ms = runs, active = [],
                     reaper_started = False, stopping = False, wall = rh_wall host, db_wall = rh_db_wall host, uuids = rh_uuids host, draws = 0\<rparr>))), sc')))"

text \<open>Lines 71 to 83: the service and the access list that the server is started with.  Once it is open, the database is what the service holds.\<close>

definition schema_of :: "runner_db \<Rightarrow> runner_schema" where
  "schema_of db = \<lparr>sc_leases = Some (leases db), sc_runs = SplitRuns (db_runs db), sc_keys = Some (idempotency_keys db)\<rparr>"

definition start_runner :: "'b backend \<Rightarrow> 'b runner_host \<Rightarrow> env_texts \<Rightarrow> env_texts \<Rightarrow> runner_schema \<Rightarrow> ('b service \<times> access) result \<times> runner_schema" where
  "start_runner be host args env sc =
     (case make_service host args env sc of
        (Inl e, sc') \<Rightarrow> (Inl e, sc')
      | (Inr s, _) \<Rightarrow>
          (case startup be s of
             (Inl e, s1) \<Rightarrow> (Inl e, schema_of (svc_db s1))
           | (Inr _, s1) \<Rightarrow>
               (result_bind (env_int env ''RUNNER_REAPER_INTERVAL_SECONDS'' 30) (\<lambda>interval.
                case start_background s1 interval of
                  (Inl e, _) \<Rightarrow> Inl e
                | (Inr _, s2) \<Rightarrow>
                    map_sum id (Pair s2) (result_bind (rh_json host (argument args env ''acl'' ''RUNNER_ACL'' ''./config/acl.json'')) access_of_json)),
                schema_of (svc_db s1))))"

section \<open>A started runner is safe\<close>

text \<open>The databases that a runner may be started on: none yet, one that this code left, or one from before the split.\<close>

definition usable_schema :: "'b runner_host \<Rightarrow> runner_schema \<Rightarrow> bool" where
  "usable_schema host sc \<longleftrightarrow>
     (case sc_runs sc of
        LegacyRuns rows \<Rightarrow> sc_keys sc = None \<and> casts_ok (rh_pg host) \<and> (\<forall>l\<in>set rows. legacy_ok l \<and> short_result l) \<and> distinct (map legacy_key rows) \<and>
          inj (rh_run_ids host) \<and> (\<forall>t. sc_leases sc = Some t \<longrightarrow> distinct (map l_id t))
      | _ \<Rightarrow> db_inv (tables_of sc))"

lemma open_then_reset:
  assumes "usable_schema host sc" "open_runner_db (rh_pg host) (rh_run_ids host) dsn sc = (Inr db, sc')"
  shows "db_inv (snd (reset_running db dbnow))"
proof (cases "sc_runs sc")
  case (LegacyRuns rows)
  then have u: "sc_keys sc = None" "casts_ok (rh_pg host)" "\<forall>l\<in>set rows. legacy_ok l \<and> short_result l" "distinct (map legacy_key rows)"
    "inj (rh_run_ids host)" "\<forall>t. sc_leases sc = Some t \<longrightarrow> distinct (map l_id t)" using assms(1) by (auto simp: usable_schema_def)
  have "dsn \<noteq> []" using assms(2) by (auto simp: open_runner_db_def)
  then show ?thesis by (rule migrated_reset_inv [OF LegacyRuns u(1) _ u(2-6) assms(2)])
next
  case NoRuns
  then have "db_inv db" using assms by (auto simp: usable_schema_def open_runner_db_def init_schema_def tables_of_def split: if_splits)
  then show ?thesis by (rule reset_running_inv)
next
  case (SplitRuns rs)
  then have "db_inv db" using assms by (auto simp: usable_schema_def open_runner_db_def init_schema_def tables_of_def split: if_splits)
  then show ?thesis by (rule reset_running_inv)
qed

lemma make_pool_fresh:
  assumes "make_pool host args env = Inr (policies, p)"
  shows "fresh_pool p" "\<exists>raw. load_policies (rh_repr host) raw = Inr policies"
proof -
  obtain mc ml mt q b i ttl rn m clk where "quota_init mc ml mt = Inr q" "pool_init b q i ttl rn m clk = Inr p"
    using assms by (auto simp: make_pool_def result_bind_ok map_sum_Inr)
  then show "fresh_pool p" unfolding fresh_pool_def by blast
  show "\<exists>raw. load_policies (rh_repr host) raw = Inr policies" using assms by (auto simp: make_pool_def result_bind_ok map_sum_Inr)
qed

lemma each_entry_ok:
  "each_entry f d = Inr d' \<Longrightarrow> map fst d' = map fst d \<and> (\<forall>(k, x)\<in>set d'. \<exists>v. (k, v) \<in> set d \<and> f k v = Inr x)"
proof (induction f d arbitrary: d' rule: each_entry.induct)
  case (2 f k v kvs)
  then obtain x xs where "f k v = Inr x" "each_entry f kvs = Inr xs" "d' = (k, x) # xs" by (auto simp: result_bind_ok map_sum_Inr)
  with 2 show ?case by fastforce
qed simp

lemma load_policies_named:
  assumes "load_policies repr raw = Inr ps" "(k, p) \<in> set ps"
  shows "pol_name p = k"
proof -
  obtain kvs where "each_entry (policy_of_json repr) kvs = Inr ps" using assms(1) by (auto simp: load_policies_def split: json.splits)
  then obtain v where "policy_of_json repr k v = Inr p" using each_entry_ok assms(2) by blast
  then show ?thesis by (auto simp: policy_of_json_def result_bind_ok split: json.splits)
qed

lemma make_service_facts:
  assumes "make_service host args env sc = (Inr s, sc')" "usable_schema host sc"
  shows "db_inv (snd (reset_running (svc_db s) dbnow))" "fresh_pool (svc_pool s)" "active s = []" "(k, p) \<in> set (svc_policies s) \<Longrightarrow> pol_name p = k"
proof -
  obtain policies pool db where mp: "make_pool host args env = Inr (policies, pool)"
    and db: "open_runner_db (rh_pg host) (rh_run_ids host) (argument args env ''db-url'' ''RUNNER_DB_URL'' []) sc = (Inr db, sc')"
    and s: "svc_db s = db" "svc_pool s = pool" "active s = []" "svc_policies s = policies"
    using assms(1) by (auto simp: make_service_def result_bind_ok split: sum.splits prod.splits)
  show "db_inv (snd (reset_running (svc_db s) dbnow))" unfolding s by (rule open_then_reset [OF assms(2) db])
  show "fresh_pool (svc_pool s)" "active s = []" using make_pool_fresh(1) [OF mp] s by simp_all
  show "(k, p) \<in> set (svc_policies s) \<Longrightarrow> pol_name p = k" using make_pool_fresh(2) [OF mp] load_policies_named s(4) by blast
qed

context sandbox_backend
begin

lemma startup_establishes:
  assumes "startup be s = (Inr n, s1)" "fresh_pool (svc_pool s)" "active s = []" "\<And>t. db_inv (snd (reset_running (svc_db s) t))"
  shows "service_inv s1" "\<forall>r\<in>set (db_runs (svc_db s1)). r_state r \<noteq> RUNNING"
proof -
  obtain p where r: "reset_after_restart be (svc_pool s) = (Inr n, p)" using assms(1) by (auto simp: startup_def Let_def split: sum.splits prod.splits)
  have pool: "pool_inv p" using pool_call_inv [OF call_reset [OF r]] fresh_pool_inv [OF assms(2)] by blast
  obtain t1 t2 t3 where db: "svc_db s1 = snd (purge_expired_idempotency (snd (purge_expired_leases (snd (reset_running (svc_db s) t1)) t2)) t3)"
    and parts: "svc_pool s1 = p" "active s1 = []" using assms(1,3) r unfolding startup_def Let_def by auto
  show "service_inv s1" unfolding service_inv_def active_ok_def parts db
    using pool assms(4) by (simp add: purge_expired_leases_inv purge_expired_idempotency_inv)
  show "\<forall>r\<in>set (db_runs (svc_db s1)). r_state r \<noteq> RUNNING" unfolding db
    by (auto simp: reset_running_def purge_expired_leases_def purge_expired_idempotency_def set_update_where abandon_row_def Let_def)
qed

end

lemma start_runner_ok:
  assumes "start_runner be host args env sc = (Inr (s, acl), sc')"
  obtains s0 sc0 n s1 where "make_service host args env sc = (Inr s0, sc0)" "startup be s0 = (Inr n, s1)" "s = s1\<lparr>reaper_started := True\<rparr>"
proof -
  obtain s0 sc0 where m: "make_service host args env sc = (Inr s0, sc0)" using assms by (auto simp: start_runner_def split: sum.splits prod.splits)
  obtain n s1 where st: "startup be s0 = (Inr n, s1)" using assms m by (auto simp: start_runner_def split: sum.splits prod.splits)
  obtain i where "(case start_background s1 i of (Inl e, _) \<Rightarrow> Inl e
      | (Inr _, s2) \<Rightarrow> map_sum id (Pair s2) (result_bind (rh_json host (argument args env ''acl'' ''RUNNER_ACL'' ''./config/acl.json'')) access_of_json)) = Inr (s, acl)"
    using assms m st by (auto simp: start_runner_def result_bind_ok)
  then have "s = s1\<lparr>reaper_started := True\<rparr>" by (auto simp: start_background_def map_sum_Inr split: if_splits)
  with that m st show thesis by blast
qed

text \<open>C6: A runner that starts is safe from then on.  Whatever database it finds (none, its own, or one from before the split) and whatever the
  settings, once \<open>main\<close> has started the service no run of an earlier process is still open, every policy goes by its own name, and every
  sequence of calls keeps the invariant of the tables, a quota that counts exactly the live workers, and an active table that names existing ones.\<close>

theorem started_runner_safe:
  assumes "sandbox_backend be" "usable_schema host sc" "start_runner be host args env sc = (Inr (s, acl), sc')"
  shows "(\<forall>r\<in>set (db_runs (svc_db s)). r_state r \<noteq> RUNNING) \<and> (\<forall>(k, p)\<in>set (svc_policies s). pol_name p = k) \<and> reaper_started s \<and>
    (\<forall>s'. (service_call h be)\<^sup>*\<^sup>* s s' \<longrightarrow> db_inv (svc_db s') \<and>
       (\<forall>t. tenant_count (pool_quota (svc_pool s')) t = int (live_workers (heap (svc_pool s')) t)) \<and> idle_ok (svc_pool s') \<and> active_ok s')"
proof -
  obtain s0 sc0 n s1 where m: "make_service host args env sc = (Inr s0, sc0)" and st: "startup be s0 = (Inr n, s1)"
    and s: "s = s1\<lparr>reaper_started := True\<rparr>"
    by (rule start_runner_ok [OF assms(3)])
  note mf = make_service_facts [OF m assms(2)]
  note est = sandbox_backend.startup_establishes [OF assms(1) st mf(2,3,1)]
  have pol: "svc_policies s1 = svc_policies s0" using st by (auto simp: startup_def put_db_def put_pool_def draw_def Let_def split: sum.splits prod.splits)
  have inv: "service_inv s" using est(1) s by (simp add: service_inv_def active_ok_def)
  have "service_inv s'" if "(service_call h be)\<^sup>*\<^sup>* s s'" for s'
    using that inv by (induction rule: rtranclp_induct) (auto intro: sandbox_backend.service_call_inv [OF assms(1)])
  then have "\<forall>s'. (service_call h be)\<^sup>*\<^sup>* s s' \<longrightarrow> db_inv (svc_db s') \<and>
       (\<forall>t. tenant_count (pool_quota (svc_pool s')) t = int (live_workers (heap (svc_pool s')) t)) \<and> idle_ok (svc_pool s') \<and> active_ok s'"
    by (simp add: service_inv_def pool_inv_def)
  then show ?thesis using est(2) mf(4) pol s by auto
qed

section \<open>Witness\<close>

definition demo_files :: "string \<Rightarrow> json result" where
  "demo_files path =
     (if path = ''./config/policies.json'' then
        Inr (JObj [(''standard'', JObj [(''sandbox_cluster'', JStr ''gvisor'')]),
          (''hardened'', JObj [(''sandbox_cluster'', JStr ''kata''), (''cpu'', JInt 2), (''max_timeout_ms'', JStr ''30_000''), (''reuse_sandbox'', JBool False)])])
      else if path = ''./config/acl.json'' then Inr (JObj [(''identities'', JObj [(''nifi'', JObj [(''tenant-a'', JArr [JStr ''*''])])])])
      else Inr (JObj []))"

definition demo_host :: "nat runner_host" where
  "demo_host = \<lparr>rh_json = demo_files, rh_repr = print_json, rh_backend = (\<lambda>_ _. 0), rh_catalog = (\<lambda>r. \<lparr>cat_root = r, cat_dirs = []\<rparr>), rh_pg = demo_pg,
     rh_run_ids = (\<lambda>n. replicate n (CHR ''u'')), rh_clock = of_nat, rh_wall = int, rh_db_wall = int, rh_uuids = (\<lambda>n. replicate n (CHR ''v''))\<rparr>"

definition demo_env :: env_texts where
  "demo_env = map_of [(''RUNNER_DB_URL'', ''dsn''), (''RUNNER_OWNER_ID'', ''o''), (''RUNNER_TLS_CERT'', ''c''), (''RUNNER_TLS_KEY'', ''k''), (''RUNNER_CLIENT_CA'', ''a''),
     (''RUNNER_MAX_LIVE'', '' 10 '')]"

lemma demo_files_ok:
  "is_ok (load_policies print_json (projr (demo_files ''./config/policies.json'')))" "is_ok (demo_files path)"
  "is_ok (access_of_json (projr (demo_files ''./config/acl.json'')))"
proof -
  show "is_ok (demo_files path)" by (simp add: demo_files_def)
qed code_simp+

lemma demo_policies: "\<exists>raw ps. demo_files ''./config/policies.json'' = Inr raw \<and> load_policies print_json raw = Inr ps"
  using demo_files_ok(1) demo_files_ok(2) [of "''./config/policies.json''"] by (auto simp: is_ok_iff)

lemma demo_access: "\<exists>acl. result_bind (demo_files ''./config/acl.json'') access_of_json = Inr acl"
  using demo_files_ok(3) demo_files_ok(2) [of "''./config/acl.json''"] by (auto simp: is_ok_iff)

lemma demo_settings:
  "require (required_arguments (\<lambda>_. None) demo_env) = Inr ()" "env_int demo_env ''RUNNER_MAX_LIVE'' n = Inr 10"
  "demo_env k = None \<Longrightarrow> env_int demo_env k n = Inr n" "argument (\<lambda>_. None) demo_env ''db-url'' ''RUNNER_DB_URL'' [] = ''dsn''"
proof -
  show "require (required_arguments (\<lambda>_. None) demo_env) = Inr ()" by code_simp
  have "py_int '' 10 '' = Inr 10" by code_simp
  then show "env_int demo_env ''RUNNER_MAX_LIVE'' n = Inr 10" by (simp add: env_int_def env_or_def demo_env_def)
  show "demo_env k = None \<Longrightarrow> env_int demo_env k n = Inr n" by (simp add: env_int_def env_or_def)
  show "argument (\<lambda>_. None) demo_env ''db-url'' ''RUNNER_DB_URL'' [] = ''dsn''" by (simp add: argument_def env_or_def demo_env_def)
qed

lemma demo_pool: "\<exists>ps p. make_pool demo_host (\<lambda>_. None) demo_env = Inr (ps, p)"
proof -
  obtain raw ps where raw: "demo_files ''./config/policies.json'' = Inr raw" "load_policies print_json raw = Inr ps" using demo_policies by blast
  obtain cl where cl: "demo_files ''./config/opensandbox.json'' = Inr cl" using demo_files_ok(2) [of "''./config/opensandbox.json''"] by (auto simp: is_ok_iff)
  have files: "argument (\<lambda>_. None) demo_env ''clusters'' ''RUNNER_CLUSTERS'' ''./config/opensandbox.json'' = ''./config/opensandbox.json''"
    "argument (\<lambda>_. None) demo_env ''policies'' ''RUNNER_POLICIES'' ''./config/policies.json'' = ''./config/policies.json''"
    by (simp_all add: argument_def env_or_def demo_env_def)
  have none: "demo_env ''RUNNER_MAX_CREATING'' = None" "demo_env ''RUNNER_MAX_LIVE_PER_TENANT'' = None" "demo_env ''RUNNER_WORKER_IDLE_SECONDS'' = None"
    "demo_env ''RUNNER_SANDBOX_ORPHAN_TTL_SECONDS'' = None" "demo_env ''RUNNER_SANDBOX_RENEW_BEFORE_SECONDS'' = None" "demo_env ''RUNNER_MAX_RELEASES_PER_SANDBOX'' = None"
    by (simp_all add: demo_env_def)
  show ?thesis
    by (simp add: make_pool_def demo_settings(1,2) demo_settings(3) none files raw cl demo_host_def quota_init_def pool_init_def)
qed

lemma demo_starts: "\<exists>s acl sc'. start_runner sample_backend demo_host (\<lambda>_. None) demo_env demo_schema = (Inr (s, acl), sc')"
proof -
  obtain ps p where pool: "make_pool demo_host (\<lambda>_. None) demo_env = Inr (ps, p)" using demo_pool by blast
  have inj: "inj (\<lambda>n. replicate n (CHR ''u''))" by (rule injI) simp
  obtain db sc' where db: "open_runner_db (rh_pg demo_host) (rh_run_ids demo_host) ''dsn'' demo_schema = (Inr db, sc')"
    using migration_facts [of demo_schema demo_legacy "''dsn''" demo_pg "\<lambda>n. replicate n (CHR ''u'')" "\<lambda>_. []" 0, OF _ _ _ demo_legacy_ok inj]
    by (auto simp: demo_schema_def demo_host_def)
  have none: "demo_env ''RUNNER_LEASE_TTL_MS'' = None" "demo_env ''RUNNER_IDEMPOTENCY_RETENTION_MS'' = None" "demo_env ''RUNNER_RUN_RETENTION_MS'' = None"
    "demo_env ''RUNNER_REAPER_INTERVAL_SECONDS'' = None" by (simp_all add: demo_env_def)
  obtain s where s: "make_service demo_host (\<lambda>_. None) demo_env demo_schema = (Inr s, sc')"
    using pool db by (simp add: make_service_def demo_settings(4) demo_settings(3) none)
  obtain n s1 where st: "startup sample_backend s = (Inr n, s1)" by (simp add: startup_def reset_after_restart_def sample_backend_def Let_def)
  have acl_file: "argument (\<lambda>_. None) demo_env ''acl'' ''RUNNER_ACL'' ''./config/acl.json'' = ''./config/acl.json''" by (simp add: argument_def env_or_def demo_env_def)
  obtain acl where "result_bind (demo_files ''./config/acl.json'') access_of_json = Inr acl" using demo_access by blast
  then show ?thesis using s st by (simp add: start_runner_def demo_settings(3) none start_background_def acl_file demo_host_def)
qed

theorem started_runner_safe_witness:
  "\<exists>s acl sc'. start_runner sample_backend demo_host (\<lambda>_. None) demo_env demo_schema = (Inr (s, acl), sc') \<and> db_inv (svc_db s) \<and> reaper_started s"
proof -
  obtain s acl sc' where st: "start_runner sample_backend demo_host (\<lambda>_. None) demo_env demo_schema = (Inr (s, acl), sc')"
    using demo_starts by blast
  have inj: "inj (\<lambda>n. replicate n (CHR ''u''))" by (rule injI) simp
  have u: "usable_schema demo_host demo_schema"
    using demo_legacy_ok inj by (simp add: usable_schema_def demo_schema_def demo_host_def)
  from started_runner_safe [OF sample_backend_contract u st, of rev] st show ?thesis by blast
qed

end
