(* ===== verification/Worker_Child.thy ===== *)
theory Worker_Child
  imports Runner_Model Py_Text
begin

text \<open>
  \<^verbatim>\<open>runner_engine/worker/child.py\<close>: the process that imports and calls the operator.  Python values
  that an operator may return are the datatype \<open>pyval\<close>; a value of a class the code does not name is
  \<open>PyOther\<close>, with whether it is hashable.  The operator, the import system and the file system are the
  parameter \<open>child_world\<close>.  A JSON text on stdin or stdout is held as the value it parses to.
\<close>

section \<open>Results\<close>

datatype pyval =
    PyNone
  | PyBool bool
  | PyStr string
  | PyBytes bytes
  | PyByteArray bytes
  | PyDict "(pyval \<times> pyval) list"
  | PyOther bool

definition py_type_error :: "string \<Rightarrow> exn" where
  "py_type_error msg = PyExn ''TypeError'' msg"

definition py_value_error :: "string \<Rightarrow> exn" where
  "py_value_error msg = PyExn ''ValueError'' msg"

definition encode_content :: "pyval \<Rightarrow> bytes result" where
  "encode_content v =
     (case v of
        PyNone \<Rightarrow> Inr []
      | PyBytes b \<Rightarrow> Inr b
      | PyByteArray b \<Rightarrow> Inr b
      | PyStr s \<Rightarrow> Inr s
      | _ \<Rightarrow> Inl (py_type_error ''operator result content must be bytes, bytearray, str, or None''))"

record normalized =
  n_status :: string
  n_content :: bytes
  n_attributes :: "(string, string) dict"
  n_relationship :: string
  n_retryable :: bool
  n_error_code :: string
  n_error_message :: string

definition plain_success :: "bytes \<Rightarrow> normalized" where
  "plain_success content =
     \<lparr>n_status = ''SUCCEEDED'', n_content = content, n_attributes = [], n_relationship = ''success'',
      n_retryable = False, n_error_code = [], n_error_message = []\<rparr>"

definition py_get :: "(pyval \<times> pyval) list \<Rightarrow> string \<Rightarrow> pyval \<Rightarrow> pyval" where
  "py_get d k dflt = (case map_of d (PyStr k) of None \<Rightarrow> dflt | Some v \<Rightarrow> v)"

fun str_pairs :: "(pyval \<times> pyval) list \<Rightarrow> (string, string) dict option" where
  "str_pairs [] = Some []"
| "str_pairs ((PyStr k, PyStr v) # d) = map_option (Cons (k, v)) (str_pairs d)"
| "str_pairs (_ # d) = None"

fun hashable :: "pyval \<Rightarrow> bool" where
  "hashable (PyByteArray b) = False"
| "hashable (PyDict d) = False"
| "hashable (PyOther b) = b"
| "hashable v = True"

text \<open>The status of a dictionary result, lines 60 to 66: the default, the membership test (which hashes
  the value) and the check against the retryable flag.\<close>

definition result_status :: "pyval \<Rightarrow> bool \<Rightarrow> string result" where
  "result_status v retryable =
     (let status = (if v = PyNone then PyStr (if retryable then ''FAILED'' else ''SUCCEEDED'') else v) in
      if \<not> hashable status then Inl (py_type_error ''unhashable type'')
      else if status \<notin> {PyStr ''SUCCEEDED'', PyStr ''FAILED''} then Inl (py_value_error ''status must be SUCCEEDED or FAILED'')
      else if status = PyStr ''SUCCEEDED'' \<and> retryable then Inl (py_value_error ''a successful result cannot be retryable'')
      else Inr (if status = PyStr ''SUCCEEDED'' then ''SUCCEEDED'' else ''FAILED''))"

definition result_relationship :: "pyval \<Rightarrow> string result" where
  "result_relationship v =
     (case v of PyStr (c # cs) \<Rightarrow> Inr (c # cs) | _ \<Rightarrow> Inl (py_type_error ''relationship must be a non-empty string''))"

definition result_attributes :: "pyval \<Rightarrow> (string, string) dict result" where
  "result_attributes v =
     (case v of
        PyDict d \<Rightarrow>
          (case str_pairs d of
             None \<Rightarrow> Inl (py_type_error ''result attributes must be dict[str, str]'')
           | Some attributes \<Rightarrow> Inr attributes)
      | _ \<Rightarrow> Inl (py_type_error ''result attributes must be dict[str, str]''))"

definition result_retryable :: "pyval \<Rightarrow> bool result" where
  "result_retryable v = (case v of PyBool b \<Rightarrow> Inr b | _ \<Rightarrow> Inl (py_type_error ''retryable must be a boolean''))"

definition result_errors :: "pyval \<Rightarrow> pyval \<Rightarrow> (string \<times> string) result" where
  "result_errors code message =
     (case (code, message) of
        (PyStr c, PyStr m) \<Rightarrow> Inr (c, m)
      | _ \<Rightarrow> Inl (py_type_error ''error_code and error_message must be strings''))"

definition normalize_dict :: "(pyval \<times> pyval) list \<Rightarrow> bytes \<Rightarrow> normalized result" where
  "normalize_dict d original =
     result_bind (result_attributes (py_get d ''attributes'' (PyDict []))) (\<lambda>attributes.
     result_bind (result_retryable (py_get d ''retryable'' (PyBool False))) (\<lambda>retryable.
     result_bind (result_status (py_get d ''status'' PyNone) retryable) (\<lambda>status.
     let dflt = (if retryable then ''retry'' else if status = ''FAILED'' then ''failure'' else ''success'') in
     result_bind (result_relationship (py_get d ''relationship'' (PyStr dflt))) (\<lambda>relationship.
     result_bind (result_errors (py_get d ''error_code'' (PyStr [])) (py_get d ''error_message'' (PyStr []))) (\<lambda>(code, message).
     result_bind (encode_content (py_get d ''content'' (PyBytes original))) (\<lambda>content.
     Inr \<lparr>n_status = status, n_content = content, n_attributes = attributes, n_relationship = relationship,
          n_retryable = retryable,
          n_error_code = (if status = ''FAILED'' \<and> code = [] then ''OPERATOR_REPORTED_FAILURE'' else code),
          n_error_message = message\<rparr>))))))"

definition normalize_result :: "pyval \<Rightarrow> bytes \<Rightarrow> normalized result" where
  "normalize_result v original =
     (case v of
        PyNone \<Rightarrow> Inr (plain_success original)
      | PyBytes b \<Rightarrow> map_sum id plain_success (encode_content v)
      | PyByteArray b \<Rightarrow> map_sum id plain_success (encode_content v)
      | PyStr s \<Rightarrow> map_sum id plain_success (encode_content v)
      | PyDict d \<Rightarrow> normalize_dict d original
      | _ \<Rightarrow> Inl (py_type_error ''operator must return bytes, str, dict or None''))"

text \<open>The limits come from the environment; an absent variable means the default.\<close>

record child_env =
  env_max_output :: "int option"
  env_max_attributes :: "int option"
  env_max_attribute_bytes :: "int option"

definition max_output_of :: "child_env \<Rightarrow> int" where
  "max_output_of env = (case env_max_output env of None \<Rightarrow> 8 * 1024 * 1024 | Some n \<Rightarrow> n)"

definition max_attributes_of :: "child_env \<Rightarrow> int" where
  "max_attributes_of env = (case env_max_attributes env of None \<Rightarrow> 128 | Some n \<Rightarrow> n)"

definition max_attribute_bytes_of :: "child_env \<Rightarrow> int" where
  "max_attribute_bytes_of env = (case env_max_attribute_bytes env of None \<Rightarrow> 65536 | Some n \<Rightarrow> n)"

definition dict_bytes :: "(string, string) dict \<Rightarrow> int" where
  "dict_bytes values = (\<Sum>(k, v)\<leftarrow>values. int (length k) + int (length v))"

definition validate_output :: "child_env \<Rightarrow> bytes \<Rightarrow> (string, string) dict \<Rightarrow> unit result" where
  "validate_output env content attributes =
     (if max_output_of env < int (length content) then Inl (py_value_error ''operator output exceeds byte limit'')
      else if max_attributes_of env < int (length attributes) then Inl (py_value_error ''operator output has too many attributes'')
      else if max_attribute_bytes_of env < dict_bytes attributes then
        Inl (py_value_error ''operator output attributes exceed byte limit'')
      else Inr ())"

section \<open>Execution\<close>

record child_world =
  cw_resolve :: "string \<Rightarrow> string"
  cw_is_dir :: "string \<Rightarrow> bool"
  cw_call :: "string list \<Rightarrow> string \<Rightarrow> string \<Rightarrow> bytes \<Rightarrow> (string, string) dict \<Rightarrow> (string, string) dict \<Rightarrow> pyval result \<times> string list"
  cw_traceback :: "exn \<Rightarrow> string"

definition split_entrypoint :: "string \<Rightarrow> (string \<times> string) result" where
  "split_entrypoint ep =
     (if CHR '':'' \<in> set ep then Inr (takeWhile (\<lambda>c. c \<noteq> CHR '':'') ep, tl (dropWhile (\<lambda>c. c \<noteq> CHR '':'') ep))
      else Inl (py_value_error ''not enough values to unpack (expected 2, got 1)''))"

definition dependency_paths :: "child_world \<Rightarrow> string \<Rightarrow> string list" where
  "dependency_paths w dep =
     (if dep \<noteq> [] \<and> cw_is_dir w (cw_resolve w dep) then [cw_resolve w dep] else [])"

definition normalized_response :: "normalized \<Rightarrow> json" where
  "normalized_response n = JObj
     [(''status'', JStr (n_status n)),
      (''relationship'', JStr (n_relationship n)),
      (''content_b64'', JStr (b64encode (n_content n))),
      (''attributes'', str_obj (n_attributes n)),
      (''retryable'', JBool (n_retryable n)),
      (''error_code'', JStr (n_error_code n)),
      (''error_message'', JStr (n_error_message n))]"

definition get_opt_str :: "json \<Rightarrow> string \<Rightarrow> string result" where
  "get_opt_str raw k = (if map_of (json_fields raw) k = Some JNull then Inr [] else get_str raw k [])"

text \<open>\<open>execute\<close> returns the response and the \<open>sys.path\<close> it leaves.\<close>

definition child_execute :: "child_world \<Rightarrow> child_env \<Rightarrow> string list \<Rightarrow> json \<Rightarrow> json result \<times> string list" where
  "child_execute w env sys_path request =
     (case result_bind (need_str request ''release_root'') (\<lambda>root.
           result_bind (get_opt_str request ''dependency_root'') (\<lambda>dep.
           result_bind (need_str request ''entrypoint'') (\<lambda>ep.
           result_bind (split_entrypoint ep) (\<lambda>(modname, funname).
           result_bind (get_str request ''content_b64'' []) (\<lambda>c64.
           result_bind (b64decode True c64) (\<lambda>content.
           result_bind (get_str_dict request ''attributes'') (\<lambda>attributes.
           result_bind (get_str_dict request ''parameters'') (\<lambda>parameters.
             Inr (cw_resolve w root # dependency_paths w dep, modname, funname, content, attributes, parameters))))))))) of
        Inl e \<Rightarrow> (Inl e, sys_path)
      | Inr (paths, modname, funname, content, attributes, parameters) \<Rightarrow>
          let (value, _) = cw_call w (paths @ sys_path) modname funname content attributes parameters in
          (result_bind value (\<lambda>v.
           result_bind (normalize_result v content) (\<lambda>n.
           result_bind (validate_output env (n_content n) (n_attributes n)) (\<lambda>_. Inr (normalized_response n)))),
           sys_path))"

definition user_exception :: "child_world \<Rightarrow> exn \<Rightarrow> json" where
  "user_exception w e = JObj
     [(''status'', JStr ''FAILED''), (''relationship'', JStr ''failure''), (''content_b64'', JStr []), (''attributes'', JObj []),
      (''retryable'', JBool False), (''error_code'', JStr ''USER_EXCEPTION''),
      (''error_message'', JStr (py_last 8192 (cw_traceback w e)))]"

text \<open>\<open>main\<close>: what it writes to stdout for the bytes on stdin.\<close>

definition child_main :: "(bytes \<Rightarrow> json result) \<Rightarrow> child_world \<Rightarrow> child_env \<Rightarrow> string list \<Rightarrow> bytes \<Rightarrow> json" where
  "child_main loads w env sys_path raw =
     (case (if 12 * 1024 * 1024 < length raw then Inl (py_value_error ''child request too large'')
            else result_bind (loads raw) (\<lambda>request. fst (child_execute w env sys_path request))) of
        Inl e \<Rightarrow> user_exception w e
      | Inr response \<Rightarrow> response)"

section \<open>Every response is well formed\<close>

definition consistent :: "normalized \<Rightarrow> bool" where
  "consistent n \<longleftrightarrow> (n_status n = ''SUCCEEDED'' \<or> n_status n = ''FAILED'') \<and> (n_retryable n \<longrightarrow> n_status n = ''FAILED'') \<and>
     (n_status n = ''FAILED'' \<longrightarrow> n_error_code n \<noteq> []) \<and> n_relationship n \<noteq> []"

definition bounded :: "child_env \<Rightarrow> normalized \<Rightarrow> bool" where
  "bounded env n \<longleftrightarrow> int (length (n_content n)) \<le> max_output_of env \<and> int (length (n_attributes n)) \<le> max_attributes_of env \<and>
     dict_bytes (n_attributes n) \<le> max_attribute_bytes_of env"

lemma consistent_plain [simp]: "consistent (plain_success c)"
  by (simp add: consistent_def plain_success_def)

lemma result_status_ok:
  "result_status v retryable = Inr st \<Longrightarrow> (st = ''SUCCEEDED'' \<or> st = ''FAILED'') \<and> (retryable \<longrightarrow> st = ''FAILED'')"
  by (auto simp: result_status_def Let_def split: if_splits)

lemma result_relationship_ok: "result_relationship v = Inr r \<Longrightarrow> r \<noteq> []"
  by (auto simp: result_relationship_def split: pyval.splits list.splits)

lemma normalize_dict_consistent: "normalize_dict d original = Inr n \<Longrightarrow> consistent n"
  by (auto simp: normalize_dict_def consistent_def result_bind_ok Let_def split: if_splits dest!: result_status_ok result_relationship_ok)

lemma normalize_result_consistent: "normalize_result v original = Inr n \<Longrightarrow> consistent n"
  by (cases v) (auto simp: normalize_result_def encode_content_def dest: normalize_dict_consistent)

lemma validate_output_ok: "validate_output env (n_content n) (n_attributes n) = Inr () \<longleftrightarrow> bounded env n"
  by (auto simp: validate_output_def bounded_def)

lemma child_execute_path: "snd (child_execute w env sys_path request) = sys_path"
  by (simp add: child_execute_def Let_def split: sum.splits prod.splits)

lemma child_execute_ok:
  assumes "fst (child_execute w env sys_path request) = Inr response"
  shows "\<exists>n. response = normalized_response n \<and> consistent n \<and> bounded env n"
  using assms
  by (auto simp: child_execute_def Let_def result_bind_ok validate_output_ok split: sum.splits prod.splits
      dest: normalize_result_consistent)

text \<open>The failure that \<open>main\<close> reports, as a normalized result.\<close>

definition failure_of :: "child_world \<Rightarrow> exn \<Rightarrow> normalized" where
  "failure_of w e = \<lparr>n_status = ''FAILED'', n_content = [], n_attributes = [], n_relationship = ''failure'', n_retryable = False,
     n_error_code = ''USER_EXCEPTION'', n_error_message = py_last 8192 (cw_traceback w e)\<rparr>"

lemma user_exception_response: "user_exception w e = normalized_response (failure_of w e)"
  by (simp add: user_exception_def normalized_response_def failure_of_def str_obj_def)

lemma child_main_response:
  assumes "0 \<le> max_output_of env" "0 \<le> max_attributes_of env" "0 \<le> max_attribute_bytes_of env"
  shows "\<exists>n. child_main loads w env sys_path raw = normalized_response n \<and> consistent n \<and> bounded env n"
proof -
  define r where "r = (if 12 * 1024 * 1024 < length raw then Inl (py_value_error ''child request too large'')
            else result_bind (loads raw) (\<lambda>request. fst (child_execute w env sys_path request)))"
  show ?thesis
  proof (cases r)
    case (Inl e)
    then have "child_main loads w env sys_path raw = normalized_response (failure_of w e)"
      by (simp add: child_main_def r_def user_exception_response)
    moreover have "consistent (failure_of w e) \<and> bounded env (failure_of w e)"
      using assms by (simp add: consistent_def bounded_def failure_of_def dict_bytes_def)
    ultimately show ?thesis by blast
  next
    case (Inr response)
    then obtain request where "fst (child_execute w env sys_path request) = Inr response"
      by (auto simp: r_def result_bind_ok split: if_splits)
    moreover have "child_main loads w env sys_path raw = response" using Inr by (simp add: child_main_def r_def)
    ultimately show ?thesis using child_execute_ok by simp
  qed
qed

section \<open>Properties\<close>

text \<open>C22: The child process answers every input, whatever the operator does, with a response of one shape: a
  status of \<open>SUCCEEDED\<close> or \<open>FAILED\<close>, retryable only when failed, an error code when failed, a relationship,
  and content and attributes within the limits of its environment; and \<open>execute\<close> leaves \<open>sys.path\<close> as it
  was.\<close>

theorem child_response_typed:
  assumes "0 \<le> max_output_of env" "0 \<le> max_attributes_of env" "0 \<le> max_attribute_bytes_of env"
  shows "(\<exists>n. child_main loads w env sys_path raw = normalized_response n \<and> consistent n \<and> bounded env n) \<and>
    snd (child_execute w env sys_path request) = sys_path"
  using child_main_response [OF assms] child_execute_path by blast

theorem child_response_typed_witness:
  "\<exists>n. child_main (\<lambda>_. Inr (JObj [])) \<lparr>cw_resolve = id, cw_is_dir = (\<lambda>_. False), cw_call = (\<lambda>_ _ _ _ _ _. (Inr PyNone, [])),
       cw_traceback = exn_str\<rparr> \<lparr>env_max_output = None, env_max_attributes = Some 0, env_max_attribute_bytes = Some 5\<rparr> [] ''{}'' =
     normalized_response n \<and> consistent n \<and> n_error_code n = ''USER_EXCEPTION''"
  (is "\<exists>n. child_main ?l ?w ?env [] ''{}'' = _ \<and> _ \<and> _")
proof -
  have "\<exists>n. child_main ?l ?w ?env [] ''{}'' = normalized_response n \<and> consistent n \<and> bounded ?env n"
    using child_response_typed [of ?env ?l ?w "[]" "''{}''"]
    by (simp add: max_output_of_def max_attributes_of_def max_attribute_bytes_of_def)
  moreover have "map_of (json_fields (child_main ?l ?w ?env [] ''{}'')) ''error_code'' = Some (JStr ''USER_EXCEPTION'')"
    by (simp add: child_main_def child_execute_def need_str_def json_fields_def user_exception_def)
  ultimately show ?thesis by (auto simp: normalized_response_def json_fields_def)
qed

end
