(* ===== verification/Worker_Agent.thy ===== *)
theory Worker_Agent
  imports Worker_Child Release_Materializer
begin

text \<open>
  \<^verbatim>\<open>runner_engine/worker/agent.py\<close> and \<^verbatim>\<open>runner_engine/worker/http_api.py\<close>: the trusted agent of a
  sandbox.  What lies outside is the parameter \<open>agent_world\<close>: the digest, the reading of tar archives, the
  JSON text functions, the decoding of stderr, and the child process.  A run of the child process is
  what the agent observes of it: whether it read its stdin, the return code that \<open>wait\<close> saw within the
  timeout (none when the timeout expired and the process group was killed), the chunks read from its two
  output pipes, and the duration.  Killing processes and dropping privileges have no effect inside the
  model.
\<close>

section \<open>State\<close>

definition MAX_BODY :: int where
  "MAX_BODY = 16 * 1024 * 1024"

definition MAX_STDERR :: nat where
  "MAX_STDERR = 1024 * 1024"

definition DEFAULT_MAX_OUTPUT :: int where
  "DEFAULT_MAX_OUTPUT = 8 * 1024 * 1024"

record child_obs =
  obs_stdin_ok :: bool
  obs_exit :: "int option"
  obs_stdout :: "bytes list"
  obs_stderr :: "bytes list"
  obs_duration_ms :: int

record agent_world =
  aw_sha256 :: "bytes \<Rightarrow> string"
  aw_untar :: "bytes \<Rightarrow> tar_member list result"
  aw_loads :: "bytes \<Rightarrow> json result"
  aw_dumps :: "json \<Rightarrow> bytes"
  aw_decode :: "bytes \<Rightarrow> string"
  aw_spawn :: "child_env \<Rightarrow> bytes \<Rightarrow> int \<Rightarrow> child_obs"

record agent =
  agent_token :: string
  agent_materializer :: materializer
  agent_dependency_root :: "string option"
  agent_releases :: "(string, path \<times> json) dict"

text \<open>\<open>ReleaseMaterializer(releases_root)\<close> with its default limits.\<close>

definition agent_init :: "string \<Rightarrow> path \<Rightarrow> string option \<Rightarrow> string \<Rightarrow> agent" where
  "agent_init token releases_root dependency_root pid =
     \<lparr>agent_token = token,
      agent_materializer = \<lparr>mat_root = releases_root, mat_pid = pid, max_files = 2000,
        max_expanded_bytes = 64 * 1024 * 1024, mat_targets = [], mat_staging = []\<rparr>,
      agent_dependency_root = dependency_root, agent_releases = []\<rparr>"

section \<open>Reading the pipes\<close>

text \<open>\<open>_bounded_reader\<close>: the bytes kept and whether the cap was exceeded.  An empty chunk is end of file.\<close>

fun bounded_reader :: "nat \<Rightarrow> bytes \<Rightarrow> bytes list \<Rightarrow> bytes \<times> bool" where
  "bounded_reader cap target [] = (target, False)"
| "bounded_reader cap target (chunk # chunks) =
     (if chunk = [] then (target, False)
      else if cap < length target + length chunk then (target, True)
      else bounded_reader cap (target @ chunk) chunks)"

lemma bounded_reader_cap: "length target \<le> cap \<Longrightarrow> length (fst (bounded_reader cap target chunks)) \<le> cap"
  by (induction cap target chunks rule: bounded_reader.induct) auto

lemma bounded_reader_all:
  "length target + length (concat chunks) \<le> cap \<Longrightarrow> [] \<notin> set chunks \<Longrightarrow> bounded_reader cap target chunks = (target @ concat chunks, False)"
  by (induction cap target chunks rule: bounded_reader.induct) auto

section \<open>Operations\<close>

text \<open>The manifest that \<open>bootstrap\<close> reads back from the installed tree.\<close>

definition read_manifest :: "agent_world \<Rightarrow> materializer \<Rightarrow> string \<Rightarrow> json result" where
  "read_manifest aw m release_id =
     (case map_of (mat_targets m) release_id of
        None \<Rightarrow> Inl (os_error ''FileNotFoundError'' [''operator.json''])
      | Some t \<Rightarrow>
          (case map_of t [''operator.json''] of
             Some (File _ data) \<Rightarrow> aw_loads aw data
           | Some (Dir _) \<Rightarrow> Inl (os_error ''IsADirectoryError'' [''operator.json''])
           | None \<Rightarrow> Inl (os_error ''FileNotFoundError'' [''operator.json''])))"

definition check_manifest :: "string \<Rightarrow> json \<Rightarrow> unit result" where
  "check_manifest release_id manifest =
     (case manifest of
        JObj kvs \<Rightarrow>
          if map_of kvs ''id'' = Some (JStr release_id) then Inr ()
          else Inl (value_error ''release id in operator.json does not match bootstrap request'')
      | _ \<Rightarrow> Inl (PyExn ''AttributeError'' ''get''))"

definition bootstrap_args :: "json \<Rightarrow> (string \<times> bytes \<times> string) result" where
  "bootstrap_args payload =
     result_bind (need_str payload ''release_id'') (\<lambda>release_id.
     result_bind (need_str payload ''artifact_b64'') (\<lambda>b64.
     result_bind (b64decode True b64) (\<lambda>artifact.
     result_bind (need_str payload ''artifact_sha256'') (\<lambda>sha.
     Inr (release_id, artifact, sha)))))"

definition agent_bootstrap :: "agent_world \<Rightarrow> agent \<Rightarrow> json \<Rightarrow> json result \<times> agent" where
  "agent_bootstrap aw ag payload =
     (case bootstrap_args payload of
        Inl e \<Rightarrow> (Inl e, ag)
      | Inr (release_id, artifact, sha) \<Rightarrow>
          (case install (aw_sha256 aw) (aw_untar aw) (agent_materializer ag) release_id sha artifact of
             (Inl e, m) \<Rightarrow> (Inl e, ag\<lparr>agent_materializer := m\<rparr>)
           | (Inr p, m) \<Rightarrow>
               let ag1 = ag\<lparr>agent_materializer := m\<rparr> in
               (case result_bind (read_manifest aw m release_id) (\<lambda>manifest.
                     result_bind (check_manifest release_id manifest) (\<lambda>_. Inr manifest)) of
                  Inl e \<Rightarrow> (Inl e, ag1)
                | Inr manifest \<Rightarrow>
                    (Inr (JObj [(''ok'', JBool True)]),
                     ag1\<lparr>agent_releases := AList.update release_id (p, manifest) (agent_releases ag1)\<rparr>))))"

text \<open>The request that the child process gets on its stdin; it passes the payload's fields as they are.\<close>

definition payload_field :: "json \<Rightarrow> string \<Rightarrow> json \<Rightarrow> json" where
  "payload_field payload k dflt = (case map_of (json_fields payload) k of None \<Rightarrow> dflt | Some v \<Rightarrow> v)"

definition child_request :: "agent \<Rightarrow> path \<Rightarrow> json \<Rightarrow> json \<Rightarrow> json result" where
  "child_request ag p manifest payload =
     result_bind (need_obj manifest ''entrypoint'') (\<lambda>ep.
     Inr (JObj
       [(''release_root'', JStr (''/'' @ as_posix p)),
        (''dependency_root'', (case agent_dependency_root ag of None \<Rightarrow> JNull | Some d \<Rightarrow> JStr d)),
        (''entrypoint'', ep),
        (''content_b64'', payload_field payload ''content_b64'' (JStr [])),
        (''attributes'', payload_field payload ''attributes'' (JObj [])),
        (''parameters'', payload_field payload ''parameters'' (JObj []))]))"

definition failed_response :: "string \<Rightarrow> string \<Rightarrow> int \<Rightarrow> json" where
  "failed_response code message duration = JObj
     [(''status'', JStr ''FAILED''), (''relationship'', JStr ''failure''), (''content_b64'', JStr []), (''attributes'', JObj []),
      (''retryable'', JBool False), (''error_code'', JStr code), (''error_message'', JStr message),
      (''duration_ms'', JInt duration)]"

definition last_bytes :: "nat \<Rightarrow> bytes \<Rightarrow> bytes" where
  "last_bytes n b = drop (length b - n) b"

text \<open>What \<open>run\<close> makes of a finished child, lines 223 to 289.\<close>

definition classify :: "agent_world \<Rightarrow> int \<Rightarrow> int \<Rightarrow> child_obs \<Rightarrow> json result" where
  "classify aw timeout_ms max_output obs =
     (let (out, out_over) = bounded_reader (nat (max_output * 2 + 1024 * 1024)) [] (obs_stdout obs);
          (err, err_over) = bounded_reader MAX_STDERR [] (obs_stderr obs);
          duration = obs_duration_ms obs in
      if \<not> obs_stdin_ok obs then Inl (PyExn ''BrokenPipeError'' ''stdin'')
      else case obs_exit obs of
        None \<Rightarrow> Inr (failed_response ''TIMEOUT'' (''operator exceeded '' @ int_text timeout_ms @ '' ms'') duration)
      | Some code \<Rightarrow>
          if out_over \<or> err_over then
            Inr (failed_response ''OUTPUT_LIMIT'' ''operator stdout/stderr exceeded configured limit'' duration)
          else if code \<noteq> 0 \<and> out = [] then
            Inr (failed_response ''USER_PROCESS_EXITED'' (aw_decode aw (last_bytes 4096 err)) duration)
          else
            (case aw_loads aw out of
               Inl _ \<Rightarrow> Inr (failed_response ''INVALID_CHILD_RESPONSE'' (aw_decode aw (last_bytes 4096 err)) duration)
             | Inr (JObj kvs) \<Rightarrow> Inr (JObj (AList.update ''duration_ms'' (JInt duration) kvs))
             | Inr _ \<Rightarrow> Inl (PyExn ''TypeError'' ''object does not support item assignment'')))"

definition child_env_of :: "int \<Rightarrow> int \<Rightarrow> int \<Rightarrow> child_env" where
  "child_env_of max_output max_attributes max_attribute_bytes =
     \<lparr>env_max_output = Some max_output, env_max_attributes = Some max_attributes,
      env_max_attribute_bytes = Some max_attribute_bytes\<rparr>"

definition agent_run :: "agent_world \<Rightarrow> agent \<Rightarrow> json \<Rightarrow> json result" where
  "agent_run aw ag payload =
     result_bind (need_str payload ''release_id'') (\<lambda>release_id.
     case map_of (agent_releases ag) release_id of
       None \<Rightarrow> Inl (value_error ''release is not bootstrapped'')
     | Some (p, manifest) \<Rightarrow>
         result_bind (child_request ag p manifest payload) (\<lambda>request.
         result_bind (get_int payload ''timeout_ms'' 30000) (\<lambda>t.
         result_bind (get_int payload ''max_output_bytes'' DEFAULT_MAX_OUTPUT) (\<lambda>o_bytes.
         result_bind (get_int payload ''max_attributes'' 128) (\<lambda>attrs.
         result_bind (get_int payload ''max_attribute_bytes'' 65536) (\<lambda>attr_bytes.
         let timeout_ms = max 1 t; max_output = max 1 o_bytes in
         classify aw timeout_ms max_output
           (aw_spawn aw (child_env_of max_output attrs attr_bytes) (aw_dumps aw request) timeout_ms)))))))"

section \<open>The HTTP interface\<close>

text \<open>A request with the token header (absent is the empty string), the path, the \<open>Content-Length\<close> header
  as \<open>int\<close> reads it (none when it is no integer), and the body.\<close>

datatype http_call = GET string string | POST string string "int option" bytes

definition is_ascii :: "string \<Rightarrow> bool" where
  "is_ascii s \<longleftrightarrow> (\<forall>c\<in>set s. (of_char c :: nat) < 128)"

definition unauthorized :: "nat \<times> json" where
  "unauthorized = (401, JObj [(''error'', JStr ''unauthorized'')])"

definition not_found :: "nat \<times> json" where
  "not_found = (404, JObj [(''error'', JStr ''not found'')])"

definition bad_request :: "exn \<Rightarrow> nat \<times> json" where
  "bad_request e = (400, JObj [(''error'', JStr (case e of PyExn t _ \<Rightarrow> t | RunnerExn _ _ _ _ \<Rightarrow> ''RunnerError'')),
                               (''message'', JStr (exn_str e))])"

definition http_payload :: "agent_world \<Rightarrow> int option \<Rightarrow> bytes \<Rightarrow> json result" where
  "http_payload aw content_length body =
     (case content_length of
        None \<Rightarrow> Inl (value_error ''invalid Content-Length'')
      | Some n \<Rightarrow>
          if n < 0 \<or> MAX_BODY < n then Inl (value_error ''request body too large'')
          else
            let raw = take (nat n) body in
            result_bind (aw_loads aw (if raw = [] then ''{}'' else raw)) (\<lambda>v.
            case v of JObj _ \<Rightarrow> Inr v | _ \<Rightarrow> Inl (value_error ''request body must be a JSON object'')))"

text \<open>The answer, or none when comparing the token raises: \<open>compare_digest\<close> takes ASCII strings only.\<close>

definition agent_http :: "agent_world \<Rightarrow> agent \<Rightarrow> http_call \<Rightarrow> (nat \<times> json) option \<times> agent" where
  "agent_http aw ag call =
     (let token = (case call of GET t _ \<Rightarrow> t | POST t _ _ _ \<Rightarrow> t) in
      if \<not> is_ascii token \<or> \<not> is_ascii (agent_token ag) then (None, ag)
      else if token \<noteq> agent_token ag then (Some unauthorized, ag)
      else case call of
        GET _ p \<Rightarrow> (Some (if p \<noteq> ''/health'' then not_found else (200, JObj [(''ok'', JBool True)])), ag)
      | POST _ p len body \<Rightarrow>
          (case http_payload aw len body of
             Inl e \<Rightarrow> (Some (bad_request e), ag)
           | Inr payload \<Rightarrow>
               if p = ''/bootstrap'' then
                 (case agent_bootstrap aw ag payload of
                    (Inl e, ag') \<Rightarrow> (Some (bad_request e), ag')
                  | (Inr v, ag') \<Rightarrow> (Some (200, v), ag'))
               else if p = ''/run'' then
                 (case agent_run aw ag payload of
                    Inl e \<Rightarrow> (Some (bad_request e), ag)
                  | Inr v \<Rightarrow> (Some (200, v), ag))
               else (Some not_found, ag)))"

section \<open>What the agent serves\<close>

lemma install_keeps:
  assumes "install h untar m rid sha artifact = (r, m')"
  shows "mat_root m' = mat_root m" "map_of (mat_targets m) x = Some t \<Longrightarrow> map_of (mat_targets m') x = Some t"
  using assms by (auto simp: install_def Let_def split: if_splits sum.splits)

lemma install_path: "install h untar m rid sha artifact = (Inr p, m') \<Longrightarrow> p = mat_root m @ [rid]"
  by (auto simp: install_def Let_def split: if_splits sum.splits)

text \<open>Every release that the agent can run is installed under its own id, with the manifest that its tree
  holds and that names it.\<close>

definition agent_inv :: "agent_world \<Rightarrow> agent \<Rightarrow> bool" where
  "agent_inv aw ag \<longleftrightarrow> (\<forall>rid p manifest. map_of (agent_releases ag) rid = Some (p, manifest) \<longrightarrow>
     p = mat_root (agent_materializer ag) @ [rid] \<and> read_manifest aw (agent_materializer ag) rid = Inr manifest \<and>
     check_manifest rid manifest = Inr ())"

lemma read_manifest_keeps:
  "install h untar m rid sha artifact = (r, m') \<Longrightarrow> read_manifest aw m x = Inr j \<Longrightarrow> read_manifest aw m' x = Inr j"
  using install_keeps(2) [of h untar m rid sha artifact r m' x]
  by (auto simp: read_manifest_def split: option.splits node.splits)

lemma agent_inv_install:
  assumes "agent_inv aw ag" "install h untar (agent_materializer ag) rid sha artifact = (r, m)"
  shows "agent_inv aw (ag\<lparr>agent_materializer := m\<rparr>)"
  using assms install_keeps(1) [OF assms(2)] read_manifest_keeps [OF assms(2)] by (auto simp: agent_inv_def)

lemma agent_bootstrap_inv:
  assumes "agent_inv aw ag"
  shows "agent_inv aw (snd (agent_bootstrap aw ag payload))"
proof (cases "bootstrap_args payload")
  case (Inl e)
  then show ?thesis using assms by (simp add: agent_bootstrap_def)
next
  case (Inr args)
  obtain rid artifact sha where args: "args = (rid, artifact, sha)" by (cases args) auto
  obtain r m where ins: "install (aw_sha256 aw) (aw_untar aw) (agent_materializer ag) rid sha artifact = (r, m)" by fastforce
  note keep = agent_inv_install [OF assms ins]
  show ?thesis
  proof (cases r)
    case (Inl e)
    then show ?thesis using keep ins Inr args by (simp add: agent_bootstrap_def)
  next
    case (Inr p)
    have p: "p = mat_root m @ [rid]" using install_path [of _ _ _ _ _ _ p m] install_keeps(1) [OF ins] ins Inr by metis
    show ?thesis using keep p ins \<open>bootstrap_args payload = Inr args\<close> args Inr
      by (auto simp: agent_bootstrap_def Let_def agent_inv_def result_bind_ok split: sum.splits)
  qed
qed

lemma agent_http_state:
  "snd (agent_http aw ag call) = ag \<or>
   (\<exists>len body payload. call = POST (agent_token ag) ''/bootstrap'' len body \<and> http_payload aw len body = Inr payload \<and>
      snd (agent_http aw ag call) = snd (agent_bootstrap aw ag payload))"
  by (cases call) (auto simp: agent_http_def Let_def split: sum.splits prod.splits)

inductive agent_step :: "agent_world \<Rightarrow> agent \<Rightarrow> agent \<Rightarrow> bool" for aw where
  http: "agent_step aw ag (snd (agent_http aw ag call))"

definition fresh_agent :: "agent \<Rightarrow> bool" where
  "fresh_agent ag \<longleftrightarrow> agent_releases ag = []"

interpretation agents: invariant_machine fresh_agent "agent_step aw" "agent_inv aw" for aw
proof
  show "agent_inv aw ag" if "fresh_agent ag" for ag
    using that by (simp add: agent_inv_def fresh_agent_def)
  show "agent_inv aw ag'" if "agent_inv aw ag" "agent_step aw ag ag'" for ag ag'
    using that(2)
  proof cases
    case (http call)
    then show ?thesis using agent_http_state [of aw ag call] agent_bootstrap_inv [OF that(1)] that(1) by auto
  qed
qed

section \<open>Properties\<close>

text \<open>C20: Whatever requests reach the agent, it changes its state only for a bootstrap request with its token,
  and any release that it can run has been installed under that id, with the manifest found in the
  installed tree, which names that release.\<close>

theorem agent_serves_verified:
  assumes "reach fresh_agent (agent_step aw) ag"
  shows "(snd (agent_http aw ag call) \<noteq> ag \<longrightarrow> (\<exists>len body. call = POST (agent_token ag) ''/bootstrap'' len body)) \<and>
    (map_of (agent_releases ag) rid = Some (p, manifest) \<longrightarrow>
      p = mat_root (agent_materializer ag) @ [rid] \<and> read_manifest aw (agent_materializer ag) rid = Inr manifest \<and>
      map_of (json_fields manifest) ''id'' = Some (JStr rid))"
proof -
  have "agent_inv aw ag" by (rule agents.inv_reach [OF assms])
  then have "map_of (agent_releases ag) rid = Some (p, manifest) \<longrightarrow>
      p = mat_root (agent_materializer ag) @ [rid] \<and> read_manifest aw (agent_materializer ag) rid = Inr manifest \<and>
      check_manifest rid manifest = Inr ()"
    by (simp add: agent_inv_def)
  then show ?thesis using agent_http_state [of aw ag call]
    by (auto simp: check_manifest_def json_fields_def split: json.splits if_splits)
qed

definition sample_world :: agent_world where
  "sample_world = \<lparr>aw_sha256 = rev, aw_untar = (\<lambda>_. Inr sample_members),
     aw_loads = (\<lambda>b. if b = ''{}'' then Inr (JObj [(''id'', JStr ''r1''), (''entrypoint'', JStr ''m:f'')])
       else Inr (JObj [(''release_id'', JStr ''r1''), (''artifact_b64'', JStr (b64encode ''az'')), (''artifact_sha256'', JStr ''za'')])),
     aw_dumps = print_json, aw_decode = (\<lambda>b. b),
     aw_spawn = (\<lambda>_ _ _. \<lparr>obs_stdin_ok = True, obs_exit = None, obs_stdout = [], obs_stderr = [], obs_duration_ms = 9\<rparr>)\<rparr>"

definition sample_agent :: agent where
  "sample_agent = snd (agent_http sample_world (agent_init ''tok'' [''opt''] None ''7'') (POST ''tok'' ''/bootstrap'' (Some 1) ''b''))"

theorem agent_serves_verified_witness:
  "\<exists>p manifest. map_of (agent_releases sample_agent) ''r1'' = Some (p, manifest) \<and> map_of (json_fields manifest) ''id'' = Some (JStr ''r1'') \<and>
     snd (agent_http sample_world sample_agent (POST ''bad'' ''/bootstrap'' (Some 1) ''b'')) = sample_agent"
proof -
  have "reach fresh_agent (agent_step sample_world) (agent_init ''tok'' [''opt''] None ''7'')"
    by (rule reach_init) (simp add: fresh_agent_def agent_init_def)
  then have r: "reach fresh_agent (agent_step sample_world) sample_agent"
    unfolding sample_agent_def by (rule reach_step) (rule agent_step.http)
  have "map_option fst (map_of (agent_releases sample_agent) ''r1'') = Some [''opt'', ''r1'']" by code_simp
  then obtain p manifest where m: "map_of (agent_releases sample_agent) ''r1'' = Some (p, manifest)" by auto
  have "agent_token sample_agent = ''tok''" by code_simp
  then show ?thesis
    using agent_serves_verified [OF r, of "POST ''bad'' ''/bootstrap'' (Some 1) ''b''" "''r1''" p manifest] m by auto
qed

end
