(* ===== verification/Local_Backend.thy ===== *)
theory Local_Backend
  imports Sandbox_Backend Worker_Agent
begin

text \<open>
  \<^verbatim>\<open>runner_engine/sandbox/local.py\<close>: the development backend, which keeps one agent per worker in the
  process of the runner.  The files of the catalog, the tokens, the temporary directories and the clock
  are streams and functions of its state; the world of its agents is the parameter \<open>aw\<close>.
\<close>

record local =
  local_workers :: "(string, agent) dict"
  local_sequence :: nat
  local_files :: "string \<Rightarrow> bytes result"
  local_tokens :: "nat \<Rightarrow> string"
  local_temp :: "nat \<Rightarrow> path"
  local_dependency_root :: "string option"
  local_pid :: string
  local_clock :: "nat \<Rightarrow> rat"
  local_ticks :: nat

definition local_now :: "local \<Rightarrow> rat" where
  "local_now b = local_clock b (local_ticks b)"

definition local_create :: "local \<Rightarrow> string \<Rightarrow> operator_release \<Rightarrow> security_policy \<Rightarrow> int \<Rightarrow> worker result \<times> local" where
  "local_create b tenant rel pol ttl =
     (let n = local_sequence b + 1;
          wid = ''local-'' @ nat_text n;
          token = local_tokens b n;
          ag = agent_init token (local_temp b n @ [''releases'']) (local_dependency_root b) (local_pid b);
          now = local_now b in
      (Inr \<lparr>w_id = wid, w_endpoint = ''local://agent-state'', w_token = token, w_tenant_id = tenant,
            w_runtime_id = env_id (rel_runtime rel), w_profile = rel_profile rel, w_backend_group = ''local'',
            created_monotonic = now, last_used_monotonic = now, installed_release_ids = {},
            sandbox_expires_monotonic = Some (now + of_int ttl), w_runs = 0, healthy = True, destroyed = False,
            endpoint_headers = []\<rparr>,
       b\<lparr>local_sequence := n, local_workers := AList.update wid ag (local_workers b), local_ticks := local_ticks b + 1\<rparr>))"

definition local_renew :: "local \<Rightarrow> worker \<Rightarrow> int \<Rightarrow> worker result \<times> local" where
  "local_renew b w ttl =
     (Inr (w\<lparr>sandbox_expires_monotonic := Some (local_now b + of_int ttl)\<rparr>), b\<lparr>local_ticks := local_ticks b + 1\<rparr>)"

definition local_install :: "agent_world \<Rightarrow> local \<Rightarrow> worker \<Rightarrow> operator_release \<Rightarrow> unit result \<times> local" where
  "local_install aw b w rel =
     (case map_of (local_workers b) (w_id w) of
        None \<Rightarrow> (Inl (key_error (w_id w)), b)
      | Some ag \<Rightarrow>
          (case local_files b (artifact_path rel) of
             Inl e \<Rightarrow> (Inl e, b)
           | Inr artifact \<Rightarrow>
               let (res, ag') = agent_bootstrap aw ag (bootstrap_payload rel artifact) in
               (map_sum id (\<lambda>_. ()) res, b\<lparr>local_workers := AList.update (w_id w) ag' (local_workers b)\<rparr>)))"

definition local_run :: "agent_world \<Rightarrow> local \<Rightarrow> worker \<Rightarrow> operator_release \<Rightarrow> run_request \<Rightarrow> int \<Rightarrow> run_result result \<times> local" where
  "local_run aw b w rel req timeout_ms =
     (case map_of (local_workers b) (w_id w) of
        None \<Rightarrow> (Inl (key_error (w_id w)), b)
      | Some ag \<Rightarrow>
          (result_bind (agent_run aw ag (run_payload rel req timeout_ms)) (result_of_response (w_id w)), b))"

definition local_destroy :: "local \<Rightarrow> worker \<Rightarrow> unit result \<times> local" where
  "local_destroy b w = (Inr (), b\<lparr>local_workers := AList.delete (w_id w) (local_workers b)\<rparr>)"

definition local_cleanup :: "local \<Rightarrow> nat result \<times> local" where
  "local_cleanup b = (Inr (length (local_workers b)), b\<lparr>local_workers := []\<rparr>)"

definition local_backend :: "agent_world \<Rightarrow> local backend" where
  "local_backend aw =
     \<lparr>be_create = local_create, be_renew = local_renew, be_install = local_install aw, be_run = local_run aw,
      be_destroy = local_destroy, be_cleanup = local_cleanup\<rparr>"

interpretation local_sandbox: sandbox_backend "local_backend aw" for aw
  by unfold_locales (auto simp: local_backend_def local_create_def local_renew_def fresh_worker_def Let_def)

section \<open>From the request to the operator and back\<close>

lemma split_entrypoint_ok: "CHR '':'' \<notin> set m \<Longrightarrow> split_entrypoint (m @ CHR '':'' # f) = Inr (m, f)"
proof -
  assume "CHR '':'' \<notin> set m"
  then have "takeWhile (\<lambda>c. c \<noteq> CHR '':'') (m @ CHR '':'' # f) = m"
    "dropWhile (\<lambda>c. c \<noteq> CHR '':'') (m @ CHR '':'' # f) = CHR '':'' # f"
    by (induction m) auto
  then show ?thesis by (simp add: split_entrypoint_def)
qed

definition dependency_field :: "agent \<Rightarrow> string" where
  "dependency_field ag = (case agent_dependency_root ag of None \<Rightarrow> [] | Some d \<Rightarrow> d)"

text \<open>The call of the operator that a request leads to.\<close>

definition operator_call :: "child_world \<Rightarrow> agent \<Rightarrow> path \<Rightarrow> string list \<Rightarrow> string \<Rightarrow> string \<Rightarrow> run_request \<Rightarrow> pyval result" where
  "operator_call w ag p sys_path modname funname req =
     fst (cw_call w ((cw_resolve w (''/'' @ as_posix p) # dependency_paths w (dependency_field ag)) @ sys_path) modname funname
        (req_content req) (sort_key fst (req_attributes req)) (sort_key fst (req_parameters req)))"

lemma child_execute_sorted:
  assumes req: "child_request ag p manifest (run_payload rel req t) = Inr request"
    and ep: "map_of (json_fields manifest) ''entrypoint'' = Some (JStr (m @ CHR '':'' # f))" "CHR '':'' \<notin> set m"
  shows "fst (child_execute w env sp (sort_keys request)) =
    result_bind (operator_call w ag p sp m f req) (\<lambda>v. result_bind (normalize_result v (req_content req)) (\<lambda>n.
      result_bind (validate_output env (n_content n) (n_attributes n)) (\<lambda>_. Inr (normalized_response n))))"
proof -
  define kvs where "kvs = [(''release_root'', JStr (''/'' @ as_posix p)),
    (''dependency_root'', (case agent_dependency_root ag of None \<Rightarrow> JNull | Some d \<Rightarrow> JStr d)), (''entrypoint'', JStr (m @ CHR '':'' # f)),
    (''content_b64'', JStr (b64encode (req_content req))), (''attributes'', str_obj (req_attributes req)),
    (''parameters'', str_obj (req_parameters req))]"
  have request: "request = JObj kvs"
    using req ep(1) by (simp add: child_request_def need_obj_def payload_field_def run_payload_def json_fields_def kvs_def)
  have field: "map_of (json_fields (sort_keys request)) k = map_option sort_keys (map_of kvs k)" for k
    unfolding request by (rule sort_keys_fields) (simp add: kvs_def)
  have dep: "get_opt_str (sort_keys request) ''dependency_root'' = Inr (dependency_field ag)"
    by (cases "agent_dependency_root ag") (simp_all add: get_opt_str_def get_str_def field, simp_all add: kvs_def dependency_field_def)
  have args: "need_str (sort_keys request) ''release_root'' = Inr (''/'' @ as_posix p)"
    "need_str (sort_keys request) ''entrypoint'' = Inr (m @ CHR '':'' # f)"
    "get_str (sort_keys request) ''content_b64'' [] = Inr (b64encode (req_content req))"
    "get_str_dict (sort_keys request) ''attributes'' = Inr (sort_key fst (req_attributes req))"
    "get_str_dict (sort_keys request) ''parameters'' = Inr (sort_key fst (req_parameters req))"
    by (simp_all add: need_str_def get_str_def field, simp_all add: kvs_def field get_str_def sort_keys_str_obj_eq)
  show ?thesis
    by (simp add: child_execute_def dep args split_entrypoint_ok [OF ep(2)] operator_call_def Let_def split: prod.splits)
qed

text \<open>The result that the service gets for what the operator returned.\<close>

definition delivered :: "string \<Rightarrow> int \<Rightarrow> normalized \<Rightarrow> run_result" where
  "delivered wid duration n =
     \<lparr>res_status = n_status n, res_relationship = n_relationship n, res_content = n_content n,
      res_attributes = sort_key fst (n_attributes n), res_retryable = n_retryable n, res_error_code = n_error_code n,
      res_error_message = n_error_message n, res_worker_id = wid, res_duration_ms = duration\<rparr>"

lemma response_delivered:
  assumes "sort_keys (normalized_response n) = JObj kvs"
  shows "result_of_response wid (JObj (AList.update ''duration_ms'' (JInt d) kvs)) = Inr (delivered wid d n)"
proof -
  define fields where "fields = json_fields (normalized_response n)"
  have nr: "normalized_response n = JObj fields" by (simp add: fields_def normalized_response_def json_fields_def)
  have "distinct (map fst fields)" by (simp add: fields_def normalized_response_def json_fields_def)
  then have f: "map_of kvs k = map_option sort_keys (map_of fields k)" for k
    using sort_keys_fields [of fields k] assms by (simp add: nr json_fields_def)
  have g: "json_fields (JObj l) = l" for l by (simp add: json_fields_def)
  have gets: "get_str (JObj (AList.update ''duration_ms'' (JInt d) kvs)) ''status'' ''FAILED'' = Inr (n_status n)"
    "get_str (JObj (AList.update ''duration_ms'' (JInt d) kvs)) ''relationship'' ''failure'' = Inr (n_relationship n)"
    "get_str (JObj (AList.update ''duration_ms'' (JInt d) kvs)) ''content_b64'' [] = Inr (b64encode (n_content n))"
    "get_str (JObj (AList.update ''duration_ms'' (JInt d) kvs)) ''error_code'' [] = Inr (n_error_code n)"
    "get_str (JObj (AList.update ''duration_ms'' (JInt d) kvs)) ''error_message'' [] = Inr (n_error_message n)"
    "get_int (JObj (AList.update ''duration_ms'' (JInt d) kvs)) ''duration_ms'' 0 = Inr d"
    "get_truthy (JObj (AList.update ''duration_ms'' (JInt d) kvs)) ''retryable'' = n_retryable n"
    by (simp_all add: get_str_def get_int_def get_truthy_def g f, simp_all add: fields_def normalized_response_def json_fields_def)
  have "get_str_dict (JObj (AList.update ''duration_ms'' (JInt d) kvs)) ''attributes'' = Inr (sort_key fst (n_attributes n))"
    by (rule get_str_dict_str_obj, simp add: g f, simp add: fields_def normalized_response_def json_fields_def sort_keys_str_obj_eq)
  then show ?thesis using gets by (simp add: result_of_response_def delivered_def)
qed

text \<open>A run of the child process that is \<open>child.py\<close> reading all of its stdin and exiting normally, with output
  within the pipe limits.\<close>

definition child_ran :: "agent_world \<Rightarrow> child_world \<Rightarrow> child_env \<Rightarrow> string list \<Rightarrow> bytes \<Rightarrow> int \<Rightarrow> child_obs \<Rightarrow> bool" where
  "child_ran aw w env sp raw max_output obs \<longleftrightarrow>
     obs_stdin_ok obs \<and> obs_exit obs = Some 0 \<and> [] \<notin> set (obs_stdout obs) \<and> [] \<notin> set (obs_stderr obs) \<and>
     concat (obs_stdout obs) = aw_dumps aw (child_main (aw_loads aw) w env sp raw) \<and>
     int (length (concat (obs_stdout obs))) \<le> max_output * 2 + 1024 * 1024 \<and> length (concat (obs_stderr obs)) \<le> MAX_STDERR"

text \<open>The property of \<open>json.dumps\<close> with \<open>sort_keys\<close> and \<open>json.loads\<close> that the exchange relies on, at one value.\<close>

definition text_round_trip :: "agent_world \<Rightarrow> json \<Rightarrow> bool" where
  "text_round_trip aw j \<longleftrightarrow> aw_loads aw (aw_dumps aw j) = Inr (sort_keys j)"

lemma classify_child_ran:
  assumes "child_ran aw w env sp raw max_output obs" "text_round_trip aw (child_main (aw_loads aw) w env sp raw)"
    "child_main (aw_loads aw) w env sp raw = normalized_response n" "1 \<le> max_output"
  shows "result_bind (classify aw t max_output obs) (result_of_response wid) = Inr (delivered wid (obs_duration_ms obs) n)"
proof -
  have out: "bounded_reader (nat (max_output * 2 + 1024 * 1024)) [] (obs_stdout obs) = (concat (obs_stdout obs), False)"
    using assms(1,4) by (subst bounded_reader_all) (auto simp: child_ran_def nat_le_iff)
  have err: "bounded_reader MAX_STDERR [] (obs_stderr obs) = (concat (obs_stderr obs), False)"
    using assms(1) by (subst bounded_reader_all) (auto simp: child_ran_def)
  obtain kvs where kvs: "sort_keys (normalized_response n) = JObj kvs" by (simp add: normalized_response_def)
  have "aw_loads aw (concat (obs_stdout obs)) = Inr (JObj kvs)"
    using assms(1-3) kvs by (simp add: child_ran_def text_round_trip_def)
  then have "classify aw t max_output obs = Inr (JObj (AList.update ''duration_ms'' (JInt (obs_duration_ms obs)) kvs))"
    using assms(1) out err by (simp add: classify_def child_ran_def)
  then show ?thesis using response_delivered [OF kvs] by simp
qed

definition runner_env :: child_env where
  "runner_env = child_env_of (8 * 1024 * 1024) 128 (64 * 1024)"

lemma agent_run_payload:
  assumes "map_of (agent_releases ag) (rel_id rel) = Some (p, manifest)"
    and "child_request ag p manifest (run_payload rel req t) = Inr request"
  shows "agent_run aw ag (run_payload rel req t) =
    classify aw (max 1 t) (8 * 1024 * 1024) (aw_spawn aw runner_env (aw_dumps aw request) (max 1 t))"
  using assms by (simp add: agent_run_def need_str_def get_str_def get_int_def run_payload_def json_fields_def runner_env_def Let_def)

section \<open>Properties\<close>

text \<open>C16: End to end through the local backend: when the child process runs \<open>child.py\<close> undisturbed, the operator
  named by the release is called with exactly the content, attributes and parameters of the request, and
  the result that the service gets carries what the operator returned, or a failure with the code
  \<open>USER_EXCEPTION\<close> when the operator, the import or the checks of its result raise.  Attributes come
  back in key order.\<close>

theorem local_run_delivers:
  assumes worker: "map_of (local_workers b) (w_id w) = Some ag"
    and release: "map_of (agent_releases ag) (rel_id rel) = Some (p, manifest)"
      "map_of (json_fields manifest) ''entrypoint'' = Some (JStr (m @ CHR '':'' # f))" "CHR '':'' \<notin> set m"
    and request: "child_request ag p manifest (run_payload rel req t) = Inr request"
      "text_round_trip aw request" "length (aw_dumps aw request) \<le> 12 * 1024 * 1024"
    and child: "aw_spawn aw runner_env (aw_dumps aw request) (max 1 t) = obs"
      "child_ran aw cw runner_env sp (aw_dumps aw request) (8 * 1024 * 1024) obs"
      "text_round_trip aw (child_main (aw_loads aw) cw runner_env sp (aw_dumps aw request))"
  shows "local_run aw b w rel req t =
    (Inr (delivered (w_id w) (obs_duration_ms obs)
       (case result_bind (operator_call cw ag p sp m f req) (\<lambda>v. result_bind (normalize_result v (req_content req)) (\<lambda>n.
          result_bind (validate_output runner_env (n_content n) (n_attributes n)) (\<lambda>_. Inr n))) of
          Inl e \<Rightarrow> failure_of cw e | Inr n \<Rightarrow> n)), b)"
proof -
  let ?raw = "aw_dumps aw request"
  define r where "r = result_bind (operator_call cw ag p sp m f req) (\<lambda>v. result_bind (normalize_result v (req_content req)) (\<lambda>n.
          result_bind (validate_output runner_env (n_content n) (n_attributes n)) (\<lambda>_. Inr n)))"
  define n where "n = (case r of Inl e \<Rightarrow> failure_of cw e | Inr n \<Rightarrow> n)"
  have "fst (child_execute cw runner_env sp (sort_keys request)) = map_sum id normalized_response r"
    unfolding child_execute_sorted [OF request(1) release(2,3)] r_def
    by (simp add: result_bind_def split: sum.splits)
  then have main: "child_main (aw_loads aw) cw runner_env sp ?raw = normalized_response n"
    using request(2,3) by (cases r) (simp_all add: child_main_def text_round_trip_def n_def user_exception_response)
  have "result_bind (agent_run aw ag (run_payload rel req t)) (result_of_response (w_id w)) =
      Inr (delivered (w_id w) (obs_duration_ms obs) n)"
    unfolding agent_run_payload [OF release(1) request(1)] child(1)
    by (rule classify_child_ran [OF child(2,3) main]) simp
  then show ?thesis using worker by (simp add: local_run_def n_def r_def)
qed

text \<open>An agent with one release whose operator returns two bytes.\<close>

definition echo_agent :: agent where
  "echo_agent = (agent_init ''tok'' [''w'', ''releases''] None ''7'')\<lparr>agent_releases :=
     [(''r1'', ([''w'', ''releases'', ''r1''], JObj [(''id'', JStr ''r1''), (''entrypoint'', JStr ''m:f'')]))]\<rparr>"

definition echo_local :: local where
  "echo_local = \<lparr>local_workers = [(''local-1'', echo_agent)], local_sequence = 1, local_files = (\<lambda>_. Inr []),
     local_tokens = (\<lambda>_. ''tok''), local_temp = (\<lambda>_. [''w'']), local_dependency_root = None, local_pid = ''7'',
     local_clock = (\<lambda>n. of_nat n), local_ticks = 0\<rparr>"

definition echo_release :: operator_release where
  "echo_release = \<lparr>rel_id = ''r1'', artifact_path = ''a'', artifact_sha256 = ''s'',
     rel_runtime = \<lparr>env_id = ''e'', env_image = ''i'', env_python = ''3.12''\<rparr>, entrypoint = ''m:f'',
     rel_profile = ''standard'', input_attributes = [], output_attributes = []\<rparr>"

definition echo_request :: run_request where
  "echo_request = \<lparr>req_tenant_id = ''t'', req_lease_id = ''l'', req_release_id = ''r1'', req_invocation_id = ''i'',
     req_idempotency_key = ''k'', req_content = ''in'', req_attributes = [], req_parameters = [], req_timeout_ms = 100\<rparr>"

definition echo_child_request :: json where
  "echo_child_request = JObj [(''release_root'', JStr ''/w/releases/r1''), (''dependency_root'', JNull), (''entrypoint'', JStr ''m:f''),
     (''content_b64'', JStr (b64encode ''in'')), (''attributes'', str_obj []), (''parameters'', str_obj [])]"

definition echo_child :: child_world where
  "echo_child = \<lparr>cw_resolve = (\<lambda>p. p), cw_is_dir = (\<lambda>_. True), cw_call = (\<lambda>_ _ _ c _ _. (Inr (PyBytes (rev c)), [])),
     cw_traceback = exn_str\<rparr>"

definition echo_world :: agent_world where
  "echo_world = \<lparr>aw_sha256 = rev, aw_untar = (\<lambda>_. Inr []),
     aw_loads = (\<lambda>b. if b = ''Q'' then Inr (sort_keys echo_child_request) else Inr (sort_keys (normalized_response (plain_success ''ni'')))),
     aw_dumps = (\<lambda>j. if j = echo_child_request then ''Q'' else ''A''), aw_decode = (\<lambda>b. b),
     aw_spawn = (\<lambda>_ _ _. \<lparr>obs_stdin_ok = True, obs_exit = Some 0, obs_stdout = [''A''], obs_stderr = [], obs_duration_ms = 5\<rparr>)\<rparr>"

definition echo_worker :: worker where
  "echo_worker = \<lparr>w_id = ''local-1'', w_endpoint = ''local://agent-state'', w_token = ''tok'', w_tenant_id = ''t'',
     w_runtime_id = ''e'', w_profile = ''standard'', w_backend_group = ''local'', created_monotonic = 0, last_used_monotonic = 0,
     installed_release_ids = {''r1''}, sandbox_expires_monotonic = None, w_runs = 0, healthy = True, destroyed = False,
     endpoint_headers = []\<rparr>"

theorem local_run_delivers_witness:
  "local_run echo_world echo_local echo_worker echo_release echo_request 100 =
     (Inr (delivered ''local-1'' 5 (plain_success ''ni'')), echo_local)"
proof -
  let ?m = "JObj [(''id'', JStr ''r1''), (''entrypoint'', JStr ''m:f'')]"
  have rel: "map_of (agent_releases echo_agent) (rel_id echo_release) = Some ([''w'', ''releases'', ''r1''], ?m)"
    by (simp add: echo_agent_def echo_release_def)
  have ep: "map_of (json_fields ?m) ''entrypoint'' = Some (JStr (''m'' @ CHR '':'' # ''f''))" by (simp add: json_fields_def)
  have req: "child_request echo_agent [''w'', ''releases'', ''r1''] ?m (run_payload echo_release echo_request 100) = Inr echo_child_request"
    by (simp add: child_request_def need_obj_def payload_field_def run_payload_def json_fields_def echo_child_request_def
        echo_agent_def agent_init_def as_posix_def echo_request_def)
  have call: "operator_call echo_child echo_agent [''w'', ''releases'', ''r1''] [] ''m'' ''f'' echo_request = Inr (PyBytes ''ni'')"
    by (simp add: operator_call_def echo_child_def echo_request_def)
  have val: "validate_output runner_env ''ni'' [] = Inr ()"
    by (simp add: validate_output_def runner_env_def child_env_of_def max_output_of_def max_attributes_of_def
        max_attribute_bytes_of_def dict_bytes_def)
  have n: "result_bind (operator_call echo_child echo_agent [''w'', ''releases'', ''r1''] [] ''m'' ''f'' echo_request)
      (\<lambda>v. result_bind (normalize_result v (req_content echo_request)) (\<lambda>n.
        result_bind (validate_output runner_env (n_content n) (n_attributes n)) (\<lambda>_. Inr n))) = Inr (plain_success ''ni'')"
    by (simp add: call normalize_result_def encode_content_def val plain_success_def)
  have ex: "fst (child_execute echo_child runner_env [] (sort_keys echo_child_request)) = Inr (normalized_response (plain_success ''ni''))"
    by (subst child_execute_sorted [OF req ep]) (simp_all add: call normalize_result_def encode_content_def val plain_success_def)
  have world: "aw_dumps echo_world echo_child_request = ''Q''" "aw_loads echo_world ''Q'' = Inr (sort_keys echo_child_request)"
    "aw_loads echo_world ''A'' = Inr (sort_keys (normalized_response (plain_success ''ni'')))"
    "aw_dumps echo_world (normalized_response (plain_success ''ni'')) = ''A''"
    by (simp_all add: echo_world_def echo_child_request_def normalized_response_def)
  have main: "child_main (aw_loads echo_world) echo_child runner_env [] ''Q'' = normalized_response (plain_success ''ni'')"
    using ex by (simp add: child_main_def world)
  have sp: "aw_spawn echo_world runner_env ''Q'' (max 1 100) =
      \<lparr>obs_stdin_ok = True, obs_exit = Some 0, obs_stdout = [''A''], obs_stderr = [], obs_duration_ms = 5\<rparr>" (is "_ = ?obs")
    by (simp add: echo_world_def)
  have ran: "child_ran echo_world echo_child runner_env [] ''Q'' (8 * 1024 * 1024) ?obs"
    by (simp add: child_ran_def main world MAX_STDERR_def)
  have w: "map_of (local_workers echo_local) (w_id echo_worker) = Some echo_agent" by (simp add: echo_local_def echo_worker_def)
  show ?thesis
    using local_run_delivers [OF w rel ep _ req, of echo_world ?obs echo_child "[]"] sp ran main n
    by (simp add: world text_round_trip_def echo_worker_def)
qed

end
