(* ===== verification/OpenSandbox_Backend.thy ===== *)
theory OpenSandbox_Backend
  imports Sandbox_Backend Py_Text "HOL-Library.Sublist"
begin

text \<open>
  \<^verbatim>\<open>runner_engine/sandbox/opensandbox.py\<close> and the client of \<^verbatim>\<open>runner_engine/worker/http_api.py\<close>.  The
  network, with the control plane and the agents behind it, is the parameter \<open>net\<close> on a world of type
  \<open>'w\<close>: sending a request gives a reply, the microseconds it took, and the next world.  The backend
  keeps the monotonic clock in microseconds and the list of control requests it has sent.
\<close>

section \<open>Transport\<close>

datatype reply = HttpOk json | HttpError int string | Unreachable string | SendFailed exn

record 'w net =
  net_send :: "'w \<Rightarrow> string \<Rightarrow> string \<Rightarrow> (string, string) dict \<Rightarrow> json option \<Rightarrow> reply \<times> nat \<times> 'w"
  net_sleep :: "'w \<Rightarrow> nat"
  net_expires_at :: "'w \<Rightarrow> int \<Rightarrow> string"
  net_repr :: "json \<Rightarrow> string"
  net_sha256 :: "string \<Rightarrow> string"

record cluster_config =
  cl_url :: string
  cl_api_key :: string

record 'w opensandbox =
  osb_clusters :: "(string, cluster_config) dict"
  osb_owner_id :: string
  osb_agent_port :: int
  osb_files :: "string \<Rightarrow> bytes result"
  osb_tokens :: "nat \<Rightarrow> string"
  osb_created :: nat
  osb_world :: 'w
  osb_time :: int
  osb_sent :: "(string \<times> string \<times> string) list"

definition MANAGED_BY :: string where
  "MANAGED_BY = ''managed-python-runner-v3.3''"

definition sandbox_error :: "string \<Rightarrow> string \<Rightarrow> bool \<Rightarrow> exn" where
  "sandbox_error code msg retry = RunnerExn SandboxError code msg retry"

fun rstrip_slash :: "string \<Rightarrow> string" where
  "rstrip_slash s = rev (dropWhile (\<lambda>c. c = CHR ''/'') (rev s))"

text \<open>\<open>urllib.parse.quote\<close>: every byte that is not unreserved or a slash becomes a percent escape.\<close>

definition unreserved :: "char \<Rightarrow> bool" where
  "unreserved c \<longleftrightarrow> (let n = of_char c :: nat in
     48 \<le> n \<and> n \<le> 57 \<or> 65 \<le> n \<and> n \<le> 90 \<or> 97 \<le> n \<and> n \<le> 122 \<or> c \<in> {CHR ''_'', CHR ''.'', CHR ''-'', CHR ''~'', CHR ''/''})"

definition quote_url :: "string \<Rightarrow> string" where
  "quote_url s = concat (map (\<lambda>c. if unreserved c then [c]
     else [CHR ''%'', ''0123456789ABCDEF'' ! (of_char c div 16), ''0123456789ABCDEF'' ! (of_char c mod 16)]) s)"

definition spend :: "nat \<Rightarrow> 'w \<Rightarrow> 'w opensandbox \<Rightarrow> 'w opensandbox" where
  "spend us w b = b\<lparr>osb_time := osb_time b + int us, osb_world := w\<rparr>"

definition osb_cluster :: "'w opensandbox \<Rightarrow> string \<Rightarrow> cluster_config result" where
  "osb_cluster b name =
     (case map_of (osb_clusters b) name of
        Some c \<Rightarrow> Inr c
      | None \<Rightarrow> Inl (sandbox_error ''UNKNOWN_SANDBOX_CLUSTER'' (''no OpenSandbox cluster named '' @ name) False))"

definition osb_request :: "'w net \<Rightarrow> 'w opensandbox \<Rightarrow> string \<Rightarrow> string \<Rightarrow> string \<Rightarrow> json option \<Rightarrow> json result \<times> 'w opensandbox" where
  "osb_request net b cluster meth path payload =
     (case osb_cluster b cluster of
        Inl e \<Rightarrow> (Inl e, b)
      | Inr config \<Rightarrow>
          let headers = [(''Accept'', ''application/json'')] @
                (if payload = None then [] else [(''Content-Type'', ''application/json'')]) @
                (if cl_api_key config = [] then [] else [(''OPEN-SANDBOX-API-KEY'', cl_api_key config)]);
              (reply, us, w) = net_send net (osb_world b) (rstrip_slash (cl_url config) @ path) meth headers payload;
              b1 = (spend us w b)\<lparr>osb_sent := osb_sent b @ [(cluster, meth, path)]\<rparr> in
          ((case reply of
              HttpOk v \<Rightarrow> Inr v
            | HttpError code detail \<Rightarrow>
                Inl (sandbox_error ''OPENSANDBOX_HTTP'' (meth @ '' '' @ path @ '': HTTP '' @ int_text code @ '': '' @ detail) True)
            | Unreachable msg \<Rightarrow> Inl (sandbox_error ''OPENSANDBOX_UNREACHABLE'' (meth @ '' '' @ path @ '': '' @ msg) True)
            | SendFailed e \<Rightarrow> Inl e), b1))"

text \<open>\<open>worker_call\<close>: the endpoint's own headers may override the token header, as \<open>dict.update\<close> does.\<close>

definition worker_call :: "'w net \<Rightarrow> 'w opensandbox \<Rightarrow> worker \<Rightarrow> string \<Rightarrow> json option \<Rightarrow> json result \<times> 'w opensandbox" where
  "worker_call net b w path payload =
     (let headers = fold (\<lambda>(k, v). AList.update k v) (endpoint_headers w)
            ([(''X-Runner-Agent-Token'', w_token w)] @ (if payload = None then [] else [(''Content-Type'', ''application/json'')]));
          (reply, us, w') = net_send net (osb_world b) (rstrip_slash (w_endpoint w) @ path)
             (if payload = None then ''GET'' else ''POST'') headers payload in
      ((case reply of
          HttpOk v \<Rightarrow> Inr v
        | HttpError code detail \<Rightarrow> Inl (PyExn ''RuntimeError'' (''worker HTTP '' @ int_text code @ '': '' @ detail))
        | Unreachable msg \<Rightarrow> Inl (PyExn ''URLError'' msg)
        | SendFailed e \<Rightarrow> Inl e), spend us w' b))"

section \<open>Reading the control plane's answers\<close>

definition json_str :: "'w net \<Rightarrow> json \<Rightarrow> string" where
  "json_str net v = (case v of JStr s \<Rightarrow> s | JInt n \<Rightarrow> int_text n | _ \<Rightarrow> net_repr net v)"

definition attribute_error :: exn where
  "attribute_error = PyExn ''AttributeError'' ''get''"

definition truthy_field :: "(string, json) dict \<Rightarrow> string \<Rightarrow> json option" where
  "truthy_field kvs k = (case map_of kvs k of Some v \<Rightarrow> (if json_truthy v then Some v else None) | None \<Rightarrow> None)"

fun first_truthy :: "(string, json) dict \<Rightarrow> string list \<Rightarrow> json option" where
  "first_truthy kvs [] = None"
| "first_truthy kvs (k # ks) = (case truthy_field kvs k of Some v \<Rightarrow> Some v | None \<Rightarrow> first_truthy kvs ks)"

function sandbox_id :: "'w net \<Rightarrow> json \<Rightarrow> string result" where
  "sandbox_id net v =
     (case v of
        JObj kvs \<Rightarrow>
          (case first_truthy kvs [''id'', ''sandboxId'', ''sandbox_id''] of
             Some x \<Rightarrow> Inr (json_str net x)
           | None \<Rightarrow>
               (case map_of kvs ''sandbox'' of
                  Some (JObj inner) \<Rightarrow> sandbox_id net (JObj inner)
                | _ \<Rightarrow> Inl (sandbox_error ''OPENSANDBOX_PROTOCOL'' ''create response did not contain a sandbox id'' False)))
      | _ \<Rightarrow> Inl attribute_error)"
  by pat_completeness auto

lemma size_map_of: "map_of kvs k = Some v \<Longrightarrow> size v < Suc (size_list (size_prod (\<lambda>_. 0) size) kvs)"
  by (induction kvs) (auto split: if_splits)

termination sandbox_id
  by (relation "measure (\<lambda>(net, v). size v)") (auto dest: size_map_of)

definition ascii_upper :: "string \<Rightarrow> string" where
  "ascii_upper s = map (\<lambda>c. let n = of_char c :: nat in if 97 \<le> n \<and> n \<le> 122 then char_of (n - 32) else c) s"

definition sandbox_state :: "'w net \<Rightarrow> json \<Rightarrow> string result" where
  "sandbox_state net v =
     (case v of
        JObj kvs \<Rightarrow>
          let fallback = (case truthy_field kvs ''state'' of Some x \<Rightarrow> ascii_upper (json_str net x) | None \<Rightarrow> []) in
          Inr (case map_of kvs ''status'' of
                 Some (JObj st) \<Rightarrow> (case truthy_field st ''state'' of Some x \<Rightarrow> ascii_upper (json_str net x) | None \<Rightarrow> fallback)
               | Some (JStr s) \<Rightarrow> ascii_upper s
               | _ \<Rightarrow> fallback)
      | _ \<Rightarrow> Inl attribute_error)"

definition label_hash :: "'w net \<Rightarrow> string \<Rightarrow> string" where
  "label_hash net s = take 32 (net_sha256 net s)"

definition sandbox_path :: "string \<Rightarrow> string" where
  "sandbox_path sid = ''/v1/sandboxes/'' @ quote_url sid"

declare sandbox_id.simps [simp del]

definition osb_config :: "'w opensandbox \<Rightarrow> (string, cluster_config) dict \<times> string" where
  "osb_config b = (osb_clusters b, osb_owner_id b)"

lemma osb_request_frame:
  assumes "osb_request net b cluster meth path payload = (r, b')"
  shows "osb_time b \<le> osb_time b'" "\<exists>l. osb_sent b' = osb_sent b @ l \<and> length l \<le> 1" "osb_config b' = osb_config b"
  using assms by (auto simp: osb_request_def spend_def osb_config_def Let_def split: sum.splits prod.splits)

lemma worker_call_frame:
  "worker_call net b w path payload = (r, b') \<Longrightarrow> osb_time b \<le> osb_time b' \<and> osb_sent b' = osb_sent b \<and> osb_config b' = osb_config b"
  by (auto simp: worker_call_def spend_def osb_config_def Let_def split: prod.splits)

section \<open>Waiting\<close>

text \<open>\<open>time.sleep(0.2)\<close> takes 200 milliseconds or more, so both waiting loops end.\<close>

definition pause :: "'w net \<Rightarrow> 'w opensandbox \<Rightarrow> 'w opensandbox" where
  "pause net b = spend (200000 + net_sleep net (osb_world b)) (osb_world b) b"

lemma pause_frame [simp]: "osb_time b + 200000 \<le> osb_time (pause net b)" "osb_sent (pause net b) = osb_sent b"
    "osb_config (pause net b) = osb_config b"
  by (simp_all add: pause_def spend_def osb_config_def)

function wait_ready :: "'w net \<Rightarrow> 'w opensandbox \<Rightarrow> string \<Rightarrow> string \<Rightarrow> int \<Rightarrow> unit result \<times> 'w opensandbox" where
  "wait_ready net b cluster sid deadline =
     (if osb_time b < deadline then
        (case osb_request net b cluster ''GET'' (sandbox_path sid) None of
           (Inl e, b1) \<Rightarrow> (Inl e, b1)
         | (Inr status, b1) \<Rightarrow>
             (case sandbox_state net status of
                Inl e \<Rightarrow> (Inl e, b1)
              | Inr state \<Rightarrow>
                  if state \<in> {''RUNNING'', ''READY'', ''STARTED''} then (Inr (), b1)
                  else if state \<in> {''FAILED'', ''STOPPED'', ''ERROR'', ''TERMINATED''} then
                    (Inl (sandbox_error ''SANDBOX_START_FAILED'' (''sandbox entered state '' @ state) True), b1)
                  else wait_ready net (pause net b1) cluster sid deadline))
      else (Inl (sandbox_error ''SANDBOX_START_TIMEOUT'' ''sandbox did not become ready'' True), b))"
  by pat_completeness auto

lemma pause_later: "osb_time b \<le> osb_time b1 \<Longrightarrow> osb_time b < osb_time (pause net b1)"
  using pause_frame(1) [of b1 net] by linarith

termination wait_ready
  by (relation "measure (\<lambda>(net, b, cluster, sid, deadline). nat (deadline - osb_time b))")
    (auto intro: pause_later dest: osb_request_frame(1) [OF sym])

declare wait_ready.simps [simp del]

definition exn_name :: "exn \<Rightarrow> string" where
  "exn_name e = (case e of PyExn t _ \<Rightarrow> t | RunnerExn SandboxError _ _ _ \<Rightarrow> ''SandboxError'' | RunnerExn _ _ _ _ \<Rightarrow> ''RunnerError'')"

definition agent_timeout :: "exn option \<Rightarrow> exn" where
  "agent_timeout last_error = sandbox_error ''AGENT_START_TIMEOUT''
     (''trusted agent did not become healthy'' @
      (case last_error of None \<Rightarrow> [] | Some e \<Rightarrow> '': '' @ exn_name e @ '': '' @ exn_str e)) True"

function wait_healthy :: "'w net \<Rightarrow> 'w opensandbox \<Rightarrow> worker \<Rightarrow> int \<Rightarrow> exn option \<Rightarrow> worker result \<times> 'w opensandbox" where
  "wait_healthy net b w deadline last_error =
     (if osb_time b < deadline then
        (let (r, b1) = worker_call net b w ''/health'' None in
         case r of
           Inl e \<Rightarrow> wait_healthy net (pause net b1) w deadline (Some e)
         | Inr (JObj kvs) \<Rightarrow>
             if truthy_field kvs ''ok'' \<noteq> None then (Inr w, b1)
             else wait_healthy net (pause net b1) w deadline
               (Some (PyExn ''RuntimeError'' (''unexpected health response: '' @ net_repr net (JObj kvs))))
         | Inr _ \<Rightarrow> wait_healthy net (pause net b1) w deadline (Some attribute_error))
      else (Inl (agent_timeout last_error), b))"
  by pat_completeness auto

termination wait_healthy
  by (relation "measure (\<lambda>(net, b, w, deadline, last_error). nat (deadline - osb_time b))")
    (auto intro: pause_later dest!: worker_call_frame [OF sym])

declare wait_healthy.simps [simp del]

section \<open>Operations\<close>

definition create_payload :: "'w net \<Rightarrow> 'w opensandbox \<Rightarrow> string \<Rightarrow> string \<Rightarrow> operator_release \<Rightarrow> security_policy \<Rightarrow> int \<Rightarrow> json" where
  "create_payload net b token tenant rel pol ttl = JObj
     [(''image'', JObj [(''uri'', JStr (env_image (rel_runtime rel)))]),
      (''timeout'', JInt ttl),
      (''resourceLimits'', JObj [(''cpu'', JStr (cpu pol)), (''memory'', JStr (memory pol))]),
      (''env'', JObj
        [(''RUNNER_AGENT_TOKEN'', JStr token), (''RUNNER_AGENT_PORT'', JStr (int_text (osb_agent_port b))),
         (''RUNNER_RELEASES_ROOT'', JStr ''/opt/runner/releases''), (''RUNNER_DEPENDENCY_ROOT'', JStr ''/opt/python-deps'')]),
      (''entrypoint'', JArr (map JStr [''python'', ''-m'', ''runner_engine.worker.agent'', ''--listen'', ''0.0.0.0'', ''--port'',
         int_text (osb_agent_port b)])),
      (''metadata'', JObj
        [(''managed-by'', JStr MANAGED_BY), (''runner-owner'', JStr (label_hash net (osb_owner_id b))),
         (''tenant'', JStr (label_hash net tenant)), (''runtime'', JStr (take 32 (env_id (rel_runtime rel)))),
         (''profile'', JStr (label_hash net (rel_profile rel)))])]"

definition normalize_endpoint :: "string \<Rightarrow> string" where
  "normalize_endpoint e = (let s = strip e in if sublist ''://'' s then s else ''http://'' @ s)"

text \<open>Lines 178 to 204: the endpoint of the agent and the worker built from it.\<close>

definition endpoint_worker :: "'w net \<Rightarrow> 'w opensandbox \<Rightarrow> string \<Rightarrow> string \<Rightarrow> string \<Rightarrow> string \<Rightarrow> operator_release \<Rightarrow> int \<Rightarrow> json \<Rightarrow> worker result" where
  "endpoint_worker net b cluster sid token tenant rel ttl endpoint_data =
     (case endpoint_data of
        JObj kvs \<Rightarrow>
          (case first_truthy kvs [''endpoint'', ''url''] of
             None \<Rightarrow> Inl (sandbox_error ''SANDBOX_ENDPOINT_MISSING'' ''OpenSandbox endpoint response had no endpoint'' False)
           | Some e \<Rightarrow>
               result_bind (if truthy_field kvs ''headers'' = None then Inr [] else get_str_dict endpoint_data ''headers'') (\<lambda>headers.
               let now = of_int (osb_time b) / 1000000 in
               Inr \<lparr>w_id = sid, w_endpoint = normalize_endpoint (json_str net e), w_token = token, w_tenant_id = tenant,
                    w_runtime_id = env_id (rel_runtime rel), w_profile = rel_profile rel, w_backend_group = cluster,
                    created_monotonic = now, last_used_monotonic = now, installed_release_ids = {},
                    sandbox_expires_monotonic = Some (now + of_int ttl), w_runs = 0, healthy = True, destroyed = False,
                    endpoint_headers = headers\<rparr>))
      | _ \<Rightarrow> Inl attribute_error)"

text \<open>The body of the \<open>try\<close> statement of \<open>create\<close>, lines 166 to 227.\<close>

definition start_worker :: "'w net \<Rightarrow> 'w opensandbox \<Rightarrow> string \<Rightarrow> string \<Rightarrow> string \<Rightarrow> string \<Rightarrow> operator_release \<Rightarrow> int \<Rightarrow> worker result \<times> 'w opensandbox" where
  "start_worker net b cluster sid token tenant rel ttl =
     (case wait_ready net b cluster sid (osb_time b + 60000000) of
        (Inl e, b1) \<Rightarrow> (Inl e, b1)
      | (Inr _, b1) \<Rightarrow>
          (case osb_request net b1 cluster ''GET'' (sandbox_path sid @ ''/endpoints/'' @ int_text (osb_agent_port b)) None of
             (Inl e, b2) \<Rightarrow> (Inl e, b2)
           | (Inr data, b2) \<Rightarrow>
               (case endpoint_worker net b2 cluster sid token tenant rel ttl data of
                  Inl e \<Rightarrow> (Inl e, b2)
                | Inr w \<Rightarrow> wait_healthy net b2 w (osb_time b2 + 20000000) None)))"

definition osb_create :: "'w net \<Rightarrow> 'w opensandbox \<Rightarrow> string \<Rightarrow> operator_release \<Rightarrow> security_policy \<Rightarrow> int \<Rightarrow> worker result \<times> 'w opensandbox" where
  "osb_create net b0 tenant rel pol ttl =
     (let cluster = sandbox_cluster pol;
          token = osb_tokens b0 (osb_created b0);
          b = b0\<lparr>osb_created := osb_created b0 + 1\<rparr> in
      case osb_request net b cluster ''POST'' ''/v1/sandboxes'' (Some (create_payload net b token tenant rel pol ttl)) of
        (Inl e, b1) \<Rightarrow> (Inl e, b1)
      | (Inr created, b1) \<Rightarrow>
          (case sandbox_id net created of
             Inl e \<Rightarrow> (Inl e, b1)
           | Inr sid \<Rightarrow>
               (case start_worker net b1 cluster sid token tenant rel ttl of
                  (Inr w, b2) \<Rightarrow> (Inr w, b2)
                | (Inl e, b2) \<Rightarrow> (Inl e, snd (osb_request net b2 cluster ''DELETE'' (sandbox_path sid) None)))))"

definition osb_renew :: "'w net \<Rightarrow> 'w opensandbox \<Rightarrow> worker \<Rightarrow> int \<Rightarrow> worker result \<times> 'w opensandbox" where
  "osb_renew net b w ttl =
     (case osb_request net b (w_backend_group w) ''POST'' (sandbox_path (w_id w) @ ''/renew-expiration'')
             (Some (JObj [(''expiresAt'', JStr (net_expires_at net (osb_world b) ttl))])) of
        (Inl e, b1) \<Rightarrow> (Inl e, b1)
      | (Inr _, b1) \<Rightarrow> (Inr (w\<lparr>sandbox_expires_monotonic := Some (of_int (osb_time b1) / 1000000 + of_int ttl)\<rparr>), b1))"

definition osb_install :: "'w net \<Rightarrow> 'w opensandbox \<Rightarrow> worker \<Rightarrow> operator_release \<Rightarrow> unit result \<times> 'w opensandbox" where
  "osb_install net b w rel =
     (case osb_files b (artifact_path rel) of
        Inl e \<Rightarrow> (Inl e, b)
      | Inr artifact \<Rightarrow>
          let (r, b1) = worker_call net b w ''/bootstrap'' (Some (bootstrap_payload rel artifact)) in
          (map_sum id (\<lambda>_. ()) r, b1))"

definition osb_run :: "'w net \<Rightarrow> 'w opensandbox \<Rightarrow> worker \<Rightarrow> operator_release \<Rightarrow> run_request \<Rightarrow> int \<Rightarrow> run_result result \<times> 'w opensandbox" where
  "osb_run net b w rel req timeout_ms =
     (let (r, b1) = worker_call net b w ''/run'' (Some (run_payload rel req timeout_ms)) in
      (result_bind r (\<lambda>response. case response of JObj _ \<Rightarrow> result_of_response (w_id w) response | _ \<Rightarrow> Inl attribute_error), b1))"

text \<open>\<open>destroy\<close> takes an error whose text contains \<open>404\<close> for a sandbox that is already gone.\<close>

definition osb_destroy :: "'w net \<Rightarrow> 'w opensandbox \<Rightarrow> worker \<Rightarrow> unit result \<times> 'w opensandbox" where
  "osb_destroy net b w =
     (case osb_request net b (w_backend_group w) ''DELETE'' (sandbox_path (w_id w)) None of
        (Inr _, b1) \<Rightarrow> (Inr (), b1)
      | (Inl (RunnerExn SandboxError code msg retry), b1) \<Rightarrow>
          ((if sublist ''404'' msg then Inr () else Inl (RunnerExn SandboxError code msg retry)), b1)
      | (Inl e, b1) \<Rightarrow> (Inl e, b1))"

definition label_of :: "(string, json) dict \<Rightarrow> string \<Rightarrow> string option" where
  "label_of kvs k = (case map_of kvs k of Some (JStr s) \<Rightarrow> Some s | _ \<Rightarrow> None)"

text \<open>The labels of a listed sandbox, and whether they are those of this runner.\<close>

definition item_metadata :: "json \<Rightarrow> (string, json) dict result" where
  "item_metadata item =
     (case item of
        JObj kvs \<Rightarrow>
          (case first_truthy kvs [''metadata'', ''labels''] of
             None \<Rightarrow> Inr []
           | Some (JObj m) \<Rightarrow> Inr m
           | Some _ \<Rightarrow> Inl attribute_error)
      | _ \<Rightarrow> Inl attribute_error)"

definition owned_labels :: "'w net \<Rightarrow> 'w opensandbox \<Rightarrow> (string, json) dict \<Rightarrow> bool" where
  "owned_labels net b m \<longleftrightarrow>
     label_of m ''managed-by'' = Some MANAGED_BY \<and> label_of m ''runner-owner'' = Some (label_hash net (osb_owner_id b))"

fun delete_owned :: "'w net \<Rightarrow> 'w opensandbox \<Rightarrow> string \<Rightarrow> json list \<Rightarrow> nat \<Rightarrow> nat result \<times> 'w opensandbox" where
  "delete_owned net b cluster [] deleted = (Inr deleted, b)"
| "delete_owned net b cluster (item # items) deleted =
     (case item_metadata item of
        Inl e \<Rightarrow> (Inl e, b)
      | Inr m \<Rightarrow>
          if \<not> owned_labels net b m then delete_owned net b cluster items deleted
          else
            (case sandbox_id net item of
               Inl e \<Rightarrow> delete_owned net b cluster items deleted
             | Inr sid \<Rightarrow>
                 (case osb_request net b cluster ''DELETE'' (sandbox_path sid) None of
                    (Inl e, b1) \<Rightarrow> delete_owned net b1 cluster items deleted
                  | (Inr _, b1) \<Rightarrow> delete_owned net b1 cluster items (deleted + 1))))"

definition listed_items :: "json \<Rightarrow> json list result" where
  "listed_items response =
     (case response of
        JArr xs \<Rightarrow> Inr xs
      | JObj kvs \<Rightarrow>
          (case first_truthy kvs [''items'', ''sandboxes''] of
             None \<Rightarrow> Inr []
           | Some (JArr xs) \<Rightarrow> Inr xs
           | Some (JInt _) \<Rightarrow> Inl (type_error ''items'')
           | Some (JBool _) \<Rightarrow> Inl (type_error ''items'')
           | Some _ \<Rightarrow> Inl attribute_error)
      | _ \<Rightarrow> Inl attribute_error)"

fun cleanup_clusters :: "'w net \<Rightarrow> 'w opensandbox \<Rightarrow> string list \<Rightarrow> nat \<Rightarrow> nat result \<times> 'w opensandbox" where
  "cleanup_clusters net b [] deleted = (Inr deleted, b)"
| "cleanup_clusters net b (cluster # clusters) deleted =
     (case osb_request net b cluster ''GET'' ''/v1/sandboxes?page=1&pageSize=100'' None of
        (Inl e, b1) \<Rightarrow> cleanup_clusters net b1 clusters deleted
      | (Inr response, b1) \<Rightarrow>
          (case listed_items response of
             Inl e \<Rightarrow> (Inl e, b1)
           | Inr items \<Rightarrow>
               (case delete_owned net b1 cluster items deleted of
                  (Inl e, b2) \<Rightarrow> (Inl e, b2)
                | (Inr n, b2) \<Rightarrow> cleanup_clusters net b2 clusters n)))"

definition osb_cleanup :: "'w net \<Rightarrow> 'w opensandbox \<Rightarrow> nat result \<times> 'w opensandbox" where
  "osb_cleanup net b = cleanup_clusters net b (map fst (osb_clusters b)) 0"

definition opensandbox_backend :: "'w net \<Rightarrow> 'w opensandbox backend" where
  "opensandbox_backend net =
     \<lparr>be_create = osb_create net, be_renew = osb_renew net, be_install = osb_install net, be_run = osb_run net,
      be_destroy = osb_destroy net, be_cleanup = osb_cleanup net\<rparr>"

section \<open>The contract of the pool\<close>

lemma wait_healthy_worker: "wait_healthy net b w deadline le = (Inr w', b') \<Longrightarrow> w' = w"
proof (induction net b w deadline le rule: wait_healthy.induct)
  case (1 net b w deadline le)
  note run = "1.prems" [unfolded wait_healthy.simps [of net b w deadline le]]
  obtain r b1 where c: "worker_call net b w ''/health'' None = (r, b1)" by fastforce
  show ?case
  proof (cases "osb_time b < deadline")
    case True
    show ?thesis
    proof (cases r)
      case (Inl e)
      then show ?thesis using run c True "1.IH"(1) [OF True c [symmetric] refl Inl] by simp
    next
      case (Inr v)
      then show ?thesis using run c True "1.IH"(2-) [OF True c [symmetric] refl Inr]
        by (cases v) (auto split: if_splits)
    qed
  next
    case False
    then show ?thesis using run by simp
  qed
qed

lemma wait_healthy_sent: "wait_healthy net b w deadline le = (r, b') \<Longrightarrow> osb_sent b' = osb_sent b \<and> osb_config b' = osb_config b"
proof (induction net b w deadline le rule: wait_healthy.induct)
  case (1 net b w deadline le)
  note run = "1.prems" [unfolded wait_healthy.simps [of net b w deadline le]]
  obtain x b1 where c: "worker_call net b w ''/health'' None = (x, b1)" by fastforce
  then have s: "osb_sent b1 = osb_sent b" "osb_config b1 = osb_config b" using worker_call_frame by blast+
  show ?case
  proof (cases "osb_time b < deadline")
    case True
    show ?thesis
    proof (cases x)
      case (Inl e)
      then show ?thesis using run c True s "1.IH"(1) [OF True c [symmetric] refl Inl] by simp
    next
      case (Inr v)
      then show ?thesis using run c True s "1.IH"(2-) [OF True c [symmetric] refl Inr]
        by (cases v) (auto split: if_splits)
    qed
  next
    case False
    then show ?thesis using run by simp
  qed
qed

lemma endpoint_worker_fresh:
  "endpoint_worker net b cluster sid token tenant rel ttl data = Inr w \<Longrightarrow> fresh_worker tenant rel w \<and> w_id w = sid"
  by (auto simp: endpoint_worker_def fresh_worker_def result_bind_ok Let_def split: json.splits option.splits)

lemma start_worker_ok:
  "start_worker net b cluster sid token tenant rel ttl = (Inr w, b') \<Longrightarrow> fresh_worker tenant rel w \<and> w_id w = sid"
  using endpoint_worker_fresh wait_healthy_worker
  by (fastforce simp: start_worker_def split: prod.splits sum.splits)

lemma osb_create_fresh: "osb_create net b tenant rel pol ttl = (Inr w, b') \<Longrightarrow> fresh_worker tenant rel w"
  using start_worker_ok by (fastforce simp: osb_create_def Let_def split: prod.splits sum.splits)

interpretation open_sandbox: sandbox_backend "opensandbox_backend net" for net
proof
  show "fresh_worker tenant rel w" if "be_create (opensandbox_backend net) b tenant rel pol ttl = (Inr w, b')" for b tenant rel pol ttl w b'
    using that osb_create_fresh by (simp add: opensandbox_backend_def)
  show "\<exists>e. w' = w\<lparr>sandbox_expires_monotonic := e\<rparr>" if "be_renew (opensandbox_backend net) b w ttl = (Inr w', b')" for b w ttl w' b'
    using that by (auto simp: opensandbox_backend_def osb_renew_def split: prod.splits sum.splits)
qed

section \<open>Requests that creating a sandbox sends\<close>

lemma wait_ready_sent:
  assumes "wait_ready net b cluster sid deadline = (r, b')"
  shows "\<exists>l. osb_sent b' = osb_sent b @ l \<and> osb_config b' = osb_config b \<and>
    200000 * int (length l) \<le> (if osb_time b < deadline then deadline - osb_time b + 199999 else 0)"
  using assms
proof (induction net b cluster sid deadline rule: wait_ready.induct)
  case (1 net b cluster sid deadline)
  note run = "1.prems" [unfolded wait_ready.simps [of net b cluster sid deadline]]
  obtain x b1 where q: "osb_request net b cluster ''GET'' (sandbox_path sid) None = (x, b1)" by fastforce
  then obtain l1 where l1: "osb_sent b1 = osb_sent b @ l1" "length l1 \<le> 1" and t: "osb_time b \<le> osb_time b1"
    and cfg: "osb_config b1 = osb_config b"
    using osb_request_frame by metis
  show ?case
  proof (cases "osb_time b < deadline \<and> b' \<noteq> b1")
    case True
    then obtain status state where x: "x = Inr status" and st: "sandbox_state net status = Inr state"
      and more: "state \<notin> {''RUNNING'', ''READY'', ''STARTED''}" "state \<notin> {''FAILED'', ''STOPPED'', ''ERROR'', ''TERMINATED''}"
      and rest: "wait_ready net (pause net b1) cluster sid deadline = (r, b')"
      using run q by (auto split: sum.splits if_splits)
    obtain l2 where l2: "osb_sent b' = osb_sent (pause net b1) @ l2" "osb_config b' = osb_config (pause net b1)"
      "200000 * int (length l2) \<le> (if osb_time (pause net b1) < deadline then deadline - osb_time (pause net b1) + 199999 else 0)"
      using "1.IH" [OF _ q [symmetric] x st more rest] True by blast
    moreover have "osb_time b + 200000 \<le> osb_time (pause net b1)" using pause_frame(1) [of b1 net] t by linarith
    ultimately show ?thesis using l1 cfg True by (intro exI [of _ "l1 @ l2"]) (auto split: if_splits)
  next
    case False
    show ?thesis
    proof (cases "osb_time b < deadline")
      case True
      then show ?thesis using False l1 cfg by (intro exI [of _ l1]) auto
    next
      case False
      then show ?thesis using run by simp
    qed
  qed
qed

lemma start_worker_sent:
  assumes "start_worker net b cluster sid token tenant rel ttl = (r, b')"
  shows "\<exists>l. osb_sent b' = osb_sent b @ l \<and> length l \<le> 301" "osb_config b' = osb_config b"
proof -
  obtain x b1 where w: "wait_ready net b cluster sid (osb_time b + 60000000) = (x, b1)" by fastforce
  obtain l1 where l1: "osb_sent b1 = osb_sent b @ l1" "length l1 \<le> 300" "osb_config b1 = osb_config b"
    using wait_ready_sent [OF w] by auto
  obtain y b2 where q: "osb_request net b1 cluster ''GET'' (sandbox_path sid @ ''/endpoints/'' @ int_text (osb_agent_port b)) None = (y, b2)"
    by fastforce
  obtain l2 where l2: "osb_sent b2 = osb_sent b1 @ l2" "length l2 \<le> 1" "osb_config b2 = osb_config b1"
    using osb_request_frame(2,3) [OF q] by blast
  have cases: "osb_sent b' = osb_sent b1 \<and> osb_config b' = osb_config b1 \<or> osb_sent b' = osb_sent b2 \<and> osb_config b' = osb_config b2"
    using assms w q wait_healthy_sent by (fastforce simp: start_worker_def split: sum.splits)
  then show "osb_config b' = osb_config b" using l1 l2 by auto
  from cases show "\<exists>l. osb_sent b' = osb_sent b @ l \<and> length l \<le> 301"
  proof
    assume "osb_sent b' = osb_sent b1 \<and> osb_config b' = osb_config b1"
    then show ?thesis using l1 by (intro exI [of _ l1]) simp
  next
    assume "osb_sent b' = osb_sent b2 \<and> osb_config b' = osb_config b2"
    then show ?thesis using l1 l2 by (intro exI [of _ "l1 @ l2"]) simp
  qed
qed

lemma osb_request_sent:
  "map_of (osb_clusters b) cluster \<noteq> None \<Longrightarrow> osb_sent (snd (osb_request net b cluster meth path payload)) = osb_sent b @ [(cluster, meth, path)]"
  by (auto simp: osb_request_def osb_cluster_def Let_def spend_def split: prod.splits)


section \<open>Properties\<close>

text \<open>C18: Creating a sandbox always ends, after at most 303 control requests.  Once the control plane has
  answered with a sandbox id, either the worker that comes back has this id and belongs to the tenant,
  runtime and profile asked for, or the call fails and the last request sent deletes that sandbox.\<close>

theorem opensandbox_create_accounts:
  assumes run: "osb_create net b tenant rel pol ttl = (r, b')"
  shows "\<exists>l. osb_sent b' = osb_sent b @ l \<and> length l \<le> 303 \<and>
    (\<forall>created b1 sid. osb_request net (b\<lparr>osb_created := osb_created b + 1\<rparr>) (sandbox_cluster pol) ''POST'' ''/v1/sandboxes''
        (Some (create_payload net (b\<lparr>osb_created := osb_created b + 1\<rparr>) (osb_tokens b (osb_created b)) tenant rel pol ttl)) = (Inr created, b1) \<longrightarrow>
      sandbox_id net created = Inr sid \<longrightarrow>
      (case r of
         Inr w \<Rightarrow> w_id w = sid \<and> fresh_worker tenant rel w
       | Inl e \<Rightarrow> last l = (sandbox_cluster pol, ''DELETE'', sandbox_path sid)))"
proof -
  let ?c = "sandbox_cluster pol" and ?b = "b\<lparr>osb_created := osb_created b + 1\<rparr>" and ?tok = "osb_tokens b (osb_created b)"
  obtain x b1 where q: "osb_request net ?b ?c ''POST'' ''/v1/sandboxes'' (Some (create_payload net ?b ?tok tenant rel pol ttl)) = (x, b1)"
    by fastforce
  obtain l1 where l1: "osb_sent b1 = osb_sent b @ l1" "length l1 \<le> 1" using osb_request_frame(2) [OF q] by auto
  show ?thesis
  proof (cases "\<exists>created sid. x = Inr created \<and> sandbox_id net created = Inr sid")
    case False
    then have "b' = b1" using run q by (auto simp: osb_create_def Let_def split: sum.splits)
    then show ?thesis using l1 q False by (intro exI [of _ l1]) auto
  next
    case True
    then obtain created sid where x: "x = Inr created" and sid: "sandbox_id net created = Inr sid" by blast
    obtain y b2 where st: "start_worker net b1 ?c sid ?tok tenant rel ttl = (y, b2)" by fastforce
    obtain l2 where l2: "osb_sent b2 = osb_sent b1 @ l2" "length l2 \<le> 301" using start_worker_sent(1) [OF st] by blast
    have "map_of (osb_clusters ?b) ?c \<noteq> None" using q x by (auto simp: osb_request_def osb_cluster_def split: option.splits)
    moreover have "osb_clusters b2 = osb_clusters ?b"
      using start_worker_sent(2) [OF st] osb_request_frame(3) [OF q] by (simp add: osb_config_def)
    ultimately have del: "osb_sent (snd (osb_request net b2 ?c ''DELETE'' (sandbox_path sid) None)) =
        osb_sent b2 @ [(?c, ''DELETE'', sandbox_path sid)]"
      by (intro osb_request_sent) simp
    show ?thesis
    proof (cases y)
      case (Inl e)
      then have r: "r = Inl e" "b' = snd (osb_request net b2 ?c ''DELETE'' (sandbox_path sid) None)"
        using run q x sid st by (simp_all add: osb_create_def Let_def)
      then have "osb_sent b' = osb_sent b @ (l1 @ l2 @ [(?c, ''DELETE'', sandbox_path sid)])" using del l1 l2 by simp
      then show ?thesis using l1(2) l2(2) q x sid r(1)
        by (intro exI [of _ "l1 @ l2 @ [(?c, ''DELETE'', sandbox_path sid)]"]) auto
    next
      case (Inr w)
      then have r: "r = Inr w" "b' = b2" using run q x sid st by (simp_all add: osb_create_def Let_def)
      have "fresh_worker tenant rel w \<and> w_id w = sid" using start_worker_ok st Inr by blast
      then show ?thesis using l1 l2 q x sid r by (intro exI [of _ "l1 @ l2"]) auto
    qed
  qed
qed

definition failing_net :: "unit net" where
  "failing_net = \<lparr>net_send = (\<lambda>w url meth hs p. (HttpOk (JObj [(''id'', JStr ''s1''), (''status'', JStr ''failed'')]), 5, w)),
     net_sleep = (\<lambda>_. 0), net_expires_at = (\<lambda>_ _. ''2025-01-01T00:00:00Z''), net_repr = print_json, net_sha256 = (\<lambda>s. s)\<rparr>"

definition sample_osb :: "unit opensandbox" where
  "sample_osb = \<lparr>osb_clusters = [(''c'', \<lparr>cl_url = ''http://h/'', cl_api_key = []\<rparr>)], osb_owner_id = ''me'', osb_agent_port = 9080,
     osb_files = (\<lambda>_. Inr []), osb_tokens = (\<lambda>_. ''tok''), osb_created = 0, osb_world = (), osb_time = 0, osb_sent = []\<rparr>"

definition osb_policy :: security_policy where
  "osb_policy = \<lparr>pol_name = ''standard'', sandbox_cluster = ''c'', cpu = ''1'', memory = ''512Mi'', max_timeout_ms = 60000,
     network_allow = [], reuse_sandbox = True\<rparr>"

definition osb_release :: operator_release where
  "osb_release = \<lparr>rel_id = ''r1'', artifact_path = ''a'', artifact_sha256 = ''s'',
     rel_runtime = \<lparr>env_id = ''e'', env_image = ''i'', env_python = ''3.12''\<rparr>, entrypoint = ''m:f'',
     rel_profile = ''standard'', input_attributes = [], output_attributes = []\<rparr>"

lemma failing_request:
  "map_of (osb_clusters b) c = Some cfg \<Longrightarrow> osb_request failing_net b c meth p payload =
     (Inr (JObj [(''id'', JStr ''s1''), (''status'', JStr ''failed'')]), (spend 5 () b)\<lparr>osb_sent := osb_sent b @ [(c, meth, p)]\<rparr>)"
  by (simp add: osb_request_def osb_cluster_def failing_net_def Let_def)

theorem opensandbox_create_accounts_witness:
  "\<exists>l. osb_sent (snd (osb_create failing_net sample_osb ''t'' osb_release osb_policy 3600)) = l \<and> length l \<le> 303 \<and>
     last l = (''c'', ''DELETE'', sandbox_path ''s1'')"
proof -
  obtain r b' where run: "osb_create failing_net sample_osb ''t'' osb_release osb_policy 3600 = (r, b')" by fastforce
  have id: "sandbox_id failing_net (JObj [(''id'', JStr ''s1''), (''status'', JStr ''failed'')]) = Inr ''s1''"
    by (simp add: sandbox_id.simps truthy_field_def json_str_def)
  have state: "sandbox_state failing_net (JObj [(''id'', JStr ''s1''), (''status'', JStr ''failed'')]) = Inr ''FAILED''"
    by code_simp
  have "\<exists>e. r = Inl e" using run
    by (auto simp: osb_create_def Let_def failing_request sample_osb_def osb_policy_def id start_worker_def wait_ready.simps state spend_def
        split: prod.splits)
  then show ?thesis
    using opensandbox_create_accounts [OF run] run id
    by (auto simp: failing_request sample_osb_def osb_policy_def)
qed

section \<open>What cleaning up deletes\<close>

definition own_delete :: "'w net \<Rightarrow> (string, cluster_config) dict \<times> string \<Rightarrow> string \<Rightarrow> json list \<Rightarrow> string \<times> string \<times> string \<Rightarrow> bool" where
  "own_delete net cfg cluster items q \<longleftrightarrow> (\<exists>item m sid. item \<in> set items \<and> item_metadata item = Inr m \<and>
     label_of m ''managed-by'' = Some MANAGED_BY \<and> label_of m ''runner-owner'' = Some (label_hash net (snd cfg)) \<and>
     sandbox_id net item = Inr sid \<and> q = (cluster, ''DELETE'', sandbox_path sid))"

lemma own_delete_mono: "own_delete net cfg cluster items q \<Longrightarrow> set items \<subseteq> set items' \<Longrightarrow> own_delete net cfg cluster items' q"
  unfolding own_delete_def by blast

lemma delete_owned_step:
  assumes "delete_owned net b cluster (item # items) n = (r, b')"
  shows "b' = b \<or> (\<exists>k. delete_owned net b cluster items k = (r, b')) \<or>
    (\<exists>m sid x b1 k. item_metadata item = Inr m \<and> owned_labels net b m \<and> sandbox_id net item = Inr sid \<and>
       osb_request net b cluster ''DELETE'' (sandbox_path sid) None = (x, b1) \<and> delete_owned net b1 cluster items k = (r, b'))"
  using assms by (fastforce split: sum.splits if_splits prod.splits)

lemma osb_request_sends:
  assumes "osb_request net b cluster meth path payload = (x, b')"
  obtains l where "osb_sent b' = osb_sent b @ l" "set l \<subseteq> {(cluster, meth, path)}"
  using assms by (auto simp: osb_request_def spend_def Let_def split: sum.splits prod.splits)

lemma delete_owned_sent:
  assumes "delete_owned net b cluster items n = (r, b')"
  shows "osb_config b' = osb_config b \<and> (\<exists>l. osb_sent b' = osb_sent b @ l \<and> list_all (own_delete net (osb_config b) cluster items) l)"
  using assms
proof (induction items arbitrary: b n)
  case Nil
  then show ?case by simp
next
  case (Cons item items)
  have mono: "list_all (own_delete net cfg cluster items) l \<Longrightarrow> list_all (own_delete net cfg cluster (item # items)) l" for cfg l
    using own_delete_mono [of net cfg cluster items _ "item # items"] by (auto simp: list_all_iff)
  from delete_owned_step [OF Cons.prems] consider (same) "b' = b" | (skip) k where "delete_owned net b cluster items k = (r, b')"
    | (gone) m sid x b1 k where "item_metadata item = Inr m" "owned_labels net b m" "sandbox_id net item = Inr sid"
      "osb_request net b cluster ''DELETE'' (sandbox_path sid) None = (x, b1)" "delete_owned net b1 cluster items k = (r, b')"
    by blast
  then show ?case
  proof cases
    case same
    then show ?thesis by simp
  next
    case skip
    then show ?thesis using Cons.IH [OF skip] mono by blast
  next
    case gone
    obtain l1 where l1: "osb_sent b1 = osb_sent b @ l1" "set l1 \<subseteq> {(cluster, ''DELETE'', sandbox_path sid)}"
      using osb_request_sends [OF gone(4)] .
    have cfg: "osb_config b1 = osb_config b" using osb_request_frame(3) [OF gone(4)] .
    obtain l2 where l2: "osb_config b' = osb_config b1" "osb_sent b' = osb_sent b1 @ l2"
      "list_all (own_delete net (osb_config b1) cluster items) l2"
      using Cons.IH [OF gone(5)] by blast
    have "own_delete net (osb_config b) cluster (item # items) (cluster, ''DELETE'', sandbox_path sid)"
      using gone(1-3) unfolding own_delete_def owned_labels_def osb_config_def by auto
    then have "list_all (own_delete net (osb_config b) cluster (item # items)) (l1 @ l2)"
      using l1(2) mono [of "osb_config b" l2] l2(3) cfg by (auto simp: list_all_iff)
    then show ?thesis using l1 l2 cfg by (intro conjI exI [of _ "l1 @ l2"]) simp_all
  qed
qed

definition list_path :: string where
  "list_path = ''/v1/sandboxes?page=1&pageSize=100''"

text \<open>A list of sandboxes that the control plane answered with.\<close>

definition listed :: "'w net \<Rightarrow> (string, cluster_config) dict \<times> string \<Rightarrow> string \<Rightarrow> json list \<Rightarrow> bool" where
  "listed net cfg cluster items \<longleftrightarrow> (\<exists>b b' response. osb_config b = cfg \<and>
     osb_request net b cluster ''GET'' list_path None = (Inr response, b') \<and> listed_items response = Inr items)"

definition cleanup_request :: "'w net \<Rightarrow> (string, cluster_config) dict \<times> string \<Rightarrow> string \<times> string \<times> string \<Rightarrow> bool" where
  "cleanup_request net cfg q \<longleftrightarrow> (\<exists>cluster. q = (cluster, ''GET'', list_path)) \<or>
     (\<exists>cluster items. listed net cfg cluster items \<and> own_delete net cfg cluster items q)"

lemma cleanup_clusters_step:
  assumes "cleanup_clusters net b (cluster # clusters) n = (r, b')"
  obtains (rest) b1 k x where "osb_request net b cluster ''GET'' list_path None = (x, b1)" "b' = b1 \<or> cleanup_clusters net b1 clusters k = (r, b')"
  | (deleted) response b1 items r2 b2 k where "osb_request net b cluster ''GET'' list_path None = (Inr response, b1)"
      "listed_items response = Inr items" "delete_owned net b1 cluster items n = (r2, b2)"
      "b' = b2 \<or> cleanup_clusters net b2 clusters k = (r, b')"
proof -
  obtain x b1 where q: "osb_request net b cluster ''GET'' list_path None = (x, b1)" by fastforce
  note run = assms [unfolded cleanup_clusters.simps list_path_def [symmetric] q]
  show thesis
  proof (cases "\<exists>response items. x = Inr response \<and> listed_items response = Inr items")
    case True
    then obtain response items where x: "x = Inr response" "listed_items response = Inr items" by blast
    obtain r2 b2 where d: "delete_owned net b1 cluster items n = (r2, b2)" by fastforce
    then show thesis using deleted [OF q [unfolded x(1)] x(2) d] run x by (cases r2) auto
  next
    case False
    then show thesis using rest [OF q] run by (auto split: sum.splits)
  qed
qed

lemma cleanup_clusters_sent:
  assumes "cleanup_clusters net b clusters n = (r, b')"
  shows "\<exists>l. osb_sent b' = osb_sent b @ l \<and> list_all (cleanup_request net (osb_config b)) l"
  using assms
proof (induction clusters arbitrary: b n)
  case Nil
  then show ?case by simp
next
  case (Cons cluster clusters)
  from Cons.prems show ?case
  proof (cases rule: cleanup_clusters_step)
    case (rest b1 k x)
    obtain l1 where l1: "osb_sent b1 = osb_sent b @ l1" "set l1 \<subseteq> {(cluster, ''GET'', list_path)}" using osb_request_sends [OF rest(1)] .
    have cfg: "osb_config b1 = osb_config b" using osb_request_frame(3) [OF rest(1)] .
    have "\<exists>l. osb_sent b' = osb_sent b1 @ l \<and> list_all (cleanup_request net (osb_config b1)) l"
      using rest(2) Cons.IH by auto
    then obtain l2 where l2: "osb_sent b' = osb_sent b1 @ l2" "list_all (cleanup_request net (osb_config b1)) l2" by blast
    have "list_all (cleanup_request net (osb_config b)) (l1 @ l2)"
      using l1(2) l2(2) cfg by (auto simp: list_all_iff cleanup_request_def)
    then show ?thesis using l1 l2 by (intro exI [of _ "l1 @ l2"]) simp
  next
    case (deleted response b1 items r2 b2 k)
    obtain l1 where l1: "osb_sent b1 = osb_sent b @ l1" "set l1 \<subseteq> {(cluster, ''GET'', list_path)}" using osb_request_sends [OF deleted(1)] .
    have cfg: "osb_config b1 = osb_config b" using osb_request_frame(3) [OF deleted(1)] .
    have lst: "listed net (osb_config b) cluster items" unfolding listed_def using deleted(1,2) by blast
    obtain l2 where l2: "osb_config b2 = osb_config b1" "osb_sent b2 = osb_sent b1 @ l2"
      "list_all (own_delete net (osb_config b1) cluster items) l2"
      using delete_owned_sent [OF deleted(3)] by blast
    have "\<exists>l. osb_sent b' = osb_sent b2 @ l \<and> list_all (cleanup_request net (osb_config b2)) l"
      using deleted(4) Cons.IH by auto
    then obtain l3 where l3: "osb_sent b' = osb_sent b2 @ l3" "list_all (cleanup_request net (osb_config b2)) l3" by blast
    have "list_all (cleanup_request net (osb_config b)) (l1 @ l2 @ l3)"
      using l1(2) l2(1,3) l3(2) cfg lst by (auto simp: list_all_iff cleanup_request_def)
    then show ?thesis using l1 l2 l3 by (intro exI [of _ "l1 @ l2 @ l3"]) simp
  qed
qed

text \<open>C19: Cleaning up after a restart sends nothing but requests for the list of sandboxes and deletions of
  sandboxes on such a list that carry the labels of this runner and of this owner.\<close>

theorem opensandbox_cleanup_owned:
  assumes "osb_cleanup net b = (r, b')"
  shows "\<exists>l. osb_sent b' = osb_sent b @ l \<and> list_all (cleanup_request net (osb_config b)) l"
  using assms cleanup_clusters_sent by (auto simp: osb_cleanup_def)

theorem opensandbox_cleanup_owned_witness:
  "\<exists>l. osb_sent (snd (osb_cleanup failing_net sample_osb)) = l \<and> l \<noteq> [] \<and> list_all (cleanup_request failing_net (osb_config sample_osb)) l"
proof -
  obtain r b' where run: "osb_cleanup failing_net sample_osb = (r, b')" by fastforce
  moreover have "osb_sent b' \<noteq> []" using run
    by (auto simp: osb_cleanup_def sample_osb_def failing_request listed_items_def truthy_field_def spend_def)
  ultimately show ?thesis using opensandbox_cleanup_owned [OF run] by (simp add: sample_osb_def)
qed

text \<open>Destroying a sandbox whose identifier contains \<open>404\<close> reports success whatever goes wrong with the
  request: the error text quotes the path, and any \<open>404\<close> in it counts as a sandbox that is gone.\<close>

theorem opensandbox_destroy_masks:
  assumes "map_of (osb_clusters b) (w_backend_group w) = Some config" "sublist ''404'' (quote_url (w_id w))"
    and "net_send net (osb_world b) (rstrip_slash (cl_url config) @ sandbox_path (w_id w)) ''DELETE''
      ([(''Accept'', ''application/json'')] @ (if cl_api_key config = [] then [] else [(''OPEN-SANDBOX-API-KEY'', cl_api_key config)])) None =
      (reply, us, w')"
    and "(\<exists>code detail. reply = HttpError code detail) \<or> (\<exists>msg. reply = Unreachable msg)"
  shows "fst (osb_destroy net b w) = Inr ()"
proof -
  obtain u v where uv: "quote_url (w_id w) = u @ ''404'' @ v" using assms(2) by (auto simp: sublist_def)
  have "sublist ''404'' (''DELETE '' @ sandbox_path (w_id w) @ tail)" for tail
    unfolding sublist_def by (rule exI [of _ "''DELETE /v1/sandboxes/'' @ u"], rule exI [of _ "v @ tail"]) (simp add: sandbox_path_def uv)
  then show ?thesis using assms(1,3,4)
    by (auto simp: osb_destroy_def osb_request_def osb_cluster_def sandbox_error_def Let_def)
qed

definition broken_net :: "unit net" where
  "broken_net = failing_net\<lparr>net_send := (\<lambda>w url meth hs p. (HttpError 503 ''unavailable'', 5, w))\<rparr>"

definition worker_404 :: worker where
  "worker_404 = \<lparr>w_id = ''sb-404'', w_endpoint = ''http://a'', w_token = ''tok'', w_tenant_id = ''t'', w_runtime_id = ''e'',
     w_profile = ''standard'', w_backend_group = ''c'', created_monotonic = 0, last_used_monotonic = 0,
     installed_release_ids = {}, sandbox_expires_monotonic = None, w_runs = 0, healthy = True, destroyed = False,
     endpoint_headers = []\<rparr>"

theorem opensandbox_destroy_masks_witness:
  "fst (osb_destroy broken_net sample_osb worker_404) = Inr () \<and>
   fst (osb_destroy broken_net sample_osb (worker_404\<lparr>w_id := ''sb-405''\<rparr>)) =
     Inl (sandbox_error ''OPENSANDBOX_HTTP'' ''DELETE /v1/sandboxes/sb-405: HTTP 503: unavailable'' True)"
proof
  have "quote_url ''sb-404'' = ''sb-404''" by code_simp
  then have "sublist ''404'' (quote_url (w_id worker_404))" by (simp add: worker_404_def sublist_Cons_right)
  then show "fst (osb_destroy broken_net sample_osb worker_404) = Inr ()"
    using opensandbox_destroy_masks [of sample_osb worker_404 "\<lparr>cl_url = ''http://h/'', cl_api_key = []\<rparr>" broken_net
        "HttpError 503 ''unavailable''" 5 "()"]
    by (simp add: sample_osb_def worker_404_def broken_net_def)
  show "fst (osb_destroy broken_net sample_osb (worker_404\<lparr>w_id := ''sb-405''\<rparr>)) =
     Inl (sandbox_error ''OPENSANDBOX_HTTP'' ''DELETE /v1/sandboxes/sb-405: HTTP 503: unavailable'' True)"
    by code_simp
qed

end
