(* ===== verification/Service_Config.thy ===== *)
theory Service_Config
  imports Publish_Service Py_Int
begin

text \<open>
  How the build service and the publish service start: \<^verbatim>\<open>_service_from_env\<close> of \<^verbatim>\<open>build_service/app.py\<close> and of
  \<^verbatim>\<open>publish_service/app.py\<close>, and \<^verbatim>\<open>BuildStore._init_schema\<close>, which counts the packages of environments stored by earlier code.
\<close>

section \<open>Required settings\<close>

fun require_env :: "(string \<times> string) list \<Rightarrow> unit result" where
  "require_env [] = Inr ()"
| "require_env ((name, v) # rest) = (if v = [] then Inl (PyExn ''RuntimeError'' (name @ '' is required'')) else require_env rest)"

lemma require_env_ok: "require_env xs = Inr () \<longleftrightarrow> [] \<notin> snd ` set xs"
  by (induction xs rule: require_env.induct) auto

section \<open>The build service\<close>

definition as_bool :: "string \<Rightarrow> bool" where
  "as_bool v \<longleftrightarrow> lower (strip v) \<in> {''1'', ''true'', ''yes'', ''on''}"

definition build_settings_of_env :: "env_texts \<Rightarrow> build_settings result" where
  "build_settings_of_env env =
     (let base_image = env_or env ''BUILD_RUNNER_BASE_IMAGE'' []; registry_repo = env_or env ''BUILD_REGISTRY_REPO'' [] in
      map_sum id (\<lambda>_.
        \<lparr>set_base_image = base_image, set_registry_repo = registry_repo, set_python_version = env_or env ''BUILD_PYTHON_VERSION'' ''3.12'',
         set_platform = env_or env ''BUILD_PLATFORM'' ''linux/amd64'',
         set_uv_python_platform = env_or env ''BUILD_UV_PYTHON_PLATFORM'' ''x86_64-unknown-linux-gnu'',
         set_policy_version = env_or env ''BUILD_POLICY_VERSION'' ''1'', set_uv_default_index = env ''UV_DEFAULT_INDEX'',
         set_allow_superset_reuse = as_bool (env_or env ''BUILD_ALLOW_SUPERSET_REUSE'' ''true'')\<rparr>)
      (require_env [(''BUILD_DATABASE_URL'', env_or env ''BUILD_DATABASE_URL'' []), (''BUILD_RUNNER_BASE_IMAGE'', base_image),
         (''BUILD_REGISTRY_REPO'', registry_repo)]))"

text \<open>A row of \<open>runtime_environments\<close> whose package count may be null.\<close>

definition count_packages :: "int option \<times> env_row \<Rightarrow> env_row" where
  "count_packages x = (case fst x of None \<Rightarrow> (snd x)\<lparr>ev_package_count := int (length (ev_packages (snd x)))\<rparr> | Some n \<Rightarrow> (snd x)\<lparr>ev_package_count := n\<rparr>)"

record build_schema =
  bc_envs :: "(int option \<times> env_row) list"
  bc_aliases :: "alias_row list"
  bc_jobs :: "job_row list"

definition build_init_schema :: "build_schema option \<Rightarrow> build_db" where
  "build_init_schema sc =
     (case sc of
        None \<Rightarrow> empty_build_db
      | Some t \<Rightarrow> \<lparr>bd_envs = map count_packages (bc_envs t), bd_aliases = bc_aliases t, bd_jobs = bc_jobs t\<rparr>)"

definition build_service_of_env :: "env_texts \<Rightarrow> build_schema option \<Rightarrow> (nat \<Rightarrow> int) \<Rightarrow> (nat \<Rightarrow> string) \<Rightarrow> build_service result" where
  "build_service_of_env env sc now uuid =
     map_sum id (\<lambda>settings. \<lparr>sv_db = build_init_schema sc, sv_settings = settings, sv_now = now, sv_uuids = uuid, sv_draws = 0\<rparr>) (build_settings_of_env env)"

text \<open>After the migration every count is the number of packages, which the ordering of the superset query relies on, and a second start changes nothing.\<close>

lemma build_migration_counts:
  assumes "\<forall>(c, e)\<in>set (bc_envs t). c = None \<or> c = Some (int (length (ev_packages e)))"
  shows "\<forall>e\<in>set (bd_envs (build_init_schema (Some t))). ev_package_count e = int (length (ev_packages e))"
    "build_init_schema (Some t) = db \<Longrightarrow>
       build_init_schema (Some \<lparr>bc_envs = map (\<lambda>e. (Some (ev_package_count e), e)) (bd_envs db), bc_aliases = bd_aliases db, bc_jobs = bd_jobs db\<rparr>) = db"
  using assms by (auto simp: build_init_schema_def count_packages_def split: option.splits)

section \<open>The publish service\<close>

record publish_settings =
  st_workspace_root :: string
  st_catalog_root :: string
  st_source_root :: string
  st_native_artifact_root :: string
  st_database_url :: string
  st_build_service_url :: string
  st_default_profile :: string
  st_build_timeout_seconds :: int
  st_max_source_bytes :: int

definition below :: "string \<Rightarrow> string \<Rightarrow> string" where
  "below dir name = (if take 1 (rev dir) = ''/'' then dir @ name else dir @ ''/'' @ name)"

definition publish_settings_of_env :: "env_texts \<Rightarrow> publish_settings result" where
  "publish_settings_of_env env =
     (let catalog_root = env_or env ''PUBLISH_CATALOG_ROOT'' []; source_root = env_or env ''PUBLISH_SOURCE_ROOT'' [];
          native = env_or env ''PUBLISH_NATIVE_ARTIFACT_ROOT'' []; workspace = env_or env ''PUBLISH_WORKSPACE_ROOT'' [];
          url = env_or env ''PUBLISH_DATABASE_URL'' [] in
      result_bind (require_env [(''PUBLISH_WORKSPACE_ROOT'', workspace), (''PUBLISH_CATALOG_ROOT'', catalog_root), (''PUBLISH_DATABASE_URL'', url)]) (\<lambda>_.
      result_bind (env_int env ''PUBLISH_BUILD_TIMEOUT_SECONDS'' 1800) (\<lambda>timeout.
      result_bind (env_int env ''PUBLISH_MAX_SOURCE_BYTES'' (20 * 1024 * 1024)) (\<lambda>max_bytes.
      Inr \<lparr>st_workspace_root = workspace, st_catalog_root = catalog_root,
           st_source_root = (if source_root \<noteq> [] then source_root else below catalog_root ''_publish_sources''),
           st_native_artifact_root = (if native \<noteq> [] then native else below catalog_root ''_nifi_native_packages''), st_database_url = url,
           st_build_service_url = env_or env ''PUBLISH_BUILD_SERVICE_URL'' ''http://127.0.0.1:9088'',
           st_default_profile = env_or env ''PUBLISH_DEFAULT_PROFILE'' ''standard'', st_build_timeout_seconds = timeout, st_max_source_bytes = max_bytes\<rparr>))))"

text \<open>\<open>PublishService.__init__\<close> on the contents of its directories, which exist or are made, and of its database; the paths are absolute.\<close>

definition publish_service_init :: "publish_settings \<Rightarrow> source_tree \<Rightarrow> (string, source_tree) dict \<Rightarrow> publish_db \<Rightarrow> (string, release_dir) dict \<Rightarrow> native_store \<Rightarrow> publish_service" where
  "publish_service_init st workspaces revisions db releases packages =
     \<lparr>ps_workspace_root = resolve_from [] (path_parts (st_workspace_root st)), ps_workspaces = workspaces,
      ps_source_root = resolve_from [] (path_parts (st_source_root st)), ps_sources = \<lparr>ss_revisions = revisions, ss_max_source_bytes = st_max_source_bytes st\<rparr>,
      ps_db = db, ps_catalog = \<lparr>cat_root = st_catalog_root st, cat_dirs = releases\<rparr>,
      ps_native = (let r = path_parts (st_native_artifact_root st) in packages\<lparr>ns_root := r, ns_dirs := visited [] r @ ns_dirs packages\<rparr>), ps_default_profile = st_default_profile st\<rparr>"

end
