(* ===== verification/Agent_Process.thy ===== *)
theory Agent_Process
  imports Prelude
begin

text \<open>
  The functions of \<^verbatim>\<open>runner_engine/worker/agent.py\<close> that act on processes: what a child does before it runs, and the cleanup after an
  invocation.  Credentials and limits of a process are a record; the processes of the sandbox are a list.  What else happens in
  the sandbox (processes start, end, and are reaped) is the parameter \<open>env\<close>, which acts before every look at \<^verbatim>\<open>/proc\<close> and before
  every signal.  A process that was killed is marked and may stay in the list as a zombie.
\<close>

section \<open>Setting up the child\<close>

record credentials =
  c_uid :: int
  c_gid :: int
  c_groups :: "int list"
  c_no_new_privs :: bool
  c_nofile :: "int option"
  c_nproc :: "int option"

definition permission_error :: exn where
  "permission_error = PyExn ''PermissionError'' ''Operation not permitted''"

text \<open>\<open>os.setgroups\<close>, \<open>os.setgid\<close> and \<open>os.setuid\<close> of a process that has no saved identity.\<close>

definition os_setgroups :: "int list \<Rightarrow> credentials \<Rightarrow> credentials result" where
  "os_setgroups gs c = (if c_uid c = 0 then Inr (c\<lparr>c_groups := gs\<rparr>) else Inl permission_error)"

definition os_setgid :: "int \<Rightarrow> credentials \<Rightarrow> credentials result" where
  "os_setgid g c = (if c_uid c = 0 \<or> g = c_gid c then Inr (c\<lparr>c_gid := g\<rparr>) else Inl permission_error)"

definition os_setuid :: "int \<Rightarrow> credentials \<Rightarrow> credentials result" where
  "os_setuid u c = (if c_uid c = 0 \<or> u = c_uid c then Inr (c\<lparr>c_uid := u\<rparr>) else Inl permission_error)"

record host =
  h_linux :: bool
  h_prctl :: bool
  h_setrlimit :: bool

definition linux_prctl :: "host \<Rightarrow> (credentials \<Rightarrow> credentials) \<Rightarrow> credentials \<Rightarrow> credentials" where
  "linux_prctl h f c = (if h_linux h \<and> h_prctl h then f c else c)"

definition child_setup :: "host \<Rightarrow> int \<Rightarrow> int \<Rightarrow> int \<Rightarrow> credentials \<Rightarrow> credentials result" where
  "child_setup h uid gid max_processes c =
     (let c1 = linux_prctl h (\<lambda>x. x\<lparr>c_no_new_privs := True\<rparr>) c;
          c2 = (if h_setrlimit h then c1\<lparr>c_nofile := Some 256\<rparr> else c1);
          c3 = (if max_processes > 0 \<and> h_setrlimit h then c2\<lparr>c_nproc := Some max_processes\<rparr> else c2) in
      if c_uid c3 = 0 then result_bind (os_setgroups [] c3) (\<lambda>c4. result_bind (os_setgid gid c4) (os_setuid uid)) else Inr c3)"

section \<open>Cleaning up\<close>

record os_process =
  p_pid :: int
  p_uid :: int
  p_group :: int
  p_killed :: bool

record sandbox =
  sb_procs :: "os_process list"
  sb_tick :: nat

type_synonym environment = "nat \<Rightarrow> os_process list \<Rightarrow> os_process list"

definition pass :: "environment \<Rightarrow> sandbox \<Rightarrow> sandbox" where
  "pass env k = k\<lparr>sb_procs := env (sb_tick k) (sb_procs k), sb_tick := Suc (sb_tick k)\<rparr>"

definition send_kill :: "(os_process \<Rightarrow> bool) \<Rightarrow> sandbox \<Rightarrow> sandbox" where
  "send_kill p k = k\<lparr>sb_procs := update_where p (\<lambda>x. x\<lparr>p_killed := True\<rparr>) (sb_procs k)\<rparr>"

text \<open>The body of the inner loop for one entry of \<^verbatim>\<open>/proc\<close>: whether it killed the process.\<close>

definition kill_entry :: "environment \<Rightarrow> int \<Rightarrow> int \<Rightarrow> int \<Rightarrow> sandbox \<Rightarrow> bool \<times> sandbox" where
  "kill_entry env self uid pid k =
     (if pid = self then (False, k)
      else let k1 = pass env k in
        case fetchone (\<lambda>p. p_pid p = pid) (sb_procs k1) of
          None \<Rightarrow> (False, k1)
        | Some p \<Rightarrow>
            if p_uid p \<noteq> uid then (False, k1)
            else let k2 = pass env k1 in
              if fetchone (\<lambda>p. p_pid p = pid) (sb_procs k2) = None then (False, k2) else (True, send_kill (\<lambda>p. p_pid p = pid) k2))"

fun kill_entries :: "environment \<Rightarrow> int \<Rightarrow> int \<Rightarrow> int list \<Rightarrow> sandbox \<Rightarrow> bool \<times> sandbox" where
  "kill_entries env self uid [] k = (False, k)"
| "kill_entries env self uid (pid # pids) k =
     (let (found, k1) = kill_entry env self uid pid k; (found', k2) = kill_entries env self uid pids k1 in (found \<or> found', k2))"

fun kill_rounds :: "nat \<Rightarrow> environment \<Rightarrow> int \<Rightarrow> int \<Rightarrow> sandbox \<Rightarrow> sandbox" where
  "kill_rounds 0 env self uid k = k"
| "kill_rounds (Suc n) env self uid k =
     (let k0 = pass env k; (found, k1) = kill_entries env self uid (map p_pid (sb_procs k0)) k0 in
      if found then kill_rounds n env self uid k1 else k1)"

definition kill_user_processes :: "host \<Rightarrow> int \<Rightarrow> environment \<Rightarrow> int \<Rightarrow> int \<Rightarrow> sandbox \<Rightarrow> sandbox" where
  "kill_user_processes h euid env self uid k = (if \<not> h_linux h \<or> euid \<noteq> 0 \<or> uid = 0 then k else kill_rounds 3 env self uid k)"

text \<open>
  A child that has ended is not signalled; the child is the leader of the group it was started with.  The argument \<open>err\<close> is the exception of
  \<^verbatim>\<open>os.killpg\<close>, if it raises one.
\<close>

definition kill_group :: "exn option \<Rightarrow> int \<Rightarrow> bool \<Rightarrow> sandbox \<Rightarrow> sandbox" where
  "kill_group err pid ended k =
     (if ended then k
      else case err of
        None \<Rightarrow> send_kill (\<lambda>p. p_group p = pid) k
      | Some e \<Rightarrow> if e = PyExn ''ProcessLookupError'' (exn_str e) then k else send_kill (\<lambda>p. p_pid p = pid) k)"

section \<open>What the cleanup does\<close>

text \<open>
  An environment in which the user \<open>uid\<close> starts nothing new: its processes are among those that were there, killed processes stay
  killed, and an identifier is not given to another user while it is in use.
\<close>

definition no_new_process :: "environment \<Rightarrow> int \<Rightarrow> bool" where
  "no_new_process env uid \<longleftrightarrow> (\<forall>n ps. distinct (map p_pid ps) \<longrightarrow> distinct (map p_pid (env n ps)) \<and>
     (\<forall>p\<in>set (env n ps).
       (p_uid p = uid \<longrightarrow> (\<exists>q\<in>set ps. p_pid q = p_pid p \<and> p_uid q = uid \<and> (p_killed q \<longrightarrow> p_killed p))) \<and>
       (p_uid p \<noteq> uid \<longrightarrow> p_killed p \<longrightarrow> (\<exists>q\<in>set ps. p_pid q = p_pid p \<and> p_killed q)) \<and>
       (\<forall>q\<in>set ps. p_pid q = p_pid p \<longrightarrow> p_uid q = p_uid p)))"

text \<open>The processes of the user that are not killed, and those of other users that are, by their identifiers.\<close>

definition alive :: "int \<Rightarrow> sandbox \<Rightarrow> int set" where
  "alive uid k = p_pid ` {p \<in> set (sb_procs k). p_uid p = uid \<and> \<not> p_killed p}"

definition others_killed :: "int \<Rightarrow> sandbox \<Rightarrow> int set" where
  "others_killed uid k = p_pid ` {p \<in> set (sb_procs k). p_uid p \<noteq> uid \<and> p_killed p}"

definition unique_pids :: "sandbox \<Rightarrow> bool" where
  "unique_pids k \<longleftrightarrow> distinct (map p_pid (sb_procs k))"

lemma alive_iff: "i \<in> alive uid k \<longleftrightarrow> (\<exists>p\<in>set (sb_procs k). p_pid p = i \<and> p_uid p = uid \<and> \<not> p_killed p)"
  by (auto simp: alive_def image_iff)

lemma others_killed_iff: "i \<in> others_killed uid k \<longleftrightarrow> (\<exists>p\<in>set (sb_procs k). p_pid p = i \<and> p_uid p \<noteq> uid \<and> p_killed p)"
  by (auto simp: others_killed_def image_iff)

lemma unique_pidsD: "unique_pids k \<Longrightarrow> p \<in> set (sb_procs k) \<Longrightarrow> q \<in> set (sb_procs k) \<Longrightarrow> p_pid p = p_pid q \<Longrightarrow> p = q"
  by (auto simp: unique_pids_def distinct_map inj_on_def)

text \<open>Moving from one sandbox to another without a new live process of the user or a new killed process of another.\<close>

definition calmer :: "int \<Rightarrow> sandbox \<Rightarrow> sandbox \<Rightarrow> bool" where
  "calmer uid k k' \<longleftrightarrow> (unique_pids k \<longrightarrow> unique_pids k') \<and> alive uid k' \<subseteq> alive uid k \<and> others_killed uid k' \<subseteq> others_killed uid k"

lemma calmer_refl [simp]: "calmer uid k k"
  by (simp add: calmer_def)

lemma calmer_trans [trans]: "calmer uid k1 k2 \<Longrightarrow> calmer uid k2 k3 \<Longrightarrow> calmer uid k1 k3"
  by (auto simp: calmer_def)

lemma no_new_process_same: "no_new_process env uid \<Longrightarrow> distinct (map p_pid ps) \<Longrightarrow> s \<in> set (env n ps) \<Longrightarrow> q \<in> set ps \<Longrightarrow> p_pid q = p_pid s \<Longrightarrow> p_uid q = p_uid s"
  by (simp add: no_new_process_def)

lemma pass_calmer:
  assumes q: "no_new_process env uid" and u: "unique_pids k"
  shows "calmer uid k (pass env k)"
  unfolding calmer_def
proof (intro conjI impI subsetI)
  show "unique_pids (pass env k)" using q u by (simp add: no_new_process_def unique_pids_def pass_def)
  fix i
  show "i \<in> alive uid k" if "i \<in> alive uid (pass env k)"
  proof -
    from that obtain p where p: "p \<in> set (env (sb_tick k) (sb_procs k))" "p_uid p = uid" "\<not> p_killed p" "i = p_pid p" unfolding alive_iff pass_def by auto
    then obtain r where "r \<in> set (sb_procs k)" "p_pid r = p_pid p" "p_uid r = uid" "\<not> p_killed r" using q u unfolding no_new_process_def unique_pids_def by blast
    with p(4) show ?thesis unfolding alive_iff by blast
  qed
  show "i \<in> others_killed uid k" if "i \<in> others_killed uid (pass env k)"
  proof -
    from that obtain p where p: "p \<in> set (env (sb_tick k) (sb_procs k))" "p_uid p \<noteq> uid" "p_killed p" "i = p_pid p" unfolding others_killed_iff pass_def by auto
    then obtain r where "r \<in> set (sb_procs k)" "p_pid r = p_pid p" "p_killed r" "p_uid r = p_uid p" using q u unfolding no_new_process_def unique_pids_def by blast
    with p(2,4) show ?thesis unfolding others_killed_iff by metis
  qed
qed

lemma send_kill_calmer:
  assumes "\<And>p. p \<in> set (sb_procs k) \<Longrightarrow> x p \<Longrightarrow> p_uid p = uid"
  shows "calmer uid k (send_kill x k)"
  unfolding calmer_def
proof (intro conjI impI subsetI)
  show "unique_pids k \<Longrightarrow> unique_pids (send_kill x k)" by (simp add: send_kill_def unique_pids_def map_update_where_key)
  fix i
  show "i \<in> alive uid (send_kill x k) \<Longrightarrow> i \<in> alive uid k" unfolding alive_iff send_kill_def by (auto simp: set_update_where)
  show "i \<in> others_killed uid (send_kill x k) \<Longrightarrow> i \<in> others_killed uid k"
    unfolding others_killed_iff send_kill_def using assms by (auto simp: set_update_where)
qed

lemma send_kill_dead: "pid \<notin> alive uid (send_kill (\<lambda>p. p_pid p = pid) k)"
proof
  assume "pid \<in> alive uid (send_kill (\<lambda>p. p_pid p = pid) k)"
  then obtain p where p: "p \<in> set (sb_procs (send_kill (\<lambda>p. p_pid p = pid) k))" "p_pid p = pid" "\<not> p_killed p" unfolding alive_iff by blast
  from p(1) have "p \<in> (\<lambda>x. x\<lparr>p_killed := True\<rparr>) ` {r \<in> set (sb_procs k). p_pid r = pid} \<union> {r \<in> set (sb_procs k). p_pid r \<noteq> pid}"
    by (simp add: send_kill_def set_update_where)
  then show False using p(2,3) by (elim UnE imageE) simp_all
qed

lemma fetchone_pid: "fetchone (\<lambda>p. p_pid p = pid) ps = Some p \<Longrightarrow> p \<in> set ps \<and> p_pid p = pid"
  by (auto simp: fetchone_def find_Some_iff split: if_splits)

lemma no_pid_not_alive: "fetchone (\<lambda>p. p_pid p = pid) (sb_procs k) = None \<Longrightarrow> pid \<notin> alive uid k"
  unfolding alive_iff by (auto simp: fetchone_def find_None_iff)

lemma kill_entry_kills:
  assumes q: "no_new_process env uid" and u: "unique_pids k" and e: "kill_entry env self uid pid k = (found, k')"
  shows "calmer uid k k' \<and> (pid \<noteq> self \<longrightarrow> pid \<notin> alive uid k')"
proof (cases "pid = self")
  case True
  then show ?thesis using e by (simp add: kill_entry_def)
next
  case False
  let ?k1 = "pass env k" and ?k2 = "pass env (pass env k)"
  have c1: "calmer uid k ?k1" by (rule pass_calmer [OF q u])
  then have u1: "unique_pids ?k1" using u by (simp add: calmer_def)
  have c2: "calmer uid ?k1 ?k2" by (rule pass_calmer [OF q u1])
  show ?thesis
  proof (cases "fetchone (\<lambda>p. p_pid p = pid) (sb_procs ?k1)")
    case None
    then show ?thesis using e False c1 no_pid_not_alive [of pid ?k1 uid] by (simp add: kill_entry_def)
  next
    case (Some p)
    note p = fetchone_pid [OF Some]
    show ?thesis
    proof (cases "p_uid p = uid")
      case foreign: False
      then have "k' = ?k1" using e False Some by (simp add: kill_entry_def)
      moreover have "pid \<notin> alive uid ?k1" using p foreign unique_pidsD [OF u1] unfolding alive_iff by metis
      ultimately show ?thesis using c1 by simp
    next
      case own: True
      show ?thesis
      proof (cases "fetchone (\<lambda>p. p_pid p = pid) (sb_procs ?k2)")
        case None
        then show ?thesis using e False Some own calmer_trans [OF c1 c2] no_pid_not_alive [of pid ?k2 uid] by (simp add: kill_entry_def)
      next
        case some2: (Some r)
        have k': "k' = send_kill (\<lambda>p. p_pid p = pid) ?k2" using e False Some own some2 by (simp add: kill_entry_def)
        have "p_uid s = uid" if "s \<in> set (sb_procs ?k2)" "p_pid s = pid" for s
        proof -
          have "s \<in> set (env (sb_tick ?k1) (sb_procs ?k1))" using that(1) by (simp add: pass_def)
          then have "p_uid p = p_uid s" using no_new_process_same [OF q u1 [unfolded unique_pids_def] _ conjunct1 [OF p]] p that(2) by simp
          then show ?thesis using own by simp
        qed
        then have "calmer uid ?k2 k'" unfolding k' by (rule send_kill_calmer)
        moreover have "pid \<notin> alive uid k'" unfolding k' by (rule send_kill_dead)
        ultimately show ?thesis using calmer_trans [OF c1 calmer_trans [OF c2]] by blast
      qed
    qed
  qed
qed

lemma kill_entries_kills:
  assumes "no_new_process env uid" "unique_pids k" "kill_entries env self uid pids k = (found, k')"
  shows "calmer uid k k' \<and> alive uid k' \<inter> set pids \<subseteq> {self}"
  using assms(2,3)
proof (induction pids arbitrary: k found)
  case (Cons pid pids)
  obtain f1 k1 where e1: "kill_entry env self uid pid k = (f1, k1)" by fastforce
  obtain f2 where e2: "kill_entries env self uid pids k1 = (f2, k')" using Cons.prems(2) e1 by (auto split: prod.splits)
  have one: "calmer uid k k1" "pid \<noteq> self \<longrightarrow> pid \<notin> alive uid k1" using kill_entry_kills [OF assms(1) Cons.prems(1) e1] by auto
  then have "unique_pids k1" using Cons.prems(1) by (simp add: calmer_def)
  from Cons.IH [OF this e2] have rest: "calmer uid k1 k'" "alive uid k' \<inter> set pids \<subseteq> {self}" by auto
  then show ?case using one calmer_trans [OF one(1) rest(1)] by (auto simp: calmer_def)
qed simp

lemma kill_rounds_kills:
  assumes "no_new_process env uid" "unique_pids k"
  shows "calmer uid k (kill_rounds n env self uid k) \<and> (0 < n \<longrightarrow> alive uid (kill_rounds n env self uid k) \<subseteq> {self})"
  using assms(2)
proof (induction n arbitrary: k)
  case (Suc n)
  let ?k0 = "pass env k"
  have c0: "calmer uid k ?k0" by (rule pass_calmer [OF assms(1) Suc.prems])
  then have u0: "unique_pids ?k0" using Suc.prems by (simp add: calmer_def)
  obtain found k1 where e: "kill_entries env self uid (map p_pid (sb_procs ?k0)) ?k0 = (found, k1)" by fastforce
  note k1 = kill_entries_kills [OF assms(1) u0 e]
  have "alive uid ?k0 \<subseteq> set (map p_pid (sb_procs ?k0))" by (auto simp: alive_def)
  then have a1: "alive uid k1 \<subseteq> {self}" using k1 unfolding calmer_def by blast
  have c1: "calmer uid k k1" using calmer_trans [OF c0] k1 by blast
  then have "unique_pids k1" using Suc.prems by (simp add: calmer_def)
  from Suc.IH [OF this] have c2: "calmer uid k1 (kill_rounds n env self uid k1)" by blast
  then have "alive uid (kill_rounds n env self uid k1) \<subseteq> {self}" using a1 by (auto simp: calmer_def)
  then show ?case using e a1 c1 calmer_trans [OF c1 c2] by simp
qed simp


definition demo_processes :: sandbox where
  "demo_processes = \<lparr>sb_procs = [\<lparr>p_pid = 1, p_uid = 0, p_group = 1, p_killed = False\<rparr>, \<lparr>p_pid = 7, p_uid = 10001, p_group = 7, p_killed = False\<rparr>,
     \<lparr>p_pid = 8, p_uid = 10001, p_group = 8, p_killed = False\<rparr>], sb_tick = 0\<rparr>"


text \<open>The child gives up its rights for good.  From a root agent the setup ends with the user and group of the children, no supplementary
  group and no new privileges, and from there the process can become neither another user nor another group nor change its groups.  From
  an agent that is not root the identity stays the agent's.\<close>

theorem child_setup_drops_rights:
  assumes "child_setup h uid gid max_processes c = Inr c'" "c_uid c = 0" "uid \<noteq> 0" "h_linux h" "h_prctl h"
  shows "c_uid c' = uid \<and> c_gid c' = gid \<and> c_groups c' = [] \<and> c_no_new_privs c' \<and>
    (\<forall>u. u \<noteq> uid \<longrightarrow> os_setuid u c' = Inl permission_error) \<and> (\<forall>g. g \<noteq> gid \<longrightarrow> os_setgid g c' = Inl permission_error) \<and>
    (\<forall>gs. os_setgroups gs c' = Inl permission_error)"
  using assms by (auto simp: child_setup_def linux_prctl_def os_setgroups_def os_setgid_def os_setuid_def Let_def split: if_splits)

end
