(* ===== verification/Agent_Startup.thy ===== *)
theory Agent_Startup
  imports Worker_Agent Agent_Process Py_Int
begin

text \<open>
  \<^verbatim>\<open>main\<close> of \<^verbatim>\<open>runner_engine/worker/agent.py\<close> up to the server loop: from the command line and the environment to an agent that serves
  requests, with the user of its children.  The option \<open>--port\<close> of the command line is the text that \<open>int\<close> reads.
\<close>

record agent_setup =
  as_listen :: "string \<times> int"
  as_agent :: agent
  as_child_uid :: int
  as_child_gid :: int
  as_child_nproc :: int
  as_dumpable :: bool

definition mark_agent_nondumpable :: "host \<Rightarrow> bool \<Rightarrow> bool" where
  "mark_agent_nondumpable h dumpable = (if h_linux h \<and> h_prctl h then False else dumpable)"

definition agent_main :: "host \<Rightarrow> env_texts \<Rightarrow> env_texts \<Rightarrow> string \<Rightarrow> agent_setup result" where
  "agent_main h args env pid =
     result_bind (env_int env ''RUNNER_AGENT_PORT'' 9080) (\<lambda>default_port.
     result_bind (case args ''port'' of None \<Rightarrow> Inr default_port | Some t \<Rightarrow> (case py_int t of Inl _ \<Rightarrow> Inl (PyExn ''SystemExit'' ''invalid int value'') | Inr n \<Rightarrow> Inr n)) (\<lambda>port.
     let token = env_or env ''RUNNER_AGENT_TOKEN'' []; releases = argument args env ''releases'' ''RUNNER_RELEASES_ROOT'' ''/opt/runner/releases'';
         deps = env_or env ''RUNNER_DEPENDENCY_ROOT'' ''/opt/python-deps'' in
     if token = [] then Inl (PyExn ''SystemExit'' ''RUNNER_AGENT_TOKEN is required'')
     else
       result_bind (env_int env ''RUNNER_CHILD_UID'' 10001) (\<lambda>uid.
       result_bind (env_int env ''RUNNER_CHILD_GID'' 10001) (\<lambda>gid.
       result_bind (env_int env ''RUNNER_CHILD_NPROC'' 64) (\<lambda>nproc.
       Inr \<lparr>as_listen = (argument args env ''listen'' ''RUNNER_AGENT_LISTEN'' ''0.0.0.0'', port),
            as_agent = agent_init token (resolve_from [] (path_parts releases)) (if deps = [] then None else Some deps) pid,
            as_child_uid = uid, as_child_gid = gid, as_child_nproc = nproc, as_dumpable = mark_agent_nondumpable h True\<rparr>)))))"

text \<open>An agent that starts has a token, so a request without one has no effect; it starts without releases, and on Linux other processes cannot read its memory.\<close>

lemma agent_main_guarded:
  assumes "agent_main h args env pid = Inr a" "h_linux h" "h_prctl h"
  shows "agent_token (as_agent a) \<noteq> []" "fresh_agent (as_agent a)" "\<not> as_dumpable a"
    "agent_http aw (as_agent a) (POST [] path len body) \<in> {(Some unauthorized, as_agent a), (None, as_agent a)}"
  using assms by (auto simp: agent_main_def result_bind_ok Let_def agent_init_def fresh_agent_def mark_agent_nondumpable_def agent_http_def split: if_splits)

end
