(* ===== verification/Web_Gateway.thy ===== *)
theory Web_Gateway
  imports Complex_Main Json_Canonical Py_Int
begin

text \<open>
  The backend of the web wizard (\<^verbatim>\<open>web_demo/app/gateway.py\<close> and \<^verbatim>\<open>web_demo/app/main.py\<close>): a gateway that forwards a fixed
  set of calls to the publish service.  The network (\<^verbatim>\<open>httpx\<close>), the JSON reader of a request body and the reader of decimal
  floats are the parameters of \<open>web_world\<close>; a handler returns its reply and the requests it sent.
\<close>

section \<open>Settings\<close>

record web_settings =
  publish_url :: string
  http_timeout :: rat
  long_timeout :: rat
  bearer_token :: string

definition strip_slashes :: "string \<Rightarrow> string" where
  "strip_slashes s = rev (dropWhile (\<lambda>c. c = CHR ''/'') (rev s))"

definition from_environment :: "(string \<Rightarrow> rat result) \<Rightarrow> env_texts \<Rightarrow> web_settings result" where
  "from_environment py_float env =
     result_bind (py_float (env_or env ''MPR_HTTP_TIMEOUT_SECONDS'' ''60'')) (\<lambda>short.
     result_bind (py_float (env_or env ''MPR_LONG_TIMEOUT_SECONDS'' ''1900'')) (\<lambda>long.
       Inr \<lparr>publish_url = strip_slashes (env_or env ''MPR_PUBLISH_SERVICE_URL'' ''http://127.0.0.1:9090''),
            http_timeout = short, long_timeout = long, bearer_token = env_or env ''MPR_PUBLISH_BEARER_TOKEN'' []\<rparr>))"

section \<open>One URL segment\<close>

text \<open>\<^verbatim>\<open>urllib.parse.quote(value, safe="")\<close> on the UTF-8 bytes of the value.\<close>

definition always_safe :: "char \<Rightarrow> bool" where
  "always_safe c \<longleftrightarrow> CHR ''A'' \<le> c \<and> c \<le> CHR ''Z'' \<or> CHR ''a'' \<le> c \<and> c \<le> CHR ''z'' \<or> CHR ''0'' \<le> c \<and> c \<le> CHR ''9''
     \<or> c \<in> set ''_.-~''"

definition upper_hex :: string where
  "upper_hex = ''0123456789ABCDEF''"

definition url_byte :: "char \<Rightarrow> string" where
  "url_byte c = (if always_safe c then [c]
     else [CHR ''%'', upper_hex ! (of_char c div 16), upper_hex ! (of_char c mod 16)])"

definition url_quote :: "string \<Rightarrow> string" where
  "url_quote s = concat (map url_byte s)"

definition segment_reserved :: string where
  "segment_reserved = ''/'' @ [CHR 0x5C] @ ''%?#'' @ [CHR 0x0D, CHR 0x0A, CHR 0x00]"

definition segment :: "string \<Rightarrow> string \<Rightarrow> string result" where
  "segment v label =
     (if v = [] \<or> 256 < length (utf8_chars v) \<or> v \<in> {''.'', ''..''} \<or> (\<exists>c\<in>set segment_reserved. c \<in> set v)
      then Inl (PyExn ''ValueError'' (''Invalid '' @ label)) else Inr (url_quote v))"

section \<open>The gateway\<close>

record upstream_request =
  up_method :: string
  up_url :: string
  up_headers :: "(string, string) dict"
  up_json :: "json option"
  up_timeout :: rat
  up_connect :: rat
  up_follow_redirects :: bool
  up_trust_env :: bool

record upstream_response =
  rsp_status :: nat
  rsp_content :: string
  rsp_content_type :: "string option"

datatype exchange = Remote upstream_response | Timeout_exception string | Request_error string | Other_failure exn

record web_world =
  exchange_of :: "upstream_request \<Rightarrow> exchange"
  read_json :: "string \<Rightarrow> json option"

definition starts_with :: "string \<Rightarrow> string \<Rightarrow> bool" where
  "starts_with p s \<longleftrightarrow> take (length p) s = p"

definition gateway_request :: "web_settings \<Rightarrow> string \<Rightarrow> string \<Rightarrow> json option \<Rightarrow> bool \<Rightarrow> upstream_request result" where
  "gateway_request cfg meth path body long_running =
     (if \<not> starts_with ''/'' path \<or> starts_with ''//'' path then Inl (PyExn ''ValueError'' ''Invalid upstream route'')
      else Inr \<lparr>up_method = meth, up_url = publish_url cfg @ path,
                up_headers = (''Accept'', ''application/json'')
                  # (if bearer_token cfg = [] then [] else [(''Authorization'', ''Bearer '' @ bearer_token cfg)]),
                up_json = body, up_timeout = (if long_running then long_timeout cfg else http_timeout cfg), up_connect = 10,
                up_follow_redirects = False, up_trust_env = False\<rparr>)"

section \<open>The endpoints\<close>

datatype web_reply = Relayed nat string "string option" | Http_exception nat string | Internal_error exn

type_synonym web_outcome = "web_reply \<times> upstream_request list"

definition get_json_object :: "web_world \<Rightarrow> string \<Rightarrow> web_reply + json" where
  "get_json_object w raw =
     (case read_json w raw of None \<Rightarrow> Inl (Http_exception 400 ''Malformed JSON'')
      | Some (JObj members) \<Rightarrow> Inr (JObj members)
      | Some _ \<Rightarrow> Inl (Http_exception 422 ''Expected a JSON object''))"

definition path_id :: "string \<Rightarrow> string \<Rightarrow> web_reply + string" where
  "path_id v label = (case segment v label of Inl e \<Rightarrow> Inl (Http_exception 400 (exn_str e)) | Inr part \<Rightarrow> Inr part)"

definition relay :: "exchange \<Rightarrow> web_reply" where
  "relay x = (case x of
       Timeout_exception msg \<Rightarrow> Http_exception 504 (''Publish Service timeout: '' @ msg)
     | Request_error msg \<Rightarrow> Http_exception 502 (''Publish Service unreachable: '' @ msg)
     | Other_failure e \<Rightarrow> Internal_error e
     | Remote r \<Rightarrow> Relayed (rsp_status r) (rsp_content r)
         (case rsp_content_type r of None \<Rightarrow> None | Some t \<Rightarrow> if t = [] then None else Some t))"

definition forward :: "web_world \<Rightarrow> web_settings \<Rightarrow> string \<Rightarrow> string \<Rightarrow> json option \<Rightarrow> bool \<Rightarrow> web_outcome" where
  "forward w cfg meth path body long_running =
     (case gateway_request cfg meth path body long_running of
        Inl e \<Rightarrow> (Internal_error e, [])
      | Inr r \<Rightarrow> (relay (exchange_of w r), [r]))"

text \<open>An argument that raises is the reply, and nothing has been sent.\<close>

definition evaluated :: "web_reply + 'a \<Rightarrow> ('a \<Rightarrow> web_outcome) \<Rightarrow> web_outcome" where
  "evaluated x f = (case x of Inl reply \<Rightarrow> (reply, []) | Inr v \<Rightarrow> f v)"

definition web_health :: "web_world \<Rightarrow> web_settings \<Rightarrow> web_outcome" where
  "web_health w cfg = forward w cfg ''GET'' ''/health'' None False"

definition web_openapi :: "web_world \<Rightarrow> web_settings \<Rightarrow> web_outcome" where
  "web_openapi w cfg = forward w cfg ''GET'' ''/openapi.json'' None False"

definition web_analyze :: "web_world \<Rightarrow> web_settings \<Rightarrow> string \<Rightarrow> web_outcome" where
  "web_analyze w cfg raw = evaluated (get_json_object w raw) (\<lambda>body. forward w cfg ''POST'' ''/v1/authoring/analyze'' (Some body) False)"

definition web_create_operator :: "web_world \<Rightarrow> web_settings \<Rightarrow> string \<Rightarrow> web_outcome" where
  "web_create_operator w cfg raw = evaluated (get_json_object w raw) (\<lambda>body. forward w cfg ''POST'' ''/v1/operators'' (Some body) True)"

definition web_get_operator :: "web_world \<Rightarrow> web_settings \<Rightarrow> string \<Rightarrow> web_outcome" where
  "web_get_operator w cfg operator_id =
     evaluated (path_id operator_id ''operator_id'') (\<lambda>op. forward w cfg ''GET'' (''/v1/operators/'' @ op) None False)"

definition web_compile_backend :: "web_world \<Rightarrow> web_settings \<Rightarrow> string \<Rightarrow> string \<Rightarrow> string \<Rightarrow> web_outcome" where
  "web_compile_backend w cfg operator_id backend raw =
     evaluated (path_id operator_id ''operator_id'') (\<lambda>op.
     evaluated (path_id backend ''backend'') (\<lambda>b.
     evaluated (get_json_object w raw) (\<lambda>body.
       forward w cfg ''POST'' (''/v1/operators/'' @ op @ ''/backends/'' @ b @ ''/compile'') (Some body) True)))"

definition web_publish_backend :: "web_world \<Rightarrow> web_settings \<Rightarrow> string \<Rightarrow> string \<Rightarrow> string \<Rightarrow> web_outcome" where
  "web_publish_backend w cfg operator_id backend raw =
     evaluated (path_id operator_id ''operator_id'') (\<lambda>op.
     evaluated (path_id backend ''backend'') (\<lambda>b.
     evaluated (get_json_object w raw) (\<lambda>body.
       forward w cfg ''POST'' (''/v1/operators/'' @ op @ ''/backends/'' @ b @ ''/publish'') (Some body) True)))"

datatype web_call = Health | Openapi | Analyze string | Create_operator string | Get_operator string
  | Compile_backend string string string | Publish_backend string string string

fun web_app :: "web_world \<Rightarrow> web_settings \<Rightarrow> web_call \<Rightarrow> web_outcome" where
  "web_app w cfg Health = web_health w cfg"
| "web_app w cfg Openapi = web_openapi w cfg"
| "web_app w cfg (Analyze raw) = web_analyze w cfg raw"
| "web_app w cfg (Create_operator raw) = web_create_operator w cfg raw"
| "web_app w cfg (Get_operator i) = web_get_operator w cfg i"
| "web_app w cfg (Compile_backend i b raw) = web_compile_backend w cfg i b raw"
| "web_app w cfg (Publish_backend i b raw) = web_publish_backend w cfg i b raw"

section \<open>Quoting and unquoting\<close>

text \<open>\<open>unquote\<close> is the decoding a server applies to the path of a request before it splits the path into segments.\<close>

definition hex_value :: "char \<Rightarrow> nat option" where
  "hex_value c = (let i = length (takeWhile (\<lambda>d. d \<noteq> c) upper_hex) in if i < 16 then Some i else None)"

fun unquote :: "string \<Rightarrow> string" where
  "unquote [] = []"
| "unquote (c # s) =
     (if c = CHR ''%'' then
        (case s of a # b # r \<Rightarrow>
           (case (hex_value a, hex_value b) of (Some i, Some j) \<Rightarrow> char_of (16 * i + j) # unquote r | _ \<Rightarrow> c # unquote s)
         | _ \<Rightarrow> c # unquote s)
      else c # unquote s)"

lemma hex_value_upper_hex [simp]: "n < 16 \<Longrightarrow> hex_value (upper_hex ! n) = Some n"
  by (simp add: numeral_eq_Suc less_Suc_eq, elim disjE) (simp_all add: hex_value_def upper_hex_def Let_def)

lemma char_div_mod: "(of_char c :: nat) div 16 < 16" "(of_char c :: nat) mod 16 < 16"
  using nat_of_char_less_256 [of c] by (simp_all add: less_mult_imp_div_less del: nat_of_char_less_256)

lemma safe_not_reserved: "always_safe c \<Longrightarrow> c \<notin> set segment_reserved"
  by (auto simp: always_safe_def segment_reserved_def less_eq_char_def)

lemma unquote_url_byte [simp]: "unquote (url_byte c @ s) = c # unquote s"
  using safe_not_reserved [of c] char_div_mod [of c] by (auto simp: url_byte_def segment_reserved_def)

lemma unquote_url_quote [simp]: "unquote (url_quote v @ s) = v @ unquote s"
  by (induction v) (simp_all add: url_quote_def)

lemma unquote_plain: "CHR ''%'' \<notin> set s \<Longrightarrow> unquote (s @ t) = s @ unquote t"
  by (induction s) auto

lemma upper_hex_safe: "n < 16 \<Longrightarrow> always_safe (upper_hex ! n)"
  by (simp add: numeral_eq_Suc less_Suc_eq, elim disjE) (simp_all add: always_safe_def upper_hex_def less_eq_char_def)

lemma url_quote_chars: "c \<in> set (url_quote v) \<Longrightarrow> c = CHR ''%'' \<or> always_safe c"
  using char_div_mod by (auto simp: url_quote_def url_byte_def upper_hex_safe split: if_splits)

section \<open>What the publish service sees\<close>

text \<open>
  A client writes a path as a sequence of encoded segments; a server decodes the path and splits it.  The contract of an
  encoding and its decoding gives that the server sees the client's segments.
\<close>

locale path_codec =
  fixes enc dec :: "string \<Rightarrow> string"
  assumes dec_enc: "dec (enc v @ s) = v @ dec s"
    and dec_slash: "dec (CHR ''/'' # s) = CHR ''/'' # dec s"
    and dec_Nil: "dec [] = []"
begin

definition path_of :: "string list \<Rightarrow> string" where
  "path_of ps = concat (map (\<lambda>p. CHR ''/'' # enc p) ps)"

lemma dec_path: "dec (path_of ps) = concat (map (\<lambda>p. CHR ''/'' # p) ps)"
  by (induction ps) (simp_all add: path_of_def dec_enc dec_slash dec_Nil)

lemma split_concat: "ps \<noteq> [] \<Longrightarrow> CHR ''/'' \<notin> \<Union> (set ` set ps) \<Longrightarrow> split_on CHR ''/'' (w @ concat (map (\<lambda>p. CHR ''/'' # p) ps)) = w # ps"
  if "CHR ''/'' \<notin> set w" for w
  using that
proof (induction ps arbitrary: w)
  case (Cons p ps)
  show ?case
  proof (cases "ps = []")
    case True
    then show ?thesis using Cons.prems by (simp add: split_on_append split_on_plain)
  next
    case False
    then show ?thesis using Cons.prems Cons.IH [of p] by (simp add: split_on_append)
  qed
qed simp

lemma server_segments: "ps \<noteq> [] \<Longrightarrow> CHR ''/'' \<notin> \<Union> (set ` set ps) \<Longrightarrow> split_on CHR ''/'' (dec (path_of ps)) = [] # ps"
  using split_concat [of "[]" ps] by (simp add: dec_path)

end

interpretation url: path_codec url_quote unquote
  by unfold_locales (simp_all add: unquote_plain)

definition good_id :: "string \<Rightarrow> bool" where
  "good_id v \<longleftrightarrow> v \<noteq> [] \<and> length (utf8_chars v) \<le> 256 \<and> v \<noteq> ''.'' \<and> v \<noteq> ''..'' \<and> set v \<inter> set segment_reserved = {}"

lemma path_id_eq: "path_id v label = (if good_id v then Inr (url_quote v) else Inl (Http_exception 400 (''Invalid '' @ label)))"
  by (auto simp: path_id_def segment_def good_id_def)

fun route :: "web_call \<Rightarrow> string list" where
  "route Health = [''health'']"
| "route Openapi = [''openapi.json'']"
| "route (Analyze _) = [''v1'', ''authoring'', ''analyze'']"
| "route (Create_operator _) = [''v1'', ''operators'']"
| "route (Get_operator i) = [''v1'', ''operators'', i]"
| "route (Compile_backend i b _) = [''v1'', ''operators'', i, ''backends'', b, ''compile'']"
| "route (Publish_backend i b _) = [''v1'', ''operators'', i, ''backends'', b, ''publish'']"

fun call_body :: "web_call \<Rightarrow> string option" where
  "call_body (Analyze raw) = Some raw"
| "call_body (Create_operator raw) = Some raw"
| "call_body (Compile_backend _ _ raw) = Some raw"
| "call_body (Publish_backend _ _ raw) = Some raw"
| "call_body _ = None"

fun call_ids :: "web_call \<Rightarrow> string list" where
  "call_ids (Get_operator i) = [i]"
| "call_ids (Compile_backend i b _) = [i, b]"
| "call_ids (Publish_backend i b _) = [i, b]"
| "call_ids _ = []"

definition is_object :: "json option \<Rightarrow> bool" where
  "is_object j = (case j of Some (JObj _) \<Rightarrow> True | _ \<Rightarrow> False)"

definition admissible :: "web_world \<Rightarrow> web_call \<Rightarrow> bool" where
  "admissible w call \<longleftrightarrow> list_all good_id (call_ids call)
     \<and> (case call_body call of None \<Rightarrow> True | Some raw \<Rightarrow> is_object (read_json w raw))"

definition call_method :: "web_call \<Rightarrow> string" where
  "call_method call = (if call_body call = None then ''GET'' else ''POST'')"

lemma url_quote_literals [simp]:
  "url_quote ''health'' = ''health''" "url_quote ''openapi.json'' = ''openapi.json''" "url_quote ''v1'' = ''v1''"
  "url_quote ''authoring'' = ''authoring''" "url_quote ''analyze'' = ''analyze''" "url_quote ''operators'' = ''operators''"
  "url_quote ''backends'' = ''backends''" "url_quote ''compile'' = ''compile''" "url_quote ''publish'' = ''publish''"
  by (simp_all add: url_quote_def url_byte_def always_safe_def less_eq_char_def)

lemma get_json_object_eq:
  "get_json_object w raw = (if is_object (read_json w raw) then Inr (the (read_json w raw))
     else Inl (if read_json w raw = None then Http_exception 400 ''Malformed JSON'' else Http_exception 422 ''Expected a JSON object''))"
  by (auto simp: get_json_object_def is_object_def split: option.splits json.splits)

lemma evaluated_simps [simp]: "evaluated (Inl reply) f = (reply, [])" "evaluated (Inr v) f = f v"
  by (simp_all add: evaluated_def)

lemma forward_admitted:
  assumes "path = CHR ''/'' # c # rest" "c \<noteq> CHR ''/''"
  shows "\<exists>r. forward w cfg meth path body long = (relay (exchange_of w r), [r]) \<and> up_method r = meth \<and> up_json r = body
    \<and> up_url r = publish_url cfg @ path \<and> \<not> up_follow_redirects r \<and> \<not> up_trust_env r"
  using assms by (simp add: forward_def gateway_request_def starts_with_def)

lemma path_sent:
  assumes "admissible w call"
  shows "\<exists>r. web_app w cfg call = (relay (exchange_of w r), [r]) \<and> up_method r = call_method call
    \<and> up_json r = Option.bind (call_body call) (read_json w) \<and> up_url r = publish_url cfg @ url.path_of (route call)
    \<and> \<not> up_follow_redirects r \<and> \<not> up_trust_env r"
proof -
  let ?path = "url.path_of (route call)"
  have slash: "\<exists>c rest. ?path = CHR ''/'' # c # rest \<and> c \<noteq> CHR ''/''"
    by (cases call) (simp_all add: url.path_of_def)
  have sent: "\<exists>long. web_app w cfg call = forward w cfg (call_method call) ?path (Option.bind (call_body call) (read_json w)) long"
    using assms
    by (cases call)
      (auto simp: admissible_def call_method_def url.path_of_def path_id_eq get_json_object_eq is_object_def web_health_def web_openapi_def
        web_analyze_def web_create_operator_def web_get_operator_def web_compile_backend_def web_publish_backend_def split: option.splits)
  then show ?thesis using slash forward_admitted by metis
qed

lemma refused_unsent:
  assumes "\<not> admissible w call"
  shows "\<exists>status msg. web_app w cfg call = (Http_exception status msg, []) \<and> status \<in> {400, 422}"
  using assms
  by (cases call)
    (auto simp: admissible_def path_id_eq get_json_object_eq web_analyze_def web_create_operator_def web_get_operator_def
      web_compile_backend_def web_publish_backend_def)

lemma good_id_plain: "good_id v \<Longrightarrow> CHR ''/'' \<notin> set v \<and> v \<notin> {[], ''.'', ''..''}"
  by (auto simp: good_id_def segment_reserved_def)

lemma route_plain:
  assumes "admissible w call"
  shows "route call \<noteq> []" "CHR ''/'' \<notin> \<Union> (set ` set (route call))" "set (route call) \<inter> {[], ''.'', ''..''} = {}"
  using assms good_id_plain by (cases call; auto simp: admissible_def)+

lemma path_chars: "set (url.path_of ps) \<inter> set (''?#'' @ [CHR 0x5C, CHR 0x0D, CHR 0x0A, CHR 0x00]) = {}"
proof -
  have "c \<in> {CHR ''/'', CHR ''%''} \<or> always_safe c" if "c \<in> set (url.path_of ps)" for c
    using that url_quote_chars by (auto simp: url.path_of_def split: if_splits)
  then show ?thesis using safe_not_reserved by (auto simp: segment_reserved_def)
qed

text \<open>C15: The wizard's backend reaches the publish service only through its own routes, and an identifier is one segment of a path.
  A call whose identifiers are well formed and whose body is a JSON object sends exactly one request: its method and body are
  those of the call, its URL is the configured base followed by a path without query, fragment, backslash or line break, and the
  server that decodes that path and splits it at the slashes finds exactly the segments of the call's route, the identifiers
  unchanged and none of them empty or a dot segment; redirects are not followed, and the reply is what came back.  Every
  other call sends nothing and is answered with 400 or 422.
\<close>

theorem web_calls_stay_on_routes:
  "if admissible w call
   then (\<exists>r path. web_app w cfg call = (relay (exchange_of w r), [r])
     \<and> up_method r = call_method call \<and> up_json r = Option.bind (call_body call) (read_json w)
     \<and> up_url r = publish_url cfg @ path \<and> set path \<inter> set (''?#'' @ [CHR 0x5C, CHR 0x0D, CHR 0x0A, CHR 0x00]) = {}
     \<and> split_on CHR ''/'' (unquote path) = [] # route call \<and> set (route call) \<inter> {[], ''.'', ''..''} = {}
     \<and> \<not> up_follow_redirects r \<and> \<not> up_trust_env r)
   else (\<exists>status msg. web_app w cfg call = (Http_exception status msg, []) \<and> status \<in> {400, 422})"
proof (cases "admissible w call")
  case True
  then show ?thesis
    using path_sent [of w call cfg] path_chars url.server_segments [OF route_plain(1,2)] route_plain(3) by (simp only: if_True) metis
next
  case False
  then show ?thesis using refused_unsent [of w call cfg] by simp
qed

text \<open>A call that is admitted, and what the gateway sends for it.\<close>

lemma web_calls_example:
  "web_app \<lparr>exchange_of = (\<lambda>_. Remote \<lparr>rsp_status = 404, rsp_content = ''none'', rsp_content_type = None\<rparr>), read_json = (\<lambda>_. None)\<rparr>
     \<lparr>publish_url = ''http://p'', http_timeout = 60, long_timeout = 1900, bearer_token = []\<rparr> (Get_operator ''a b'')
   = (Relayed 404 ''none'' None,
      [\<lparr>up_method = ''GET'', up_url = ''http://p/v1/operators/a%20b'', up_headers = [(''Accept'', ''application/json'')], up_json = None,
        up_timeout = 60, up_connect = 10, up_follow_redirects = False, up_trust_env = False\<rparr>])"
  by (simp add: web_get_operator_def path_id_eq good_id_def segment_reserved_def continuation_def url_quote_def url_byte_def upper_hex_def
      always_safe_def less_eq_char_def forward_def gateway_request_def starts_with_def relay_def)

end
