(* ===== verification/Publish_Api.thy ===== *)
theory Publish_Api
  imports Publish_Service
begin

text \<open>
  The HTTP interface of the publish service: the request models of \<^verbatim>\<open>publish_service/model.py\<close> and the routes of
  \<^verbatim>\<open>publish_service/app.py\<close>.  A field is given by its camel case alias or by its name.  Unknown fields are ignored; a flag may also be
  one of the numbers and words that \<^verbatim>\<open>pydantic\<close> takes for it; a body that is refused is answered with 422 (the text of a refusal is
  abridged).  A path that no route has is answered with 404; the redirect of a path with a trailing slash is not modelled.
\<close>

section \<open>Fields by alias or name\<close>

definition to_camel :: "string \<Rightarrow> string" where
  "to_camel v = (case split_on CHR ''_'' v of [] \<Rightarrow> [] | h # t \<Rightarrow> h @ concat (map capitalized t))"

definition api_field :: "json \<Rightarrow> string \<Rightarrow> (json \<Rightarrow> 'a result) \<Rightarrow> 'a result \<Rightarrow> 'a result" where
  "api_field raw k read absent = get_field raw (to_camel k) read (get_field raw k read absent)"

definition api_bool :: "json \<Rightarrow> bool result" where
  "api_bool j =
     (let refused = Inl (invalid ''Input should be a valid boolean'') in
      case j of
        JBool b \<Rightarrow> Inr b
      | JInt i \<Rightarrow> if i = 1 then Inr True else if i = 0 then Inr False else refused
      | JStr s \<Rightarrow>
          if lower s \<in> {''1'', ''on'', ''t'', ''true'', ''y'', ''yes''} then Inr True
          else if lower s \<in> {''0'', ''off'', ''f'', ''false'', ''n'', ''no''} then Inr False else refused
      | _ \<Rightarrow> refused)"

definition api_path_item :: "json \<Rightarrow> path_item result" where
  "api_path_item j = (case j of JBool b \<Rightarrow> Inr (Index (if b then 1 else 0)) | _ \<Rightarrow> path_item_of_json j)"

definition api_path :: "json \<Rightarrow> path_item list result" where
  "api_path j = (case j of JArr js \<Rightarrow> list_of_json api_path_item js | _ \<Rightarrow> Inl (invalid ''Input should be a valid list''))"

section \<open>Request models\<close>

definition analyze_request_of_json :: "json \<Rightarrow> (string \<times> string option) result" where
  "analyze_request_of_json = model_of_json (\<lambda>raw.
     result_bind (api_field raw ''workspace'' str_of_json missing_field) (\<lambda>workspace.
     map_sum id (Pair workspace) (api_field raw ''python_root'' (opt_of_json str_of_json) (Inr None))))"

definition binding_selection_of_json :: "json \<Rightarrow> binding_selection result" where
  "binding_selection_of_json = model_of_json (\<lambda>raw.
     result_bind (api_field raw ''source'' (enum_of_json source_text [INPUT_PAYLOAD, INPUT_METADATA, OPERATOR_PARAMETER, CONSTANT]) missing_field) (\<lambda>source.
     result_bind (api_field raw ''codec'' codec_of_json (Inr TEXT)) (\<lambda>codec.
     result_bind (api_field raw ''metadata_key'' (opt_of_json str_of_json) (Inr None)) (\<lambda>metadata_key.
     result_bind (api_field raw ''parameter_key'' (opt_of_json str_of_json) (Inr None)) (\<lambda>parameter_key.
     result_bind (api_field raw ''parameter_display_name'' (opt_of_json str_of_json) (Inr None)) (\<lambda>display_name.
     result_bind (api_field raw ''parameter_description'' str_of_json (Inr [])) (\<lambda>description.
     result_bind (api_field raw ''parameter_required'' api_bool (Inr False)) (\<lambda>req.
     result_bind (api_field raw ''parameter_has_default'' api_bool (Inr False)) (\<lambda>has_default.
     result_bind (api_field raw ''parameter_default'' Inr (Inr JNull)) (\<lambda>dflt.
     result_bind (api_field raw ''constant'' Inr (Inr JNull)) (\<lambda>constant.
     make_binding_selection \<lparr>bs_source = source, bs_codec = codec, bs_metadata_key = metadata_key, bs_parameter_key = parameter_key,
       bs_parameter_display_name = display_name, bs_parameter_description = description, bs_parameter_required = req,
       bs_parameter_has_default = has_default, bs_parameter_default = dflt, bs_constant = constant\<rparr>)))))))))))"

definition output_value_selection_of_json :: "json \<Rightarrow> output_value result" where
  "output_value_selection_of_json = model_of_json (\<lambda>raw.
     result_bind (api_field raw ''source'' (enum_of_json output_source_text [RETURN, RETURN_PATH, OUTPUT_CONSTANT]) (Inr RETURN)) (\<lambda>source.
     result_bind (api_field raw ''path'' api_path (Inr [])) (\<lambda>path.
     result_bind (api_field raw ''codec'' codec_of_json (Inr BYTES)) (\<lambda>codec.
     result_bind (api_field raw ''value'' Inr (Inr JNull)) (\<lambda>v.
     Inr \<lparr>ov_source = source, ov_path = path, ov_codec = codec, ov_value = v\<rparr>)))))"

definition output_selection_of_json :: "json \<Rightarrow> output_spec result" where
  "output_selection_of_json = model_of_json (\<lambda>raw.
     result_bind (api_field raw ''payload'' output_value_selection_of_json (Inr default_output_value)) (\<lambda>payload.
     result_bind (api_field raw ''metadata'' (dict_of_json output_value_selection_of_json) (Inr [])) (\<lambda>metadata.
     result_bind (api_field raw ''none_policy'' (enum_of_json none_policy_text [KEEP_ORIGINAL, EMPTY]) (Inr KEEP_ORIGINAL)) (\<lambda>policy.
     Inr \<lparr>out_payload = payload, out_metadata = metadata, out_none_policy = policy\<rparr>))))"

definition operator_selection_of_json :: "json \<Rightarrow> operator_metadata result" where
  "operator_selection_of_json = model_of_json (\<lambda>raw.
     result_bind (api_field raw ''name'' str_of_json missing_field) (\<lambda>name.
     result_bind (api_field raw ''display_name'' str_of_json missing_field) (\<lambda>display_name.
     result_bind (api_field raw ''description'' str_of_json (Inr [])) (\<lambda>description.
     Inr \<lparr>om_name = name, om_display_name = display_name, om_description = description\<rparr>))))"

definition contract_request_of_json :: "json \<Rightarrow> contract_request result" where
  "contract_request_of_json = model_of_json (\<lambda>raw.
     result_bind (api_field raw ''workspace'' str_of_json missing_field) (\<lambda>workspace.
     result_bind (api_field raw ''source_revision'' str_of_json missing_field) (\<lambda>revision.
     result_bind (api_field raw ''python_root'' str_of_json missing_field) (\<lambda>python_root.
     result_bind (api_field raw ''operator'' operator_selection_of_json missing_field) (\<lambda>operator.
     result_bind (api_field raw ''callable_id'' str_of_json missing_field) (\<lambda>callable.
     result_bind (api_field raw ''constructor_bindings'' (dict_of_json binding_selection_of_json) (Inr [])) (\<lambda>constructor.
     result_bind (api_field raw ''argument_bindings'' (dict_of_json binding_selection_of_json) (Inr [])) (\<lambda>arguments.
     result_bind (api_field raw ''output'' output_selection_of_json (Inr default_output)) (\<lambda>out.
     Inr \<lparr>cr_workspace = workspace, cr_source_revision = revision, cr_python_root = python_root, cr_operator = operator, cr_callable_id = callable,
          cr_constructor_bindings = constructor, cr_argument_bindings = arguments, cr_output = out\<rparr>)))))))))"

definition backend_request_of_json :: "json \<Rightarrow> json result" where
  "backend_request_of_json = model_of_json (\<lambda>raw. api_field raw ''options'' (\<lambda>j. map_sum id JObj (dict_of_json Inr j)) (Inr (JObj [])))"

section \<open>Routes\<close>

definition publish_health :: json where
  "publish_health = JObj [(''ok'', JBool True), (''version'', JStr ''3.3.0''), (''api'', JStr ''virtual-contract-v1''),
     (''backends'', JArr [JStr ''runner'', JStr ''nifi_native'']), (''compiledPlanArtifact'', JBool False)]"

definition with_body :: "(json \<Rightarrow> 'a result) \<Rightarrow> json option \<Rightarrow> publish_service \<Rightarrow> ('a \<Rightarrow> http_answer \<times> publish_service) \<Rightarrow> http_answer \<times> publish_service" where
  "with_body read body s handler =
     (case (case body of None \<Rightarrow> missing_field | Some j \<Rightarrow> read j) of
        Inl e \<Rightarrow> (HttpFailure 422 (exn_str e), s)
      | Inr x \<Rightarrow> handler x)"

record publish_host =
  ph_world :: service_world
  ph_uuid :: "nat \<Rightarrow> string"
  ph_now :: "nat \<Rightarrow> int"
  ph_openapi :: json

definition publish_analyze :: "publish_host \<Rightarrow> publish_service \<Rightarrow> json option \<Rightarrow> http_answer \<times> publish_service" where
  "publish_analyze h s body = with_body analyze_request_of_json body s (\<lambda>(workspace, python_root). (http_analyze (ph_world h) s workspace python_root, s))"

definition publish_create :: "publish_host \<Rightarrow> publish_service \<Rightarrow> json option \<Rightarrow> http_answer \<times> publish_service" where
  "publish_create h s body = with_body contract_request_of_json body s (http_create_operator (ph_world h) (ph_uuid h) (ph_now h) s)"

definition publish_compile :: "publish_host \<Rightarrow> publish_service \<Rightarrow> string \<Rightarrow> string \<Rightarrow> json option \<Rightarrow> http_answer \<times> publish_service" where
  "publish_compile h s i b body = with_body backend_request_of_json body s (http_compile_backend (ph_world h) (ph_uuid h) (ph_now h) s i b)"

definition publish_publish :: "publish_host \<Rightarrow> publish_service \<Rightarrow> string \<Rightarrow> string \<Rightarrow> json option \<Rightarrow> http_answer \<times> publish_service" where
  "publish_publish h s i b body = with_body backend_request_of_json body s (http_publish_backend (ph_world h) (ph_uuid h) (ph_now h) s i b)"

text \<open>The methods and handlers of the routes; a path of a route with another method is answered with 405.\<close>

definition route_table :: "publish_host \<Rightarrow> publish_service \<Rightarrow> json option \<Rightarrow> string list \<Rightarrow> (string \<times> (http_answer \<times> publish_service)) option" where
  "route_table h s body segments =
     (if segments = [''health''] then Some (''GET'', Ok publish_health, s)
      else if segments = [''openapi.json''] then Some (''GET'', Ok (ph_openapi h), s)
      else case segments of
        [v, x] \<Rightarrow> if v = ''v1'' \<and> x = ''operators'' then Some (''POST'', publish_create h s body) else None
      | [v, x, y] \<Rightarrow>
          if v = ''v1'' \<and> x = ''authoring'' \<and> y = ''analyze'' then Some (''POST'', publish_analyze h s body)
          else if v = ''v1'' \<and> x = ''operators'' \<and> y \<noteq> [] then Some (''GET'', http_get_operator (ph_world h) s y, s)
          else None
      | [v, x, i, y, b, z] \<Rightarrow>
          if v = ''v1'' \<and> x = ''operators'' \<and> y = ''backends'' \<and> i \<noteq> [] \<and> b \<noteq> [] then
            if z = ''compile'' then Some (''POST'', publish_compile h s i b body)
            else if z = ''publish'' then Some (''POST'', publish_publish h s i b body)
            else None
          else None
      | _ \<Rightarrow> None)"

definition publish_app :: "publish_host \<Rightarrow> publish_service \<Rightarrow> string \<Rightarrow> string list \<Rightarrow> json option \<Rightarrow> http_answer \<times> publish_service" where
  "publish_app h s meth segments body =
     (case route_table h s body segments of
        None \<Rightarrow> (HttpFailure 404 ''Not Found'', s)
      | Some (m, outcome) \<Rightarrow> if m = meth then outcome else (HttpFailure 405 ''Method Not Allowed'', s))"

text \<open>A selection as the wizard sends it, by alias, and the request that the service reads.\<close>

lemma contract_request_example:
  "contract_request_of_json (JObj [(''workspace'', JStr ''w''), (''sourceRevision'', JStr ''r''), (''python_root'', JStr ''.''),
      (''operator'', JObj [(''name'', JStr ''n''), (''displayName'', JStr ''N'')]), (''callableId'', JStr ''m:f''),
      (''argumentBindings'', JObj [(''x'', JObj [(''source'', JStr ''operator.parameter''), (''parameterKey'', JStr ''k''), (''parameterRequired'', JStr ''Yes'')])])])
   = Inr \<lparr>cr_workspace = ''w'', cr_source_revision = ''r'', cr_python_root = ''.'',
       cr_operator = \<lparr>om_name = ''n'', om_display_name = ''N'', om_description = []\<rparr>, cr_callable_id = ''m:f'', cr_constructor_bindings = [],
       cr_argument_bindings = [(''x'', \<lparr>bs_source = OPERATOR_PARAMETER, bs_codec = TEXT, bs_metadata_key = None, bs_parameter_key = Some ''k'',
         bs_parameter_display_name = None, bs_parameter_description = [], bs_parameter_required = True, bs_parameter_has_default = False,
         bs_parameter_default = JNull, bs_constant = JNull\<rparr>)], cr_output = default_output\<rparr>"
  by code_simp

end
