(* ===== verification/Spec2Isabelle.thy ===== *)
theory Spec2Isabelle
  imports Operator_Adapter Suggested_Contract Runner_Startup Local_Backend OpenSandbox_Backend Epoch_Millis Service_Config Agent_Startup Web_Gateway Publish_Api
begin

text \<open>
  Verification of the managed Python runner engine: the program under \<^verbatim>\<open>src/\<close>, modelled as functions and step relations
  of HOL, with the theorems that make its parts correct.

  \<^bold>\<open>The program.\<close>  A user writes a Python function.  The web wizard (\<^verbatim>\<open>web_demo\<close>) talks to the publish service
  (\<^verbatim>\<open>publish_service\<close>), which scans the user's workspace (\<^verbatim>\<open>operator_authoring\<close>), saves a contract that binds the
  function's parameters to the payload, to attributes, to operator parameters or to constants, and compiles it into a plan.  A plan
  becomes either a release of the runner or a native NiFi package; both contain a generated program around the plan.  For the
  runtime image it asks the build service (\<^verbatim>\<open>build_service\<close>), which resolves requirements to an environment that was built and
  verified before, or builds it.  NiFi calls the runner (\<^verbatim>\<open>runner_engine\<close>) by gRPC: leases, invocations with
  idempotency keys, cancellation.  The runner keeps its state in PostgreSQL, takes a sandbox from its warm pool under a quota, and
  sends the invocation to the agent in the sandbox, which installs the release and runs it in a child process.

  \<^bold>\<open>The theories\<close>, in the order of the calls.

  \<^item> Shared: \<open>Prelude\<close> (exceptions as values, dictionaries, tables of rows, reachability; the collections
    \<open>table_simps\<close>, \<open>dict_simps\<close>, \<open>op_simps\<close>; the locale \<open>invariant_machine\<close> for invariants of step relations),
    \<open>Json_Canonical\<close> and \<open>Json_Access\<close> (JSON values and their canonical text, which is injective up to the order of keys),
    \<open>Base64\<close>, \<open>Py_Text\<close> (characters, lines, paths), \<open>Py_Int\<close> (\<^verbatim>\<open>int\<close> and the environment), \<open>Epoch_Millis\<close> (the
    conversion of a timestamp through a double).
  \<^item> Runner: \<open>Runner_Model\<close> (\<^verbatim>\<open>model.py\<close>), \<open>Runner_State\<close> and \<open>State_Migration\<close> (\<^verbatim>\<open>state.py\<close>), \<open>Quota\<close>
    (\<^verbatim>\<open>quota.py\<close>, the locale \<open>live_ledger\<close>), \<open>Sandbox_Backend\<close> (\<^verbatim>\<open>sandbox/backend.py\<close>, the locale of the same name),
    \<open>Worker_Pool\<close> (\<^verbatim>\<open>pool.py\<close>), \<open>Catalog_Store\<close> (\<^verbatim>\<open>catalog.py\<close>), \<open>Runner_Service\<close> (\<^verbatim>\<open>service.py\<close>),
    \<open>Runner_Gateway\<close> (\<^verbatim>\<open>gateway.py\<close>), \<open>Runner_Startup\<close> (\<^verbatim>\<open>policy.py\<close>, \<^verbatim>\<open>app.py\<close>).
  \<^item> Worker: \<open>Release_Materializer\<close> (\<^verbatim>\<open>worker/materialize.py\<close>), \<open>Worker_Child\<close> (\<^verbatim>\<open>worker/child.py\<close>),
    \<open>Worker_Agent\<close>, \<open>Agent_Process\<close> and \<open>Agent_Startup\<close> (\<^verbatim>\<open>worker/agent.py\<close>, \<^verbatim>\<open>worker/http_api.py\<close>),
    \<open>Local_Backend\<close> and \<open>OpenSandbox_Backend\<close> (\<^verbatim>\<open>sandbox/local.py\<close>, \<^verbatim>\<open>sandbox/opensandbox.py\<close>), which both interpret
    \<open>sandbox_backend\<close>.
  \<^item> Publishing a project: \<open>Source_Tree\<close>, \<open>Release_Publisher\<close> (\<^verbatim>\<open>publisher.py\<close>), \<open>Source_Snapshot\<close>
    (\<^verbatim>\<open>snapshot.py\<close>, \<^verbatim>\<open>source_store.py\<close>).
  \<^item> Authoring: \<open>Authoring_Contract\<close> (\<^verbatim>\<open>operator_authoring/model.py\<close>, \<^verbatim>\<open>publish_service/model.py\<close>, \<^verbatim>\<open>selection.py\<close>),
    \<open>Contract_Compiler\<close> (\<^verbatim>\<open>compiler.py\<close>), \<open>Contract_Reader\<close> and \<open>Contract_Stability\<close> (a stored contract read back, the locale
    \<open>json_codec\<close>), \<open>Operator_Adapter\<close> (the two generated programs), \<open>Ast_Scanner\<close>, \<open>Parameter_Inference\<close>,
    \<open>Suggested_Contract\<close>, \<open>Backend_Contracts\<close> and \<open>Native_Package\<close> (\<^verbatim>\<open>publish_service/backends\<close>).
  \<^item> Services: \<open>Build_Spec\<close>, \<open>Build_Store\<close>, \<open>Build_Machine\<close> and \<open>Build_Service\<close> (\<^verbatim>\<open>build_service\<close>),
    \<open>Publish_Store\<close>, \<open>Publish_Service\<close> and \<open>Publish_Api\<close> (\<^verbatim>\<open>publish_service\<close>), \<open>Service_Config\<close> (how both start), \<open>Web_Gateway\<close>
    (\<^verbatim>\<open>web_demo/app\<close>, the locale \<open>path_codec\<close>).

  \<^bold>\<open>How code becomes definitions.\<close>  A dataclass or a table is a record, an enumeration a datatype; a method is a
  function from its state and arguments to a result (\<open>Inl\<close> an exception, \<open>Inr\<close> a value) and the new state; a database
  transaction that raises leaves the tables as they were.  Definitions have the names of the code where HOL allows it.  A \<^verbatim>\<open>str\<close>
  is its UTF-8 encoding, wall time is an integer of microseconds, monotonic time a rational.  The pool, the build service and the publish store are step relations over the
  atomic regions of the code (what a lock or a transaction encloses), so that their invariants hold in every interleaving; the
  runner service and the publish service run a call as one step.

  \<^bold>\<open>Parameters.\<close>  Code that is not in the repository is an argument: SHA-256, tar, gzip and YAML, the JSON readers, the Python
  parser, the user's program and what Python does with its values, packaging, uv and docker, HTTP, the casts of PostgreSQL and what
  a \<open>jsonb\<close> column gives back, other processes of the sandbox.  A theorem states what it needs of them (a digest without
  collisions on the texts at hand, a reader that reads back what was written) and has a witness at concrete functions.

  \<^bold>\<open>What is proved.\<close>

  \<^item> Runner: \<open>begin_run\<close> and \<open>finish_run\<close> refine an abstract store of idempotency keys; in every reachable database there is at
    most one open run per key; every invocation ends in one of the outcomes that its caller can tell apart and leaves no claim behind; the
    pool destroys each worker at most once and the quota counts exactly the live ones, in any interleaving; a lease gives access
    only to the peer of its tenant and project.  A runner that starts on a new, an own or a legacy database keeps all this, and
    the migration keeps the history.
  \<^item> Worker: an installed release is what its digest says and lies inside its directory; the agent serves installed releases
    to holders of the token only; child responses have one shape; the cleanup after an invocation kills all processes of the
    operator's user and no other; through backend, agent and child an operator gets its input and the caller its output.  Both
    backends meet the contract that the pool relies on.
  \<^item> Publishing: a published release installs; its identifier determines its content; snapshots and contract versions are
    immutable; a READY environment has been verified and answers the request; every suggestion compiles; a saved contract compiles
    again; generated programs call the user's function with arguments that its signature accepts, and both backends agree.
  \<^item> Web: the wizard's backend sends only requests of its own routes, and an identifier is always one segment of the path;
    below, on the publish service's routes and request models, a call of the wizard has the effect and the answer of the service's operation.
  \<^item> Errors: where the code does not do what it means to, the theorem shows the behaviour (a project with its own
    \<^verbatim>\<open>operator.json\<close>, defaults of NiFi properties, package names with dots, interrupted builds, contracts saved again (\<open>resave_not_current\<close> of \<open>Publish_Store\<close>), reused
    invocation identifiers).

  \<^bold>\<open>Termination.\<close>  All functions are total.  Loops of the code are structural or well-founded recursions, or run a number of
  rounds that the code fixes: the three rounds of the cleanup, and the bounded polling of a new sandbox.  No fuel is left to choose.

  \<^bold>\<open>Not modelled.\<close>  TLS and the gRPC, HTTP and uvicorn server objects; logging; the option parser beyond defaults, and the command
  lines of the publisher, of the build and publish services and of the wizard; the text of DDL statements, Dockerfiles and templates;
  connection pools; JSON numbers that are not integers; static files and the JavaScript of the wizard; the Java processors
  for NiFi; generated gRPC stubs, scripts, examples and tests.  These parts hold no state of their own that the theorems speak of.
\<close>

section \<open>The wizard on the publish service\<close>

text \<open>
  The publish service behind its server at the address \<open>base\<close>: the path of the request is decoded and split, the routes are looked
  up, and the answer of the handler is what goes back.  The wizard is the web backend on this server.
\<close>

definition rendered :: "http_answer \<Rightarrow> upstream_response" where
  "rendered a = (case a of
       Ok j \<Rightarrow> \<lparr>rsp_status = 200, rsp_content = print_json j, rsp_content_type = Some ''application/json''\<rparr>
     | HttpFailure code detail \<Rightarrow>
         \<lparr>rsp_status = code, rsp_content = print_json (JObj [(''detail'', JStr detail)]), rsp_content_type = Some ''application/json''\<rparr>
     | Crash _ \<Rightarrow> \<lparr>rsp_status = 500, rsp_content = ''Internal Server Error'', rsp_content_type = Some ''text/plain; charset=utf-8''\<rparr>)"

definition publish_server :: "publish_host \<Rightarrow> string \<Rightarrow> publish_service \<Rightarrow> upstream_request \<Rightarrow> exchange \<times> publish_service" where
  "publish_server h base s r =
     (if starts_with base (up_url r) then
        map_prod (\<lambda>a. Remote (rendered a)) id
          (publish_app h s (up_method r) (tl (split_on CHR ''/'' (unquote (drop (length base) (up_url r))))) (up_json r))
      else (Request_error ''unknown address'', s))"

definition wizard :: "(string \<Rightarrow> json option) \<Rightarrow> publish_host \<Rightarrow> string \<Rightarrow> web_settings \<Rightarrow> publish_service \<Rightarrow> web_call \<Rightarrow> web_reply \<times> publish_service" where
  "wizard loads h base cfg s call =
     map_prod id (foldl (\<lambda>s r. snd (publish_server h base s r)) s)
       (web_app \<lparr>exchange_of = (\<lambda>r. fst (publish_server h base s r)), read_json = loads\<rparr> cfg call)"

text \<open>What the call means on the publish service.\<close>

fun direct_call :: "(string \<Rightarrow> json option) \<Rightarrow> publish_host \<Rightarrow> publish_service \<Rightarrow> web_call \<Rightarrow> http_answer \<times> publish_service" where
  "direct_call loads h s Health = (Ok publish_health, s)"
| "direct_call loads h s Openapi = (Ok (ph_openapi h), s)"
| "direct_call loads h s (Analyze raw) = publish_analyze h s (loads raw)"
| "direct_call loads h s (Create_operator raw) = publish_create h s (loads raw)"
| "direct_call loads h s (Get_operator i) = (http_get_operator (ph_world h) s i, s)"
| "direct_call loads h s (Compile_backend i b raw) = publish_compile h s i b (loads raw)"
| "direct_call loads h s (Publish_backend i b raw) = publish_publish h s i b (loads raw)"

lemma route_reaches_handler:
  assumes "admissible w call"
  shows "publish_app h s (call_method call) (route call) (Option.bind (call_body call) (read_json w)) = direct_call (read_json w) h s call"
  using assms by (cases call) (auto simp: admissible_def good_id_def publish_app_def route_table_def call_method_def)

lemma server_answers:
  assumes "admissible w call" "up_method r = call_method call" "up_json r = Option.bind (call_body call) (read_json w)"
    and "up_url r = base @ url.path_of (route call)"
  shows "publish_server h base s r = map_prod (\<lambda>a. Remote (rendered a)) id (direct_call (read_json w) h s call)"
  using assms route_reaches_handler [OF assms(1)] url.server_segments [OF route_plain(1,2) [OF assms(1)]]
  by (simp add: publish_server_def starts_with_def)

text \<open>C12: The wizard adds nothing to the publish service and takes nothing away.  When the web backend is configured with the address of the
  service, a call whose identifiers are well formed and whose body is a JSON object has exactly the effect and the answer of the service's own
  operation on these identifiers and this body: status and content reach the browser unchanged.  Every other call is refused with 400 or
  422 and leaves the service as it is.\<close>

theorem wizard_is_transparent:
  assumes "publish_url cfg = base"
  shows "if admissible \<lparr>exchange_of = (\<lambda>r. fst (publish_server h base s r)), read_json = loads\<rparr> call
    then wizard loads h base cfg s call = map_prod (\<lambda>a. relay (Remote (rendered a))) id (direct_call loads h s call)
    else (\<exists>status msg. wizard loads h base cfg s call = (Http_exception status msg, s) \<and> status \<in> {400, 422})"
proof -
  let ?w = "\<lparr>exchange_of = (\<lambda>r. fst (publish_server h base s r)), read_json = loads\<rparr>"
  show ?thesis
  proof (cases "admissible ?w call")
    case True
    obtain r where r: "web_app ?w cfg call = (relay (exchange_of ?w r), [r])" "up_method r = call_method call"
      "up_json r = Option.bind (call_body call) (read_json ?w)" "up_url r = publish_url cfg @ url.path_of (route call)"
      using path_sent [OF True, of cfg] by blast
    show ?thesis using True r(1) server_answers [OF True r(2,3) r(4) [unfolded assms], of h s] by (simp add: wizard_def map_prod_def split_beta)
  next
    case False
    then show ?thesis using refused_unsent [OF False, of cfg] by (auto simp: wizard_def)
  qed
qed

definition demo_publish_host :: publish_host where
  "demo_publish_host = \<lparr>ph_world = demo_service_world, ph_uuid = demo_uuid ''p'', ph_now = int, ph_openapi = JObj []\<rparr>"

definition demo_web_settings :: web_settings where
  "demo_web_settings = \<lparr>publish_url = ''http://p'', http_timeout = 60, long_timeout = 1900, bearer_token = []\<rparr>"

lemma demo_direct_publish:
  "\<exists>answer s'. direct_call (\<lambda>_. Some (JObj [])) demo_publish_host (snd demo_created) (Publish_backend ''c'' ''runner'' ''{}'') = (Ok answer, s')"
proof -
  have "backend_request_of_json (JObj []) = Inr (JObj [])" by code_simp
  then show ?thesis using demo_publish_backend
    by (auto simp: publish_publish_def with_body_def http_publish_backend_def demo_publish_host_def publish_answer_def)
qed

lemma demo_call_admissible: "read_json w ''{}'' = Some (JObj []) \<Longrightarrow> admissible w (Publish_backend ''c'' ''runner'' ''{}'')"
  by (simp add: admissible_def good_id_def segment_reserved_def continuation_def is_object_def)

theorem wizard_is_transparent_witness:
  "\<exists>content s'. wizard (\<lambda>_. Some (JObj [])) demo_publish_host ''http://p'' demo_web_settings (snd demo_created) (Publish_backend ''c'' ''runner'' ''{}'')
     = (Relayed 200 content (Some ''application/json''), s')"
proof -
  have "publish_url demo_web_settings = ''http://p''" by (simp add: demo_web_settings_def)
  from wizard_is_transparent [OF this, of demo_publish_host "snd demo_created" "\<lambda>_. Some (JObj [])" "Publish_backend ''c'' ''runner'' ''{}''"]
  show ?thesis using demo_direct_publish by (auto simp: demo_call_admissible relay_def rendered_def)
qed

end
